(* ===== verification/Haiker_Prelude.thy ===== *)
theory Haiker_Prelude
  imports Complex_Main "HOL-Library.Word"
begin

text \<open>
  Shared vocabulary of the development: Rust results, the identifier and integer types of
  the program, the vector operations of the standard library that the components use, and the
  generic lemmas on them.  The simp-set collection \<open>result_simps\<close> unfolds the result
  combinators, \<open>vec_simps\<close> the vector operations.
\<close>

named_theorems result_simps
named_theorems vec_simps

section \<open>Results\<close>

text \<open>Rust's \<open>Result\<close>, with the source's constructor names.\<close>

datatype ('a, 'e) result = Ok 'a | Err 'e

primrec is_ok :: "('a, 'e) result \<Rightarrow> bool" where
  "is_ok (Ok _) = True"
| "is_ok (Err _) = False"

text \<open>The \<open>?\<close> operator: stop at the first error.\<close>

definition and_then :: "('a, 'e) result \<Rightarrow> ('a \<Rightarrow> ('b, 'e) result) \<Rightarrow> ('b, 'e) result" where
  "and_then r f = (case r of Ok x \<Rightarrow> f x | Err e \<Rightarrow> Err e)"

definition map_err :: "('e \<Rightarrow> 'f) \<Rightarrow> ('a, 'e) result \<Rightarrow> ('a, 'f) result" where
  "map_err f r = (case r of Ok x \<Rightarrow> Ok x | Err e \<Rightarrow> Err (f e))"

definition ok_or :: "'e \<Rightarrow> 'a option \<Rightarrow> ('a, 'e) result" where
  "ok_or e x = (case x of None \<Rightarrow> Err e | Some y \<Rightarrow> Ok y)"

definition ok :: "('a, 'e) result \<Rightarrow> 'a option" where
  "ok r = (case r of Ok x \<Rightarrow> Some x | Err _ \<Rightarrow> None)"

text \<open>
  The \<open>?\<close> operator in a method on \<open>&mut self\<close>: the object as it is at that point is what an
  early return leaves behind.
\<close>

definition attempt ::
  "('a, 'e) result \<Rightarrow> 's \<Rightarrow> ('a \<Rightarrow> ('b, 'e) result \<times> 's) \<Rightarrow> ('b, 'e) result \<times> 's" where
  "attempt r s k = (case r of Ok x \<Rightarrow> k x | Err e \<Rightarrow> (Err e, s))"

lemma attempt_simps [simp]:
  "attempt (Ok x) s k = k x"
  "attempt (Err e) s k = (Err e, s)"
  by (simp_all add: attempt_def)

lemma attempt_eq_Ok [result_simps]:
  "attempt r s k = (Ok y, s') \<longleftrightarrow> (\<exists>x. r = Ok x \<and> k x = (Ok y, s'))"
  by (cases r) auto

lemma attempt_eq_Err [result_simps]:
  "attempt r s k = (Err e, s') \<longleftrightarrow>
    r = Err e \<and> s' = s \<or> (\<exists>x. r = Ok x \<and> k x = (Err e, s'))"
  by (cases r) auto

lemma and_then_simps [simp]:
  "and_then (Ok x) f = f x"
  "and_then (Err e) f = Err e"
  by (simp_all add: and_then_def)

lemma map_err_simps [simp]:
  "map_err f (Ok x) = Ok x"
  "map_err f (Err e) = Err (f e)"
  by (simp_all add: map_err_def)

lemma ok_or_simps [simp]:
  "ok_or e None = Err e"
  "ok_or e (Some x) = Ok x"
  by (simp_all add: ok_or_def)

lemma ok_simps [simp]:
  "ok (Ok x) = Some x"
  "ok (Err e) = None"
  by (simp_all add: ok_def)

lemma and_then_eq_Ok [result_simps]:
  "and_then r f = Ok y \<longleftrightarrow> (\<exists>x. r = Ok x \<and> f x = Ok y)"
  by (cases r) auto

lemma and_then_eq_Err [result_simps]:
  "and_then r f = Err e \<longleftrightarrow> r = Err e \<or> (\<exists>x. r = Ok x \<and> f x = Err e)"
  by (cases r) auto

lemma map_err_eq_Ok [result_simps]: "map_err f r = Ok x \<longleftrightarrow> r = Ok x"
  by (cases r) auto

lemma ok_or_eq_Ok [result_simps]: "ok_or e m = Ok x \<longleftrightarrow> m = Some x"
  by (cases m) auto

lemma is_ok_iff [result_simps]: "is_ok r \<longleftrightarrow> (\<exists>x. r = Ok x)"
  by (cases r) auto

section \<open>Identifiers, integers and time\<close>

text \<open>
  A \<open>Uuid\<close> is 128 bits; PostgreSQL and Rust compare it bytewise, which is the unsigned order
  of the word.  \<open>usize\<close> values that index or count are \<open>nat\<close>; an increment of an unchecked
  \<open>usize\<close> is written modulo \<open>2 ^ 64\<close> (the release profile wraps).  A \<open>DateTime<Utc>\<close> is an
  \<open>int\<close> number of nanoseconds: a call to \<open>Utc::now()\<close> is an argument of the model.
\<close>

type_synonym uuid = "128 word"
type_synonym u64 = "64 word"
type_synonym i32 = "32 word"
type_synonym u32 = "32 word"
type_synonym time = int

datatype user_id = UserId (user_uuid: uuid)
datatype activity_id = ActivityId (activity_uuid: uuid)

section \<open>Vector operations of the standard library\<close>

text \<open>
  \<open>Vec::insert\<close>, \<open>Vec::remove\<close>, \<open>Vec::drain(a..=b)\<close> and \<open>Vec::splice(a..=b, xs)\<close>, in the
  range where they do not panic (the callers check the indices first).
\<close>

definition vec_insert :: "nat \<Rightarrow> 'a \<Rightarrow> 'a list \<Rightarrow> 'a list" where
  "vec_insert i x xs = take i xs @ x # drop i xs"

definition vec_remove :: "nat \<Rightarrow> 'a list \<Rightarrow> 'a list" where
  "vec_remove i xs = take i xs @ drop (Suc i) xs"

definition vec_splice :: "nat \<Rightarrow> nat \<Rightarrow> 'a list \<Rightarrow> 'a list \<Rightarrow> 'a list" where
  "vec_splice a b ys xs = take a xs @ ys @ drop (Suc b) xs"

definition vec_drain :: "nat \<Rightarrow> nat \<Rightarrow> 'a list \<Rightarrow> 'a list" where
  "vec_drain a b xs = vec_splice a b [] xs"

text \<open>\<open>slice.windows(2)\<close>: the pairs of neighbours.\<close>

definition windows2 :: "'a list \<Rightarrow> ('a \<times> 'a) list" where
  "windows2 xs = zip xs (tl xs)"

text \<open>\<open>slice.pop()\<close>: the rest and the last element.\<close>

definition vec_pop :: "'a list \<Rightarrow> ('a \<times> 'a list) option" where
  "vec_pop xs = (if xs = [] then None else Some (last xs, butlast xs))"

lemma vec_pop_snoc [simp]: "vec_pop (xs @ [x]) = Some (x, xs)"
  by (simp add: vec_pop_def)

lemma vec_pop_Nil [simp]: "vec_pop [] = None"
  by (simp add: vec_pop_def)

lemma vec_pop_eq_None [vec_simps]: "vec_pop xs = None \<longleftrightarrow> xs = []"
  by (simp add: vec_pop_def)

lemma vec_pop_eq_Some [vec_simps]: "vec_pop xs = Some (x, ys) \<longleftrightarrow> xs = ys @ [x]"
  by (auto simp: vec_pop_def)

lemma length_vec_insert [vec_simps]: "length (vec_insert i x xs) = Suc (length xs)"
  by (simp add: vec_insert_def)

lemma length_vec_remove [vec_simps]: "i < length xs \<Longrightarrow> length (vec_remove i xs) = length xs - 1"
  by (simp add: vec_remove_def)

lemma length_vec_splice [vec_simps]:
  "a \<le> b \<Longrightarrow> b < length xs \<Longrightarrow>
    length (vec_splice a b ys xs) = length xs - (b - a + 1) + length ys"
  by (simp add: vec_splice_def)

lemma set_vec_insert [vec_simps]: "set (vec_insert i x xs) = insert x (set xs)"
proof -
  have "set (take i xs) \<union> set (drop i xs) = set xs"
    by (metis append_take_drop_id set_append)
  then show ?thesis by (auto simp: vec_insert_def)
qed

lemma set_vec_remove_subset [vec_simps]: "set (vec_remove i xs) \<subseteq> set xs"
  by (auto simp: vec_remove_def dest: in_set_takeD in_set_dropD)

lemma set_vec_splice_subset: "set (vec_splice a b ys xs) \<subseteq> set xs \<union> set ys"
  by (auto simp: vec_splice_def dest: in_set_takeD in_set_dropD)

lemma vec_remove_insert [simp]: "i \<le> length xs \<Longrightarrow> vec_remove i (vec_insert i x xs) = xs"
  by (simp add: vec_remove_def vec_insert_def)

lemma ball_list_update:
  assumes "\<forall>x\<in>set xs. P x" and "P y"
  shows "\<forall>x\<in>set (xs[i := y]). P x"
  using assms set_update_subset_insert by fastforce

text \<open>\<open>collect::<Result<Vec<_>, _>>()\<close>: the first error, or all values.\<close>

fun collect :: "('a \<Rightarrow> ('b, 'e) result) \<Rightarrow> 'a list \<Rightarrow> ('b list, 'e) result" where
  "collect f [] = Ok []"
| "collect f (x # xs) = and_then (f x) (\<lambda>y. and_then (collect f xs) (\<lambda>ys. Ok (y # ys)))"

lemma collect_Ok: "collect f xs = Ok ys \<longleftrightarrow> list_all2 (\<lambda>x y. f x = Ok y) xs ys"
  by (induction xs arbitrary: ys) (auto simp: result_simps list_all2_Cons1)

lemma collect_inverse:
  assumes "\<And>x y. f x = Ok y \<longleftrightarrow> g y = x \<and> P y"
  shows "collect f xs = Ok ys \<longleftrightarrow> map g ys = xs \<and> (\<forall>y\<in>set ys. P y)"
  unfolding collect_Ok assms by (induction xs arbitrary: ys) (auto simp: list_all2_Cons1)

end
