(* ===== verification/F64.thy ===== *)
theory F64
  imports Haiker_Prelude "HOL-Library.Log_Nat"
begin

text \<open>
  IEEE-754 binary64 as the program uses it: values with a NaN and two infinities, the partial
  order of \<open>PartialOrd\<close>, the equality of \<open>PartialEq\<close> (under which NaN differs from itself), the
  NaN-ignoring \<open>f64::min\<close> and \<open>f64::max\<close>, and correctly rounded addition, subtraction,
  multiplication and division (round to nearest, ties to even, subnormals, overflow to an
  infinity).  A finite value is the rational it denotes; the two zeros are one value.
\<close>

datatype f64 = NaN | NInf | Fin rat | PInf

section \<open>Comparison\<close>

fun fle :: "f64 \<Rightarrow> f64 \<Rightarrow> bool" where
  "fle NaN _ = False"
| "fle _ NaN = False"
| "fle NInf _ = True"
| "fle _ PInf = True"
| "fle (Fin a) (Fin b) = (a \<le> b)"
| "fle _ _ = False"

definition feq :: "f64 \<Rightarrow> f64 \<Rightarrow> bool" where
  "feq x y \<longleftrightarrow> fle x y \<and> fle y x"

definition flt :: "f64 \<Rightarrow> f64 \<Rightarrow> bool" where
  "flt x y \<longleftrightarrow> fle x y \<and> \<not> fle y x"

text \<open>\<open>(lo..=hi).contains(&x)\<close>.\<close>

definition range_contains :: "f64 \<Rightarrow> f64 \<Rightarrow> f64 \<Rightarrow> bool" where
  "range_contains lo hi x \<longleftrightarrow> fle lo x \<and> fle x hi"

definition fmin :: "f64 \<Rightarrow> f64 \<Rightarrow> f64" where
  "fmin x y = (if x = NaN then y else if y = NaN then x else if fle x y then x else y)"

definition fmax :: "f64 \<Rightarrow> f64 \<Rightarrow> f64" where
  "fmax x y = (if x = NaN then y else if y = NaN then x else if fle x y then y else x)"

lemma fle_Fin [simp]: "fle (Fin a) (Fin b) \<longleftrightarrow> a \<le> b"
  by simp

lemma fle_NaN [simp]: "\<not> fle NaN x" "\<not> fle x NaN"
  by (simp, cases x) simp_all

lemma fle_refl [simp]: "fle x x \<longleftrightarrow> x \<noteq> NaN"
  by (cases x) auto

lemma fle_trans: "fle x y \<Longrightarrow> fle y z \<Longrightarrow> fle x z"
  by (cases x; cases y; cases z) auto

lemma fle_total: "x \<noteq> NaN \<Longrightarrow> y \<noteq> NaN \<Longrightarrow> fle x y \<or> fle y x"
  by (cases x; cases y) auto

lemma fle_antisym: "fle x y \<Longrightarrow> fle y x \<Longrightarrow> x = y"
  by (cases x; cases y) auto

lemma feq_iff: "feq x y \<longleftrightarrow> x = y \<and> x \<noteq> NaN"
  by (auto simp: feq_def dest: fle_antisym)

lemma range_contains_Fin_iff:
  "range_contains (Fin a) (Fin b) x \<longleftrightarrow> (\<exists>c. x = Fin c \<and> a \<le> c \<and> c \<le> b)"
  by (cases x) (auto simp: range_contains_def)

lemma fmin_le: "x \<noteq> NaN \<Longrightarrow> fle (fmin x y) x" "y \<noteq> NaN \<Longrightarrow> fle (fmin x y) y"
  using fle_total by (auto simp: fmin_def)

lemma fmax_ge: "x \<noteq> NaN \<Longrightarrow> fle x (fmax x y)" "y \<noteq> NaN \<Longrightarrow> fle y (fmax x y)"
  using fle_total by (auto simp: fmax_def)

lemma fmin_cases: "fmin x y = x \<or> fmin x y = y"
  by (simp add: fmin_def)

lemma fmax_cases: "fmax x y = x \<or> fmax x y = y"
  by (simp add: fmax_def)

lemma fmin_not_NaN: "x \<noteq> NaN \<Longrightarrow> fmin x y \<noteq> NaN"
  by (simp add: fmin_def)

lemma fmax_not_NaN: "x \<noteq> NaN \<Longrightarrow> fmax x y \<noteq> NaN"
  by (simp add: fmax_def)

section \<open>Rounding and arithmetic\<close>

definition pow2 :: "int \<Rightarrow> rat" where
  "pow2 e = (if 0 \<le> e then 2 ^ nat e else 1 / 2 ^ nat (- e))"

text \<open>The exponent \<open>e\<close> with \<open>2 ^ e \<le> x < 2 ^ (e + 1)\<close>, for positive \<open>x\<close>.\<close>

definition ilog2 :: "rat \<Rightarrow> int" where
  "ilog2 x = (let (p, q) = quotient_of x;
      e = int (floorlog 2 (nat p)) - int (floorlog 2 (nat q))
    in if pow2 e \<le> x then e else e - 1)"

definition round_half_even :: "rat \<Rightarrow> int" where
  "round_half_even x = (let f = \<lfloor>x\<rfloor>; d = x - of_int f in
     if d < 1 / 2 then f else if 1 / 2 < d then f + 1 else if even f then f else f + 1)"

definition rnd :: "rat \<Rightarrow> f64" where
  "rnd x = (if x = 0 then Fin 0 else
     (let u = max (ilog2 \<bar>x\<bar> - 52) (- 1074);
          y = of_int (round_half_even (\<bar>x\<bar> / pow2 u)) * pow2 u
      in if pow2 1024 \<le> y then (if 0 < x then PInf else NInf) else Fin (sgn x * y)))"

fun fneg :: "f64 \<Rightarrow> f64" where
  "fneg NaN = NaN"
| "fneg NInf = PInf"
| "fneg PInf = NInf"
| "fneg (Fin a) = Fin (- a)"

fun fabs :: "f64 \<Rightarrow> f64" where
  "fabs NaN = NaN"
| "fabs NInf = PInf"
| "fabs PInf = PInf"
| "fabs (Fin a) = Fin \<bar>a\<bar>"

fun fadd :: "f64 \<Rightarrow> f64 \<Rightarrow> f64" where
  "fadd NaN _ = NaN"
| "fadd _ NaN = NaN"
| "fadd PInf NInf = NaN"
| "fadd NInf PInf = NaN"
| "fadd PInf _ = PInf"
| "fadd NInf _ = NInf"
| "fadd _ PInf = PInf"
| "fadd _ NInf = NInf"
| "fadd (Fin a) (Fin b) = rnd (a + b)"

definition fsub :: "f64 \<Rightarrow> f64 \<Rightarrow> f64" where
  "fsub x y = fadd x (fneg y)"

fun inf_sign :: "bool \<Rightarrow> f64" where
  "inf_sign neg = (if neg then NInf else PInf)"

fun fmul :: "f64 \<Rightarrow> f64 \<Rightarrow> f64" where
  "fmul NaN _ = NaN"
| "fmul _ NaN = NaN"
| "fmul (Fin a) (Fin b) = rnd (a * b)"
| "fmul (Fin a) PInf = (if a = 0 then NaN else inf_sign (a < 0))"
| "fmul (Fin a) NInf = (if a = 0 then NaN else inf_sign (0 < a))"
| "fmul PInf (Fin b) = (if b = 0 then NaN else inf_sign (b < 0))"
| "fmul NInf (Fin b) = (if b = 0 then NaN else inf_sign (0 < b))"
| "fmul PInf PInf = PInf"
| "fmul NInf NInf = PInf"
| "fmul _ _ = NInf"

text \<open>Division of finite values; a zero divisor is read as the positive zero.\<close>

fun fdiv :: "f64 \<Rightarrow> f64 \<Rightarrow> f64" where
  "fdiv NaN _ = NaN"
| "fdiv _ NaN = NaN"
| "fdiv (Fin a) (Fin b) =
    (if b = 0 then (if a = 0 then NaN else inf_sign (a < 0)) else rnd (a / b))"
| "fdiv (Fin _) _ = Fin 0"
| "fdiv PInf (Fin b) = inf_sign (b < 0)"
| "fdiv NInf (Fin b) = inf_sign (0 \<le> b)"
| "fdiv _ _ = NaN"

text \<open>The largest finite value, \<open>f64::MAX\<close>; \<open>f64::MIN\<close> is its negation.\<close>

definition f64_MAX :: f64 where
  "f64_MAX = Fin ((2 ^ 53 - 1) * 2 ^ 971)"

definition f64_MIN :: f64 where
  "f64_MIN = Fin (- ((2 ^ 53 - 1) * 2 ^ 971))"

text \<open>A value is nonnegative when it is a finite nonnegative number or the positive infinity.\<close>

definition fnonneg :: "f64 \<Rightarrow> bool" where
  "fnonneg x \<longleftrightarrow> fle (Fin 0) x"

lemma pow2_pos [simp]: "0 < pow2 e"
  by (simp add: pow2_def)

lemma round_half_even_nonneg: "0 \<le> x \<Longrightarrow> 0 \<le> round_half_even x"
proof -
  assume "0 \<le> x"
  then have "0 \<le> \<lfloor>x\<rfloor>" by simp
  then show ?thesis by (auto simp: round_half_even_def Let_def)
qed

lemma rnd_nonneg:
  assumes "0 \<le> x"
  shows "fnonneg (rnd x)"
proof (cases "x = 0")
  case True
  then show ?thesis by (simp add: rnd_def fnonneg_def)
next
  case False
  with assms have "0 < x" by simp
  then have "0 \<le> of_int (round_half_even (\<bar>x\<bar> / pow2 u)) * pow2 u" for u
    by (intro mult_nonneg_nonneg) (simp_all add: round_half_even_nonneg less_imp_le)
  with \<open>0 < x\<close> show ?thesis by (auto simp: rnd_def fnonneg_def Let_def)
qed

lemma fadd_nonneg: "fnonneg x \<Longrightarrow> fnonneg y \<Longrightarrow> fnonneg (fadd x y)"
  by (cases x; cases y) (auto simp: fnonneg_def intro: rnd_nonneg [unfolded fnonneg_def])

lemma fabs_nonneg: "x \<noteq> NaN \<Longrightarrow> fnonneg (fabs x)"
  by (cases x) (auto simp: fnonneg_def)

section \<open>Accuracy of rounding\<close>

lemma pow2_powi: "pow2 e = 2 powi e"
  by (simp add: pow2_def power_int_def inverse_eq_divide power_one_over)

lemma pow2_add: "pow2 (a + b) = pow2 a * pow2 b"
  by (simp add: pow2_powi power_int_add)

lemma pow2_mono: "a \<le> b \<Longrightarrow> pow2 a \<le> pow2 b"
  by (simp add: pow2_powi power_int_increasing)

lemma pow2_nat: "pow2 (int n) = 2 ^ n"
  by (simp add: pow2_def)

lemma pow2_minus_nat: "pow2 (- int n) = 1 / 2 ^ n"
  by (auto simp: pow2_def)

lemma ilog2_le:
  assumes "0 < x"
  shows "pow2 (ilog2 x) \<le> x"
proof -
  obtain p q where pq: "quotient_of x = (p, q)" by fastforce
  then have q: "0 < q" and x: "x = of_int p / of_int q"
    by (simp_all add: quotient_of_denom_pos quotient_of_div)
  with assms have p: "0 < p" by (simp add: zero_less_divide_iff)
  let ?a = "floorlog 2 (nat p)" and ?b = "floorlog 2 (nat q)"
  have "2 ^ (?a - 1) \<le> nat p" "nat q < 2 ^ ?b" "?a > 0"
    using floorlog_bounds [of "nat p" 2] floorlog_bounds [of "nat q" 2] p q
    by (auto simp: floorlog_def)
  then have lo: "(2::rat) ^ (?a - 1) \<le> of_int p" and hi: "of_int q \<le> (2::rat) ^ ?b"
    using p q by (metis of_nat_nat of_nat_le_iff of_nat_numeral of_nat_power less_imp_le of_int_of_nat_eq)+
  have "pow2 (int ?a - int ?b - 1) = 2 ^ (?a - 1) / 2 ^ ?b"
  proof -
    have "int ?a - int ?b - 1 = int (?a - 1) + - int ?b" using \<open>?a > 0\<close> by simp
    then show ?thesis
      by (simp only: pow2_add pow2_nat) (simp add: pow2_powi power_int_minus divide_inverse)
  qed
  also have "\<dots> \<le> of_int p / of_int q"
    using lo hi q p by (intro frac_le) auto
  finally have "pow2 (int ?a - int ?b - 1) \<le> x" by (simp add: x)
  then show ?thesis by (simp add: ilog2_def pq Let_def)
qed

lemma round_half_even_error: "\<bar>of_int (round_half_even x) - x\<bar> \<le> 1 / 2"
proof -
  have "of_int \<lfloor>x\<rfloor> \<le> x" "x < of_int \<lfloor>x\<rfloor> + 1" by linarith+
  then show ?thesis by (auto simp: round_half_even_def Let_def abs_le_iff)
qed

text \<open>In the normal range the relative error is at most \<open>2 ^ - 53\<close>.\<close>

lemma rnd_error:
  assumes "pow2 (- 1022) \<le> x" and "x < pow2 1023"
  obtains y where "rnd x = Fin y" and "\<bar>y - x\<bar> \<le> x / 2 ^ 53"
proof -
  have x: "0 < x" using assms(1) pow2_pos [of "- 1022"] by linarith
  define u where "u = max (ilog2 x - 52) (- 1074)"
  define y where "y = of_int (round_half_even (x / pow2 u)) * pow2 u"
  have ulp: "pow2 u \<le> x / 2 ^ 52"
  proof (cases "u = - 1074")
    case True
    have "pow2 (- 1074) * 2 ^ 52 = pow2 (- 1022)"
      using pow2_add [of "- 1074" 52] pow2_nat [of 52] by simp
    with True assms(1) show ?thesis by (simp add: field_simps)
  next
    case False
    then have "u = ilog2 x - 52" by (simp add: u_def max_def split: if_splits)
    then have "pow2 u * 2 ^ 52 = pow2 (ilog2 x)"
      using pow2_add [of u 52] pow2_nat [of 52] by simp
    with ilog2_le [OF x] show ?thesis by (simp add: field_simps)
  qed
  have "\<bar>y - x\<bar> = \<bar>of_int (round_half_even (x / pow2 u)) - x / pow2 u\<bar> * pow2 u"
  proof -
    have "y - x = (of_int (round_half_even (x / pow2 u)) - x / pow2 u) * pow2 u"
      using less_imp_neq [OF pow2_pos [of u]] by (simp add: y_def left_diff_distrib)
    then show ?thesis using pow2_pos [of u] by (simp add: abs_mult abs_of_pos [OF pow2_pos])
  qed
  also have "\<dots> \<le> 1 / 2 * pow2 u"
    using round_half_even_error [of "x / pow2 u"] by (intro mult_right_mono) (auto simp: less_imp_le)
  also have "\<dots> \<le> 1 / 2 * (x / 2 ^ 52)" using ulp by simp
  finally have err: "\<bar>y - x\<bar> \<le> x / 2 ^ 53" by simp
  have "x / 2 ^ 53 \<le> x" using x by (simp add: field_simps)
  with err have "y \<le> 2 * x" by linarith
  also have "\<dots> < 2 * pow2 1023" using assms(2) by simp
  also have "\<dots> = pow2 1024" using pow2_add [of 1 1023] pow2_nat [of 1] by simp
  finally have "rnd x = Fin y" using x by (simp add: rnd_def u_def y_def Let_def)
  with err that show thesis by blast
qed

text \<open>Doubling a representable number is exact.\<close>

lemma ilog2_greater:
  assumes "0 < x"
  shows "x < pow2 (ilog2 x + 1)"
proof -
  obtain p q where pq: "quotient_of x = (p, q)" by fastforce
  then have q: "0 < q" and x: "x = of_int p / of_int q"
    by (simp_all add: quotient_of_denom_pos quotient_of_div)
  with assms have p: "0 < p" by (simp add: zero_less_divide_iff)
  let ?a = "floorlog 2 (nat p)" and ?b = "floorlog 2 (nat q)"
  have hn: "nat p < 2 ^ ?a" and ln: "2 ^ (?b - 1) \<le> nat q" and b: "?b > 0"
    using floorlog_bounds [of "nat p" 2] floorlog_bounds [of "nat q" 2] p q
    by (auto simp: floorlog_def)
  have "(of_nat (2 ^ (?b - 1))::rat) \<le> of_nat (nat q)" using ln by (rule of_nat_mono)
  then have lo: "(2::rat) ^ (?b - 1) \<le> of_int q" using q by (simp add: of_nat_nat)
  have "(of_nat (nat p)::rat) < of_nat (2 ^ ?a)" by (subst of_nat_less_iff) (rule hn)
  then have hi: "of_int p < (2::rat) ^ ?a" using p by (simp add: of_nat_nat)
  have "of_int p / of_int q < (2::rat) ^ ?a / 2 ^ (?b - 1)"
    using lo hi p q by (intro frac_less) auto
  also have "\<dots> = pow2 (int ?a - int ?b + 1)"
  proof -
    have "int ?a - int ?b + 1 = int ?a + - int (?b - 1)" using b by simp
    then show ?thesis by (simp only: pow2_add pow2_nat pow2_minus_nat) simp
  qed
  finally have "x < pow2 (int ?a - int ?b + 1)" by (simp add: x)
  then show ?thesis by (auto simp: ilog2_def pq Let_def not_le)
qed

lemma ilog2_double:
  assumes "0 < x"
  shows "ilog2 (2 * x) \<le> ilog2 x + 1"
proof (rule ccontr)
  assume "\<not> ilog2 (2 * x) \<le> ilog2 x + 1"
  then have "pow2 (1 + (ilog2 x + 1)) \<le> pow2 (ilog2 (2 * x))" by (intro pow2_mono) simp
  also have "\<dots> \<le> 2 * x" using assms by (intro ilog2_le) simp
  also have "\<dots> < 2 * pow2 (ilog2 x + 1)" using ilog2_greater [OF assms] by simp
  also have "\<dots> = pow2 (1 + (ilog2 x + 1))" using pow2_nat [of 1] by (simp only: pow2_add) simp
  finally show False by simp
qed

lemma round_half_even_of_int [simp]: "round_half_even (of_int n) = n"
  by (simp add: round_half_even_def Let_def)

text \<open>A multiple of the unit in the last place is representable.\<close>

lemma rnd_exact:
  assumes x: "\<bar>x\<bar> = of_int n * pow2 w" and w: "max (ilog2 \<bar>x\<bar> - 52) (- 1074) \<le> w"
    and lt: "\<bar>x\<bar> < pow2 1024"
  shows "rnd x = Fin x"
proof (cases "x = 0")
  case False
  define v where "v = max (ilog2 \<bar>x\<bar> - 52) (- 1074)"
  obtain k where k: "w = v + int k" using w by (metis v_def zle_iff_zadd)
  have two: "\<bar>x\<bar> = of_int (n * 2 ^ k) * pow2 v"
    using k x by (simp add: pow2_add pow2_nat)
  then have "\<bar>x\<bar> / pow2 v = of_int (n * 2 ^ k)"
    by (metis less_irrefl nonzero_mult_div_cancel_right pow2_pos)
  then have "of_int (round_half_even (\<bar>x\<bar> / pow2 v)) * pow2 v = \<bar>x\<bar>"
    using two by (simp del: of_int_mult)
  moreover have "sgn x * \<bar>x\<bar> = x" by (rule sgn_mult_abs)
  ultimately show ?thesis
    using False lt by (simp add: rnd_def v_def [symmetric] Let_def)
qed (simp add: rnd_def)

lemma rnd_double:
  assumes "rnd q = Fin q" and "\<bar>q\<bar> < pow2 1023"
  shows "rnd (2 * q) = Fin (2 * q)"
proof (cases "q = 0")
  case True
  then show ?thesis by (simp add: rnd_def)
next
  case False
  let ?x = "\<bar>q\<bar>"
  define u where "u = max (ilog2 ?x - 52) (- 1074)"
  define n where "n = round_half_even (?x / pow2 u)"
  have x: "?x = of_int n * pow2 u"
  proof -
    have "sgn q * (of_int n * pow2 u) = q"
      using assms(1) False by (auto simp: rnd_def u_def n_def Let_def split: if_splits)
    moreover have "0 \<le> of_int n * pow2 u"
      unfolding n_def
      by (intro mult_nonneg_nonneg) (simp_all add: round_half_even_nonneg less_imp_le)
    ultimately show ?thesis using False by (auto simp: sgn_if abs_if split: if_splits)
  qed
  have two: "\<bar>2 * q\<bar> = 2 * ?x" by (simp add: abs_mult)
  show ?thesis
  proof (rule rnd_exact [of _ n "1 + u"])
    show "\<bar>2 * q\<bar> = of_int n * pow2 (1 + u)"
      using x two pow2_nat [of 1] by (simp only: pow2_add) simp
    show "max (ilog2 \<bar>2 * q\<bar> - 52) (- 1074) \<le> 1 + u"
      using ilog2_double [of ?x] False two by (auto simp: u_def)
    show "\<bar>2 * q\<bar> < pow2 1024"
      using assms(2) two pow2_add [of 1 1023] pow2_nat [of 1] by simp
  qed
qed

lemma rnd_of_nat_exact:
  assumes "n < 2 ^ 53"
  shows "rnd (of_nat n) = Fin (of_nat n)"
proof (cases "n = 0")
  case True
  then show ?thesis by (simp add: rnd_def)
next
  case False
  have less: "(of_nat n::rat) < pow2 53"
    using assms by (metis of_nat_less_iff of_nat_numeral of_nat_power pow2_nat of_nat_numeral)
  show ?thesis
  proof (rule rnd_exact [of _ "int n" 0])
    have "ilog2 (of_nat n) < 53"
    proof (rule ccontr)
      assume "\<not> ilog2 (of_nat n) < 53"
      then have "pow2 53 \<le> pow2 (ilog2 (of_nat n))" by (intro pow2_mono) simp
      also have "\<dots> \<le> of_nat n" using False by (intro ilog2_le) simp
      finally show False using less by simp
    qed
    then show "max (ilog2 \<bar>of_nat n\<bar> - 52) (- 1074) \<le> 0" by simp
    show "\<bar>of_nat n\<bar> = of_int (int n) * pow2 0" by (simp add: pow2_def)
    have "pow2 53 \<le> pow2 1024" by (rule pow2_mono) simp
    with less show "\<bar>of_nat n\<bar> < pow2 1024" by simp
  qed
qed

end
