(* ===== verification/Sql.thy ===== *)
theory Sql
  imports Haiker_Prelude
begin

text \<open>
  What the repositories use of \<open>sqlx\<close> and PostgreSQL: a database is its tables and a schedule of
  faults.  Every statement takes the next entry of the schedule and fails with it when there is
  one, otherwise it runs; a statement that violates a constraint fails and changes nothing.  A
  transaction whose body or commit fails leaves the tables as they were at \<open>begin\<close> (dropping an
  uncommitted \<open>sqlx\<close> transaction rolls it back).
\<close>

datatype db_error =
    Outage
  | UniqueViolation string
  | ForeignKeyViolation string
  | CheckViolation string
  | TriggerException string
  | RowNotFound

record 's db =
  tables :: 's
  faults :: "db_error option list"

type_synonym ('s, 'a, 'e) sql = "'s db \<Rightarrow> ('a, 'e) result \<times> 's db"

named_theorems sql_simps

definition query :: "('s \<Rightarrow> ('a, db_error) result \<times> 's) \<Rightarrow> ('s, 'a, db_error) sql" where
  "query f db =
    (case faults db of
       Some e # fs \<Rightarrow> (Err e, db\<lparr>faults := fs\<rparr>)
     | fs \<Rightarrow> (case f (tables db) of
         (Ok x, t) \<Rightarrow> (Ok x, db\<lparr>tables := t, faults := tl fs\<rparr>)
       | (Err e, _) \<Rightarrow> (Err e, db\<lparr>faults := tl fs\<rparr>)))"

definition select :: "('s \<Rightarrow> 'a) \<Rightarrow> ('s, 'a, db_error) sql" where
  "select f = query (\<lambda>t. (Ok (f t), t))"

definition modify :: "('s \<Rightarrow> 's) \<Rightarrow> ('s, unit, db_error) sql" where
  "modify f = query (\<lambda>t. (Ok (), f t))"

text \<open>Sequencing of fallible steps on any state: the \<open>?\<close> operator after an \<open>await\<close>.\<close>

type_synonym ('s, 'a, 'e) step = "'s \<Rightarrow> ('a, 'e) result \<times> 's"

definition returnq :: "'a \<Rightarrow> ('s, 'a, 'e) step" where
  "returnq x s = (Ok x, s)"

definition failq :: "'e \<Rightarrow> ('s, 'a, 'e) step" where
  "failq e s = (Err e, s)"

definition bindq :: "('s, 'a, 'e) step \<Rightarrow> ('a \<Rightarrow> ('s, 'b, 'e) step) \<Rightarrow> ('s, 'b, 'e) step" where
  "bindq m k s = (case m s of (Ok x, s') \<Rightarrow> k x s' | (Err e, s') \<Rightarrow> (Err e, s'))"

definition map_errq :: "('e \<Rightarrow> 'f) \<Rightarrow> ('s, 'a, 'e) step \<Rightarrow> ('s, 'a, 'f) step" where
  "map_errq f m s = (case m s of (r, s') \<Rightarrow> (map_err f r, s'))"

definition of_result :: "('a, 'e) result \<Rightarrow> ('s, 'a, 'e) step" where
  "of_result r s = (r, s)"

text \<open>\<open>let _ = step.await\<close>: the outcome is dropped, the effects stay.\<close>

definition ignoreq :: "('s, 'a, 'e) step \<Rightarrow> ('s, unit, 'f) step" where
  "ignoreq m s = (Ok (), snd (m s))"

text \<open>A loop of statements that stops at the first failure.\<close>

fun for_each :: "('x \<Rightarrow> ('s, unit, 'e) step) \<Rightarrow> 'x list \<Rightarrow> ('s, unit, 'e) step" where
  "for_each f [] = returnq ()"
| "for_each f (x # xs) = bindq (f x) (\<lambda>_. for_each f xs)"

text \<open>
  \<open>pool.begin()\<close>, the body, \<open>tx.commit()\<close>; \<open>f\<close> and \<open>g\<close> map the errors of \<open>begin\<close> and \<open>commit\<close>,
  which most callers map alike.
\<close>

definition transaction_with ::
  "(db_error \<Rightarrow> 'e) \<Rightarrow> (db_error \<Rightarrow> 'e) \<Rightarrow> ('s, 'a, 'e) sql \<Rightarrow> ('s, 'a, 'e) sql" where
  "transaction_with f g body db =
    (case bindq (map_errq f (select (\<lambda>_. ()))) (\<lambda>_.
            bindq body (\<lambda>x. bindq (map_errq g (select (\<lambda>_. ()))) (\<lambda>_. returnq x))) db of
       (Ok x, db') \<Rightarrow> (Ok x, db')
     | (Err e, db') \<Rightarrow> (Err e, db'\<lparr>tables := tables db\<rparr>))"

abbreviation transaction :: "(db_error \<Rightarrow> 'e) \<Rightarrow> ('s, 'a, 'e) sql \<Rightarrow> ('s, 'a, 'e) sql" where
  "transaction f \<equiv> transaction_with f f"

section \<open>Rules\<close>

text \<open>The tables after a statement, and what success says.\<close>

lemma query_Ok [sql_simps]:
  "query f db = (Ok x, db') \<longleftrightarrow>
    (\<exists>t. f (tables db) = (Ok x, t) \<and> \<not> (\<exists>e fs. faults db = Some e # fs) \<and>
      db' = db\<lparr>tables := t, faults := tl (faults db)\<rparr>)"
  by (auto simp: query_def split: list.splits option.splits prod.splits result.splits)

lemma query_Err: "query f db = (Err e, db') \<Longrightarrow> tables db' = tables db"
  by (auto simp: query_def split: list.splits option.splits prod.splits result.splits)

lemma query_faultless [sql_simps]:
  "faults db = [] \<Longrightarrow> query f db =
    (case f (tables db) of (Ok x, t) \<Rightarrow> (Ok x, db\<lparr>tables := t\<rparr>) | (Err e, _) \<Rightarrow> (Err e, db))"
  by (cases db) (auto simp: query_def split: prod.splits result.splits)

lemma select_tables: "tables (snd (select f db)) = tables db"
  by (auto simp: select_def query_def split: list.splits option.splits)

lemma select_Ok [sql_simps]:
  "select f db = (Ok x, db') \<longleftrightarrow>
    x = f (tables db) \<and> \<not> (\<exists>e fs. faults db = Some e # fs) \<and> db' = db\<lparr>faults := tl (faults db)\<rparr>"
  by (cases db) (auto simp: select_def query_Ok)

lemma select_Err: "select f db = (Err e, db') \<Longrightarrow> tables db' = tables db"
  using select_tables [of f db] by simp

lemma select_faultless [sql_simps]: "faults db = [] \<Longrightarrow> select f db = (Ok (f (tables db)), db)"
  by (cases db) (simp add: select_def query_faultless)

lemma modify_Ok [sql_simps]:
  "modify f db = (Ok x, db') \<longleftrightarrow>
    \<not> (\<exists>e fs. faults db = Some e # fs) \<and>
    db' = db\<lparr>tables := f (tables db), faults := tl (faults db)\<rparr>"
  by (auto simp: modify_def query_Ok)

lemma modify_faultless [sql_simps]:
  "faults db = [] \<Longrightarrow> modify f db = (Ok (), db\<lparr>tables := f (tables db)\<rparr>)"
  by (simp add: modify_def query_faultless)

text \<open>A statement fails and changes nothing, or runs.\<close>

lemma select_cases:
  obtains e db1 where "select f db = (Err e, db1)" "tables db1 = tables db"
  | db1 where "select f db = (Ok (f (tables db)), db1)" "tables db1 = tables db"
proof (cases "select f db")
  case (Pair r d)
  with that show thesis by (cases r) (auto dest: select_Err simp: select_Ok)
qed

lemma modify_Err: "modify f db = (Err e, db') \<Longrightarrow> tables db' = tables db"
  unfolding modify_def by (rule query_Err)

lemma modify_cases:
  obtains e db1 where "modify f db = (Err e, db1)" "tables db1 = tables db"
  | db1 where "modify f db = (Ok (), db1)" "tables db1 = f (tables db)"
proof (cases "modify f db")
  case (Pair r d)
  with that show thesis by (cases r) (auto dest: modify_Err simp: modify_Ok)
qed

lemma returnq_simps [simp, sql_simps]: "returnq x db = (Ok x, db)"
  by (simp add: returnq_def)

lemma failq_simps [simp, sql_simps]: "failq e db = (Err e, db)"
  by (simp add: failq_def)

lemma of_result_simps [simp, sql_simps]: "of_result r s = (r, s)"
  by (simp add: of_result_def)

lemma ignoreq_eq [simp, sql_simps]: "ignoreq m s = (r, s') \<longleftrightarrow> r = Ok () \<and> s' = snd (m s)"
  by (auto simp: ignoreq_def)

lemma bindq_Ok [sql_simps]:
  "bindq m k db = (Ok y, db') \<longleftrightarrow> (\<exists>x db1. m db = (Ok x, db1) \<and> k x db1 = (Ok y, db'))"
  by (auto simp: bindq_def split: prod.splits result.splits)

lemma bindq_Err:
  "bindq m k db = (Err e, db') \<longleftrightarrow>
    m db = (Err e, db') \<or> (\<exists>x db1. m db = (Ok x, db1) \<and> k x db1 = (Err e, db'))"
  by (auto simp: bindq_def split: prod.splits result.splits)

lemma bindq_eval: "m db = (Ok x, db1) \<Longrightarrow> bindq m k db = k x db1"
  by (simp add: bindq_def)

lemma map_errq_Ok [sql_simps]: "map_errq f m db = (Ok x, db') \<longleftrightarrow> m db = (Ok x, db')"
  by (cases "m db") (auto simp: map_errq_def result_simps)

lemma map_errq_Err:
  "map_errq f m db = (Err e, db') \<longleftrightarrow> (\<exists>e0. m db = (Err e0, db') \<and> e = f e0)"
proof (cases "m db")
  case (Pair r d)
  then show ?thesis by (cases r) (auto simp: map_errq_def)
qed

lemma transaction_Ok [sql_simps]:
  "transaction_with f g body db = (Ok x, db') \<longleftrightarrow>
    \<not> (\<exists>e fs. faults db = Some e # fs) \<and>
    (\<exists>db1. body (db\<lparr>faults := tl (faults db)\<rparr>) = (Ok x, db1) \<and>
      \<not> (\<exists>e fs. faults db1 = Some e # fs) \<and> db' = db1\<lparr>faults := tl (faults db1)\<rparr>)"
proof -
  have "transaction_with f g body db = (Ok x, db') \<longleftrightarrow>
      bindq (map_errq f (select (\<lambda>_. ()))) (\<lambda>_.
        bindq body (\<lambda>x. bindq (map_errq g (select (\<lambda>_. ()))) (\<lambda>_. returnq x))) db = (Ok x, db')"
    by (auto simp: transaction_with_def split: prod.splits result.splits)
  then show ?thesis by (simp add: bindq_Ok map_errq_Ok select_Ok) blast
qed

lemma transaction_query_Ok:
  assumes "transaction f (bindq (map_errq f (query q)) k) db = (Ok y, db')"
  obtains x db1 db2 where "q (tables db) = (Ok x, tables db1)" and "k x db1 = (Ok y, db2)"
    and "tables db' = tables db2"
proof -
  from assms obtain db1 where body: "bindq (map_errq f (query q)) k (db\<lparr>faults := tl (faults db)\<rparr>) = (Ok y, db1)"
    and db': "db' = db1\<lparr>faults := tl (faults db1)\<rparr>"
    unfolding transaction_Ok by blast
  from body obtain x db2 where q: "query q (db\<lparr>faults := tl (faults db)\<rparr>) = (Ok x, db2)"
    and k: "k x db2 = (Ok y, db1)"
    unfolding bindq_Ok map_errq_Ok by blast
  from q have "q (tables db) = (Ok x, tables db2)" by (auto simp: query_Ok)
  with k db' that show thesis by simp
qed

text \<open>Atomicity of a transaction: a failure of any statement, or of the commit, changes no table.\<close>

lemma transaction_Err: "transaction_with f g body db = (Err e, db') \<Longrightarrow> tables db' = tables db"
  by (auto simp: transaction_with_def split: prod.splits result.splits)

lemma transaction_faultless:
  assumes "faults db = []" and "body db = (Ok x, db')" and "faults db' = []"
  shows "transaction_with f g body db = (Ok x, db')"
  using assms by (simp add: transaction_with_def bindq_def map_errq_def select_faultless)

lemma transaction_faultless_Err:
  assumes "faults db = []" and "body db = (Err e, db')"
  shows "transaction_with f g body db = (Err e, db'\<lparr>tables := tables db\<rparr>)"
  using assms by (simp add: transaction_with_def bindq_def map_errq_def select_faultless)

text \<open>\<open>keeps f m\<close>: the statements of \<open>m\<close> do not change the part \<open>f\<close> of the tables.\<close>

definition keeps :: "('s \<Rightarrow> 'b) \<Rightarrow> ('s, 'a, 'e) sql \<Rightarrow> bool" where
  "keeps f m \<longleftrightarrow> (\<forall>db. f (tables (snd (m db))) = f (tables db))"

lemma keepsD: "keeps f m \<Longrightarrow> m db = (r, db') \<Longrightarrow> f (tables db') = f (tables db)"
  by (metis keeps_def snd_conv)

lemma keeps_query [intro]: "(\<And>t. f (snd (q t)) = f t) \<Longrightarrow> keeps f (query q)"
  by (auto simp: keeps_def query_def split: list.splits option.splits prod.splits result.splits)
    (metis snd_conv)+

lemma keeps_modify [intro]: "(\<And>t. f (g t) = f t) \<Longrightarrow> keeps f (modify g)"
  unfolding modify_def by (rule keeps_query) simp

lemma keeps_select [intro]: "keeps f (select g)"
  unfolding select_def by (rule keeps_query) simp

lemma keeps_returnq [intro]: "keeps f (returnq x)"
  by (simp add: keeps_def)

lemma keeps_failq [intro]: "keeps f (failq x)"
  by (simp add: keeps_def)

lemma keeps_map_errq [intro]: "keeps f m \<Longrightarrow> keeps f (map_errq g m)"
  by (auto simp: keeps_def map_errq_def split: prod.splits) (metis snd_conv)

lemma keeps_bindq [intro]:
  assumes "keeps f m" and "\<And>x. keeps f (k x)"
  shows "keeps f (bindq m k)"
  unfolding keeps_def
proof
  fix db
  show "f (tables (snd (bindq m k db))) = f (tables db)"
    using keepsD [OF assms(1)] assms(2)
    by (cases "m db") (auto simp: bindq_def keeps_def split: result.splits)
qed

lemma keeps_of_result [intro]: "keeps f (of_result r)"
  by (simp add: keeps_def)

lemma keeps_ignoreq [intro]: "keeps f m \<Longrightarrow> keeps f (ignoreq m)"
  by (simp add: keeps_def ignoreq_def)

lemma keeps_for_each [intro]: "(\<And>x. keeps f (m x)) \<Longrightarrow> keeps f (for_each m xs)"
  by (induction xs) auto

lemma keeps_transaction [intro]: "keeps f m \<Longrightarrow> keeps f (transaction_with g h m)"
proof -
  assume "keeps f m"
  then have "keeps f (bindq (map_errq g (select (\<lambda>_. ()))) (\<lambda>_.
            bindq m (\<lambda>x. bindq (map_errq h (select (\<lambda>_. ()))) (\<lambda>_. returnq x))))"
    by blast
  from keepsD [OF this] show ?thesis
    unfolding keeps_def transaction_with_def by (auto split: prod.splits result.splits)
qed

lemma keeps_if [intro]: "keeps f m \<Longrightarrow> keeps f n \<Longrightarrow> keeps f (if b then m else n)"
  by simp

lemma keeps_option [intro]:
  "keeps f n \<Longrightarrow> (\<And>x. keeps f (k x)) \<Longrightarrow> keeps f (case o1 of None \<Rightarrow> n | Some x \<Rightarrow> k x)"
  by (cases o1) auto

text \<open>Reading the whole database state behind a statement.\<close>

abbreviation reads_only :: "('s, 'a, 'e) sql \<Rightarrow> bool" where
  "reads_only m \<equiv> keeps (\<lambda>t. t) m"

section \<open>Successful and failed runs\<close>

text \<open>\<open>runs m t x t'\<close>: some execution of \<open>m\<close> on the tables \<open>t\<close> returns \<open>x\<close> and leaves \<open>t'\<close>.\<close>

definition runs :: "('s, 'a, 'e) sql \<Rightarrow> 's \<Rightarrow> 'a \<Rightarrow> 's \<Rightarrow> bool" where
  "runs m t x t' \<longleftrightarrow> (\<exists>db db'. m db = (Ok x, db') \<and> tables db = t \<and> tables db' = t')"

lemma runsI: "m db = (Ok x, db') \<Longrightarrow> runs m (tables db) x (tables db')"
  by (auto simp: runs_def)

lemma runs_queryE:
  assumes "runs (bindq (map_errq f (query q)) k) t y t'"
  obtains x t1 where "q t = (Ok x, t1)" and "runs (k x) t1 y t'"
proof -
  from assms have "\<exists>x t1. q t = (Ok x, t1) \<and> runs (k x) t1 y t'"
    by (force simp: runs_def bindq_Ok map_errq_Ok query_Ok)
  with that show thesis by blast
qed

lemma runs_modifyE:
  assumes "runs (bindq (map_errq f (modify g)) k) t y t'"
  obtains "runs (k ()) (g t) y t'"
  using assms by (force simp: runs_def bindq_Ok map_errq_Ok modify_Ok)

lemma runs_selectE:
  assumes "runs (bindq (map_errq f (select g)) k) t y t'"
  obtains "runs (k (g t)) t y t'"
  using assms by (force simp: runs_def bindq_Ok map_errq_Ok select_Ok)

lemma runs_of_resultE:
  assumes "runs (bindq (of_result r) k) t y t'"
  obtains x where "r = Ok x" and "runs (k x) t y t'"
  using assms by (auto simp: runs_def bindq_Ok)

lemma runs_returnqE:
  assumes "runs (returnq x) t y t'"
  obtains "y = x" and "t' = t"
  using assms by (auto simp: runs_def)

lemma runs_transaction:
  "transaction_with f g body db = (Ok x, db') \<Longrightarrow> runs body (tables db) x (tables db')"
  by (force simp: runs_def transaction_Ok)

text \<open>\<open>err_keeps f m\<close>: a failing run of \<open>m\<close> does not change the part \<open>f\<close> of the tables.\<close>

definition err_keeps :: "('s \<Rightarrow> 'b) \<Rightarrow> ('s, 'a, 'e) sql \<Rightarrow> bool" where
  "err_keeps f m \<longleftrightarrow> (\<forall>db e db'. m db = (Err e, db') \<longrightarrow> f (tables db') = f (tables db))"

lemma err_keepsD: "err_keeps f m \<Longrightarrow> m db = (Err e, db') \<Longrightarrow> f (tables db') = f (tables db)"
  by (simp add: err_keeps_def)

lemma err_keeps_keeps: "keeps f m \<Longrightarrow> err_keeps f m"
  by (auto simp: err_keeps_def dest: keepsD)

lemma err_keeps_bindq:
  assumes "keeps f m" and "\<And>x. err_keeps f (k x)"
  shows "err_keeps f (bindq m k)"
  using assms by (force simp: err_keeps_def bindq_Err dest: keepsD)

lemma err_keeps_transaction: "err_keeps f (transaction_with g h m)"
  by (auto simp: err_keeps_def dest: transaction_Err)

end
