(* ===== verification/Route_Draft.thy ===== *)
theory Route_Draft
  imports F64 Sql
begin

text \<open>
  The route editing aggregate, \<open>crates/app/src/route_editing\<close>: value objects, operations and
  the \<open>RouteDraft\<close> with its undo and redo stacks, revision counter and lifecycle state.
  A method on \<open>&mut self\<close> returns its result and the object it leaves behind.
\<close>

section \<open>Value objects\<close>

record coordinate =
  latitude :: f64
  longitude :: f64

datatype elevation = Elevation (meters: f64)

record route_point =
  coordinate :: coordinate
  rp_elevation :: "elevation option"

text \<open>\<open>PartialEq\<close> of the value objects: the derived, field by field comparison of floats.\<close>

definition coordinate_eq :: "coordinate \<Rightarrow> coordinate \<Rightarrow> bool" where
  "coordinate_eq a b \<longleftrightarrow> feq (latitude a) (latitude b) \<and> feq (longitude a) (longitude b)"

fun elevation_eq :: "elevation option \<Rightarrow> elevation option \<Rightarrow> bool" where
  "elevation_eq None None = True"
| "elevation_eq (Some a) (Some b) = feq (meters a) (meters b)"
| "elevation_eq _ _ = False"

definition route_point_eq :: "route_point \<Rightarrow> route_point \<Rightarrow> bool" where
  "route_point_eq a b \<longleftrightarrow>
    coordinate_eq (coordinate a) (coordinate b) \<and> elevation_eq (rp_elevation a) (rp_elevation b)"

datatype point_index = PointIndex (pt_value: nat)
datatype segment_index = SegmentIndex (seg_value: nat)
datatype operation_id = OperationId (operation_uuid: uuid)
datatype route_draft_id = RouteDraftId (draft_uuid: uuid)

definition MAX_REPLACEMENT_POINTS :: nat where
  "MAX_REPLACEMENT_POINTS = 500"

type_synonym segment = "route_point list"
type_synonym geometry = "segment list"

text \<open>A message: a fixed text, or one of the formatted ones with its argument.\<close>

datatype re_message = Msg string | LatitudeMsg f64 | LongitudeMsg f64 | DatabaseMsg db_error

datatype route_editing_error =
    DraftNotFound
  | RevisionConflict u64 u64
  | DraftNotActive
  | InvalidOperation re_message
  | OperationFailed re_message
  | InsufficientPoints nat nat
  | InvalidSegmentIndex nat nat
  | InvalidPointIndex nat nat
  | NothingToUndo
  | NothingToRedo
  | InvalidCoordinate re_message
  | ActivityNotFound
  | ActivityDeleted
  | InvalidBaseRouteVersion
  | ReplacementTooLarge nat nat
  | EndpointContinuityViolation string coordinate coordinate

definition coordinate_new :: "f64 \<Rightarrow> f64 \<Rightarrow> (coordinate, route_editing_error) result" where
  "coordinate_new lat lon =
    (if \<not> range_contains (Fin (- 90)) (Fin 90) lat
     then Err (InvalidCoordinate (LatitudeMsg lat))
     else if \<not> range_contains (Fin (- 180)) (Fin 180) lon
     then Err (InvalidCoordinate (LongitudeMsg lon))
     else Ok \<lparr>latitude = lat, longitude = lon\<rparr>)"

section \<open>Operations\<close>

datatype route_operation =
    MovePoint segment_index point_index coordinate
  | AddPoint segment_index point_index route_point
  | DeletePoint segment_index point_index
  | DeleteSection segment_index point_index point_index
  | ReplaceSection segment_index point_index point_index "route_point list"
  | SplitSegment segment_index point_index
  | JoinSegments segment_index segment_index

section \<open>The aggregate\<close>

datatype draft_state = Active | Published | Discarded

record operation_entry =
  oe_id :: operation_id
  oe_operation :: route_operation
  geometry_before :: geometry

record route_draft =
  d_id :: route_draft_id
  d_activity_id :: activity_id
  d_owner_id :: user_id
  base_route_version_id :: "uuid option"
  revision :: u64
  geometry :: geometry
  applied_operations :: "operation_entry list"
  undone_operations :: "operation_entry list"
  d_state :: draft_state
  d_created_at :: time
  d_updated_at :: time

text \<open>\<open>validate_geometry\<close>: the loop stops at the first short segment.\<close>

fun check_segments :: "geometry \<Rightarrow> (unit, route_editing_error) result" where
  "check_segments [] = Ok ()"
| "check_segments (s # ss) =
    (if length s < 2 then Err (InsufficientPoints 2 (length s)) else check_segments ss)"

definition validate_geometry :: "geometry \<Rightarrow> (unit, route_editing_error) result" where
  "validate_geometry g =
    (if g = [] then Err (InvalidOperation (Msg ''geometry must contain at least 1 segment''))
     else check_segments g)"

text \<open>\<open>RouteDraftId::generate()\<close> and \<open>Utc::now()\<close> are the arguments \<open>new_id\<close> and \<open>now\<close>.\<close>

definition create_from_geometry ::
  "route_draft_id \<Rightarrow> time \<Rightarrow> user_id \<Rightarrow> activity_id \<Rightarrow> uuid option \<Rightarrow> geometry \<Rightarrow>
    (route_draft, route_editing_error) result" where
  "create_from_geometry new_id now owner activity base g =
    and_then (validate_geometry g) (\<lambda>_.
      Ok \<lparr>d_id = new_id, d_activity_id = activity, d_owner_id = owner,
          base_route_version_id = base, revision = 0, geometry = g,
          applied_operations = [], undone_operations = [], d_state = Active,
          d_created_at = now, d_updated_at = now\<rparr>)"

definition check_active :: "route_draft \<Rightarrow> (unit, route_editing_error) result" where
  "check_active d = (if d_state d \<noteq> Active then Err DraftNotActive else Ok ())"

definition check_revision :: "route_draft \<Rightarrow> u64 \<Rightarrow> (unit, route_editing_error) result" where
  "check_revision d expected =
    (if expected \<noteq> revision d then Err (RevisionConflict expected (revision d)) else Ok ())"

definition validate_segment_idx ::
  "geometry \<Rightarrow> segment_index \<Rightarrow> (unit, route_editing_error) result" where
  "validate_segment_idx g i =
    (if length g \<le> seg_value i then Err (InvalidSegmentIndex (seg_value i) (length g)) else Ok ())"

definition validate_point_idx ::
  "geometry \<Rightarrow> segment_index \<Rightarrow> point_index \<Rightarrow> (unit, route_editing_error) result" where
  "validate_point_idx g s p =
    and_then (validate_segment_idx g s) (\<lambda>_.
      let segment = g ! seg_value s in
      if length segment \<le> pt_value p
      then Err (InvalidPointIndex (pt_value p) (length segment)) else Ok ())"

text \<open>
  The arms of \<open>execute_operation\<close>.  The method reads and writes \<open>self.geometry\<close> only, so each
  arm is a function of the geometry that returns the result and the geometry it leaves.
\<close>

type_synonym exec = "(unit, route_editing_error) result \<times> geometry"

definition exec_move_point ::
  "geometry \<Rightarrow> segment_index \<Rightarrow> point_index \<Rightarrow> coordinate \<Rightarrow> exec" where
  "exec_move_point g s p new_position =
    attempt (validate_point_idx g s p) g (\<lambda>_.
      let segment = g ! seg_value s in
      (Ok (), g[seg_value s :=
         segment[pt_value p := (segment ! pt_value p)\<lparr>coordinate := new_position\<rparr>]]))"

definition exec_add_point ::
  "geometry \<Rightarrow> segment_index \<Rightarrow> point_index \<Rightarrow> route_point \<Rightarrow> exec" where
  "exec_add_point g s after point =
    attempt (validate_point_idx g s after) g (\<lambda>_.
      (Ok (), g[seg_value s := vec_insert (pt_value after + 1) point (g ! seg_value s)]))"

definition exec_delete_point :: "geometry \<Rightarrow> segment_index \<Rightarrow> point_index \<Rightarrow> exec" where
  "exec_delete_point g s p =
    attempt (validate_point_idx g s p) g (\<lambda>_.
      let segment = g ! seg_value s in
      if length segment \<le> 2 then (Err (InsufficientPoints 2 (length segment - 1)), g)
      else (Ok (), g[seg_value s := vec_remove (pt_value p) segment]))"

definition exec_delete_section ::
  "geometry \<Rightarrow> segment_index \<Rightarrow> point_index \<Rightarrow> point_index \<Rightarrow> exec" where
  "exec_delete_section g s a b =
    attempt (validate_segment_idx g s) g (\<lambda>_.
      let segment = g ! seg_value s in
      if pt_value b < pt_value a
      then (Err (InvalidOperation (Msg ''start_index must be <= end_index'')), g)
      else if length segment \<le> pt_value b
      then (Err (InvalidPointIndex (pt_value b) (length segment)), g)
      else let remaining = length segment - (pt_value b - pt_value a + 1) in
        if remaining < 2 then (Err (InsufficientPoints 2 remaining), g)
        else (Ok (), g[seg_value s := vec_drain (pt_value a) (pt_value b) segment]))"

definition exec_replace_section ::
  "geometry \<Rightarrow> segment_index \<Rightarrow> point_index \<Rightarrow> point_index \<Rightarrow> route_point list \<Rightarrow> exec" where
  "exec_replace_section g s a b replacement =
    attempt (validate_segment_idx g s) g (\<lambda>_.
      let segment = g ! seg_value s in
      if pt_value b < pt_value a
      then (Err (InvalidOperation (Msg ''start_index must be <= end_index'')), g)
      else if length segment \<le> pt_value b
      then (Err (InvalidPointIndex (pt_value b) (length segment)), g)
      else if MAX_REPLACEMENT_POINTS < length replacement
      then (Err (ReplacementTooLarge MAX_REPLACEMENT_POINTS (length replacement)), g)
      else if length replacement < 2
      then (Err (InvalidOperation (Msg ''replacement must contain at least 2 points'')), g)
      else let first = hd replacement; last = last replacement;
               exp_first = coordinate (segment ! pt_value a);
               exp_last = coordinate (segment ! pt_value b) in
        if \<not> coordinate_eq (coordinate first) exp_first
        then (Err (EndpointContinuityViolation ''start'' exp_first (coordinate first)), g)
        else if \<not> coordinate_eq (coordinate last) exp_last
        then (Err (EndpointContinuityViolation ''end'' exp_last (coordinate last)), g)
        else let new_len =
               length segment - (pt_value b - pt_value a + 1) + length replacement in
          if new_len < 2 then (Err (InsufficientPoints 2 new_len), g)
          else (Ok (), g[seg_value s :=
                  vec_splice (pt_value a) (pt_value b) replacement segment]))"

definition exec_split_segment :: "geometry \<Rightarrow> segment_index \<Rightarrow> point_index \<Rightarrow> exec" where
  "exec_split_segment g s p =
    attempt (validate_point_idx g s p) g (\<lambda>_.
      let segment = g ! seg_value s; k = pt_value p in
      if k = 0
      then (Err (InvalidOperation (Msg ''cannot split at the first point of a segment'')), g)
      else if k = length segment - 1
      then (Err (InvalidOperation (Msg ''cannot split at the last point of a segment'')), g)
      else let first_part = take (k + 1) segment; second_part = drop k segment in
        if length first_part < 2 \<or> length second_part < 2
        then (Err (InsufficientPoints 2 (min (length first_part) (length second_part))), g)
        else let idx = seg_value s; g1 = vec_remove idx g; g2 = vec_insert idx second_part g1 in
          (Ok (), vec_insert idx first_part g2))"

text \<open>
  Indices are \<open>usize\<close>: \<open>first_segment_index.value() + 1\<close> is computed before any bound is known
  and wraps at \<open>2 ^ 64\<close>.
\<close>

definition exec_join_segments :: "geometry \<Rightarrow> segment_index \<Rightarrow> segment_index \<Rightarrow> exec" where
  "exec_join_segments g s1 s2 =
    (if seg_value s2 \<noteq> (seg_value s1 + 1) mod 2 ^ 64
     then (Err (InvalidOperation (Msg ''segments must be adjacent to join'')), g)
     else attempt (validate_segment_idx g s1) g (\<lambda>_.
       attempt (validate_segment_idx g s2) g (\<lambda>_.
         let second = g ! seg_value s2; g1 = vec_remove (seg_value s2) g;
             first = g1 ! seg_value s1 in
         if first \<noteq> [] \<and> second \<noteq> [] \<and> route_point_eq (last first) (hd second)
         then (Ok (), g1[seg_value s1 := first @ drop 1 second])
         else (Ok (), g1[seg_value s1 := first @ second]))))"

fun execute_operation :: "geometry \<Rightarrow> route_operation \<Rightarrow> exec" where
  "execute_operation g (MovePoint s p c) = exec_move_point g s p c"
| "execute_operation g (AddPoint s p pt) = exec_add_point g s p pt"
| "execute_operation g (DeletePoint s p) = exec_delete_point g s p"
| "execute_operation g (DeleteSection s a b) = exec_delete_section g s a b"
| "execute_operation g (ReplaceSection s a b r) = exec_replace_section g s a b r"
| "execute_operation g (SplitSegment s p) = exec_split_segment g s p"
| "execute_operation g (JoinSegments s1 s2) = exec_join_segments g s1 s2"

type_synonym draft_cmd = "(unit, route_editing_error) result \<times> route_draft"

definition apply_operation ::
  "time \<Rightarrow> route_draft \<Rightarrow> operation_id \<Rightarrow> route_operation \<Rightarrow> u64 \<Rightarrow> draft_cmd" where
  "apply_operation now d oid operation expected =
    attempt (check_active d) d (\<lambda>_.
    attempt (check_revision d expected) d (\<lambda>_.
      if \<exists>e\<in>set (applied_operations d). oe_id e = oid then (Ok (), d)
      else let before = geometry d; (r, g) = execute_operation (geometry d) operation;
               d1 = d\<lparr>geometry := g\<rparr> in
        attempt r d1 (\<lambda>_.
          (Ok (), d1\<lparr>undone_operations := [],
             applied_operations := applied_operations d1 @
               [\<lparr>oe_id = oid, oe_operation = operation, geometry_before = before\<rparr>],
             revision := revision d1 + 1, d_updated_at := now\<rparr>))))"

definition undo :: "time \<Rightarrow> route_draft \<Rightarrow> u64 \<Rightarrow> draft_cmd" where
  "undo now d expected =
    attempt (check_active d) d (\<lambda>_.
    attempt (check_revision d expected) d (\<lambda>_.
    attempt (ok_or NothingToUndo (vec_pop (applied_operations d))) d (\<lambda>(entry, rest).
      (Ok (), d\<lparr>applied_operations := rest,
         geometry := geometry_before entry,
         undone_operations := undone_operations d @ [entry\<lparr>geometry_before := geometry d\<rparr>],
         revision := revision d + 1, d_updated_at := now\<rparr>))))"

definition redo :: "time \<Rightarrow> route_draft \<Rightarrow> u64 \<Rightarrow> draft_cmd" where
  "redo now d expected =
    attempt (check_active d) d (\<lambda>_.
    attempt (check_revision d expected) d (\<lambda>_.
    attempt (ok_or NothingToRedo (vec_pop (undone_operations d))) d (\<lambda>(entry, rest).
      (Ok (), d\<lparr>undone_operations := rest,
         geometry := geometry_before entry,
         applied_operations := applied_operations d @ [entry\<lparr>geometry_before := geometry d\<rparr>],
         revision := revision d + 1, d_updated_at := now\<rparr>))))"

definition reset :: "time \<Rightarrow> route_draft \<Rightarrow> u64 \<Rightarrow> geometry \<Rightarrow> draft_cmd" where
  "reset now d expected base_geometry =
    attempt (check_active d) d (\<lambda>_.
    attempt (check_revision d expected) d (\<lambda>_.
    attempt (validate_geometry base_geometry) d (\<lambda>_.
      (Ok (), d\<lparr>geometry := base_geometry, applied_operations := [], undone_operations := [],
         revision := revision d + 1, d_updated_at := now\<rparr>))))"

definition publish :: "time \<Rightarrow> route_draft \<Rightarrow> draft_cmd" where
  "publish now d =
    attempt (check_active d) d (\<lambda>_. (Ok (), d\<lparr>d_state := Published, d_updated_at := now\<rparr>))"

definition discard :: "time \<Rightarrow> route_draft \<Rightarrow> draft_cmd" where
  "discard now d =
    attempt (check_active d) d (\<lambda>_. (Ok (), d\<lparr>d_state := Discarded, d_updated_at := now\<rparr>))"

text \<open>A command is one call of a public mutating method, with its arguments.\<close>

datatype draft_command =
    CApply operation_id route_operation u64
  | CUndo u64
  | CRedo u64
  | CReset u64 geometry
  | CPublish
  | CDiscard

fun run_command :: "time \<Rightarrow> route_draft \<Rightarrow> draft_command \<Rightarrow> draft_cmd" where
  "run_command now d (CApply i p e) = apply_operation now d i p e"
| "run_command now d (CUndo e) = undo now d e"
| "run_command now d (CRedo e) = redo now d e"
| "run_command now d (CReset e g) = reset now d e g"
| "run_command now d CPublish = publish now d"
| "run_command now d CDiscard = discard now d"

text \<open>The drafts a sequence of calls can produce from a created one.\<close>

inductive reachable_draft :: "route_draft \<Rightarrow> bool" where
  created: "create_from_geometry i now u a b g = Ok d \<Longrightarrow> reachable_draft d"
| called: "reachable_draft d \<Longrightarrow> run_command now d c = (r, d') \<Longrightarrow> reachable_draft d'"

section \<open>Specification of the operations\<close>

text \<open>
  What an operation is documented to need and to do, on whole lists: the guard and the new
  geometry of each operation.
\<close>

definition wf_geometry :: "geometry \<Rightarrow> bool" where
  "wf_geometry g \<longleftrightarrow> g \<noteq> [] \<and> (\<forall>s\<in>set g. 2 \<le> length s)"

definition has_point :: "geometry \<Rightarrow> segment_index \<Rightarrow> point_index \<Rightarrow> bool" where
  "has_point g s p \<longleftrightarrow> seg_value s < length g \<and> pt_value p < length (g ! seg_value s)"

definition has_section :: "geometry \<Rightarrow> segment_index \<Rightarrow> point_index \<Rightarrow> point_index \<Rightarrow> bool" where
  "has_section g s a b \<longleftrightarrow> pt_value a \<le> pt_value b \<and> has_point g s b"

fun op_guard :: "geometry \<Rightarrow> route_operation \<Rightarrow> bool" where
  "op_guard g (MovePoint s p c) = has_point g s p"
| "op_guard g (AddPoint s p pt) = has_point g s p"
| "op_guard g (DeletePoint s p) = (has_point g s p \<and> 3 \<le> length (g ! seg_value s))"
| "op_guard g (DeleteSection s a b) =
    (has_section g s a b \<and> pt_value b - pt_value a + 3 \<le> length (g ! seg_value s))"
| "op_guard g (ReplaceSection s a b r) =
    (has_section g s a b \<and> 2 \<le> length r \<and> length r \<le> MAX_REPLACEMENT_POINTS \<and>
     coordinate_eq (coordinate (hd r)) (coordinate (g ! seg_value s ! pt_value a)) \<and>
     coordinate_eq (coordinate (last r)) (coordinate (g ! seg_value s ! pt_value b)))"
| "op_guard g (SplitSegment s p) =
    (has_point g s p \<and> 0 < pt_value p \<and> Suc (pt_value p) < length (g ! seg_value s))"
| "op_guard g (JoinSegments s1 s2) =
    (seg_value s2 = Suc (seg_value s1) \<and> seg_value s2 < length g)"

definition join_points :: "segment \<Rightarrow> segment \<Rightarrow> segment" where
  "join_points xs ys =
    (if xs \<noteq> [] \<and> ys \<noteq> [] \<and> route_point_eq (last xs) (hd ys) then xs @ tl ys else xs @ ys)"

fun segment_effect :: "route_operation \<Rightarrow> segment \<Rightarrow> segment" where
  "segment_effect (MovePoint s p c) xs =
    take (pt_value p) xs @ (xs ! pt_value p)\<lparr>coordinate := c\<rparr> # drop (Suc (pt_value p)) xs"
| "segment_effect (AddPoint s p pt) xs =
    take (Suc (pt_value p)) xs @ pt # drop (Suc (pt_value p)) xs"
| "segment_effect (DeletePoint s p) xs = take (pt_value p) xs @ drop (Suc (pt_value p)) xs"
| "segment_effect (DeleteSection s a b) xs = take (pt_value a) xs @ drop (Suc (pt_value b)) xs"
| "segment_effect (ReplaceSection s a b r) xs =
    take (pt_value a) xs @ r @ drop (Suc (pt_value b)) xs"
| "segment_effect _ xs = xs"

fun op_segment :: "route_operation \<Rightarrow> nat" where
  "op_segment (MovePoint s p c) = seg_value s"
| "op_segment (AddPoint s p pt) = seg_value s"
| "op_segment (DeletePoint s p) = seg_value s"
| "op_segment (DeleteSection s a b) = seg_value s"
| "op_segment (ReplaceSection s a b r) = seg_value s"
| "op_segment (SplitSegment s p) = seg_value s"
| "op_segment (JoinSegments s1 s2) = seg_value s1"

fun op_effect :: "geometry \<Rightarrow> route_operation \<Rightarrow> geometry" where
  "op_effect g (SplitSegment s p) =
    (let i = seg_value s; xs = g ! i; k = pt_value p in
     take i g @ [take (Suc k) xs, drop k xs] @ drop (Suc i) g)"
| "op_effect g (JoinSegments s1 s2) =
    (let i = seg_value s1 in
     take i g @ [join_points (g ! i) (g ! Suc i)] @ drop (i + 2) g)"
| "op_effect g p = g[op_segment p := segment_effect p (g ! op_segment p)]"

lemma validate_segment_idx_Ok [result_simps]:
  "validate_segment_idx g s = Ok () \<longleftrightarrow> seg_value s < length g"
  by (auto simp: validate_segment_idx_def)

lemma validate_point_idx_Ok [result_simps]:
  "validate_point_idx g s p = Ok () \<longleftrightarrow> has_point g s p"
  by (auto simp: validate_point_idx_def has_point_def validate_segment_idx_def Let_def)

lemmas guard_defs = has_point_def has_section_def
lemmas exec_defs =
  exec_move_point_def exec_add_point_def exec_delete_point_def exec_delete_section_def
  exec_replace_section_def exec_split_segment_def exec_join_segments_def

lemma validate_geometry_Ok [result_simps]: "validate_geometry g = Ok () \<longleftrightarrow> wf_geometry g"
proof -
  have "check_segments g = Ok () \<longleftrightarrow> (\<forall>s\<in>set g. 2 \<le> length s)"
    by (induction g) auto
  then show ?thesis by (auto simp: validate_geometry_def wf_geometry_def)
qed

lemma remove_insert_insert:
  "i < length g \<Longrightarrow>
    vec_insert i x (vec_insert i y (vec_remove i g)) = take i g @ [x, y] @ drop (Suc i) g"
  by (simp add: vec_insert_def vec_remove_def)

lemma remove_update_join:
  assumes "Suc i < length g"
  shows "(vec_remove (Suc i) g)[i := x] = take i g @ [x] @ drop (i + 2) g"
  using assms by (simp add: vec_remove_def list_update_append upd_conv_take_nth_drop
      take_Suc_conv_app_nth)

lemma vec_remove_nth_less: "j < i \<Longrightarrow> i < length xs \<Longrightarrow> vec_remove i xs ! j = xs ! j"
  by (simp add: vec_remove_def nth_append)

lemma succ_mod_index:
  "n < 2 ^ 64 \<Longrightarrow> i < n \<Longrightarrow> (i + 1) mod 2 ^ 64 = Suc (i::nat)"
  by simp

lemma succ_mod_neq: "1 < n \<Longrightarrow> (i + 1) mod n \<noteq> (i::nat)"
proof
  assume n: "1 < n" and eq: "(i + 1) mod n = i"
  have "i < n" using n mod_less_divisor [of n "i + 1"] unfolding eq by simp
  with eq n show False by (cases "i + 1 = n") auto
qed

text \<open>Each arm against the specification.\<close>

definition meets_spec :: "geometry \<Rightarrow> route_operation \<Rightarrow> exec \<Rightarrow> bool" where
  "meets_spec g p x \<longleftrightarrow>
    (if op_guard g p then x = (Ok (), op_effect g p) else (\<exists>e. x = (Err e, g)))"

lemma attempt_point_idx:
  "\<not> has_point g s p \<Longrightarrow> \<exists>e. attempt (validate_point_idx g s p) g k = (Err e, g)"
  "has_point g s p \<Longrightarrow> attempt (validate_point_idx g s p) g k = k ()"
  using validate_point_idx_Ok [of g s p] by (cases "validate_point_idx g s p"; simp)+

lemma attempt_segment_idx:
  "length g \<le> seg_value s \<Longrightarrow> \<exists>e. attempt (validate_segment_idx g s) g k = (Err e, g)"
  "seg_value s < length g \<Longrightarrow> attempt (validate_segment_idx g s) g k = k ()"
  using validate_segment_idx_Ok [of g s] by (cases "validate_segment_idx g s"; simp)+

lemma move_point_spec: "meets_spec g (MovePoint s p c) (exec_move_point g s p c)"
  by (cases "has_point g s p")
    (auto simp: meets_spec_def exec_move_point_def attempt_point_idx Let_def has_point_def
      upd_conv_take_nth_drop)

lemma add_point_spec: "meets_spec g (AddPoint s p pt) (exec_add_point g s p pt)"
  by (cases "has_point g s p")
    (auto simp: meets_spec_def exec_add_point_def attempt_point_idx vec_insert_def)

lemma delete_point_spec: "meets_spec g (DeletePoint s p) (exec_delete_point g s p)"
  by (cases "has_point g s p")
    (auto simp: meets_spec_def exec_delete_point_def attempt_point_idx vec_remove_def Let_def)

lemma delete_section_spec: "meets_spec g (DeleteSection s a b) (exec_delete_section g s a b)"
  by (cases "seg_value s < length g")
    (auto simp: meets_spec_def exec_delete_section_def attempt_segment_idx guard_defs Let_def
      vec_drain_def vec_splice_def not_less)

lemma replace_section_spec:
  "meets_spec g (ReplaceSection s a b r) (exec_replace_section g s a b r)"
  by (cases "seg_value s < length g")
    (auto simp: meets_spec_def exec_replace_section_def attempt_segment_idx guard_defs Let_def
      vec_splice_def not_less)

lemma split_segment_spec: "meets_spec g (SplitSegment s p) (exec_split_segment g s p)"
  by (cases "has_point g s p")
    (auto simp: meets_spec_def exec_split_segment_def attempt_point_idx guard_defs Let_def
      remove_insert_insert)

lemma join_segments_spec:
  assumes "length g < 2 ^ 64"
  shows "meets_spec g (JoinSegments s1 s2) (exec_join_segments g s1 s2)"
proof (cases "seg_value s1 < length g")
  case False
  then show ?thesis
    by (auto simp: meets_spec_def exec_join_segments_def attempt_segment_idx not_less)
next
  case True
  with assms have "(seg_value s1 + 1) mod 2 ^ 64 = Suc (seg_value s1)"
    by (rule succ_mod_index)
  with True show ?thesis
    by (cases "seg_value s2 < length g")
      (auto simp: meets_spec_def exec_join_segments_def attempt_segment_idx not_less Let_def
        vec_remove_nth_less remove_update_join join_points_def drop_Suc)
qed

lemma execute_operation_spec:
  assumes "length g < 2 ^ 64"
  shows "meets_spec g p (execute_operation g p)"
  using assms
  by (cases p) (simp_all add: move_point_spec add_point_spec delete_point_spec
      delete_section_spec replace_section_spec split_segment_spec join_segments_spec)

section \<open>The invariant of the aggregate\<close>

lemma execute_operation_Err: "execute_operation g p = (Err e, g') \<Longrightarrow> g' = g"
  by (cases p) (auto simp: exec_defs result_simps Let_def split: if_splits)

lemma effect_wf:
  assumes "wf_geometry g" and "op_guard g p"
  shows "wf_geometry (op_effect g p)"
proof -
  have len: "2 \<le> length xs" if "xs \<in> set g" for xs
    using assms(1) that by (simp add: wf_geometry_def)
  have upd: "wf_geometry (g[i := xs])" if "2 \<le> length xs" for i xs
    using assms(1) that ball_list_update [of g "\<lambda>s. 2 \<le> length s" xs i]
    by (simp add: wf_geometry_def)
  have at: "2 \<le> length (g ! i)" if "i < length g" for i
    using len that by simp
  show ?thesis
  proof (cases p)
    case (SplitSegment s k)
    with assms(2) len show ?thesis
      by (auto simp: wf_geometry_def Let_def guard_defs dest: in_set_takeD in_set_dropD)
  next
    case (JoinSegments s1 s2)
    with assms(2) len at [of "seg_value s1"] show ?thesis
      by (auto simp: wf_geometry_def Let_def join_points_def trans_le_add1
          dest: in_set_takeD in_set_dropD)
  next
    case (MovePoint s k c)
    with assms(2) at [of "seg_value s"] show ?thesis by (auto simp: guard_defs intro!: upd)
  next
    case (AddPoint s k pt)
    with assms(2) at [of "seg_value s"] show ?thesis by (auto simp: guard_defs intro!: upd)
  next
    case (DeletePoint s k)
    with assms(2) show ?thesis by (auto simp: guard_defs intro!: upd)
  next
    case (DeleteSection s a b)
    with assms(2) show ?thesis by (auto simp: guard_defs intro!: upd)
  next
    case (ReplaceSection s a b r)
    with assms(2) show ?thesis by (auto simp: guard_defs intro!: upd)
  qed
qed

lemma join_wf:
  assumes "wf_geometry g" and "exec_join_segments g s1 s2 = (Ok (), g')"
  shows "wf_geometry g'"
proof -
  let ?i = "seg_value s1" and ?j = "seg_value s2"
  let ?g1 = "vec_remove ?j g"
  have idx: "?j = (?i + 1) mod 2 ^ 64" "?i < length g" "?j < length g"
    using assms(2) by (auto simp: exec_join_segments_def result_simps split: if_splits)
  have "?j \<noteq> ?i" using idx(1) succ_mod_neq [of "2 ^ 64" ?i] by simp
  with idx(2,3) have "2 \<le> length g" by linarith
  have "length ?g1 = length g - 1" using idx(3) by (rule length_vec_remove)
  with \<open>2 \<le> length g\<close> have ne: "?g1 \<noteq> []" by auto
  have len: "\<forall>s\<in>set ?g1. 2 \<le> length s"
    using assms(1) set_vec_remove_subset [of ?j g] by (auto simp: wf_geometry_def)
  obtain zs where g': "g' = ?g1[?i := ?g1 ! ?i @ zs]"
    using assms(2) by (auto simp: exec_join_segments_def result_simps Let_def split: if_splits)
  show ?thesis
  proof (cases "?i < length ?g1")
    case True
    then have "2 \<le> length (?g1 ! ?i)" using len nth_mem by blast
    then have "2 \<le> length (?g1 ! ?i @ zs)" by simp
    with len have "\<forall>s\<in>set g'. 2 \<le> length s"
      unfolding g' by (rule ball_list_update)
    with ne show ?thesis by (simp add: g' wf_geometry_def)
  next
    case False
    with ne len show ?thesis by (simp add: g' wf_geometry_def list_update_beyond not_less)
  qed
qed

lemma execute_meets_spec_or_join:
  "meets_spec g p (execute_operation g p) \<or> (\<exists>s1 s2. p = JoinSegments s1 s2)"
  by (cases p) (simp_all add: move_point_spec add_point_spec delete_point_spec
      delete_section_spec replace_section_spec split_segment_spec)

lemma execute_wf:
  assumes "wf_geometry g" and "execute_operation g p = (Ok (), g')"
  shows "wf_geometry g'"
  using execute_meets_spec_or_join [of g p]
proof
  assume "meets_spec g p (execute_operation g p)"
  with assms have "op_guard g p \<and> g' = op_effect g p"
    by (simp add: meets_spec_def split: if_splits)
  with effect_wf [OF assms(1)] show ?thesis by simp
next
  assume "\<exists>s1 s2. p = JoinSegments s1 s2"
  with assms join_wf show ?thesis by auto
qed

text \<open>
  The event-sourcing reading of a draft: the applied entries lead from the base geometry to the
  current one, each carrying the geometry it started from; the undone entries, from the top of
  the stack, lead on from the current one, each carrying the geometry it leads to.
\<close>

fun applied_path :: "geometry \<Rightarrow> operation_entry list \<Rightarrow> geometry \<Rightarrow> bool" where
  "applied_path b [] g = (b = g)"
| "applied_path b (e # es) g =
    (geometry_before e = b \<and>
     (let (r, b') = execute_operation b (oe_operation e) in r = Ok () \<and> applied_path b' es g))"

fun redo_path :: "geometry \<Rightarrow> operation_entry list \<Rightarrow> bool" where
  "redo_path g [] = True"
| "redo_path g (e # es) =
    (execute_operation g (oe_operation e) = (Ok (), geometry_before e) \<and>
     redo_path (geometry_before e) es)"

definition base_geometry :: "route_draft \<Rightarrow> geometry" where
  "base_geometry d =
    (case applied_operations d of [] \<Rightarrow> geometry d | e # _ \<Rightarrow> geometry_before e)"

definition draft_inv :: "route_draft \<Rightarrow> bool" where
  "draft_inv d \<longleftrightarrow>
    wf_geometry (base_geometry d) \<and>
    applied_path (base_geometry d) (applied_operations d) (geometry d) \<and>
    redo_path (geometry d) (rev (undone_operations d)) \<and>
    distinct (map oe_id (applied_operations d @ undone_operations d))"

text \<open>Replaying a list of operations, stopping at the first that is refused.\<close>

fun replay :: "geometry \<Rightarrow> route_operation list \<Rightarrow> (geometry, route_editing_error) result" where
  "replay g [] = Ok g"
| "replay g (p # ps) =
    (case execute_operation g p of (Ok _, g') \<Rightarrow> replay g' ps | (Err e, _) \<Rightarrow> Err e)"

lemma applied_path_snoc:
  "applied_path b (es @ [e]) g \<longleftrightarrow>
    applied_path b es (geometry_before e) \<and>
    execute_operation (geometry_before e) (oe_operation e) = (Ok (), g)"
  by (induction es arbitrary: b) (auto split: prod.splits)

lemma applied_path_wf: "applied_path b es g \<Longrightarrow> wf_geometry b \<Longrightarrow> wf_geometry g"
  by (induction es arbitrary: b) (auto dest: execute_wf split: prod.splits)

lemma applied_path_snapshots_wf:
  "applied_path b es g \<Longrightarrow> wf_geometry b \<Longrightarrow> e \<in> set es \<Longrightarrow> wf_geometry (geometry_before e)"
  by (induction es arbitrary: b) (auto dest: execute_wf split: prod.splits)

lemma applied_path_replay: "applied_path b es g \<Longrightarrow> replay b (map oe_operation es) = Ok g"
  by (induction es arbitrary: b) (auto split: prod.splits)

lemma base_geometry_snoc:
  "applied_operations d = es @ [e] \<Longrightarrow>
    base_geometry d = (case es of [] \<Rightarrow> geometry_before e | e' # _ \<Rightarrow> geometry_before e')"
  by (cases es) (simp_all add: base_geometry_def)

lemma applied_path_base:
  "applied_path b es g \<Longrightarrow> b = (case es of [] \<Rightarrow> g | e # _ \<Rightarrow> geometry_before e)"
  by (cases es) simp_all

lemma draft_inv_alt:
  "draft_inv d \<longleftrightarrow>
    (\<exists>b. wf_geometry b \<and> applied_path b (applied_operations d) (geometry d)) \<and>
    redo_path (geometry d) (rev (undone_operations d)) \<and>
    distinct (map oe_id (applied_operations d @ undone_operations d))"
  unfolding draft_inv_def base_geometry_def using applied_path_base by metis

section \<open>Commands\<close>

text \<open>Exact success conditions of the commands.\<close>

lemma check_active_Ok [result_simps]: "check_active d = Ok x \<longleftrightarrow> d_state d = Active"
  by (auto simp: check_active_def)

lemma check_revision_Ok [result_simps]: "check_revision d e = Ok x \<longleftrightarrow> e = revision d"
  by (auto simp: check_revision_def)

definition applied_ids :: "route_draft \<Rightarrow> operation_id set" where
  "applied_ids d = oe_id ` set (applied_operations d)"

definition record_operation ::
  "time \<Rightarrow> route_draft \<Rightarrow> operation_id \<Rightarrow> route_operation \<Rightarrow> geometry \<Rightarrow> route_draft" where
  "record_operation now d i p g =
    d\<lparr>geometry := g, undone_operations := [],
      applied_operations := applied_operations d @
        [\<lparr>oe_id = i, oe_operation = p, geometry_before = geometry d\<rparr>],
      revision := revision d + 1, d_updated_at := now\<rparr>"

lemma apply_operation_Ok:
  "apply_operation now d i p e = (Ok (), d') \<longleftrightarrow>
    d_state d = Active \<and> e = revision d \<and>
    (if i \<in> applied_ids d then d' = d
     else \<exists>g. execute_operation (geometry d) p = (Ok (), g) \<and> d' = record_operation now d i p g)"
  by (auto simp: apply_operation_def result_simps applied_ids_def record_operation_def Let_def
      split: prod.splits)

lemma undo_Ok:
  "undo now d e = (Ok (), d') \<longleftrightarrow>
    d_state d = Active \<and> e = revision d \<and>
    (\<exists>es x. applied_operations d = es @ [x] \<and>
      d' = d\<lparr>applied_operations := es, geometry := geometry_before x,
             undone_operations := undone_operations d @ [x\<lparr>geometry_before := geometry d\<rparr>],
             revision := revision d + 1, d_updated_at := now\<rparr>)"
  by (auto simp: undo_def result_simps vec_simps)

lemma redo_Ok:
  "redo now d e = (Ok (), d') \<longleftrightarrow>
    d_state d = Active \<and> e = revision d \<and>
    (\<exists>es x. undone_operations d = es @ [x] \<and>
      d' = d\<lparr>undone_operations := es, geometry := geometry_before x,
             applied_operations := applied_operations d @ [x\<lparr>geometry_before := geometry d\<rparr>],
             revision := revision d + 1, d_updated_at := now\<rparr>)"
  by (auto simp: redo_def result_simps vec_simps)

lemma reset_Ok:
  "reset now d e b = (Ok (), d') \<longleftrightarrow>
    d_state d = Active \<and> e = revision d \<and> wf_geometry b \<and>
    d' = d\<lparr>geometry := b, applied_operations := [], undone_operations := [],
           revision := revision d + 1, d_updated_at := now\<rparr>"
  by (auto simp: reset_def result_simps)

lemma publish_Ok:
  "publish now d = (Ok (), d') \<longleftrightarrow>
    d_state d = Active \<and> d' = d\<lparr>d_state := Published, d_updated_at := now\<rparr>"
  by (auto simp: publish_def result_simps)

lemma discard_Ok:
  "discard now d = (Ok (), d') \<longleftrightarrow>
    d_state d = Active \<and> d' = d\<lparr>d_state := Discarded, d_updated_at := now\<rparr>"
  by (auto simp: discard_def result_simps)

lemmas command_Ok = apply_operation_Ok undo_Ok redo_Ok reset_Ok publish_Ok discard_Ok

lemma run_command_Err: "run_command now d c = (Err e, d') \<Longrightarrow> d' = d"
proof (cases c)
  case (CApply i p x)
  assume *: "run_command now d c = (Err e, d')"
  show ?thesis
  proof (cases "execute_operation (geometry d) p")
    case (Pair r g)
    with * CApply execute_operation_Err [of "geometry d" p _ g] show ?thesis
      by (auto simp: apply_operation_def result_simps Let_def split: if_splits)
  qed
qed (auto simp: undo_def redo_def reset_def publish_def discard_def result_simps)

text \<open>Every command keeps the invariant.\<close>

lemma draft_inv_created:
  "create_from_geometry i now u a b g = Ok d \<Longrightarrow> draft_inv d"
  by (auto simp: create_from_geometry_def result_simps draft_inv_alt)

lemma draft_inv_apply:
  assumes "draft_inv d" and "i \<notin> applied_ids d"
    and "execute_operation (geometry d) p = (Ok (), g)"
  shows "draft_inv (record_operation now d i p g)"
  using assms
  by (auto simp: draft_inv_alt record_operation_def applied_path_snoc applied_ids_def)

lemma distinct_last_across: "distinct (xs @ ys @ [x]) \<longleftrightarrow> distinct ((xs @ [x]) @ ys)"
  by auto

lemma draft_inv_undo:
  assumes "draft_inv d" and "applied_operations d = es @ [x]"
  shows "draft_inv (d\<lparr>applied_operations := es, geometry := geometry_before x,
             undone_operations := undone_operations d @ [x\<lparr>geometry_before := geometry d\<rparr>],
             revision := n, d_updated_at := now\<rparr>)"
  using assms distinct_last_across [of "map oe_id es" "map oe_id (undone_operations d)" "oe_id x"]
  by (auto simp: draft_inv_alt applied_path_snoc simp del: distinct_append)

lemma draft_inv_redo:
  assumes "draft_inv d" and "undone_operations d = es @ [x]"
  shows "draft_inv (d\<lparr>undone_operations := es, geometry := geometry_before x,
             applied_operations := applied_operations d @ [x\<lparr>geometry_before := geometry d\<rparr>],
             revision := n, d_updated_at := now\<rparr>)"
  using assms
    distinct_last_across [of "map oe_id (applied_operations d)" "map oe_id es" "oe_id x"]
  by (auto simp: draft_inv_alt applied_path_snoc simp del: distinct_append)

lemma draft_inv_command:
  assumes inv: "draft_inv d" and run: "run_command now d c = (r, d')"
  shows "draft_inv d'"
proof (cases r)
  case (Err e)
  with run inv run_command_Err show ?thesis by blast
next
  case (Ok u)
  show ?thesis
  proof (cases c)
    case (CApply i p e)
    with run Ok inv draft_inv_apply [OF inv] show ?thesis
      by (auto simp: apply_operation_Ok split: if_splits)
  next
    case (CUndo e)
    with run Ok inv show ?thesis
      by (auto simp: undo_Ok intro: draft_inv_undo)
  next
    case (CRedo e)
    with run Ok inv show ?thesis
      by (auto simp: redo_Ok intro: draft_inv_redo)
  qed (use run Ok inv in \<open>auto simp: reset_Ok publish_Ok discard_Ok draft_inv_alt\<close>)
qed

lemma reachable_draft_inv: "reachable_draft d \<Longrightarrow> draft_inv d"
  by (induction rule: reachable_draft.induct) (blast intro: draft_inv_created draft_inv_command)+

lemma draft_inv_geometry: "draft_inv d \<Longrightarrow> wf_geometry (geometry d)"
  using applied_path_wf by (auto simp: draft_inv_alt)

section \<open>Undo and redo histories\<close>

text \<open>The client's loops: \<open>n\<close> undo calls, \<open>n\<close> redo calls, each with the current revision.\<close>

fun undo_times :: "time \<Rightarrow> nat \<Rightarrow> route_draft \<Rightarrow> draft_cmd" where
  "undo_times now 0 d = (Ok (), d)"
| "undo_times now (Suc n) d =
    (let (r, d1) = undo_times now n d in attempt r d1 (\<lambda>_. undo now d1 (revision d1)))"

fun redo_times :: "time \<Rightarrow> nat \<Rightarrow> route_draft \<Rightarrow> draft_cmd" where
  "redo_times now 0 d = (Ok (), d)"
| "redo_times now (Suc n) d =
    (let (r, d1) = redo now d (revision d) in attempt r d1 (\<lambda>_. redo_times now n d1))"

text \<open>What the user sees of a draft: everything but the revision and the time stamp.\<close>

definition content ::
  "route_draft \<Rightarrow> geometry \<times> operation_entry list \<times> operation_entry list \<times> draft_state" where
  "content d = (geometry d, applied_operations d, undone_operations d, d_state d)"

lemma redo_undo_step:
  assumes "undo now d (revision d) = (Ok (), d1)"
  shows "\<exists>d2. redo now' d1 (revision d1) = (Ok (), d2) \<and> content d2 = content d"
  using assms by (auto simp: undo_Ok redo_Ok content_def)

lemma redo_content:
  assumes "redo now d (revision d) = (Ok (), e)" and "content d' = content d"
  shows "\<exists>e'. redo now d' (revision d') = (Ok (), e') \<and> content e' = content e"
  using assms by (auto simp: redo_Ok content_def)

lemma redo_times_content:
  "redo_times now n d = (Ok (), e) \<Longrightarrow> content d' = content d \<Longrightarrow>
    \<exists>e'. redo_times now n d' = (Ok (), e') \<and> content e' = content e"
proof (induction n arbitrary: d d')
  case (Suc n)
  from Suc.prems(1) obtain d1 where d1: "redo now d (revision d) = (Ok (), d1)"
      "redo_times now n d1 = (Ok (), e)"
    by (auto simp: result_simps split: prod.splits)
  from redo_content [OF d1(1) Suc.prems(2)] obtain d1' where
    "redo now d' (revision d') = (Ok (), d1')" "content d1' = content d1" by blast
  with Suc.IH [OF d1(2)] show ?case by auto
qed simp

lemma undo_keeps_base:
  assumes "draft_inv d" and "undo now d e = (Ok (), d1)"
  shows "base_geometry d1 = base_geometry d"
  using assms by (auto simp: undo_Ok base_geometry_def split: list.splits)

lemma undo_times_Ok:
  assumes "draft_inv d" and "d_state d = Active" and "n \<le> length (applied_operations d)"
  shows "\<exists>d1 d2. undo_times now n d = (Ok (), d1) \<and> draft_inv d1 \<and> d_state d1 = Active \<and>
    base_geometry d1 = base_geometry d \<and>
    applied_operations d1 = take (length (applied_operations d) - n) (applied_operations d) \<and>
    redo_times now n d1 = (Ok (), d2) \<and> content d2 = content d"
  using assms(3)
proof (induction n)
  case 0
  with assms show ?case by simp
next
  case (Suc n)
  let ?es = "applied_operations d"
  from Suc obtain d1 d2 where d1: "undo_times now n d = (Ok (), d1)" "draft_inv d1"
      "d_state d1 = Active" "base_geometry d1 = base_geometry d"
      "applied_operations d1 = take (length ?es - n) ?es"
      "redo_times now n d1 = (Ok (), d2)" "content d2 = content d"
    by (auto dest: Suc_leD)
  have len: "length ?es - n = Suc (length ?es - Suc n)" using Suc.prems by simp
  then have snoc: "applied_operations d1 =
      take (length ?es - Suc n) ?es @ [?es ! (length ?es - Suc n)]"
    using d1(5) Suc.prems by (simp add: take_Suc_conv_app_nth)
  then obtain d3 where d3: "undo now d1 (revision d1) = (Ok (), d3)"
    "applied_operations d3 = take (length ?es - Suc n) ?es" "d_state d3 = Active"
    using d1(3) by (auto simp: undo_Ok)
  from redo_undo_step [OF d3(1)] obtain d4 where d4:
    "redo now d3 (revision d3) = (Ok (), d4)" "content d4 = content d1" by blast
  from redo_times_content [OF d1(6) d4(2)] obtain d5 where
    "redo_times now n d4 = (Ok (), d5)" "content d5 = content d2" by blast
  moreover have "draft_inv d3" using draft_inv_command [OF d1(2), of now "CUndo (revision d1)"] d3(1)
    by simp
  ultimately show ?case
    using d1 d3 d4 undo_keeps_base [OF d1(2) d3(1)] by auto
qed

section \<open>Sample drafts\<close>

definition sample_point :: "rat \<Rightarrow> rat \<Rightarrow> route_point" where
  "sample_point a b = \<lparr>coordinate = \<lparr>latitude = Fin a, longitude = Fin b\<rparr>, rp_elevation = None\<rparr>"

definition sample_geometry :: geometry where
  "sample_geometry = [[sample_point 0 0, sample_point 1 1, sample_point 2 2]]"

definition sample_draft :: route_draft where
  "sample_draft = \<lparr>d_id = RouteDraftId 1, d_activity_id = ActivityId 2, d_owner_id = UserId 3,
     base_route_version_id = Some 4, revision = 0, geometry = sample_geometry,
     applied_operations = [], undone_operations = [], d_state = Active,
     d_created_at = 10, d_updated_at = 10\<rparr>"

definition sample_split :: route_operation where
  "sample_split = SplitSegment (SegmentIndex 0) (PointIndex 1)"

definition sample_edited :: route_draft where
  "sample_edited = record_operation 11 sample_draft (OperationId 7) sample_split
     [[sample_point 0 0, sample_point 1 1], [sample_point 1 1, sample_point 2 2]]"

lemmas sample_defs = sample_point_def sample_geometry_def sample_draft_def sample_split_def

lemma sample_split_executes:
  "execute_operation sample_geometry sample_split =
    (Ok (), [[sample_point 0 0, sample_point 1 1], [sample_point 1 1, sample_point 2 2]])"
  by (simp add: sample_split_def sample_geometry_def exec_split_segment_def
      validate_point_idx_def validate_segment_idx_def vec_insert_def vec_remove_def)

lemma sample_draft_created:
  "create_from_geometry (RouteDraftId 1) 10 (UserId 3) (ActivityId 2) (Some 4) sample_geometry =
    Ok sample_draft"
  by (simp add: create_from_geometry_def validate_geometry_def sample_draft_def
      sample_geometry_def)

lemma sample_edited_applied:
  "apply_operation 11 sample_draft (OperationId 7) sample_split 0 = (Ok (), sample_edited)"
  using sample_split_executes
  by (simp add: apply_operation_Ok sample_edited_def sample_draft_def applied_ids_def)

lemma sample_edited_reachable: "reachable_draft sample_edited"
  using reachable_draft.called [OF reachable_draft.created [OF sample_draft_created],
      of 11 "CApply (OperationId 7) sample_split 0"] sample_edited_applied
  by simp

section \<open>Properties\<close>

text \<open>C3. Refinement of the seven editing operations: \<open>execute_operation\<close> succeeds exactly when
  the guard of the operation holds, and then leaves exactly the geometry the specification
  \<open>op_effect\<close> names (on a geometry whose length fits a \<open>usize\<close>).\<close>

theorem execute_operation_refines_spec:
  assumes "length g < 2 ^ 64"
  shows "execute_operation g p = (Ok (), g') \<longleftrightarrow> op_guard g p \<and> g' = op_effect g p"
  using execute_operation_spec [OF assms, of p] by (auto simp: meets_spec_def split: if_splits)

theorem execute_operation_refines_spec_witness:
  "execute_operation sample_geometry sample_split = (Ok (), op_effect sample_geometry sample_split)"
  using execute_operation_refines_spec [of sample_geometry sample_split
      "op_effect sample_geometry sample_split"]
  by (simp add: sample_geometry_def sample_split_def guard_defs)

text \<open>C1. Event sourcing: in every reachable draft the geometry is well formed (a segment at
  least, two points at least in each), replaying the applied operations from the base geometry
  gives the current geometry, the undone operations can be replayed from there, every
  snapshot of the history is well formed, and no operation id occurs twice.\<close>

theorem reachable_draft_event_sourced:
  assumes "reachable_draft d"
  shows "wf_geometry (geometry d) \<and>
    replay (base_geometry d) (map oe_operation (applied_operations d)) = Ok (geometry d) \<and>
    is_ok (replay (geometry d) (map oe_operation (rev (undone_operations d)))) \<and>
    (\<forall>e\<in>set (applied_operations d). wf_geometry (geometry_before e)) \<and>
    distinct (map oe_id (applied_operations d @ undone_operations d))"
proof -
  have redo: "redo_path g es \<Longrightarrow> is_ok (replay g (map oe_operation es))" for g es
    by (induction es arbitrary: g) auto
  from assms have inv: "draft_inv d" by (rule reachable_draft_inv)
  with redo [of "geometry d" "rev (undone_operations d)"] show ?thesis
    using draft_inv_geometry applied_path_replay applied_path_snapshots_wf
    unfolding draft_inv_def by blast
qed

theorem reachable_draft_event_sourced_witness:
  "wf_geometry (geometry sample_edited) \<and>
    replay (base_geometry sample_edited) [sample_split] = Ok (geometry sample_edited)"
  using reachable_draft_event_sourced [OF sample_edited_reachable]
  by (simp add: sample_edited_def record_operation_def sample_draft_def)

text \<open>C2. Undo and redo: \<open>n\<close> undos of an active reachable draft that holds at least \<open>n\<close>
  operations all succeed and leave the geometry that the remaining operations produce from
  the base, and \<open>n\<close> redos then succeed and restore the geometry and both stacks exactly.\<close>

theorem undo_redo_history:
  assumes "reachable_draft d" and "d_state d = Active" and "n \<le> length (applied_operations d)"
  shows "\<exists>d1 d2. undo_times now n d = (Ok (), d1) \<and>
    applied_operations d1 = take (length (applied_operations d) - n) (applied_operations d) \<and>
    replay (base_geometry d) (map oe_operation (applied_operations d1)) = Ok (geometry d1) \<and>
    redo_times now n d1 = (Ok (), d2) \<and> geometry d2 = geometry d \<and>
    applied_operations d2 = applied_operations d \<and> undone_operations d2 = undone_operations d"
proof -
  from undo_times_Ok [OF reachable_draft_inv [OF assms(1)] assms(2,3), of now]
  obtain d1 d2 where d: "undo_times now n d = (Ok (), d1)" "draft_inv d1"
    "base_geometry d1 = base_geometry d"
    "applied_operations d1 = take (length (applied_operations d) - n) (applied_operations d)"
    "redo_times now n d1 = (Ok (), d2)" "content d2 = content d" by blast
  from d(2,3) have "replay (base_geometry d) (map oe_operation (applied_operations d1)) =
      Ok (geometry d1)"
    using applied_path_replay unfolding draft_inv_def by metis
  with d show ?thesis by (auto simp: content_def)
qed

theorem undo_redo_history_witness:
  "\<exists>d1 d2. undo_times 12 1 sample_edited = (Ok (), d1) \<and>
    redo_times 12 1 d1 = (Ok (), d2) \<and> geometry d2 = geometry sample_edited"
  using undo_redo_history [OF sample_edited_reachable, of 1 12]
  by (auto simp: sample_edited_def record_operation_def sample_draft_def)

text \<open>Atomicity: a command that fails, at whatever check, leaves the draft unchanged.\<close>

theorem failed_command_unchanged:
  "run_command now d c = (Err e, d') \<Longrightarrow> d' = d"
  by (rule run_command_Err)

theorem failed_command_unchanged_witness:
  "fst (run_command 5 sample_draft (CUndo 0)) = Err NothingToUndo \<and>
    snd (run_command 5 sample_draft (CUndo 0)) = sample_draft"
proof -
  have "fst (run_command 5 sample_draft (CUndo 0)) = Err NothingToUndo"
    by (simp add: undo_def check_active_def check_revision_def sample_draft_def)
  then show ?thesis
    using failed_command_unchanged [of 5 sample_draft "CUndo 0" NothingToUndo] prod.collapse
    by metis
qed

text \<open>C4. Lost updates are prevented: once a command that states the revision it expects has
  changed the draft, every command that still expects that revision is refused with the
  conflict it is documented to report, and changes nothing.\<close>

fun expected_revision :: "draft_command \<Rightarrow> u64 option" where
  "expected_revision (CApply i p e) = Some e"
| "expected_revision (CUndo e) = Some e"
| "expected_revision (CRedo e) = Some e"
| "expected_revision (CReset e g) = Some e"
| "expected_revision _ = None"

theorem lost_update_prevented:
  assumes "run_command now d c = (Ok (), d')" and "d' \<noteq> d"
    and "expected_revision c = Some r" and "expected_revision c' = Some r"
  shows "run_command now' d' c' = (Err (RevisionConflict r (r + 1)), d')"
proof -
  have "d_state d' = Active \<and> r = revision d \<and> revision d' = revision d + 1"
    using assms(1-3) by (cases c) (auto simp: command_Ok record_operation_def split: if_splits)
  with assms(4) show ?thesis
    by (cases c') (auto simp: apply_operation_def undo_def redo_def reset_def check_active_def
        check_revision_def)
qed

theorem lost_update_prevented_witness:
  "run_command 12 sample_edited (CUndo 0) = (Err (RevisionConflict 0 1), sample_edited)"
proof -
  have "sample_edited \<noteq> sample_draft"
    by (simp add: sample_edited_def record_operation_def sample_draft_def)
  with lost_update_prevented [of 11 sample_draft "CApply (OperationId 7) sample_split 0"
      sample_edited 0 "CUndo 0" 12] sample_edited_applied
  show ?thesis by simp
qed

text \<open>Round trip: joining the two halves of a split restores the geometry, when the split
  point equals itself under \<open>PartialEq\<close> (no NaN in it).\<close>

theorem split_then_join:
  assumes "execute_operation g (SplitSegment s p) = (Ok (), g')"
    and "route_point_eq (g ! seg_value s ! pt_value p) (g ! seg_value s ! pt_value p)"
    and "length g < 2 ^ 64 - 1"
  shows "execute_operation g' (JoinSegments s (SegmentIndex (Suc (seg_value s)))) = (Ok (), g)"
proof -
  let ?i = "seg_value s" and ?k = "pt_value p"
  let ?xs = "g ! ?i"
  have guard: "op_guard g (SplitSegment s p)" and g': "g' = op_effect g (SplitSegment s p)"
    using execute_operation_spec [of g "SplitSegment s p"] assms(1,3)
    by (auto simp: meets_spec_def split: if_splits)
  then have i: "?i < length g" and k: "Suc ?k < length ?xs" by (auto simp: guard_defs)
  have len: "length g' = Suc (length g)" using i by (simp add: g' Let_def)
  have at: "g' ! ?i = take (Suc ?k) ?xs" "g' ! Suc ?i = drop ?k ?xs"
    using i by (simp_all add: g' Let_def nth_append)
  have "last (take (Suc ?k) ?xs) = ?xs ! ?k" "hd (drop ?k ?xs) = ?xs ! ?k"
    using k by (simp_all add: take_Suc_conv_app_nth hd_drop_conv_nth)
  moreover have "take (Suc ?k) ?xs \<noteq> []" "drop ?k ?xs \<noteq> []" using k by auto
  moreover have "tl (drop ?k ?xs) = drop (Suc ?k) ?xs" by (simp only: tl_drop drop_Suc)
  then have "take (Suc ?k) ?xs @ tl (drop ?k ?xs) = ?xs" by (simp only: append_take_drop_id)
  ultimately have join: "join_points (g' ! ?i) (g' ! Suc ?i) = ?xs"
    using assms(2) by (simp add: at join_points_def)
  have "meets_spec g' (JoinSegments s (SegmentIndex (Suc ?i)))
      (execute_operation g' (JoinSegments s (SegmentIndex (Suc ?i))))"
    using assms(3) len by (intro execute_operation_spec) simp
  then have "execute_operation g' (JoinSegments s (SegmentIndex (Suc ?i))) =
      (Ok (), take ?i g' @ [?xs] @ drop (?i + 2) g')"
    using i len join by (simp add: meets_spec_def Let_def)
  moreover have "take ?i g' @ [?xs] @ drop (?i + 2) g' = g"
    using i by (simp add: g' Let_def id_take_nth_drop [symmetric])
  ultimately show ?thesis by simp
qed

theorem split_then_join_witness:
  "execute_operation [[sample_point 0 0, sample_point 1 1], [sample_point 1 1, sample_point 2 2]]
    (JoinSegments (SegmentIndex 0) (SegmentIndex 1)) = (Ok (), sample_geometry)"
  using split_then_join [OF sample_split_executes [unfolded sample_split_def]]
  by (simp add: sample_geometry_def sample_point_def route_point_eq_def coordinate_eq_def feq_def)

end
