(* ===== verification/Publication_Validation.thy ===== *)
theory Publication_Validation
  imports Route_Draft
begin

text \<open>
  Publication validation, \<open>crates/app/src/route_editing/validation.rs\<close>: precondition failures
  stop at once, geometry errors are collected in the order of the loops.
\<close>

definition MIN_POINTS_PER_SEGMENT :: nat where
  "MIN_POINTS_PER_SEGMENT = 2"

datatype publication_validation_error =
    NotOwner
  | DraftNotActive
  | RevisionMismatch u64 u64
  | NoSegments
  | InsufficientPointsInSegment nat nat nat
  | InvalidCoordinateInSegment nat nat re_message
  | NoBaseVersion

definition point_errors :: "nat \<Rightarrow> nat \<Rightarrow> route_point \<Rightarrow> publication_validation_error list" where
  "point_errors si pt p =
    (let lat = latitude (coordinate p); lon = longitude (coordinate p) in
     (if \<not> range_contains (Fin (- 90)) (Fin 90) lat
      then [InvalidCoordinateInSegment si pt (LatitudeMsg lat)] else []) @
     (if \<not> range_contains (Fin (- 180)) (Fin 180) lon
      then [InvalidCoordinateInSegment si pt (LongitudeMsg lon)] else []))"

definition segment_errors :: "nat \<Rightarrow> segment \<Rightarrow> publication_validation_error list" where
  "segment_errors si segment =
    (if length segment < MIN_POINTS_PER_SEGMENT
     then [InsufficientPointsInSegment si MIN_POINTS_PER_SEGMENT (length segment)] else []) @
    concat (map (\<lambda>(pt, p). point_errors si pt p) (enumerate 0 segment))"

definition publication_errors :: "route_draft \<Rightarrow> publication_validation_error list" where
  "publication_errors d =
    (if geometry d = [] then [NoSegments]
     else concat (map (\<lambda>(si, s). segment_errors si s) (enumerate 0 (geometry d)))) @
    (if base_route_version_id d = None then [NoBaseVersion] else [])"

definition validate_for_publication ::
  "route_draft \<Rightarrow> u64 \<Rightarrow> user_id \<Rightarrow> (unit, publication_validation_error list) result" where
  "validate_for_publication d expected owner =
    (if d_owner_id d \<noteq> owner then Err [NotOwner]
     else if d_state d \<noteq> Active then Err [DraftNotActive]
     else if revision d \<noteq> expected then Err [RevisionMismatch expected (revision d)]
     else let errors = publication_errors d in if errors = [] then Ok () else Err errors)"

section \<open>Exactness of the error list\<close>

definition valid_point :: "route_point \<Rightarrow> bool" where
  "valid_point p \<longleftrightarrow>
    range_contains (Fin (- 90)) (Fin 90) (latitude (coordinate p)) \<and>
    range_contains (Fin (- 180)) (Fin 180) (longitude (coordinate p))"

text \<open>The problems a user should be told about.\<close>

definition geometry_problems :: "route_draft \<Rightarrow> publication_validation_error set" where
  "geometry_problems d =
    {e. e = NoSegments \<and> geometry d = []} \<union>
    {e. e = NoBaseVersion \<and> base_route_version_id d = None} \<union>
    {InsufficientPointsInSegment i 2 (length (geometry d ! i)) | i.
       i < length (geometry d) \<and> length (geometry d ! i) < 2} \<union>
    {InvalidCoordinateInSegment i j (LatitudeMsg lat) | i j lat.
       i < length (geometry d) \<and> j < length (geometry d ! i) \<and>
       lat = latitude (coordinate (geometry d ! i ! j)) \<and>
       \<not> range_contains (Fin (- 90)) (Fin 90) lat} \<union>
    {InvalidCoordinateInSegment i j (LongitudeMsg lon) | i j lon.
       i < length (geometry d) \<and> j < length (geometry d ! i) \<and>
       lon = longitude (coordinate (geometry d ! i ! j)) \<and>
       \<not> range_contains (Fin (- 180)) (Fin 180) lon}"

lemma set_enumerate_nth: "(i, x) \<in> set (enumerate 0 xs) \<longleftrightarrow> i < length xs \<and> x = xs ! i"
  by (auto simp: in_set_enumerate_eq)

lemma set_concat_enumerate:
  "set (concat (map (\<lambda>(i, x). f i x) (enumerate 0 xs))) = (\<Union>i<length xs. set (f i (xs ! i)))"
proof -
  have "set (enumerate 0 xs) = (\<lambda>i. (i, xs ! i)) ` {..<length xs}"
    by (auto simp: set_enumerate_nth)
  then show ?thesis by simp
qed

lemma set_point_errors:
  "e \<in> set (point_errors i j p) \<longleftrightarrow>
    e = InvalidCoordinateInSegment i j (LatitudeMsg (latitude (coordinate p))) \<and>
      \<not> range_contains (Fin (- 90)) (Fin 90) (latitude (coordinate p)) \<or>
    e = InvalidCoordinateInSegment i j (LongitudeMsg (longitude (coordinate p))) \<and>
      \<not> range_contains (Fin (- 180)) (Fin 180) (longitude (coordinate p))"
  by (auto simp: point_errors_def Let_def)

lemma set_publication_errors: "set (publication_errors d) = geometry_problems d"
proof (cases "geometry d = []")
  case True
  then show ?thesis by (auto simp: publication_errors_def geometry_problems_def)
next
  case False
  show ?thesis
  proof (rule set_eqI)
    fix e
    have "e \<in> set (segment_errors i s) \<longleftrightarrow>
        e = InsufficientPointsInSegment i 2 (length s) \<and> length s < 2 \<or>
        (\<exists>j<length s. e \<in> set (point_errors i j (s ! j)))" for i s
      unfolding segment_errors_def set_append set_concat_enumerate
      by (auto simp: MIN_POINTS_PER_SEGMENT_def)
    then have "e \<in> set (publication_errors d) \<longleftrightarrow>
        (\<exists>i<length (geometry d).
          e = InsufficientPointsInSegment i 2 (length (geometry d ! i)) \<and>
            length (geometry d ! i) < 2 \<or>
          (\<exists>j<length (geometry d ! i). e \<in> set (point_errors i j (geometry d ! i ! j)))) \<or>
        e = NoBaseVersion \<and> base_route_version_id d = None"
      using False unfolding publication_errors_def set_append if_not_P [OF False]
        set_concat_enumerate by auto
    also have "\<dots> \<longleftrightarrow> e \<in> geometry_problems d"
      using False unfolding geometry_problems_def set_point_errors by auto
    finally show "e \<in> set (publication_errors d) \<longleftrightarrow> e \<in> geometry_problems d" .
  qed
qed

lemma geometry_problems_empty:
  "geometry_problems d = {} \<longleftrightarrow>
    wf_geometry (geometry d) \<and> (\<forall>s\<in>set (geometry d). \<forall>p\<in>set s. valid_point p) \<and>
    base_route_version_id d \<noteq> None"
  unfolding geometry_problems_def wf_geometry_def valid_point_def all_set_conv_all_nth
  by (auto simp: not_less) (meson not_le)+

lemma validate_for_publication_Ok [result_simps]:
  "validate_for_publication d r u = Ok () \<longleftrightarrow>
    d_owner_id d = u \<and> d_state d = Active \<and> revision d = r \<and> publication_errors d = []"
  by (auto simp: validate_for_publication_def Let_def)

section \<open>Properties\<close>

text \<open>C14. Validation accepts a draft exactly when the caller owns it, it is active, at the expected
  revision, with a well-formed geometry whose coordinates are all in range, and a base version.\<close>

theorem validate_for_publication_exact:
  "validate_for_publication d r u = Ok () \<longleftrightarrow>
    d_owner_id d = u \<and> d_state d = Active \<and> revision d = r \<and>
    wf_geometry (geometry d) \<and> (\<forall>s\<in>set (geometry d). \<forall>p\<in>set s. valid_point p) \<and>
    base_route_version_id d \<noteq> None"
  using geometry_problems_empty [of d] set_publication_errors [of d]
  unfolding validate_for_publication_Ok by (metis set_empty)

theorem validate_for_publication_exact_witness:
  "validate_for_publication sample_draft 0 (UserId 3) = Ok ()"
  unfolding validate_for_publication_exact
  by (simp add: sample_draft_def sample_geometry_def sample_point_def wf_geometry_def
      valid_point_def range_contains_def)

text \<open>The report is sound and complete: past the preconditions, the reported errors are exactly the
  problems of the draft, every short segment and every bad coordinate with its indices
  included; a draft the editing commands can produce has no short segment and is not empty.\<close>

theorem publication_errors_complete:
  assumes "d_owner_id d = u" and "d_state d = Active" and "revision d = r"
    and "validate_for_publication d r u = Err errors"
  shows "set errors = geometry_problems d \<and> errors \<noteq> [] \<and>
    (reachable_draft d \<longrightarrow> NoSegments \<notin> set errors \<and>
       (\<forall>i m n. InsufficientPointsInSegment i m n \<notin> set errors))"
proof -
  have errors: "errors = publication_errors d" "errors \<noteq> []"
    using assms by (auto simp: validate_for_publication_def Let_def split: if_splits)
  moreover have "NoSegments \<notin> geometry_problems d \<and>
      (\<forall>i m n. InsufficientPointsInSegment i m n \<notin> geometry_problems d)" if "reachable_draft d"
    using draft_inv_geometry [OF reachable_draft_inv [OF that]]
    by (auto simp: geometry_problems_def wf_geometry_def all_set_conv_all_nth)
  ultimately show ?thesis using set_publication_errors by simp
qed

theorem publication_errors_complete_witness:
  "geometry_problems (sample_draft\<lparr>base_route_version_id := None\<rparr>) = {NoBaseVersion}"
proof -
  let ?d = "sample_draft\<lparr>base_route_version_id := None\<rparr>"
  have "validate_for_publication ?d 0 (UserId 3) = Err [NoBaseVersion]"
    by (simp add: validate_for_publication_def publication_errors_def segment_errors_def
        point_errors_def sample_draft_def sample_geometry_def sample_point_def
        range_contains_def MIN_POINTS_PER_SEGMENT_def)
  then show ?thesis
    using publication_errors_complete [of ?d "UserId 3" 0 "[NoBaseVersion]"]
    by (simp add: sample_draft_def)
qed

end
