(* ===== verification/Draft_Persistence.thy ===== *)
theory Draft_Persistence
  imports Publication_Validation
begin

text \<open>
  Persistence of route drafts: the repository interface
  (\<open>crates/app/src/route_editing/repository.rs\<close>), its PostgreSQL implementation
  (\<open>crates/infrastructure/src/route_editing_persistence.rs\<close>) over the two tables of the
  migration, and the placeholder gateways.  JSON encoding is the library's: the functions of
  \<open>serde_json\<close> are the fields of a parameter.
\<close>

section \<open>Tables and encoding\<close>

record 'j serde =
  json_null :: 'j
  json_empty_array :: 'j
  geometry_to_value :: "geometry \<Rightarrow> 'j option"
  geometry_from_value :: "'j \<Rightarrow> geometry option"
  operation_to_value :: "route_operation \<Rightarrow> 'j option"
  operation_from_value :: "'j \<Rightarrow> route_operation option"
  stored_object :: "'j \<Rightarrow> 'j \<Rightarrow> 'j"
  stored_from_value :: "'j \<Rightarrow> ('j \<times> 'j) option"

record 'j draft_row =
  dr_id :: uuid
  dr_activity_id :: uuid
  dr_owner_id :: uuid
  dr_base_route_version_id :: "uuid option"
  dr_revision :: u64
  dr_geometry :: 'j
  dr_state :: string
  dr_created_at :: time
  dr_updated_at :: time

record 'j operation_row =
  or_draft_id :: uuid
  or_operation_id :: uuid
  or_operation_type :: string
  or_operation_data :: 'j
  or_sequence_number :: i32
  or_is_undone :: bool

record 'j draft_tables =
  drafts :: "'j draft_row list"
  draft_operations :: "'j operation_row list"
  users :: "uuid list"

fun state_to_str :: "draft_state \<Rightarrow> string" where
  "state_to_str Active = ''active''"
| "state_to_str Published = ''published''"
| "state_to_str Discarded = ''discarded''"

definition parse_state :: "string \<Rightarrow> draft_state" where
  "parse_state s =
    (if s = ''active'' then Active else if s = ''published'' then Published
     else if s = ''discarded'' then Discarded else Discarded)"

definition map_db_error :: "db_error \<Rightarrow> route_editing_error" where
  "map_db_error e = OperationFailed (DatabaseMsg e)"

definition geometry_to_json :: "'j serde \<Rightarrow> geometry \<Rightarrow> 'j" where
  "geometry_to_json J g = (case geometry_to_value J g of Some v \<Rightarrow> v | None \<Rightarrow> json_empty_array J)"

definition json_to_geometry :: "'j serde \<Rightarrow> 'j \<Rightarrow> geometry" where
  "json_to_geometry J v = (case geometry_from_value J v of Some g \<Rightarrow> g | None \<Rightarrow> [])"

definition operation_to_json :: "'j serde \<Rightarrow> route_operation \<Rightarrow> 'j" where
  "operation_to_json J p = (case operation_to_value J p of Some v \<Rightarrow> v | None \<Rightarrow> json_null J)"

definition json_to_operation :: "'j serde \<Rightarrow> 'j \<Rightarrow> route_operation option" where
  "json_to_operation J v = operation_from_value J v"

fun operation_type_str :: "route_operation \<Rightarrow> string" where
  "operation_type_str (MovePoint _ _ _) = ''move_point''"
| "operation_type_str (AddPoint _ _ _) = ''add_point''"
| "operation_type_str (DeletePoint _ _) = ''delete_point''"
| "operation_type_str (DeleteSection _ _ _) = ''delete_section''"
| "operation_type_str (ReplaceSection _ _ _ _) = ''replace_section''"
| "operation_type_str (SplitSegment _ _) = ''split_segment''"
| "operation_type_str (JoinSegments _ _) = ''join_segments''"

section \<open>The PostgreSQL repository\<close>

text \<open>One row of the operation loop of \<open>load_draft_with_operations\<close>; a malformed row is skipped.\<close>

definition entry_of_row :: "'j serde \<Rightarrow> 'j operation_row \<Rightarrow> operation_entry option" where
  "entry_of_row J r =
    (let (operation, before) =
       (case stored_from_value J (or_operation_data r) of
          Some s \<Rightarrow> s | None \<Rightarrow> (json_null J, json_empty_array J)) in
     map_option (\<lambda>p. \<lparr>oe_id = OperationId (or_operation_id r), oe_operation = p,
                       geometry_before = json_to_geometry J before\<rparr>)
       (json_to_operation J operation))"

definition ordered_operations :: "uuid \<Rightarrow> 'j draft_tables \<Rightarrow> 'j operation_row list" where
  "ordered_operations i t =
    sort_key (\<lambda>r. sint (or_sequence_number r))
      (filter (\<lambda>r. or_draft_id r = i) (draft_operations t))"

definition assemble_draft :: "'j serde \<Rightarrow> 'j draft_row \<Rightarrow> 'j operation_row list \<Rightarrow> route_draft" where
  "assemble_draft J row op_rows =
    \<lparr>d_id = RouteDraftId (dr_id row), d_activity_id = ActivityId (dr_activity_id row),
     d_owner_id = UserId (dr_owner_id row),
     base_route_version_id = dr_base_route_version_id row,
     revision = dr_revision row, geometry = json_to_geometry J (dr_geometry row),
     applied_operations = List.map_filter (entry_of_row J) (filter (\<lambda>r. \<not> or_is_undone r) op_rows),
     undone_operations = List.map_filter (entry_of_row J) (filter or_is_undone op_rows),
     d_state = parse_state (dr_state row),
     d_created_at = dr_created_at row, d_updated_at = dr_updated_at row\<rparr>"

definition load_draft_with_operations ::
  "'j serde \<Rightarrow> 'j draft_row \<Rightarrow> ('j draft_tables, route_draft, route_editing_error) sql" where
  "load_draft_with_operations J row =
    bindq (map_errq map_db_error (select (ordered_operations (dr_id row)))) (\<lambda>op_rows.
      returnq (assemble_draft J row op_rows))"

definition stored_operation :: "'j serde \<Rightarrow> operation_entry \<Rightarrow> 'j" where
  "stored_operation J e =
    stored_object J (operation_to_json J (oe_operation e)) (geometry_to_json J (geometry_before e))"

definition operation_row_of ::
  "'j serde \<Rightarrow> route_draft \<Rightarrow> nat \<Rightarrow> bool \<Rightarrow> operation_entry \<Rightarrow> 'j operation_row" where
  "operation_row_of J d seq undone e =
    \<lparr>or_draft_id = draft_uuid (d_id d), or_operation_id = operation_uuid (oe_id e),
     or_operation_type = operation_type_str (oe_operation e),
     or_operation_data = stored_operation J e,
     or_sequence_number = of_nat seq, or_is_undone = undone\<rparr>"

definition draft_row_of :: "'j serde \<Rightarrow> route_draft \<Rightarrow> 'j draft_row" where
  "draft_row_of J d =
    \<lparr>dr_id = draft_uuid (d_id d), dr_activity_id = activity_uuid (d_activity_id d),
     dr_owner_id = user_uuid (d_owner_id d),
     dr_base_route_version_id = base_route_version_id d,
     dr_revision = revision d, dr_geometry = geometry_to_json J (geometry d),
     dr_state = state_to_str (d_state d),
     dr_created_at = d_created_at d, dr_updated_at = d_updated_at d\<rparr>"

definition insert_draft ::
  "'j draft_row \<Rightarrow> 'j draft_tables \<Rightarrow> (unit, db_error) result \<times> 'j draft_tables" where
  "insert_draft row t =
    (if dr_id row \<in> dr_id ` set (drafts t) then (Err (UniqueViolation ''drafts_pkey''), t)
     else if dr_owner_id row \<notin> set (users t)
     then (Err (ForeignKeyViolation ''drafts_owner_id_fkey''), t)
     else (Ok (), t\<lparr>drafts := drafts t @ [row]\<rparr>))"

definition insert_operation ::
  "'j operation_row \<Rightarrow> 'j draft_tables \<Rightarrow> (unit, db_error) result \<times> 'j draft_tables" where
  "insert_operation row t =
    (if or_operation_id row \<in> or_operation_id ` set (draft_operations t)
     then (Err (UniqueViolation ''draft_operations_operation_id_key''), t)
     else if or_draft_id row \<notin> dr_id ` set (drafts t)
     then (Err (ForeignKeyViolation ''draft_operations_draft_id_fkey''), t)
     else (Ok (), t\<lparr>draft_operations := draft_operations t @ [row]\<rparr>))"

text \<open>\<open>ON CONFLICT (operation_id) DO UPDATE SET sequence_number, is_undone\<close>.\<close>

definition upsert_operation ::
  "'j operation_row \<Rightarrow> 'j draft_tables \<Rightarrow> (unit, db_error) result \<times> 'j draft_tables" where
  "upsert_operation row t =
    (if or_operation_id row \<in> or_operation_id ` set (draft_operations t)
     then (Ok (), t\<lparr>draft_operations := map (\<lambda>r.
        if or_operation_id r = or_operation_id row
        then r\<lparr>or_sequence_number := or_sequence_number row, or_is_undone := or_is_undone row\<rparr>
        else r) (draft_operations t)\<rparr>)
     else insert_operation row t)"

definition pg_save ::
  "'j serde \<Rightarrow> route_draft \<Rightarrow> ('j draft_tables, unit, route_editing_error) sql" where
  "pg_save J d =
    transaction map_db_error
      (bindq (map_errq map_db_error (query (insert_draft (draft_row_of J d)))) (\<lambda>_.
        for_each (\<lambda>(seq, e).
            map_errq map_db_error (query (insert_operation (operation_row_of J d seq False e))))
          (enumerate 0 (applied_operations d))))"

definition pg_find_by_id ::
  "'j serde \<Rightarrow> route_draft_id \<Rightarrow>
    ('j draft_tables, route_draft option, route_editing_error) sql" where
  "pg_find_by_id J i =
    bindq (map_errq map_db_error (select (\<lambda>t. find (\<lambda>r. dr_id r = draft_uuid i) (drafts t))))
      (\<lambda>row. case row of
          Some r \<Rightarrow> bindq (load_draft_with_operations J r) (\<lambda>d. returnq (Some d))
        | None \<Rightarrow> returnq None)"

definition pg_find_active_by_activity ::
  "'j serde \<Rightarrow> activity_id \<Rightarrow> user_id \<Rightarrow>
    ('j draft_tables, route_draft option, route_editing_error) sql" where
  "pg_find_active_by_activity J a u =
    bindq (map_errq map_db_error (select (\<lambda>t. find (\<lambda>r.
        dr_activity_id r = activity_uuid a \<and> dr_owner_id r = user_uuid u \<and>
        dr_state r = ''active'') (drafts t))))
      (\<lambda>row. case row of
          Some r \<Rightarrow> bindq (load_draft_with_operations J r) (\<lambda>d. returnq (Some d))
        | None \<Rightarrow> returnq None)"

text \<open>The statements of \<open>update\<close>, in order.\<close>

definition update_draft_row ::
  "'j serde \<Rightarrow> route_draft \<Rightarrow> 'j draft_tables \<Rightarrow> (nat, db_error) result \<times> 'j draft_tables" where
  "update_draft_row J d t =
    (let hit = (\<lambda>r. dr_id r = draft_uuid (d_id d) \<and> dr_revision r = revision d - 1) in
     (Ok (length (filter hit (drafts t))),
      t\<lparr>drafts := map (\<lambda>r. if hit r then
          r\<lparr>dr_revision := revision d, dr_geometry := geometry_to_json J (geometry d),
            dr_state := state_to_str (d_state d), dr_updated_at := d_updated_at d\<rparr> else r)
        (drafts t)\<rparr>))"

definition map_operations ::
  "('j operation_row \<Rightarrow> 'j operation_row) \<Rightarrow> 'j draft_tables \<Rightarrow> 'j draft_tables" where
  "map_operations f t = t\<lparr>draft_operations := map f (draft_operations t)\<rparr>"

definition mark_all_undone :: "uuid \<Rightarrow> 'j draft_tables \<Rightarrow> 'j draft_tables" where
  "mark_all_undone i =
    map_operations (\<lambda>r. if or_draft_id r = i \<and> \<not> or_is_undone r then r\<lparr>or_is_undone := True\<rparr> else r)"

definition mark_applied :: "uuid \<Rightarrow> uuid list \<Rightarrow> 'j draft_tables \<Rightarrow> 'j draft_tables" where
  "mark_applied i ids =
    map_operations (\<lambda>r. if or_draft_id r = i \<and> or_operation_id r \<in> set ids
      then r\<lparr>or_is_undone := False\<rparr> else r)"

definition delete_operations :: "uuid \<Rightarrow> uuid list \<Rightarrow> 'j draft_tables \<Rightarrow> 'j draft_tables" where
  "delete_operations i keep t =
    t\<lparr>draft_operations :=
       filter (\<lambda>r. \<not> (or_draft_id r = i \<and> or_operation_id r \<notin> set keep)) (draft_operations t)\<rparr>"

definition entry_ids :: "operation_entry list \<Rightarrow> uuid list" where
  "entry_ids es = map (\<lambda>e. operation_uuid (oe_id e)) es"

definition upsert_entry ::
  "'j serde \<Rightarrow> route_draft \<Rightarrow> bool \<Rightarrow> nat \<times> operation_entry \<Rightarrow>
    ('j draft_tables, unit, route_editing_error) sql" where
  "upsert_entry J d undone = (\<lambda>(seq, e).
    map_errq map_db_error (query (upsert_operation (operation_row_of J d seq undone e))))"

definition rewrite_operations ::
  "'j serde \<Rightarrow> route_draft \<Rightarrow> ('j draft_tables, unit, route_editing_error) sql" where
  "rewrite_operations J d =
    bindq (map_errq map_db_error (modify (mark_all_undone (draft_uuid (d_id d))))) (\<lambda>_.
    bindq (if applied_operations d = [] then returnq ()
           else map_errq map_db_error (modify (mark_applied (draft_uuid (d_id d))
                  (entry_ids (applied_operations d))))) (\<lambda>_.
    bindq (for_each (upsert_entry J d False) (enumerate 0 (applied_operations d))) (\<lambda>_.
    bindq (for_each (upsert_entry J d True)
             (enumerate (length (applied_operations d)) (undone_operations d))) (\<lambda>_.
    map_errq map_db_error (modify (delete_operations (draft_uuid (d_id d))
      (entry_ids (applied_operations d @ undone_operations d))))))))"

definition pg_update ::
  "'j serde \<Rightarrow> route_draft \<Rightarrow> ('j draft_tables, unit, route_editing_error) sql" where
  "pg_update J d =
    transaction map_db_error
      (bindq (map_errq map_db_error (query (update_draft_row J d))) (\<lambda>rows_affected.
       if rows_affected = 0 then failq (RevisionConflict (revision d - 1) (revision d))
       else rewrite_operations J d))"

definition pg_find_by_operation_id ::
  "operation_id \<Rightarrow> ('j draft_tables, route_draft_id option, route_editing_error) sql" where
  "pg_find_by_operation_id i =
    bindq (map_errq map_db_error
        (select (\<lambda>t. find (\<lambda>r. or_operation_id r = operation_uuid i) (draft_operations t))))
      (\<lambda>row. returnq (map_option (\<lambda>r. RouteDraftId (or_draft_id r)) row))"

section \<open>The repository interface\<close>

text \<open>\<open>&dyn RouteDraftRepository\<close>: the methods as functions on the state behind it.\<close>

record 's draft_repository =
  repo_save :: "route_draft \<Rightarrow> 's \<Rightarrow> (unit, route_editing_error) result \<times> 's"
  repo_find_by_id :: "route_draft_id \<Rightarrow> 's \<Rightarrow> (route_draft option, route_editing_error) result \<times> 's"
  repo_find_active ::
    "activity_id \<Rightarrow> user_id \<Rightarrow> 's \<Rightarrow> (route_draft option, route_editing_error) result \<times> 's"
  repo_update :: "route_draft \<Rightarrow> 's \<Rightarrow> (unit, route_editing_error) result \<times> 's"
  repo_find_by_operation_id ::
    "operation_id \<Rightarrow> 's \<Rightarrow> (route_draft_id option, route_editing_error) result \<times> 's"

definition PgRouteDraftRepository :: "'j serde \<Rightarrow> 'j draft_tables db draft_repository" where
  "PgRouteDraftRepository J =
    \<lparr>repo_save = pg_save J, repo_find_by_id = pg_find_by_id J,
     repo_find_active = pg_find_active_by_activity J, repo_update = pg_update J,
     repo_find_by_operation_id = pg_find_by_operation_id\<rparr>"

section \<open>Gateways\<close>

record 's activity_gateway =
  validate_activity_for_draft ::
    "activity_id \<Rightarrow> user_id \<Rightarrow> 's \<Rightarrow> (unit, route_editing_error) result \<times> 's"

record 's route_version_gateway =
  validate_route_version_exists ::
    "uuid \<Rightarrow> activity_id \<Rightarrow> 's \<Rightarrow> (unit, route_editing_error) result \<times> 's"
  get_route_version_geometry ::
    "uuid \<Rightarrow> activity_id \<Rightarrow> 's \<Rightarrow> (geometry, route_editing_error) result \<times> 's"

text \<open>The production gateways are placeholders.\<close>

definition PgActivityGateway :: "'s activity_gateway" where
  "PgActivityGateway = \<lparr>validate_activity_for_draft = (\<lambda>_ _ s. (Ok (), s))\<rparr>"

definition PgRouteVersionGateway :: "'s route_version_gateway" where
  "PgRouteVersionGateway =
    \<lparr>validate_route_version_exists = (\<lambda>_ _ s. (Ok (), s)),
     get_route_version_geometry = (\<lambda>_ _ s. (Ok [[]], s))\<rparr>"

section \<open>The contract of the repository\<close>

text \<open>
  What a client of the repository can rely on: a view of the stored drafts by id, changed by
  \<open>save\<close> and \<open>update\<close> alone and only when they succeed, where an update succeeds only on the
  row whose revision is the one before the draft's.  \<open>canon\<close> is what an encoding round trip
  makes of a geometry.
\<close>

record draft_head =
  h_activity :: activity_id
  h_owner :: user_id
  h_base :: "uuid option"
  h_revision :: u64
  h_geometry :: geometry
  h_state :: draft_state

definition head_of :: "route_draft \<Rightarrow> draft_head" where
  "head_of d = \<lparr>h_activity = d_activity_id d, h_owner = d_owner_id d,
     h_base = base_route_version_id d, h_revision = revision d, h_geometry = geometry d,
     h_state = d_state d\<rparr>"

lemma head_of_simps [simp]:
  "h_activity (head_of d) = d_activity_id d"
  "h_owner (head_of d) = d_owner_id d"
  "h_base (head_of d) = base_route_version_id d"
  "h_revision (head_of d) = revision d"
  "h_geometry (head_of d) = geometry d"
  "h_state (head_of d) = d_state d"
  by (simp_all add: head_of_def)

locale draft_store =
  fixes R :: "'s draft_repository"
    and inv :: "'s \<Rightarrow> bool"
    and view :: "'s \<Rightarrow> route_draft_id \<Rightarrow> draft_head option"
    and canon :: "geometry \<Rightarrow> geometry"
  assumes save_inv: "repo_save R d s = (r, s') \<Longrightarrow> inv s \<Longrightarrow> inv s'"
    and update_inv: "repo_update R d s = (r, s') \<Longrightarrow> inv s \<Longrightarrow> inv s'"
    and find_inv: "repo_find_by_id R i s = (q, s') \<Longrightarrow> inv s \<Longrightarrow> inv s' \<and> view s' = view s"
    and find_active_inv:
      "repo_find_active R a u s = (q, s') \<Longrightarrow> inv s \<Longrightarrow> inv s' \<and> view s' = view s"
    and find_op_inv:
      "repo_find_by_operation_id R j s = (p, s') \<Longrightarrow> inv s \<Longrightarrow> inv s' \<and> view s' = view s"
    and save_Ok: "repo_save R d s = (Ok (), s') \<Longrightarrow> inv s \<Longrightarrow>
      view s (d_id d) = None \<and>
      view s' = (view s)(d_id d \<mapsto> (head_of d)\<lparr>h_geometry := canon (geometry d)\<rparr>)"
    and save_Err: "repo_save R d s = (Err e, s') \<Longrightarrow> inv s \<Longrightarrow> view s' = view s"
    and find_Some: "repo_find_by_id R i s = (Ok (Some d), s') \<Longrightarrow> inv s \<Longrightarrow>
      d_id d = i \<and> view s i = Some (head_of d)"
    and find_None: "repo_find_by_id R i s = (Ok None, s') \<Longrightarrow> inv s \<Longrightarrow> view s i = None"
    and find_active_Some: "repo_find_active R a u s = (Ok (Some d), s') \<Longrightarrow> inv s \<Longrightarrow>
      view s (d_id d) = Some (head_of d) \<and> d_activity_id d = a \<and> d_owner_id d = u \<and>
      d_state d = Active"
    and update_Ok: "repo_update R d s = (Ok (), s') \<Longrightarrow> inv s \<Longrightarrow>
      (\<exists>h. view s (d_id d) = Some h \<and> h_revision h = revision d - 1 \<and>
        view s' = (view s)(d_id d \<mapsto>
          h\<lparr>h_revision := revision d, h_geometry := canon (geometry d), h_state := d_state d\<rparr>))"
    and update_Err: "repo_update R d s = (Err e, s') \<Longrightarrow> inv s \<Longrightarrow> view s' = view s"
begin

text \<open>Of two updates computed from the same stored revision only the first can succeed.\<close>

lemma stale_update_refused:
  assumes "inv s" and "repo_update R d s = (Ok (), s1)" and "repo_update R d' s1 = (r, s2)"
    and "d_id d' = d_id d" and "revision d' = revision d"
  shows "\<exists>e. r = Err e \<and> view s2 = view s1"
proof (cases r)
  case (Err e)
  with assms update_Err [of d' s1 e s2] update_inv [of d s "Ok ()" s1] show ?thesis by auto
next
  case (Ok u)
  have inv1: "inv s1" using update_inv [OF assms(2,1)] .
  from update_Ok [OF assms(2,1)] have "\<exists>h. view s1 (d_id d) = Some h \<and> h_revision h = revision d"
    by auto
  moreover from Ok update_Ok [of d' s1 s2] assms(3-5) inv1
  have "\<exists>h. view s1 (d_id d) = Some h \<and> h_revision h = revision d - 1" by auto
  ultimately have "revision d = revision d - 1" by auto
  then show ?thesis by simp
qed

text \<open>A draft read from the store and written back without a new revision is refused.\<close>

lemma unbumped_update_refused:
  assumes "inv s" and "view s (d_id d) = Some h" and "h_revision h = revision d"
    and "repo_update R d s = (r, s')"
  shows "\<exists>e. r = Err e \<and> view s' = view s"
proof (cases r)
  case (Err e)
  with assms update_Err show ?thesis by blast
next
  case (Ok u)
  with assms update_Ok [of d s s'] have "revision d = revision d - 1" by auto
  then show ?thesis by simp
qed

end

section \<open>PostgreSQL implements the contract\<close>

definition unique_drafts :: "'j draft_tables db \<Rightarrow> bool" where
  "unique_drafts db \<longleftrightarrow> distinct (map dr_id (drafts (tables db)))"

definition head_of_row :: "'j serde \<Rightarrow> 'j draft_row \<Rightarrow> draft_head" where
  "head_of_row J r =
    \<lparr>h_activity = ActivityId (dr_activity_id r), h_owner = UserId (dr_owner_id r),
     h_base = dr_base_route_version_id r, h_revision = dr_revision r,
     h_geometry = json_to_geometry J (dr_geometry r), h_state = parse_state (dr_state r)\<rparr>"

definition rows_view :: "'j serde \<Rightarrow> 'j draft_row list \<Rightarrow> route_draft_id \<Rightarrow> draft_head option" where
  "rows_view J rows i = map_option (head_of_row J) (find (\<lambda>r. dr_id r = draft_uuid i) rows)"

definition pg_view ::
  "'j serde \<Rightarrow> 'j draft_tables db \<Rightarrow> route_draft_id \<Rightarrow> draft_head option" where
  "pg_view J db = rows_view J (drafts (tables db))"

definition pg_canon :: "'j serde \<Rightarrow> geometry \<Rightarrow> geometry" where
  "pg_canon J g = json_to_geometry J (geometry_to_json J g)"

lemma parse_state_to_str [simp]: "parse_state (state_to_str s) = s"
  by (cases s) (simp_all add: parse_state_def)

lemma head_of_assemble [simp]: "head_of (assemble_draft J r ops) = head_of_row J r"
  by (simp add: head_of_def head_of_row_def assemble_draft_def)

lemma load_draft_Ok [sql_simps]:
  "load_draft_with_operations J r db = (Ok d, db') \<Longrightarrow>
    d = assemble_draft J r (ordered_operations (dr_id r) (tables db))"
  by (auto simp: load_draft_with_operations_def bindq_Ok map_errq_Ok select_Ok)

lemma find_reads_only:
  "reads_only (pg_find_by_id J i)"
  "reads_only (pg_find_active_by_activity J a u)"
  "reads_only (pg_find_by_operation_id j)"
  unfolding pg_find_by_id_def pg_find_active_by_activity_def pg_find_by_operation_id_def
    load_draft_with_operations_def
  by (intro keeps_bindq keeps_option keeps_map_errq keeps_select keeps_returnq)+

lemmas pg_find_tables =
  keepsD [OF find_reads_only(1)] keepsD [OF find_reads_only(2)] keepsD [OF find_reads_only(3)]

lemma find_eq_Some: "find P xs = Some x \<Longrightarrow> P x \<and> x \<in> set xs"
  by (metis find_Some_iff nth_mem)

lemma find_by_key:
  "distinct (map k xs) \<Longrightarrow> x \<in> set xs \<Longrightarrow> find (\<lambda>y. k y = k x) xs = Some x"
  by (induction xs) auto

lemma find_map_same_key:
  assumes "\<And>r. k (f r) = k r"
  shows "find (\<lambda>r. k r = i) (map f xs) = map_option f (find (\<lambda>r. k r = i) xs)"
  using assms by (induction xs) auto

lemma find_append: "find P (xs @ ys) = (case find P xs of None \<Rightarrow> find P ys | Some x \<Rightarrow> Some x)"
  by (induction xs) auto

lemma operations_keep_drafts:
  "keeps drafts (query (insert_operation row))"
  "keeps drafts (query (upsert_operation row))"
  "keeps drafts (modify (mark_all_undone i))"
  "keeps drafts (modify (mark_applied i ids))"
  "keeps drafts (modify (delete_operations i ids))"
  by (auto simp: insert_operation_def upsert_operation_def mark_all_undone_def mark_applied_def
      delete_operations_def map_operations_def)

lemma upsert_entry_keeps_drafts: "keeps drafts (upsert_entry J d b x)"
  unfolding upsert_entry_def by (cases x) (auto simp: operations_keep_drafts)

lemma rewrite_operations_keeps_drafts: "keeps drafts (rewrite_operations J d)"
  unfolding rewrite_operations_def
  by (intro keeps_bindq keeps_map_errq keeps_if keeps_returnq keeps_for_each
      operations_keep_drafts upsert_entry_keeps_drafts)

lemma pg_update_Ok:
  assumes "pg_update J d db = (Ok (), db')"
  shows "(\<exists>r\<in>set (drafts (tables db)). dr_id r = draft_uuid (d_id d) \<and> dr_revision r = revision d - 1) \<and>
    drafts (tables db') = drafts (snd (update_draft_row J d (tables db)))"
  using assms unfolding pg_update_def
proof (rule transaction_query_Ok)
  fix n db1 db2
  assume upd: "update_draft_row J d (tables db) = (Ok n, tables db1)"
    and body: "(if n = 0 then failq (RevisionConflict (revision d - 1) (revision d))
      else rewrite_operations J d) db1 = (Ok (), db2)"
    and db': "tables db' = tables db2"
  from body have "n \<noteq> 0" and "rewrite_operations J d db1 = (Ok (), db2)"
    by (auto split: if_splits)
  with upd db' keepsD [OF rewrite_operations_keeps_drafts] show ?thesis
    by (auto simp: update_draft_row_def Let_def filter_empty_conv)
qed

lemma pg_update_Err: "pg_update J d db = (Err e, db') \<Longrightarrow> tables db' = tables db"
  unfolding pg_update_def by (rule transaction_Err)

lemma pg_save_Ok:
  assumes "pg_save J d db = (Ok (), db')"
  shows "draft_uuid (d_id d) \<notin> dr_id ` set (drafts (tables db)) \<and>
    drafts (tables db') = drafts (tables db) @ [draft_row_of J d]"
  using assms unfolding pg_save_def
proof (rule transaction_query_Ok)
  let ?ops = "for_each (\<lambda>(seq, e).
      map_errq map_db_error (query (insert_operation (operation_row_of J d seq False e))))
    (enumerate 0 (applied_operations d))"
  fix x db1 db2
  assume ins: "insert_draft (draft_row_of J d) (tables db) = (Ok x, tables db1)"
    and ops: "?ops db1 = (Ok (), db2)" and db': "tables db' = tables db2"
  have "keeps drafts ?ops"
    by (rule keeps_for_each) (auto simp: operations_keep_drafts)
  from keepsD [OF this ops] db' have "drafts (tables db') = drafts (tables db1)" by simp
  moreover have "tables db1 = snd (insert_draft (draft_row_of J d) (tables db))"
    and "fst (insert_draft (draft_row_of J d) (tables db)) = Ok x" by (simp_all add: ins)
  ultimately show ?thesis
    by (auto simp: insert_draft_def draft_row_of_def split: if_splits)
qed

lemma pg_save_Err: "pg_save J d db = (Err e, db') \<Longrightarrow> tables db' = tables db"
  unfolding pg_save_def by (rule transaction_Err)

lemma rows_view_update:
  assumes "distinct (map dr_id (drafts t))"
    and "r \<in> set (drafts t)" and "dr_id r = draft_uuid (d_id d)" and "dr_revision r = revision d - 1"
  shows "rows_view J (drafts (snd (update_draft_row J d t))) =
    (rows_view J (drafts t))(d_id d \<mapsto> (head_of_row J r)\<lparr>h_revision := revision d,
       h_geometry := pg_canon J (geometry d), h_state := d_state d\<rparr>)"
proof
  fix i
  let ?f = "\<lambda>r. if dr_id r = draft_uuid (d_id d) \<and> dr_revision r = revision d - 1 then
      r\<lparr>dr_revision := revision d, dr_geometry := geometry_to_json J (geometry d),
        dr_state := state_to_str (d_state d), dr_updated_at := d_updated_at d\<rparr> else r"
  have upd: "drafts (snd (update_draft_row J d t)) = map ?f (drafts t)"
    by (simp add: update_draft_row_def Let_def)
  have look: "find (\<lambda>r. dr_id r = draft_uuid i) (map ?f (drafts t)) =
      map_option ?f (find (\<lambda>r. dr_id r = draft_uuid i) (drafts t))"
    by (rule find_map_same_key) simp
  show "rows_view J (drafts (snd (update_draft_row J d t))) i =
    ((rows_view J (drafts t))(d_id d \<mapsto> (head_of_row J r)\<lparr>h_revision := revision d,
       h_geometry := pg_canon J (geometry d), h_state := d_state d\<rparr>)) i"
  proof (cases "i = d_id d")
    case True
    with find_by_key [OF assms(1,2)] assms(3)
    have "find (\<lambda>r. dr_id r = draft_uuid i) (drafts t) = Some r" by simp
    with look have "find (\<lambda>r. dr_id r = draft_uuid i) (map ?f (drafts t)) = Some (?f r)"
      by simp
    with True assms(3,4) show ?thesis
      unfolding upd rows_view_def by (simp add: head_of_row_def pg_canon_def)
  next
    case False
    then have "draft_uuid i \<noteq> draft_uuid (d_id d)" by (metis route_draft_id.collapse)
    then have "map_option ?f (find (\<lambda>r. dr_id r = draft_uuid i) (drafts t)) =
        find (\<lambda>r. dr_id r = draft_uuid i) (drafts t)"
      by (cases "find (\<lambda>r. dr_id r = draft_uuid i) (drafts t)") (auto dest: find_eq_Some)
    with False show ?thesis by (simp add: upd rows_view_def look)
  qed
qed

lemma rows_view_save:
  assumes "draft_uuid (d_id d) \<notin> dr_id ` set rows"
  shows "rows_view J rows (d_id d) = None"
    and "rows_view J (rows @ [draft_row_of J d]) =
      (rows_view J rows)(d_id d \<mapsto> (head_of d)\<lparr>h_geometry := pg_canon J (geometry d)\<rparr>)"
proof -
  have none: "find (\<lambda>r. dr_id r = draft_uuid (d_id d)) rows = None"
    using assms by (force simp: find_None_iff)
  then show "rows_view J rows (d_id d) = None" by (simp add: rows_view_def)
  show "rows_view J (rows @ [draft_row_of J d]) =
      (rows_view J rows)(d_id d \<mapsto> (head_of d)\<lparr>h_geometry := pg_canon J (geometry d)\<rparr>)"
  proof
    fix i
    show "rows_view J (rows @ [draft_row_of J d]) i =
      ((rows_view J rows)(d_id d \<mapsto> (head_of d)\<lparr>h_geometry := pg_canon J (geometry d)\<rparr>)) i"
      using none by (cases "i = d_id d")
        (auto simp: rows_view_def find_append draft_row_of_def head_of_row_def head_of_def
          pg_canon_def split: option.splits intro: route_draft_id.expand)
  qed
qed

lemma pg_find_Some:
  assumes "pg_find_by_id J i db = (Ok (Some d), db')"
  obtains r where "find (\<lambda>r. dr_id r = draft_uuid i) (drafts (tables db)) = Some r"
    and "dr_id r = draft_uuid i"
    and "d = assemble_draft J r (ordered_operations (dr_id r) (tables db))"
  using assms unfolding pg_find_by_id_def
  by (auto simp: bindq_Ok map_errq_Ok select_Ok split: option.splits
      dest!: load_draft_Ok dest: find_eq_Some)

lemma pg_find_active_Some:
  assumes "pg_find_active_by_activity J a u db = (Ok (Some d), db')"
  obtains r where "r \<in> set (drafts (tables db))" and "dr_activity_id r = activity_uuid a"
    and "dr_owner_id r = user_uuid u" and "dr_state r = ''active''"
    and "d = assemble_draft J r (ordered_operations (dr_id r) (tables db))"
  using assms unfolding pg_find_active_by_activity_def
  by (auto simp: bindq_Ok map_errq_Ok select_Ok split: option.splits
      dest!: load_draft_Ok find_eq_Some)

lemma pg_find_None:
  assumes "pg_find_by_id J i db = (Ok None, db')"
  shows "find (\<lambda>r. dr_id r = draft_uuid i) (drafts (tables db)) = None"
  using assms unfolding pg_find_by_id_def
  by (auto simp: bindq_Ok map_errq_Ok select_Ok split: option.splits)

lemma update_row_ids:
  "map dr_id (drafts (snd (update_draft_row J d t))) = map dr_id (drafts t)"
  by (auto simp: update_draft_row_def Let_def)

lemma assemble_id [simp]: "d_id (assemble_draft J r ops) = RouteDraftId (dr_id r)"
  by (simp add: assemble_draft_def)

lemma pg_update_inv: "pg_update J d db = (r, db') \<Longrightarrow> unique_drafts db \<Longrightarrow> unique_drafts db'"
  using pg_update_Ok [of J d db db'] pg_update_Err [of J d db _ db']
  by (cases r) (auto simp: unique_drafts_def update_row_ids)

lemma pg_save_inv: "pg_save J d db = (r, db') \<Longrightarrow> unique_drafts db \<Longrightarrow> unique_drafts db'"
  using pg_save_Ok [of J d db db'] pg_save_Err [of J d db _ db']
  by (cases r) (auto simp: unique_drafts_def draft_row_of_def)

lemma pg_update_view:
  assumes "pg_update J d db = (Ok (), db')" and "unique_drafts db"
  shows "\<exists>h. pg_view J db (d_id d) = Some h \<and> h_revision h = revision d - 1 \<and>
    pg_view J db' = (pg_view J db)(d_id d \<mapsto> h\<lparr>h_revision := revision d,
      h_geometry := pg_canon J (geometry d), h_state := d_state d\<rparr>)"
proof -
  from pg_update_Ok [OF assms(1)] obtain r where r: "r \<in> set (drafts (tables db))"
      "dr_id r = draft_uuid (d_id d)" "dr_revision r = revision d - 1"
    and upd: "drafts (tables db') = drafts (snd (update_draft_row J d (tables db)))" by blast
  from assms(2) have dist: "distinct (map dr_id (drafts (tables db)))"
    by (simp add: unique_drafts_def)
  from find_by_key [OF dist r(1)] r(2)
  have "pg_view J db (d_id d) = Some (head_of_row J r)" by (simp add: pg_view_def rows_view_def)
  with rows_view_update [OF dist r, of J] upd r(3) show ?thesis
    by (simp add: pg_view_def head_of_row_def)
qed

interpretation pg: draft_store "PgRouteDraftRepository J" unique_drafts "pg_view J" "pg_canon J"
  for J :: "'j serde"
proof
  fix d r s s'
  assume "repo_save (PgRouteDraftRepository J) d s = (r, s')" "unique_drafts s"
  then show "unique_drafts s'" by (auto simp: PgRouteDraftRepository_def dest: pg_save_inv)
next
  fix d r s s'
  assume "repo_update (PgRouteDraftRepository J) d s = (r, s')" "unique_drafts s"
  then show "unique_drafts s'" by (auto simp: PgRouteDraftRepository_def dest: pg_update_inv)
next
  fix i q s s'
  assume "repo_find_by_id (PgRouteDraftRepository J) i s = (q, s')" "unique_drafts s"
  then show "unique_drafts s' \<and> pg_view J s' = pg_view J s"
    by (simp add: PgRouteDraftRepository_def unique_drafts_def pg_view_def pg_find_tables(1))
next
  fix a u q s s'
  assume "repo_find_active (PgRouteDraftRepository J) a u s = (q, s')" "unique_drafts s"
  then show "unique_drafts s' \<and> pg_view J s' = pg_view J s"
    by (simp add: PgRouteDraftRepository_def unique_drafts_def pg_view_def pg_find_tables(2))
next
  fix j p s s'
  assume "repo_find_by_operation_id (PgRouteDraftRepository J) j s = (p, s')" "unique_drafts s"
  then show "unique_drafts s' \<and> pg_view J s' = pg_view J s"
    by (simp add: PgRouteDraftRepository_def unique_drafts_def pg_view_def pg_find_tables(3))
next
  fix d s s'
  assume "repo_save (PgRouteDraftRepository J) d s = (Ok (), s')"
  then show "pg_view J s (d_id d) = None \<and> pg_view J s' =
      (pg_view J s)(d_id d \<mapsto> (head_of d)\<lparr>h_geometry := pg_canon J (geometry d)\<rparr>)"
    using pg_save_Ok [of J d s s'] by (simp add: PgRouteDraftRepository_def pg_view_def rows_view_save)
next
  fix d s s' e
  assume "repo_save (PgRouteDraftRepository J) d s = (Err e, s')"
  then show "pg_view J s' = pg_view J s"
    by (auto simp: PgRouteDraftRepository_def pg_view_def dest: pg_save_Err)
next
  fix i d s s'
  assume "repo_find_by_id (PgRouteDraftRepository J) i s = (Ok (Some d), s')"
  then show "d_id d = i \<and> pg_view J s i = Some (head_of d)"
    by (auto simp: PgRouteDraftRepository_def pg_view_def rows_view_def elim!: pg_find_Some)
next
  fix i s s'
  assume "repo_find_by_id (PgRouteDraftRepository J) i s = (Ok None, s')"
  then show "pg_view J s i = None"
    by (auto simp: PgRouteDraftRepository_def pg_view_def rows_view_def dest: pg_find_None)
next
  fix a u d s s'
  assume "repo_find_active (PgRouteDraftRepository J) a u s = (Ok (Some d), s')" "unique_drafts s"
  then show "pg_view J s (d_id d) = Some (head_of d) \<and> d_activity_id d = a \<and> d_owner_id d = u \<and>
      d_state d = Active"
    by (auto simp: PgRouteDraftRepository_def pg_view_def rows_view_def unique_drafts_def
        parse_state_def assemble_draft_def head_of_def head_of_row_def find_by_key
        elim!: pg_find_active_Some)
next
  fix d s s'
  assume "repo_update (PgRouteDraftRepository J) d s = (Ok (), s')" "unique_drafts s"
  then show "\<exists>h. pg_view J s (d_id d) = Some h \<and> h_revision h = revision d - 1 \<and>
    pg_view J s' = (pg_view J s)(d_id d \<mapsto> h\<lparr>h_revision := revision d,
      h_geometry := pg_canon J (geometry d), h_state := d_state d\<rparr>)"
    by (auto simp: PgRouteDraftRepository_def dest: pg_update_view)
next
  fix d s s' e
  assume "repo_update (PgRouteDraftRepository J) d s = (Err e, s')"
  then show "pg_view J s' = pg_view J s"
    by (auto simp: PgRouteDraftRepository_def pg_view_def dest: pg_update_Err)
qed

section \<open>Evaluation without faults\<close>

lemma query_run: "faults db = [] \<Longrightarrow> q (tables db) = (Ok x, t) \<Longrightarrow>
    map_errq f (query q) db = (Ok x, db\<lparr>tables := t\<rparr>)"
  by (simp add: map_errq_def query_faultless)

lemma select_run: "faults db = [] \<Longrightarrow> map_errq f (select g) db = (Ok (g (tables db)), db)"
  by (simp add: map_errq_def select_faultless)

lemma modify_run:
  "faults db = [] \<Longrightarrow> map_errq f (modify g) db = (Ok (), db\<lparr>tables := g (tables db)\<rparr>)"
  by (simp add: map_errq_def modify_faultless)

lemma load_run:
  "faults db = [] \<Longrightarrow> load_draft_with_operations J r db =
    (Ok (assemble_draft J r (ordered_operations (dr_id r) (tables db))), db)"
  by (simp add: load_draft_with_operations_def bindq_eval select_run)

lemma find_run:
  "faults db = [] \<Longrightarrow> find (\<lambda>r. dr_id r = draft_uuid i) (drafts (tables db)) = Some r \<Longrightarrow>
    pg_find_by_id J i db =
      (Ok (Some (assemble_draft J r (ordered_operations (dr_id r) (tables db)))), db)"
  by (simp add: pg_find_by_id_def bindq_eval [OF select_run] bindq_eval [OF load_run])

lemma update_conflict_run:
  assumes "faults db = []"
    and "\<And>r. r \<in> set (drafts (tables db)) \<Longrightarrow> dr_id r = draft_uuid (d_id d) \<Longrightarrow>
      dr_revision r \<noteq> revision d - 1"
  shows "pg_update J d db = (Err (RevisionConflict (revision d - 1) (revision d)), db)"
proof -
  have "fst (update_draft_row J d (tables db)) = Ok 0"
    using assms(2) by (auto simp: update_draft_row_def Let_def filter_empty_conv)
  then obtain t where t: "update_draft_row J d (tables db) = (Ok 0, t)"
    by (metis prod.collapse)
  have "map_errq map_db_error (query (update_draft_row J d)) db = (Ok 0, db\<lparr>tables := t\<rparr>)"
    using assms(1) t by (rule query_run)
  then show ?thesis
    unfolding pg_update_def
    by (subst transaction_faultless_Err [OF assms(1)]) (auto simp: bindq_def)
qed

section \<open>A sample encoding and database\<close>

datatype sample_json =
  SNull | SArray | SGeometry geometry | SOperation route_operation | SObject sample_json sample_json

fun sample_geometry_from :: "sample_json \<Rightarrow> geometry option" where
  "sample_geometry_from (SGeometry g) = Some g"
| "sample_geometry_from _ = None"

fun sample_operation_from :: "sample_json \<Rightarrow> route_operation option" where
  "sample_operation_from (SOperation p) = Some p"
| "sample_operation_from _ = None"

fun sample_stored_from :: "sample_json \<Rightarrow> (sample_json \<times> sample_json) option" where
  "sample_stored_from (SObject a b) = Some (a, b)"
| "sample_stored_from _ = None"

definition sample_serde :: "sample_json serde" where
  "sample_serde = \<lparr>json_null = SNull, json_empty_array = SArray,
     geometry_to_value = (\<lambda>g. Some (SGeometry g)), geometry_from_value = sample_geometry_from,
     operation_to_value = (\<lambda>p. Some (SOperation p)), operation_from_value = sample_operation_from,
     stored_object = SObject, stored_from_value = sample_stored_from\<rparr>"

definition sample_db :: "sample_json draft_tables db" where
  "sample_db = \<lparr>tables = \<lparr>drafts = [draft_row_of sample_serde sample_draft],
     draft_operations = [], users = [3]\<rparr>, faults = []\<rparr>"

text \<open>The database after the sample edit and its undo have been stored.\<close>

definition sample_undone :: route_draft where
  "sample_undone = snd (undo 12 sample_edited 1)"

definition sample_db_undone :: "sample_json draft_tables db" where
  "sample_db_undone =
    snd (pg_update sample_serde sample_undone (snd (pg_update sample_serde sample_edited sample_db)))"

section \<open>Properties\<close>

text \<open>C9. Optimistic locking in the database: of two drafts of the same id and revision, written one
  after the other whatever faults occur, at most the first is stored; the second leaves the
  stored drafts as the first made them.\<close>

theorem pg_concurrent_update_refused:
  assumes "unique_drafts db" and "pg_update J d db = (Ok (), db1)" and "pg_update J d' db1 = (r, db2)"
    and "d_id d' = d_id d" and "revision d' = revision d"
  shows "\<exists>e. r = Err e \<and> pg_view J db2 = pg_view J db1"
  using pg.stale_update_refused [of db J d db1 d' r db2] assms
  by (simp add: PgRouteDraftRepository_def)

text \<open>A draft that is published or discarded through the aggregate keeps its revision, so the
  repository, which looks for the revision before it, refuses to store the new state: the row
  stays active, whatever the revision, and the caller gets a revision conflict.\<close>

theorem pg_discard_not_stored:
  assumes "unique_drafts db" and "faults db = []"
    and "pg_find_by_id J (d_id d) db = (Ok (Some d), db)"
    and "discard now d = (Ok (), d') \<or> publish now d = (Ok (), d')"
  shows "pg_update J d' db = (Err (RevisionConflict (revision d - 1) (revision d)), db) \<and>
    pg_view J db (d_id d) = Some (head_of d) \<and> d_state d = Active"
proof -
  from assms(4) have d': "d_id d' = d_id d" "revision d' = revision d" "d_state d = Active"
    by (auto simp: discard_Ok publish_Ok)
  have view: "pg_view J db (d_id d) = Some (head_of d)"
    using pg.find_Some [of J "d_id d" db d db] assms(1,3) by (simp add: PgRouteDraftRepository_def)
  have "dr_revision r \<noteq> revision d' - 1"
    if "r \<in> set (drafts (tables db))" and "dr_id r = draft_uuid (d_id d')" for r
  proof -
    have "find (\<lambda>x. dr_id x = dr_id r) (drafts (tables db)) = Some r"
      using assms(1) that(1) by (simp add: unique_drafts_def find_by_key)
    with that(2) view d' have "dr_revision r = revision d"
      by (simp add: pg_view_def rows_view_def head_of_row_def head_of_def)
    then show ?thesis using d'(2) by simp
  qed
  from update_conflict_run [OF assms(2) this] view d' show ?thesis by simp
qed

lemma sample_db_unique: "unique_drafts sample_db"
  by (simp add: unique_drafts_def sample_db_def)

lemma sample_db_find:
  "pg_find_by_id sample_serde (RouteDraftId 1) sample_db = (Ok (Some sample_draft), sample_db)"
  by (subst find_run [where r = "draft_row_of sample_serde sample_draft"])
    (simp_all add: sample_db_def draft_row_of_def sample_draft_def
      assemble_draft_def ordered_operations_def geometry_to_json_def json_to_geometry_def
      sample_serde_def parse_state_def map_filter_def)

theorem pg_discard_not_stored_witness:
  "pg_update sample_serde (sample_draft\<lparr>d_state := Discarded, d_updated_at := 20\<rparr>) sample_db =
    (Err (RevisionConflict (- 1) 0), sample_db)"
  using pg_discard_not_stored [OF sample_db_unique, of sample_serde sample_draft 20
      "sample_draft\<lparr>d_state := Discarded, d_updated_at := 20\<rparr>"] sample_db_find
  by (simp add: discard_Ok) (simp add: sample_db_def sample_draft_def)

lemma sample_update_ok:
  "pg_update sample_serde sample_edited sample_db =
    (Ok (), \<lparr>tables = \<lparr>drafts = [draft_row_of sample_serde sample_edited],
       draft_operations = [operation_row_of sample_serde sample_edited 0 False
          (last (applied_operations sample_edited))], users = [3]\<rparr>, faults = []\<rparr>)"
  unfolding pg_update_def
  by (rule transaction_faultless)
    (simp_all add: sample_db_def sample_edited_def record_operation_def sample_draft_def
      bindq_def map_errq_def query_faultless modify_faultless rewrite_operations_def
      update_draft_row_def draft_row_of_def mark_all_undone_def mark_applied_def
      map_operations_def upsert_entry_def upsert_operation_def insert_operation_def
      operation_row_of_def delete_operations_def entry_ids_def)

theorem pg_concurrent_update_refused_witness:
  "\<exists>e db2. pg_update sample_serde sample_edited (snd (pg_update sample_serde sample_edited sample_db))
      = (Err e, db2) \<and>
    pg_view sample_serde db2 = pg_view sample_serde (snd (pg_update sample_serde sample_edited sample_db))"
proof -
  let ?db1 = "snd (pg_update sample_serde sample_edited sample_db)"
  obtain r db2 where r: "pg_update sample_serde sample_edited ?db1 = (r, db2)" by fastforce
  have "pg_update sample_serde sample_edited sample_db = (Ok (), ?db1)"
    by (simp add: sample_update_ok)
  from pg_concurrent_update_refused [OF sample_db_unique this r] r show ?thesis by auto
qed

text \<open>Undo survives storage, redo does not: after the edit and its undo have been stored, the draft
  that is loaded has the undone geometry and the operation on its redo stack, but the snapshot
  stored with it is the one of the first insert, so that redo succeeds and leaves the geometry
  of before the operation, not the one the operation produces.\<close>

theorem pg_redo_after_reload_loses_edit:
  "\<exists>d d'. pg_find_by_id sample_serde (RouteDraftId 1) sample_db_undone =
      (Ok (Some d), sample_db_undone) \<and>
    geometry d = sample_geometry \<and> map oe_operation (undone_operations d) = [sample_split] \<and>
    redo 13 d (revision d) = (Ok (), d') \<and> geometry d' = sample_geometry \<and>
    execute_operation (geometry d) sample_split \<noteq> (Ok (), geometry d')"
proof -
  have undone: "sample_undone = sample_draft\<lparr>revision := 2, d_updated_at := 12,
      undone_operations := [\<lparr>oe_id = OperationId 7, oe_operation = sample_split,
        geometry_before = geometry sample_edited\<rparr>]\<rparr>"
    by (simp add: sample_undone_def undo_def check_active_def check_revision_def
        sample_edited_def record_operation_def sample_draft_def vec_pop_def)
  have "pg_update sample_serde sample_undone
      (snd (pg_update sample_serde sample_edited sample_db)) =
      (Ok (), \<lparr>tables = \<lparr>drafts = [draft_row_of sample_serde sample_undone],
       draft_operations = [operation_row_of sample_serde sample_undone 0 True
          (last (applied_operations sample_edited))], users = [3]\<rparr>, faults = []\<rparr>)"
    unfolding sample_update_ok snd_conv unfolding pg_update_def
    by (rule transaction_faultless)
      (simp_all add: undone sample_edited_def record_operation_def sample_draft_def
        bindq_def map_errq_def query_faultless modify_faultless rewrite_operations_def
        update_draft_row_def draft_row_of_def mark_all_undone_def
        map_operations_def upsert_entry_def upsert_operation_def
        operation_row_of_def delete_operations_def entry_ids_def)
  then have db: "sample_db_undone = \<lparr>tables = \<lparr>drafts = [draft_row_of sample_serde sample_undone],
       draft_operations = [operation_row_of sample_serde sample_undone 0 True
          (last (applied_operations sample_edited))], users = [3]\<rparr>, faults = []\<rparr>"
    by (simp only: sample_db_undone_def snd_conv)
  let ?d = "sample_draft\<lparr>revision := 2, d_updated_at := 12, undone_operations :=
      [\<lparr>oe_id = OperationId 7, oe_operation = sample_split, geometry_before = sample_geometry\<rparr>]\<rparr>"
  have find: "pg_find_by_id sample_serde (RouteDraftId 1) sample_db_undone =
      (Ok (Some ?d), sample_db_undone)"
    by (subst find_run [where r = "draft_row_of sample_serde sample_undone"])
      (simp_all add: db undone draft_row_of_def sample_draft_def sample_edited_def
        record_operation_def assemble_draft_def ordered_operations_def operation_row_of_def
        entry_of_row_def stored_operation_def operation_to_json_def json_to_operation_def
        geometry_to_json_def json_to_geometry_def sample_serde_def parse_state_def map_filter_def)
  have "redo 13 ?d (revision ?d) = (Ok (), sample_draft\<lparr>revision := 3, d_updated_at := 13,
      applied_operations := [\<lparr>oe_id = OperationId 7, oe_operation = sample_split,
        geometry_before = sample_geometry\<rparr>]\<rparr>)"
    by (simp add: redo_def check_active_def check_revision_def sample_draft_def vec_pop_def)
  moreover have "geometry sample_draft = sample_geometry" by (simp add: sample_draft_def)
  moreover have "execute_operation sample_geometry sample_split \<noteq> (Ok (), sample_geometry)"
    by (simp add: sample_split_executes) (simp add: sample_geometry_def)
  ultimately show ?thesis using find by auto
qed

end
