(* ===== verification/Rust_String.thy ===== *)
theory Rust_String
  imports F64
begin

text \<open>
  Rust strings as the program uses them.  A \<open>String\<close> is its UTF-8 bytes (a HOL \<open>string\<close> whose
  characters are the bytes), so that \<open>len()\<close> is the length of the list; \<open>chars\<close> splits it into
  the byte sequences of its characters.  White space is the Unicode property that \<open>trim\<close> uses,
  control characters are the category Cc of \<open>is_control\<close>.  \<open>parse_f64\<close> is \<open>str::parse::<f64>\<close>.
\<close>

abbreviation byte :: "char \<Rightarrow> nat" where
  "byte c \<equiv> of_char c"

section \<open>Characters\<close>

definition char_width :: "char \<Rightarrow> nat" where
  "char_width c = (let b = byte c in
     if b < 0xC0 then 1 else if b < 0xE0 then 2 else if b < 0xF0 then 3 else 4)"

fun chars :: "string \<Rightarrow> string list" where
  "chars [] = []"
| "chars (c # cs) = (c # take (char_width c - 1) cs) # chars (drop (char_width c - 1) cs)"

definition is_white :: "string \<Rightarrow> bool" where
  "is_white s = (case map byte s of
      [a] \<Rightarrow> 9 \<le> a \<and> a \<le> 13 \<or> a = 32
    | [a, b] \<Rightarrow> a = 0xC2 \<and> (b = 0x85 \<or> b = 0xA0)
    | [a, b, c] \<Rightarrow>
        a = 0xE1 \<and> b = 0x9A \<and> c = 0x80 \<or>
        a = 0xE2 \<and> b = 0x80 \<and> (0x80 \<le> c \<and> c \<le> 0x8A \<or> c = 0xA8 \<or> c = 0xA9 \<or> c = 0xAF) \<or>
        a = 0xE2 \<and> b = 0x81 \<and> c = 0x9F \<or>
        a = 0xE3 \<and> b = 0x80 \<and> c = 0x80
    | _ \<Rightarrow> False)"

definition is_control :: "string \<Rightarrow> bool" where
  "is_control s = (case map byte s of
      [a] \<Rightarrow> a < 32 \<or> a = 127
    | [a, b] \<Rightarrow> a = 0xC2 \<and> 0x80 \<le> b \<and> b \<le> 0x9F
    | _ \<Rightarrow> False)"

definition trim :: "string \<Rightarrow> string" where
  "trim s = concat (rev (dropWhile is_white (rev (dropWhile is_white (chars s)))))"

definition char_count :: "string \<Rightarrow> nat" where
  "char_count s = length (chars s)"

text \<open>A byte offset is a character boundary unless it points at a continuation byte.\<close>

definition is_char_boundary :: "string \<Rightarrow> nat \<Rightarrow> bool" where
  "is_char_boundary s n =
    (n = 0 \<or> n = length s \<or> n < length s \<and> \<not> (0x80 \<le> byte (s ! n) \<and> byte (s ! n) < 0xC0))"

text \<open>\<open>str::from_utf8\<close> accepts exactly the well-formed byte sequences.\<close>

definition cont :: "nat \<Rightarrow> bool" where
  "cont b \<longleftrightarrow> 0x80 \<le> b \<and> b \<le> 0xBF"

fun valid_utf8_bytes :: "nat list \<Rightarrow> bool" where
  "valid_utf8_bytes [] = True"
| "valid_utf8_bytes (a # xs) =
    (if a < 0x80 then valid_utf8_bytes xs
     else case xs of
       b # ys \<Rightarrow>
         if 0xC2 \<le> a \<and> a \<le> 0xDF then cont b \<and> valid_utf8_bytes ys
         else (case ys of
           c # zs \<Rightarrow>
             if a = 0xE0 then 0xA0 \<le> b \<and> b \<le> 0xBF \<and> cont c \<and> valid_utf8_bytes zs
             else if a = 0xED then 0x80 \<le> b \<and> b \<le> 0x9F \<and> cont c \<and> valid_utf8_bytes zs
             else if 0xE1 \<le> a \<and> a \<le> 0xEF then cont b \<and> cont c \<and> valid_utf8_bytes zs
             else (case zs of
               d # ws \<Rightarrow>
                 if a = 0xF0 then 0x90 \<le> b \<and> b \<le> 0xBF \<and> cont c \<and> cont d \<and> valid_utf8_bytes ws
                 else if 0xF1 \<le> a \<and> a \<le> 0xF3 then cont b \<and> cont c \<and> cont d \<and> valid_utf8_bytes ws
                 else if a = 0xF4 then 0x80 \<le> b \<and> b \<le> 0x8F \<and> cont c \<and> cont d \<and> valid_utf8_bytes ws
                 else False
             | [] \<Rightarrow> False)
         | [] \<Rightarrow> False)
     | [] \<Rightarrow> False)"

definition valid_utf8 :: "string \<Rightarrow> bool" where
  "valid_utf8 s = valid_utf8_bytes (map byte s)"

text \<open>\<open>str::contains\<close>.\<close>

fun contains :: "string \<Rightarrow> string \<Rightarrow> bool" where
  "contains [] p = (p = [])"
| "contains (c # cs) p = (take (length p) (c # cs) = p \<or> contains cs p)"

definition to_ascii_lower :: "char \<Rightarrow> char" where
  "to_ascii_lower c = (if 65 \<le> byte c \<and> byte c \<le> 90 then char_of (byte c + 32) else c)"

definition is_ascii_digit :: "char \<Rightarrow> bool" where
  "is_ascii_digit c \<longleftrightarrow> 48 \<le> byte c \<and> byte c \<le> 57"

definition is_ascii_hexdigit :: "char \<Rightarrow> bool" where
  "is_ascii_hexdigit c \<longleftrightarrow> is_ascii_digit c \<or> 65 \<le> byte c \<and> byte c \<le> 70 \<or> 97 \<le> byte c \<and> byte c \<le> 102"

section \<open>Parsing of floats\<close>

definition digits_value :: "string \<Rightarrow> nat" where
  "digits_value s = foldl (\<lambda>n c. 10 * n + (byte c - 48)) 0 s"

definition pow10 :: "int \<Rightarrow> rat" where
  "pow10 e = (if 0 \<le> e then 10 ^ nat e else 1 / 10 ^ nat (- e))"

definition split_digits :: "string \<Rightarrow> string \<times> string" where
  "split_digits s = (takeWhile is_ascii_digit s, dropWhile is_ascii_digit s)"

definition take_sign :: "string \<Rightarrow> bool \<times> string" where
  "take_sign s = (case s of
      c # cs \<Rightarrow> if c = CHR ''-'' then (True, cs) else if c = CHR ''+'' then (False, cs) else (False, s)
    | [] \<Rightarrow> (False, s))"

definition parse_exponent :: "string \<Rightarrow> int option" where
  "parse_exponent s = (case s of
      [] \<Rightarrow> Some 0
    | c # cs \<Rightarrow>
        if c = CHR ''e'' \<or> c = CHR ''E'' then
          (let (neg, ds) = take_sign cs in
           if ds \<noteq> [] \<and> list_all is_ascii_digit ds
           then Some (if neg then - int (digits_value ds) else int (digits_value ds)) else None)
        else None)"

definition parse_number :: "string \<Rightarrow> rat option" where
  "parse_number s =
    (let (whole, rest) = split_digits s;
         (frac, rest2) = (case rest of
            c # cs \<Rightarrow> if c = CHR ''.'' then split_digits cs else ([], rest)
          | [] \<Rightarrow> ([], rest)) in
     if whole = [] \<and> frac = [] then None
     else map_option (\<lambda>e. of_nat (digits_value (whole @ frac)) * pow10 (e - int (length frac)))
            (parse_exponent rest2))"

definition parse_f64 :: "string \<Rightarrow> f64 option" where
  "parse_f64 s =
    (let (neg, body) = take_sign s; low = map to_ascii_lower body in
     if low = ''inf'' \<or> low = ''infinity'' then Some (if neg then NInf else PInf)
     else if low = ''nan'' then Some NaN
     else map_option (\<lambda>q. rnd (if neg then - q else q)) (parse_number body))"

section \<open>Lemmas\<close>

lemma concat_chars [simp]: "concat (chars s) = s"
  by (induction s rule: chars.induct) simp_all

lemma chars_nonempty: "x \<in> set (chars s) \<Longrightarrow> x \<noteq> []"
  by (induction s rule: chars.induct) auto

lemma char_count_le: "char_count s \<le> length s"
proof -
  have "length (chars s) \<le> length s"
    by (induction s rule: chars.induct) auto
  then show ?thesis by (simp add: char_count_def)
qed

lemma length_trim_le: "length (trim s) \<le> length s"
proof -
  have "length (concat (dropWhile P xs)) \<le> length (concat xs)" for P and xs :: "string list"
    by (induction xs) auto
  moreover have "length (concat (rev xs)) = length (concat xs)" for xs :: "string list"
    by (induction xs) auto
  ultimately show ?thesis unfolding trim_def by (metis concat_chars order_trans)
qed

lemma ball_dropWhile: "(\<forall>x\<in>set (dropWhile P xs). P x) \<longleftrightarrow> (\<forall>x\<in>set xs. P x)"
  by (induction xs) auto

lemma trim_empty_iff: "trim s = [] \<longleftrightarrow> (\<forall>c\<in>set (chars s). is_white c)"
proof -
  let ?w = "rev (dropWhile is_white (rev (dropWhile is_white (chars s))))"
  have drop: "set (dropWhile P xs) \<subseteq> set xs" for P and xs :: "string list"
    by (auto dest: set_dropWhileD)
  have "set ?w \<subseteq> set (chars s)"
    using drop [of is_white "rev (dropWhile is_white (chars s))"] drop [of is_white "chars s"] by simp
  then have ne: "[] \<notin> set ?w" using chars_nonempty by blast
  have "[] \<notin> set ws \<Longrightarrow> concat ws = [] \<longleftrightarrow> ws = []" for ws :: "string list"
    by (cases ws) auto
  from this [OF ne] have "concat ?w = [] \<longleftrightarrow> ?w = []" .
  also have "\<dots> \<longleftrightarrow> (\<forall>c\<in>set (dropWhile is_white (chars s)). is_white c)"
    by (simp add: dropWhile_eq_Nil_conv)
  also have "\<dots> \<longleftrightarrow> (\<forall>c\<in>set (chars s). is_white c)"
    by (rule ball_dropWhile)
  finally show ?thesis by (simp add: trim_def)
qed

text \<open>
  Sequences of characters: every one but the last is complete.  Splitting is the inverse of
  concatenation on them, and sub-sequences of the characters of a string are such sequences.
\<close>

fun chunked :: "string list \<Rightarrow> bool" where
  "chunked [] = True"
| "chunked [x] = (x \<noteq> [] \<and> length x \<le> char_width (hd x))"
| "chunked (x # y # ys) = (x \<noteq> [] \<and> length x = char_width (hd x) \<and> chunked (y # ys))"

lemma char_width_pos: "0 < char_width c"
  by (simp add: char_width_def Let_def)

lemma chars_concat: "chunked xs \<Longrightarrow> chars (concat xs) = xs"
proof (induction xs rule: chunked.induct)
  case (2 x)
  then show ?case by (cases x) auto
next
  case (3 x y ys)
  then obtain c cs where "x = c # cs" by (cases x) auto
  moreover from this 3 have "Suc (length cs) = char_width c" by simp
  then have "length cs = char_width c - 1" by linarith
  ultimately show ?case using 3 by simp
qed simp

lemma chunked_chars: "chunked (chars s)"
proof (induction s rule: chars.induct)
  case (2 c cs)
  show ?case
  proof (cases "chars (drop (char_width c - 1) cs)")
    case Nil
    then show ?thesis using char_width_pos [of c] by simp
  next
    case (Cons y ys)
    then have "char_width c - 1 < length cs" by (metis chars.simps(1) drop_eq_Nil list.distinct(1) not_le)
    with 2 Cons char_width_pos [of c] show ?thesis by simp
  qed
qed simp

lemma chunked_filter: "chunked xs \<Longrightarrow> chunked (filter P xs)"
proof (induction xs rule: chunked.induct)
  case (3 x y ys)
  then show ?case by (cases "filter P (y # ys)") auto
qed auto

lemma chunked_take: "chunked xs \<Longrightarrow> chunked (take n xs)"
proof (induction xs arbitrary: n rule: chunked.induct)
  case (2 x)
  then show ?case by (cases n) auto
next
  case (3 x y ys)
  show ?case
  proof (cases n)
    case (Suc m)
    with 3 have "chunked (take m (y # ys))" by simp
    with Suc 3 show ?thesis by (cases m) auto
  qed simp
qed simp

section \<open>Identifiers as text\<close>

text \<open>The \<open>Display\<close> of \<open>Uuid\<close>: 32 lower case hexadecimal digits in five groups.\<close>

definition hex_digit :: "nat \<Rightarrow> char" where
  "hex_digit n = (if n < 10 then char_of (48 + n) else char_of (87 + n))"

definition uuid_nibble :: "uuid \<Rightarrow> nat \<Rightarrow> nat" where
  "uuid_nibble u i = unat (take_bit 4 (drop_bit (4 * (31 - i)) u))"

definition uuid_digits :: "uuid \<Rightarrow> nat \<Rightarrow> nat \<Rightarrow> string" where
  "uuid_digits u a b = map (\<lambda>i. hex_digit (uuid_nibble u i)) [a..<b]"

definition uuid_to_string :: "uuid \<Rightarrow> string" where
  "uuid_to_string u = uuid_digits u 0 8 @ ''-'' @ uuid_digits u 8 12 @ ''-'' @
     uuid_digits u 12 16 @ ''-'' @ uuid_digits u 16 20 @ ''-'' @ uuid_digits u 20 32"

lemma hex_digit_inject: "m < 16 \<Longrightarrow> n < 16 \<Longrightarrow> hex_digit m = hex_digit n \<longleftrightarrow> m = n"
proof -
  assume mn: "m < 16" "n < 16"
  have "of_char (hex_digit k) = (if k < 10 then 48 + k else 87 + k)" if "k < 16" for k
    using that by (simp add: hex_digit_def)
  with mn have "hex_digit m = hex_digit n \<Longrightarrow>
      (if m < 10 then 48 + m else 87 + m) = (if n < 10 then 48 + n else 87 + n)" by metis
  with mn show ?thesis by (auto split: if_splits)
qed

lemma uuid_nibble_take: "uuid_nibble u i = take_bit 4 (unat (drop_bit (4 * (31 - i)) u))"
  by (simp add: uuid_nibble_def unsigned_take_bit_eq)

lemma uuid_nibble_less: "uuid_nibble u i < 16"
  using take_bit_nat_less_exp [of 4 "unat (drop_bit (4 * (31 - i)) u)"] by (simp add: uuid_nibble_take)

lemma length_uuid_digits [simp]: "length (uuid_digits u a b) = b - a"
  by (simp add: uuid_digits_def)

lemma length_uuid_to_string [simp]: "length (uuid_to_string u) = 36"
  by (simp add: uuid_to_string_def)

lemma uuid_digits_eqD:
  "uuid_digits u a b = uuid_digits v a b \<Longrightarrow> a \<le> i \<Longrightarrow> i < b \<Longrightarrow> uuid_nibble u i = uuid_nibble v i"
  by (auto simp: uuid_digits_def hex_digit_inject uuid_nibble_less)

lemma bit_uuid_nibble:
  assumes "n < 128"
  shows "bit u n \<longleftrightarrow> bit (uuid_nibble u (31 - n div 4)) (n mod 4)"
proof -
  have "31 - (31 - n div 4) = n div 4" using assms by simp
  then have "bit (uuid_nibble u (31 - n div 4)) (n mod 4) \<longleftrightarrow>
      bit (take_bit 4 (drop_bit (4 * (n div 4)) u)) (n mod 4)"
    by (simp add: uuid_nibble_def bit_unsigned_iff)
  also have "\<dots> \<longleftrightarrow> bit u (4 * (n div 4) + n mod 4)"
    by (simp add: bit_take_bit_iff bit_drop_bit_eq)
  finally show ?thesis by simp
qed

lemma uuid_to_string_inject [simp]: "uuid_to_string u = uuid_to_string v \<longleftrightarrow> u = v"
proof
  assume "uuid_to_string u = uuid_to_string v"
  then have "uuid_digits u 0 8 = uuid_digits v 0 8" "uuid_digits u 8 12 = uuid_digits v 8 12"
    "uuid_digits u 12 16 = uuid_digits v 12 16" "uuid_digits u 16 20 = uuid_digits v 16 20"
    "uuid_digits u 20 32 = uuid_digits v 20 32"
    by (simp_all add: uuid_to_string_def)
  note eqs = this [THEN uuid_digits_eqD]
  have nib: "uuid_nibble u i = uuid_nibble v i" if "i < 32" for i
    using that eqs(1) [of i] eqs(2) [of i] eqs(3) [of i] eqs(4) [of i] eqs(5) [of i]
    by (cases "i < 8"; cases "i < 12"; cases "i < 16"; cases "i < 20") simp_all
  show "u = v"
  proof (rule bit_eqI)
    fix n assume "possible_bit TYPE(128 word) n"
    then have n: "n < 128" by (simp add: possible_bit_def)
    show "bit u n \<longleftrightarrow> bit v n"
      unfolding bit_uuid_nibble [OF n] using nib [of "31 - n div 4"] by simp
  qed
qed simp

section \<open>Well-formed texts\<close>

text \<open>A well-formed text is a well-formed character followed by a well-formed text.\<close>

lemma valid_utf8_Nil [simp]: "valid_utf8 []"
  by (simp add: valid_utf8_def)

definition tail_width :: "nat \<Rightarrow> nat" where
  "tail_width a = (if a < 0xC0 then 0 else if a < 0xE0 then 1 else if a < 0xF0 then 2 else 3)"

definition tail_ok :: "nat \<Rightarrow> nat list \<Rightarrow> bool" where
  "tail_ok a ys \<longleftrightarrow> list_all cont ys \<and> length ys = tail_width a \<and>
    (a < 0x80 \<or> 0xC2 \<le> a \<and> a \<le> 0xF4) \<and>
    (a = 0xE0 \<longrightarrow> 0xA0 \<le> hd ys) \<and> (a = 0xED \<longrightarrow> hd ys \<le> 0x9F) \<and>
    (a = 0xF0 \<longrightarrow> 0x90 \<le> hd ys) \<and> (a = 0xF4 \<longrightarrow> hd ys \<le> 0x8F)"

lemma valid_bytes_Cons:
  "valid_utf8_bytes (a # xs) \<longleftrightarrow> tail_ok a (take (tail_width a) xs) \<and> valid_utf8_bytes (drop (tail_width a) xs)"
proof -
  note [simp del] = valid_utf8_bytes.simps(2) and [simp] = valid_utf8_bytes.simps(2) [of a]
  consider "a < 0x80" | "0x80 \<le> a" "a < 0xC0" | "0xC0 \<le> a" "a < 0xE0" | "0xE0 \<le> a" "a < 0xF0" | "0xF0 \<le> a"
    by linarith
  then show ?thesis
  proof cases
    case 1
    then show ?thesis by (simp add: tail_ok_def tail_width_def)
  next
    case 2
    then show ?thesis by (cases xs; cases "tl xs"; cases "tl (tl xs)") (simp_all add: tail_ok_def tail_width_def)
  next
    case 3
    then have w: "tail_width a = 1" by (simp add: tail_width_def)
    from 3 show ?thesis
      by (cases xs; cases "tl xs"; cases "tl (tl xs)") (auto simp: tail_ok_def w)
  next
    case 4
    then have w: "tail_width a = Suc (Suc 0)" by (simp add: tail_width_def)
    from 4 show ?thesis
      by (cases xs; cases "tl xs"; cases "tl (tl xs)") (auto simp: tail_ok_def w cont_def)
  next
    case 5
    then have w: "tail_width a = Suc (Suc (Suc 0))" by (simp add: tail_width_def)
    from 5 show ?thesis
      by (cases xs; cases "tl xs"; cases "tl (tl xs)") (auto simp: tail_ok_def w cont_def)
  qed
qed

lemma char_width_tail: "char_width c - Suc 0 = tail_width (byte c)"
  by (simp add: char_width_def tail_width_def Let_def)

lemma valid_utf8_split:
  assumes "valid_utf8 (c # cs)"
  shows "char_width c - 1 \<le> length cs" and "valid_utf8 (c # take (char_width c - 1) cs)"
    and "valid_utf8 (drop (char_width c - 1) cs)" and "\<forall>x\<in>set (take (char_width c - 1) cs). cont (byte x)"
proof -
  from assms have head: "tail_ok (byte c) (map byte (take (char_width c - 1) cs))"
    and rest: "valid_utf8_bytes (map byte (drop (char_width c - 1) cs))"
    by (simp_all add: valid_utf8_def valid_bytes_Cons char_width_tail take_map drop_map
        del: valid_utf8_bytes.simps(2))
  from head have "length (map byte (take (char_width c - 1) cs)) = tail_width (byte c)"
    unfolding tail_ok_def by blast
  then show "char_width c - 1 \<le> length cs" by (simp add: char_width_tail)
  from head show "\<forall>x\<in>set (take (char_width c - 1) cs). cont (byte x)" by (auto simp: tail_ok_def list_all_iff)
  from rest show "valid_utf8 (drop (char_width c - 1) cs)" by (simp add: valid_utf8_def)
  from head show "valid_utf8 (c # take (char_width c - 1) cs)"
    by (simp add: valid_utf8_def valid_bytes_Cons char_width_tail take_map del: valid_utf8_bytes.simps(2))
qed

lemma valid_utf8_append: "valid_utf8 s \<Longrightarrow> valid_utf8 (s @ t) = valid_utf8 t"
proof -
  have "valid_utf8_bytes xs \<Longrightarrow> valid_utf8_bytes (xs @ ys) = valid_utf8_bytes ys" for xs ys
  proof (induction "length xs" arbitrary: xs rule: less_induct)
    case less
    show ?case
    proof (cases xs)
      case (Cons a zs)
      with less.prems have ok: "tail_ok a (take (tail_width a) zs)" "valid_utf8_bytes (drop (tail_width a) zs)"
        by (simp_all add: valid_bytes_Cons del: valid_utf8_bytes.simps(2))
      then have "tail_width a \<le> length zs" unfolding tail_ok_def length_take by linarith
      with ok less.hyps [of "drop (tail_width a) zs"] Cons show ?thesis
        by (simp add: valid_bytes_Cons del: valid_utf8_bytes.simps(2))
    qed simp
  qed
  then show "valid_utf8 s \<Longrightarrow> valid_utf8 (s @ t) = valid_utf8 t" by (simp add: valid_utf8_def)
qed

lemma valid_utf8_chars: "valid_utf8 s \<Longrightarrow> \<forall>x\<in>set (chars s). valid_utf8 x"
  by (induction s rule: chars.induct) (auto dest: valid_utf8_split)

lemma valid_utf8_concat: "\<forall>x\<in>set xs. valid_utf8 x \<Longrightarrow> valid_utf8 (concat xs)"
  by (induction xs) (auto simp: valid_utf8_append)

lemma valid_utf8_trim: "valid_utf8 s \<Longrightarrow> valid_utf8 (trim s)"
  unfolding trim_def by (rule valid_utf8_concat) (auto dest!: set_dropWhileD valid_utf8_chars)

lemma trim_no_white: "\<forall>c\<in>set (chars s). \<not> is_white c \<Longrightarrow> trim s = s"
  using dropWhile_eq_self_iff [of is_white "chars s"] dropWhile_eq_self_iff [of is_white "rev (chars s)"]
  by (cases "chars s = []") (auto simp: trim_def hd_in_set hd_rev dest: arg_cong [of _ _ concat])

lemma valid_utf8_take:
  assumes "valid_utf8 s" and "is_char_boundary s n"
  shows "valid_utf8 (take n s)"
  using assms
proof (induction s arbitrary: n rule: chars.induct)
  case (2 c cs)
  let ?w = "char_width c - 1"
  note split = valid_utf8_split [OF 2(2)]
  consider "n = 0" | "0 < n" "n \<le> ?w" | "?w < n" by linarith
  then show ?case
  proof cases
    case 2
    with split(1) have "n - 1 < length (take ?w cs)" "take ?w cs ! (n - 1) = (c # cs) ! n" by auto
    with split(4) have "cont (byte ((c # cs) ! n))" by (metis nth_mem)
    moreover have "n \<noteq> length (c # cs)" using 2 split(1) by simp
    ultimately show ?thesis using 2(1) \<open>is_char_boundary (c # cs) n\<close> by (auto simp: is_char_boundary_def cont_def)
  next
    case 3
    then have "is_char_boundary (drop ?w cs) (n - 1 - ?w)"
      using \<open>is_char_boundary (c # cs) n\<close> split(1)
      by (cases n) (auto simp: is_char_boundary_def nth_drop simp del: One_nat_def)
    with "2.IH" split(3) have "valid_utf8 (take (n - 1 - ?w) (drop ?w cs))" by blast
    moreover have "take n (c # cs) = (c # take ?w cs) @ take (n - 1 - ?w) (drop ?w cs)"
      using 3 by (cases n) (auto simp: take_add [symmetric])
    ultimately show ?thesis using valid_utf8_append [OF split(2)] by metis
  qed simp
qed simp


definition ascii :: "string \<Rightarrow> bool" where
  "ascii s \<longleftrightarrow> (\<forall>c\<in>set s. byte c < 0x80)"

lemma ascii_simps [simp]:
  "ascii []" "ascii (c # s) \<longleftrightarrow> byte c < 0x80 \<and> ascii s" "ascii (s @ t) \<longleftrightarrow> ascii s \<and> ascii t"
  by (auto simp: ascii_def)

lemma valid_utf8_ascii: "ascii s \<Longrightarrow> valid_utf8 s"
  unfolding valid_utf8_def by (induction s) auto

lemma ascii_uuid_to_string: "ascii (uuid_to_string u)"
proof -
  have "byte (hex_digit n) < 0x80" if "n < 16" for n using that by (simp add: hex_digit_def)
  then have "ascii (uuid_digits u a b)" for a b
    by (auto simp: ascii_def uuid_digits_def uuid_nibble_less)
  then show ?thesis by (simp add: uuid_to_string_def)
qed

end
