(* ===== verification/Gpx_Parser.thy ===== *)
theory Gpx_Parser
  imports Rust_String
begin

text \<open>
  The GPX parser, \<open>crates/app/src/imports/gpx_parser.rs\<close>: a state machine over the events of the
  \<open>quick_xml\<close> reader.  The reader is a parameter, the function that gives the events of a
  document; the end of its list is the \<open>Eof\<close> event, on which the loop of the source ends.
\<close>

section \<open>Limits, errors and results\<close>

definition MAX_INPUT_SIZE :: nat where "MAX_INPUT_SIZE = 100 * 1024 * 1024"
definition MAX_DEPTH :: nat where "MAX_DEPTH = 20"
definition MAX_POINTS :: nat where "MAX_POINTS = 500000"
definition MAX_SEGMENTS :: nat where "MAX_SEGMENTS = 10000"
definition MAX_METADATA_LEN :: nat where "MAX_METADATA_LEN = 1000"

lemmas limits = MAX_INPUT_SIZE_def MAX_DEPTH_def MAX_POINTS_def MAX_SEGMENTS_def MAX_METADATA_LEN_def

datatype gpx_parse_error_code =
    InvalidXml | UnsupportedVersion | TooManyPoints | TooManySegments | XmlTooDeep
  | ExternalEntity | InvalidCoordinates | InputTooLarge

text \<open>Messages: a fixed text, or a formatted one with its arguments.\<close>

datatype gpx_message =
    GpxText string | InputSizeText nat | BadVersionText string | BadLatitudeText string
  | BadLongitudeText string | LatitudeRangeText f64 | LongitudeRangeText f64

record gpx_parse_error =
  ge_code :: gpx_parse_error_code
  ge_message :: gpx_message

abbreviation gpx_err :: "gpx_parse_error_code \<Rightarrow> gpx_message \<Rightarrow> gpx_parse_error" where
  "gpx_err c m \<equiv> \<lparr>ge_code = c, ge_message = m\<rparr>"

datatype gpx_version = Gpx10 | Gpx11

record gpx_metadata =
  gm_name :: "string option"
  gm_description :: "string option"
  gm_time :: "string option"

record gpx_track_point =
  gp_lat :: f64
  gp_lon :: f64
  gp_elevation :: "f64 option"
  gp_time :: "string option"

record gpx_track_segment =
  gs_points :: "gpx_track_point list"

record gpx_track =
  gt_name :: "string option"
  gt_segments :: "gpx_track_segment list"

record gpx_parse_result =
  gr_version :: gpx_version
  gr_metadata :: gpx_metadata
  gr_tracks :: "gpx_track list"
  gr_total_points :: nat

definition sanitize_metadata :: "string \<Rightarrow> string" where
  "sanitize_metadata s =
    (let cleaned = filter (\<lambda>c. \<not> is_control c) (chars (trim s)) in
     if MAX_METADATA_LEN < length (concat cleaned)
     then concat (take MAX_METADATA_LEN cleaned) else concat cleaned)"

section \<open>Events and parser state\<close>

text \<open>
  \<open>Start\<close>, \<open>End\<close> and \<open>Empty\<close> carry the local name; attributes are those that \<open>flatten\<close> keeps, in
  order.  \<open>Characters\<close> carries the unescaped text, the empty string when unescaping fails.
\<close>

datatype xml_event =
    Start string "(string \<times> string) list"
  | End string
  | Empty string "(string \<times> string) list"
  | Characters string
  | DocType
  | Malformed
  | OtherEvent

datatype text_target = MetadataName | MetadataDesc | MetadataTime | TrackName | PointEle | PointTime

record gpx_state =
  depth :: nat
  version :: "gpx_version option"
  metadata :: gpx_metadata
  tracks :: "gpx_track list"
  total_points :: nat
  total_segments :: nat
  in_metadata :: bool
  in_trk :: bool
  in_trkseg :: bool
  in_trkpt :: bool
  current_track :: "gpx_track option"
  current_segment :: "gpx_track_segment option"
  current_point :: "gpx_track_point option"
  current_text_target :: "text_target option"

type_synonym gpx_step = "(gpx_state, gpx_parse_error) result"

definition initial_state :: gpx_state where
  "initial_state = \<lparr>depth = 0, version = None,
     metadata = \<lparr>gm_name = None, gm_description = None, gm_time = None\<rparr>, tracks = [],
     total_points = 0, total_segments = 0, in_metadata = False, in_trk = False,
     in_trkseg = False, in_trkpt = False, current_track = None, current_segment = None,
     current_point = None, current_text_target = None\<rparr>"

section \<open>Event handlers\<close>

fun read_version :: "(string \<times> string) list \<Rightarrow> gpx_state \<Rightarrow> gpx_step" where
  "read_version [] st = Ok st"
| "read_version ((k, v) # attrs) st =
    (if k = ''version'' then
       if v = ''1.0'' then read_version attrs (st\<lparr>version := Some Gpx10\<rparr>)
       else if v = ''1.1'' then read_version attrs (st\<lparr>version := Some Gpx11\<rparr>)
       else Err (gpx_err UnsupportedVersion (BadVersionText v))
     else read_version attrs st)"

fun read_coordinates ::
  "(string \<times> string) list \<Rightarrow> f64 option \<Rightarrow> f64 option \<Rightarrow>
    (f64 option \<times> f64 option, gpx_parse_error) result" where
  "read_coordinates [] lat lon = Ok (lat, lon)"
| "read_coordinates ((k, v) # attrs) lat lon =
    (if k = ''lat'' then
       (case parse_f64 v of
          Some x \<Rightarrow> read_coordinates attrs (Some x) lon
        | None \<Rightarrow> Err (gpx_err InvalidCoordinates (BadLatitudeText v)))
     else if k = ''lon'' then
       (case parse_f64 v of
          Some x \<Rightarrow> read_coordinates attrs lat (Some x)
        | None \<Rightarrow> Err (gpx_err InvalidCoordinates (BadLongitudeText v)))
     else read_coordinates attrs lat lon)"

definition parse_trkpt ::
  "(string \<times> string) list \<Rightarrow> (gpx_track_point, gpx_parse_error) result" where
  "parse_trkpt attrs =
    and_then (read_coordinates attrs None None) (\<lambda>(lat_opt, lon_opt).
    and_then (ok_or (gpx_err InvalidCoordinates (GpxText ''trkpt missing lat attribute'')) lat_opt)
      (\<lambda>lat.
    and_then (ok_or (gpx_err InvalidCoordinates (GpxText ''trkpt missing lon attribute'')) lon_opt)
      (\<lambda>lon.
      if \<not> range_contains (Fin (- 90)) (Fin 90) lat
      then Err (gpx_err InvalidCoordinates (LatitudeRangeText lat))
      else if \<not> range_contains (Fin (- 180)) (Fin 180) lon
      then Err (gpx_err InvalidCoordinates (LongitudeRangeText lon))
      else Ok \<lparr>gp_lat = lat, gp_lon = lon, gp_elevation = None, gp_time = None\<rparr>)))"

definition count_point :: "gpx_state \<Rightarrow> gpx_step" where
  "count_point st =
    (let n = total_points st + 1 in
     if MAX_POINTS < n
     then Err (gpx_err TooManyPoints (GpxText ''exceeded maximum of 500000 track points''))
     else Ok (st\<lparr>total_points := n\<rparr>))"

definition start_element :: "string \<Rightarrow> (string \<times> string) list \<Rightarrow> gpx_state \<Rightarrow> gpx_step" where
  "start_element tag attrs st =
    (if tag = ''gpx'' then read_version attrs st
     else if tag = ''metadata'' then Ok (st\<lparr>in_metadata := True\<rparr>)
     else if tag = ''name'' then
       (if in_trkpt st then Ok st
        else if in_trk st then Ok (st\<lparr>current_text_target := Some TrackName\<rparr>)
        else if in_metadata st \<or> depth st = 2
        then Ok (st\<lparr>current_text_target := Some MetadataName\<rparr>)
        else Ok st)
     else if tag = ''desc'' \<and> (in_metadata st \<or> \<not> in_trk st \<and> depth st = 2) then
       Ok (st\<lparr>current_text_target := Some MetadataDesc\<rparr>)
     else if tag = ''time'' then
       (if in_trkpt st then Ok (st\<lparr>current_text_target := Some PointTime\<rparr>)
        else if in_metadata st \<or> depth st = 2
        then Ok (st\<lparr>current_text_target := Some MetadataTime\<rparr>)
        else Ok st)
     else if tag = ''trk'' then
       Ok (st\<lparr>in_trk := True, current_track := Some \<lparr>gt_name = None, gt_segments = []\<rparr>\<rparr>)
     else if tag = ''trkseg'' then
       (let n = total_segments st + 1 in
        if MAX_SEGMENTS < n
        then Err (gpx_err TooManySegments (GpxText ''exceeded maximum of 10000 segments''))
        else Ok (st\<lparr>in_trkseg := True, total_segments := n,
               current_segment := Some \<lparr>gs_points = []\<rparr>\<rparr>))
     else if tag = ''trkpt'' then
       and_then (count_point (st\<lparr>in_trkpt := True\<rparr>)) (\<lambda>st1.
       and_then (parse_trkpt attrs) (\<lambda>p. Ok (st1\<lparr>current_point := Some p\<rparr>)))
     else if tag = ''ele'' \<and> in_trkpt st then
       Ok (st\<lparr>current_text_target := Some PointEle\<rparr>)
     else Ok st)"

definition on_start :: "string \<Rightarrow> (string \<times> string) list \<Rightarrow> gpx_state \<Rightarrow> gpx_step" where
  "on_start tag attrs st =
    (let st1 = st\<lparr>depth := depth st + 1\<rparr> in
     if MAX_DEPTH < depth st1
     then Err (gpx_err XmlTooDeep (GpxText ''XML depth exceeded maximum of 20''))
     else start_element tag attrs st1)"

definition push_point :: "gpx_track_point \<Rightarrow> gpx_track_segment \<Rightarrow> gpx_track_segment" where
  "push_point p seg = seg\<lparr>gs_points := gs_points seg @ [p]\<rparr>"

definition push_segment :: "gpx_track_segment \<Rightarrow> gpx_track \<Rightarrow> gpx_track" where
  "push_segment seg t = t\<lparr>gt_segments := gt_segments t @ [seg]\<rparr>"

definition end_element :: "string \<Rightarrow> gpx_state \<Rightarrow> gpx_state" where
  "end_element tag st =
    (if tag = ''metadata'' then st\<lparr>in_metadata := False\<rparr>
     else if tag = ''trk'' then
       (case current_track st of
          Some t \<Rightarrow> st\<lparr>in_trk := False, current_track := None, tracks := tracks st @ [t]\<rparr>
        | None \<Rightarrow> st\<lparr>in_trk := False\<rparr>)
     else if tag = ''trkseg'' then
       (case current_segment st of
          Some seg \<Rightarrow> st\<lparr>in_trkseg := False, current_segment := None,
            current_track := map_option (push_segment seg) (current_track st)\<rparr>
        | None \<Rightarrow> st\<lparr>in_trkseg := False\<rparr>)
     else if tag = ''trkpt'' then
       (case current_point st of
          Some p \<Rightarrow> st\<lparr>in_trkpt := False, current_point := None,
            current_segment := map_option (push_point p) (current_segment st)\<rparr>
        | None \<Rightarrow> st\<lparr>in_trkpt := False\<rparr>)
     else st\<lparr>current_text_target := None\<rparr>)"

definition on_end :: "string \<Rightarrow> gpx_state \<Rightarrow> gpx_state" where
  "on_end tag st = (let st1 = end_element tag st in st1\<lparr>depth := depth st1 - 1\<rparr>)"

definition on_empty :: "string \<Rightarrow> (string \<times> string) list \<Rightarrow> gpx_state \<Rightarrow> gpx_step" where
  "on_empty tag attrs st =
    (if tag = ''trkpt'' \<and> in_trkseg st then
       and_then (count_point st) (\<lambda>st1.
       and_then (parse_trkpt attrs) (\<lambda>p.
         Ok (st1\<lparr>current_segment := map_option (push_point p) (current_segment st1)\<rparr>)))
     else Ok st)"

definition on_text :: "string \<Rightarrow> gpx_state \<Rightarrow> gpx_state" where
  "on_text text st =
    (case current_text_target st of
       None \<Rightarrow> st
     | Some target \<Rightarrow>
         (let st1 = (case target of
              MetadataName \<Rightarrow> st\<lparr>metadata := (metadata st)\<lparr>gm_name := Some (sanitize_metadata text)\<rparr>\<rparr>
            | MetadataDesc \<Rightarrow>
                st\<lparr>metadata := (metadata st)\<lparr>gm_description := Some (sanitize_metadata text)\<rparr>\<rparr>
            | MetadataTime \<Rightarrow> st\<lparr>metadata := (metadata st)\<lparr>gm_time := Some (trim text)\<rparr>\<rparr>
            | TrackName \<Rightarrow> st\<lparr>current_track :=
                map_option (\<lambda>t. t\<lparr>gt_name := Some (sanitize_metadata text)\<rparr>) (current_track st)\<rparr>
            | PointEle \<Rightarrow> st\<lparr>current_point :=
                map_option (\<lambda>p. p\<lparr>gp_elevation := parse_f64 (trim text)\<rparr>) (current_point st)\<rparr>
            | PointTime \<Rightarrow> st\<lparr>current_point :=
                map_option (\<lambda>p. p\<lparr>gp_time := Some (trim text)\<rparr>) (current_point st)\<rparr>)
          in st1\<lparr>current_text_target := None\<rparr>))"

fun on_event :: "xml_event \<Rightarrow> gpx_state \<Rightarrow> gpx_step" where
  "on_event (Start tag attrs) st = on_start tag attrs st"
| "on_event (End tag) st = Ok (on_end tag st)"
| "on_event (Empty tag attrs) st = on_empty tag attrs st"
| "on_event (Characters text) st = Ok (on_text text st)"
| "on_event DocType st =
    Err (gpx_err ExternalEntity (GpxText ''DOCTYPE declarations are not allowed''))"
| "on_event Malformed st = Err (gpx_err InvalidXml (GpxText ''failed to parse XML''))"
| "on_event OtherEvent st = Ok st"

fun parse_events :: "xml_event list \<Rightarrow> gpx_state \<Rightarrow> gpx_step" where
  "parse_events [] st =
    (if 0 < depth st
     then Err (gpx_err InvalidXml (GpxText ''unexpected end of input: unclosed XML elements''))
     else Ok st)"
| "parse_events (e # es) st = and_then (on_event e st) (parse_events es)"

definition parse_gpx ::
  "(string \<Rightarrow> xml_event list) \<Rightarrow> string \<Rightarrow> (gpx_parse_result, gpx_parse_error) result" where
  "parse_gpx read_events input =
    (if MAX_INPUT_SIZE < length input
     then Err (gpx_err InputTooLarge (InputSizeText (length input)))
     else if \<not> valid_utf8 input
     then Err (gpx_err InvalidXml (GpxText ''input is not valid UTF-8''))
     else if contains input ''<!DOCTYPE'' \<or> contains input ''<!ENTITY''
     then Err (gpx_err ExternalEntity (GpxText ''DOCTYPE/ENTITY declarations are not allowed''))
     else and_then (parse_events (read_events input) initial_state) (\<lambda>st.
       and_then (ok_or (gpx_err InvalidXml
           (GpxText ''no <gpx> element with version attribute found'')) (version st)) (\<lambda>v.
         Ok \<lparr>gr_version = v, gr_metadata = metadata st, gr_tracks = tracks st,
             gr_total_points = total_points st\<rparr>)))"

section \<open>Metadata strings\<close>

definition clean_text :: "string \<Rightarrow> bool" where
  "clean_text s \<longleftrightarrow> char_count s \<le> MAX_METADATA_LEN \<and> (\<forall>c\<in>set (chars s). \<not> is_control c)"

lemma length_le_concat: "(\<And>x. x \<in> set xs \<Longrightarrow> x \<noteq> []) \<Longrightarrow> length xs \<le> length (concat xs)"
proof (induction xs)
  case (Cons x xs)
  then have "length xs \<le> length (concat xs)" and "0 < length x" by auto
  then show ?case by (simp del: length_greater_0_conv)
qed simp

lemma sanitize_clean: "clean_text (sanitize_metadata s)"
proof -
  define cs where "cs = filter (\<lambda>c. \<not> is_control c) (chars (trim s))"
  have ch: "chunked cs" unfolding cs_def by (rule chunked_filter [OF chunked_chars])
  have ctl: "\<forall>c\<in>set cs. \<not> is_control c" by (simp add: cs_def)
  show ?thesis
  proof (cases "MAX_METADATA_LEN < length (concat cs)")
    case True
    then have "sanitize_metadata s = concat (take MAX_METADATA_LEN cs)"
      by (simp add: sanitize_metadata_def cs_def)
    with chars_concat [OF chunked_take [OF ch]] ctl show ?thesis
      by (auto simp: clean_text_def char_count_def dest: in_set_takeD)
  next
    case False
    then have eq: "sanitize_metadata s = concat cs" by (simp add: sanitize_metadata_def cs_def)
    have "length cs \<le> length (concat cs)"
      by (rule length_le_concat) (use chars_nonempty in \<open>auto simp: cs_def\<close>)
    with False eq chars_concat [OF ch] ctl show ?thesis
      by (auto simp: clean_text_def char_count_def)
  qed
qed

section \<open>The invariant of the parser\<close>

definition valid_gpx_point :: "gpx_track_point \<Rightarrow> bool" where
  "valid_gpx_point p \<longleftrightarrow>
    range_contains (Fin (- 90)) (Fin 90) (gp_lat p) \<and> range_contains (Fin (- 180)) (Fin 180) (gp_lon p)"

definition segment_points :: "gpx_track_segment list \<Rightarrow> gpx_track_point list" where
  "segment_points segs = concat (map gs_points segs)"

definition track_segments :: "gpx_track list \<Rightarrow> gpx_track_segment list" where
  "track_segments ts = concat (map gt_segments ts)"

definition opt_list :: "'a option \<Rightarrow> 'a list" where
  "opt_list x = (case x of None \<Rightarrow> [] | Some y \<Rightarrow> [y])"

lemma opt_list_simps [simp]: "opt_list None = []" "opt_list (Some x) = [x]"
  by (simp_all add: opt_list_def)

text \<open>Everything the parser holds: finished tracks and the ones under construction.\<close>

definition held_segments :: "gpx_state \<Rightarrow> gpx_track_segment list" where
  "held_segments st =
    track_segments (tracks st) @ track_segments (opt_list (current_track st)) @
    opt_list (current_segment st)"

definition held_points :: "gpx_state \<Rightarrow> gpx_track_point list" where
  "held_points st = segment_points (held_segments st) @ opt_list (current_point st)"

definition clean_names :: "gpx_metadata \<Rightarrow> gpx_track list \<Rightarrow> bool" where
  "clean_names m ts \<longleftrightarrow>
    (\<forall>x\<in>set_option (gm_name m) \<union> set_option (gm_description m) \<union> (\<Union>t\<in>set ts. set_option (gt_name t)).
      clean_text x)"

definition gpx_inv :: "gpx_state \<Rightarrow> bool" where
  "gpx_inv st \<longleftrightarrow>
    depth st \<le> MAX_DEPTH \<and> total_points st \<le> MAX_POINTS \<and> total_segments st \<le> MAX_SEGMENTS \<and>
    length (held_points st) \<le> total_points st \<and> length (held_segments st) \<le> total_segments st \<and>
    (\<forall>p\<in>set (held_points st). valid_gpx_point p) \<and>
    clean_names (metadata st) (tracks st @ opt_list (current_track st))"

lemmas held_defs = held_points_def held_segments_def segment_points_def track_segments_def
  push_point_def push_segment_def clean_names_def

lemma initial_inv: "gpx_inv initial_state"
  by (simp add: gpx_inv_def initial_state_def held_defs)

lemma read_version_frame:
  "read_version attrs st = Ok st' \<Longrightarrow> \<exists>v. st' = st\<lparr>version := v\<rparr>"
proof (induction attrs st rule: read_version.induct)
  case (1 st)
  then show ?case by (auto intro: exI [of _ "version st"])
next
  case (2 k v attrs st)
  then show ?case by (auto split: if_splits)
qed

lemma parse_trkpt_valid: "parse_trkpt attrs = Ok p \<Longrightarrow> valid_gpx_point p"
  by (auto simp: parse_trkpt_def result_simps valid_gpx_point_def split: if_splits)

lemma count_point_Ok:
  "count_point st = Ok st' \<longleftrightarrow>
    total_points st < MAX_POINTS \<and> st' = st\<lparr>total_points := total_points st + 1\<rparr>"
  by (auto simp: count_point_def Let_def)

lemma start_element_inv:
  assumes "gpx_inv st" and "start_element tag attrs st = Ok st'"
  shows "gpx_inv st'"
proof (cases "tag = ''trkpt''")
  case True
  with assms(2) obtain p where p: "parse_trkpt attrs = Ok p" "total_points st < MAX_POINTS"
    and st': "st' = st\<lparr>in_trkpt := True, total_points := total_points st + 1, current_point := Some p\<rparr>"
    by (auto simp: start_element_def result_simps count_point_Ok)
  from assms(1) p st' parse_trkpt_valid [OF p(1)] show ?thesis
    by (auto simp: gpx_inv_def held_points_def held_segments_def)
next
  case False
  show ?thesis
  proof (cases "tag = ''gpx''")
    case True
    with assms read_version_frame [of attrs st st'] show ?thesis
      by (auto simp: start_element_def gpx_inv_def held_points_def held_segments_def)
  next
    case no_gpx: False
    show ?thesis
    proof (cases "tag = ''trk'' \<or> tag = ''trkseg''")
      case True
      with assms False show ?thesis
        by (auto simp: start_element_def gpx_inv_def held_defs Let_def split: if_splits option.splits)
          (auto simp: opt_list_def split: option.splits)
    next
      case no_trk: False
      with assms False no_gpx show ?thesis
        by (auto simp: start_element_def gpx_inv_def held_points_def held_segments_def
            split: if_splits)
    qed
  qed
qed

lemma on_start_inv:
  assumes "gpx_inv st" and "on_start tag attrs st = Ok st'"
  shows "gpx_inv st'"
proof -
  have "gpx_inv (st\<lparr>depth := depth st + 1\<rparr>)" if "depth st + 1 \<le> MAX_DEPTH"
    using assms(1) that by (simp add: gpx_inv_def held_points_def held_segments_def)
  with assms(2) start_element_inv show ?thesis
    by (auto simp: on_start_def Let_def split: if_splits)
qed

lemma seg_simps [simp]:
  "track_segments (xs @ ys) = track_segments xs @ track_segments ys"
  "track_segments [] = []"
  "track_segments [t] = gt_segments t"
  "segment_points (as @ bs) = segment_points as @ segment_points bs"
  "segment_points [] = []"
  "segment_points [g] = gs_points g"
  "gt_segments (push_segment g t) = gt_segments t @ [g]"
  "gt_name (push_segment g t) = gt_name t"
  "gs_points (push_point p g) = gs_points g @ [p]"
  by (simp_all add: track_segments_def segment_points_def push_segment_def push_point_def)

lemma clean_names_simps [simp]:
  "clean_names m (ts @ [push_segment g t]) = clean_names m (ts @ [t])"
  "clean_names (m\<lparr>gm_time := x\<rparr>) ts = clean_names m ts"
  by (simp_all add: clean_names_def)

lemma clean_names_mono: "clean_names m ts \<Longrightarrow> set us \<subseteq> set ts \<Longrightarrow> clean_names m us"
  unfolding clean_names_def by blast

lemma end_element_inv:
  assumes "gpx_inv st"
  shows "gpx_inv (end_element tag st)"
proof -
  consider "tag = ''trk''" | "tag = ''trkseg''" | "tag = ''trkpt''" |
    "tag \<noteq> ''trk'' \<and> tag \<noteq> ''trkseg'' \<and> tag \<noteq> ''trkpt''" by blast
  then show ?thesis
  proof cases
    case 1
    with assms show ?thesis
      by (cases "current_track st")
        (simp_all add: end_element_def gpx_inv_def held_points_def held_segments_def)
  next
    case 2
    with assms show ?thesis
      by (cases "current_segment st"; cases "current_track st")
        (simp_all add: end_element_def gpx_inv_def held_points_def held_segments_def ball_Un)
  next
    case 3
    with assms show ?thesis
      by (cases "current_point st"; cases "current_segment st")
        (simp_all add: end_element_def gpx_inv_def held_points_def held_segments_def ball_Un)
  next
    case 4
    with assms show ?thesis
      by (simp add: end_element_def gpx_inv_def held_points_def held_segments_def)
  qed
qed

lemma on_end_inv: "gpx_inv st \<Longrightarrow> gpx_inv (on_end tag st)"
  using end_element_inv [of st tag] diff_le_self [of "depth (end_element tag st)" 1]
  by (simp add: on_end_def Let_def gpx_inv_def held_points_def held_segments_def del: diff_le_self)

lemma on_empty_inv:
  assumes "gpx_inv st" and "on_empty tag attrs st = Ok st'"
  shows "gpx_inv st'"
proof (cases "tag = ''trkpt'' \<and> in_trkseg st")
  case True
  with assms(2) obtain p where p: "parse_trkpt attrs = Ok p" "total_points st < MAX_POINTS"
    and st': "st' = st\<lparr>total_points := total_points st + 1,
      current_segment := map_option (push_point p) (current_segment st)\<rparr>"
    by (auto simp: on_empty_def result_simps count_point_Ok)
  from assms(1) p st' parse_trkpt_valid [OF p(1)] show ?thesis
    by (cases "current_segment st")
      (auto simp: gpx_inv_def held_points_def held_segments_def)
next
  case False
  with assms show ?thesis by (auto simp: on_empty_def)
qed

lemma valid_point_frame [simp]:
  "valid_gpx_point (p\<lparr>gp_elevation := x\<rparr>) = valid_gpx_point p"
  "valid_gpx_point (p\<lparr>gp_time := y\<rparr>) = valid_gpx_point p"
  by (simp_all add: valid_gpx_point_def)

lemma clean_names_set:
  assumes "clean_text x"
  shows "clean_names m ts \<Longrightarrow> clean_names (m\<lparr>gm_name := Some x\<rparr>) ts"
    and "clean_names m ts \<Longrightarrow> clean_names (m\<lparr>gm_description := Some x\<rparr>) ts"
    and "clean_names m (ts @ [t]) \<Longrightarrow> clean_names m (ts @ [t\<lparr>gt_name := Some x\<rparr>])"
  using assms by (auto simp: clean_names_def)

lemma on_text_inv:
  assumes "gpx_inv st"
  shows "gpx_inv (on_text s st)"
proof (cases "current_text_target st")
  case None
  with assms show ?thesis by (simp add: on_text_def)
next
  case (Some target)
  note clean = clean_names_set [OF sanitize_clean [of s]]
  show ?thesis
  proof (cases target)
    case MetadataName
    with assms Some clean(1) show ?thesis
      by (simp add: on_text_def Let_def gpx_inv_def held_points_def held_segments_def)
  next
    case MetadataDesc
    with assms Some clean(2) show ?thesis
      by (simp add: on_text_def Let_def gpx_inv_def held_points_def held_segments_def)
  next
    case MetadataTime
    with assms Some show ?thesis
      by (simp add: on_text_def Let_def gpx_inv_def held_points_def held_segments_def)
  next
    case TrackName
    with assms Some clean(3) show ?thesis
      by (cases "current_track st")
        (simp_all add: on_text_def Let_def gpx_inv_def held_points_def held_segments_def)
  next
    case PointEle
    with assms Some show ?thesis
      by (cases "current_point st")
        (simp_all add: on_text_def Let_def gpx_inv_def held_points_def held_segments_def)
  next
    case PointTime
    with assms Some show ?thesis
      by (cases "current_point st")
        (simp_all add: on_text_def Let_def gpx_inv_def held_points_def held_segments_def)
  qed
qed

lemma on_event_inv: "gpx_inv st \<Longrightarrow> on_event e st = Ok st' \<Longrightarrow> gpx_inv st'"
  by (cases e) (auto intro: on_start_inv on_end_inv on_empty_inv on_text_inv)

lemma parse_events_inv: "gpx_inv st \<Longrightarrow> parse_events es st = Ok st' \<Longrightarrow> gpx_inv st'"
  by (induction es st rule: parse_events.induct)
    (auto simp: result_simps dest: on_event_inv split: if_splits)

section \<open>Documents\<close>

text \<open>
  The events of a well-formed GPX 1.1 document: tracks of segments of points, a point with the
  texts of its latitude, longitude and, when present, elevation.
\<close>

record point_source =
  src_lat :: string
  src_lon :: string
  src_ele :: "string option"

definition point_events :: "point_source \<Rightarrow> xml_event list" where
  "point_events p =
    Start ''trkpt'' [(''lat'', src_lat p), (''lon'', src_lon p)] #
    (case src_ele p of None \<Rightarrow> [] | Some e \<Rightarrow> [Start ''ele'' [], Characters e, End ''ele'']) @
    [End ''trkpt'']"

definition segment_events :: "point_source list \<Rightarrow> xml_event list" where
  "segment_events ps = Start ''trkseg'' [] # concat (map point_events ps) @ [End ''trkseg'']"

definition track_events :: "point_source list list \<Rightarrow> xml_event list" where
  "track_events segs = Start ''trk'' [] # concat (map segment_events segs) @ [End ''trk'']"

definition document_events :: "point_source list list list \<Rightarrow> xml_event list" where
  "document_events doc =
    Start ''gpx'' [(''version'', ''1.1'')] # concat (map track_events doc) @ [End ''gpx'']"

definition point_ok :: "point_source \<Rightarrow> bool" where
  "point_ok p \<longleftrightarrow> (\<exists>lat lon. parse_f64 (src_lat p) = Some lat \<and> parse_f64 (src_lon p) = Some lon \<and>
     range_contains (Fin (- 90)) (Fin 90) lat \<and> range_contains (Fin (- 180)) (Fin 180) lon)"

definition point_of :: "point_source \<Rightarrow> gpx_track_point" where
  "point_of p = \<lparr>gp_lat = the (parse_f64 (src_lat p)), gp_lon = the (parse_f64 (src_lon p)),
     gp_elevation = (case src_ele p of None \<Rightarrow> None | Some e \<Rightarrow> parse_f64 (trim e)), gp_time = None\<rparr>"

definition segment_of :: "point_source list \<Rightarrow> gpx_track_segment" where
  "segment_of ps = \<lparr>gs_points = map point_of ps\<rparr>"

definition track_of :: "point_source list list \<Rightarrow> gpx_track" where
  "track_of segs = \<lparr>gt_name = None, gt_segments = map segment_of segs\<rparr>"

definition count_points :: "point_source list list list \<Rightarrow> nat" where
  "count_points doc = sum_list (map (\<lambda>segs. sum_list (map length segs)) doc)"

definition count_segments :: "point_source list list list \<Rightarrow> nat" where
  "count_segments doc = sum_list (map length doc)"

text \<open>Running the handlers over a part of the events.\<close>

fun run_events :: "xml_event list \<Rightarrow> gpx_state \<Rightarrow> gpx_step" where
  "run_events [] st = Ok st"
| "run_events (e # es) st = and_then (on_event e st) (run_events es)"

lemma run_events_append: "run_events (es @ fs) st = and_then (run_events es st) (run_events fs)"
proof (induction es arbitrary: st)
  case (Cons e es)
  then show ?case by (cases "on_event e st") simp_all
qed simp

lemma parse_events_run:
  "parse_events es st = and_then (run_events es st) (parse_events [])"
proof (induction es arbitrary: st)
  case (Cons e es)
  then show ?case by (cases "on_event e st") simp_all
qed simp

definition in_segment :: "gpx_state \<Rightarrow> bool" where
  "in_segment st \<longleftrightarrow> \<not> in_trkpt st \<and> depth st = 3 \<and> current_point st = None \<and>
     current_text_target st = None \<and> current_segment st \<noteq> None"

lemma run_point:
  assumes "point_ok p" and "in_segment st" and "total_points st < MAX_POINTS"
  shows "run_events (point_events p) st =
    Ok (st\<lparr>total_points := total_points st + 1,
           current_segment := map_option (push_point (point_of p)) (current_segment st)\<rparr>)"
proof -
  from assms(1) obtain lat lon where parse: "parse_f64 (src_lat p) = Some lat"
      "parse_f64 (src_lon p) = Some lon" "range_contains (Fin (- 90)) (Fin 90) lat"
      "range_contains (Fin (- 180)) (Fin 180) lon"
    by (auto simp: point_ok_def)
  then have pt: "parse_trkpt [(''lat'', src_lat p), (''lon'', src_lon p)] =
      Ok \<lparr>gp_lat = lat, gp_lon = lon, gp_elevation = None, gp_time = None\<rparr>"
    by (simp add: parse_trkpt_def)
  have eq: "st\<lparr>in_trkpt := False, current_point := None, current_text_target := None, depth := 3\<rparr> = st"
    using assms(2) by (simp add: in_segment_def)
  show ?thesis
    using assms(2,3) parse pt
    by (cases st; cases "src_ele p")
      (auto simp: point_events_def on_start_def start_element_def on_end_def end_element_def
        on_text_def count_point_def in_segment_def point_of_def push_point_def limits Let_def)
qed

lemma run_points:
  assumes "\<forall>p\<in>set ps. point_ok p" and "in_segment st"
    and "total_points st + length ps \<le> MAX_POINTS"
  shows "run_events (concat (map point_events ps)) st =
    Ok (st\<lparr>total_points := total_points st + length ps,
           current_segment := map_option (\<lambda>g. g\<lparr>gs_points := gs_points g @ map point_of ps\<rparr>)
             (current_segment st)\<rparr>)"
  using assms
proof (induction ps arbitrary: st)
  case Nil
  have "map_option (\<lambda>g. g\<lparr>gs_points := gs_points g\<rparr>) x = x" for x :: "gpx_track_segment option"
    by (cases x) auto
  with Nil show ?case by simp
next
  case (Cons p ps)
  let ?st = "st\<lparr>total_points := total_points st + 1,
      current_segment := map_option (push_point (point_of p)) (current_segment st)\<rparr>"
  from Cons.prems run_point [of p st] have step: "run_events (point_events p) st = Ok ?st" by simp
  from Cons.prems have "in_segment ?st" by (auto simp: in_segment_def)
  with Cons.IH [of ?st] Cons.prems step show ?case
    by (cases "current_segment st") (simp_all add: run_events_append push_point_def)
qed

definition in_track :: "gpx_state \<Rightarrow> bool" where
  "in_track st \<longleftrightarrow> \<not> in_trkpt st \<and> \<not> in_trkseg st \<and> depth st = 2 \<and> current_point st = None \<and>
     current_segment st = None \<and> current_text_target st = None \<and> current_track st \<noteq> None"

lemma run_segment:
  assumes "\<forall>p\<in>set ps. point_ok p" and "in_track st"
    and "total_points st + length ps \<le> MAX_POINTS" and "total_segments st < MAX_SEGMENTS"
  shows "run_events (segment_events ps) st =
    Ok (st\<lparr>total_points := total_points st + length ps, total_segments := total_segments st + 1,
           current_track := map_option (push_segment (segment_of ps)) (current_track st)\<rparr>)"
proof -
  let ?st = "st\<lparr>depth := 3, in_trkseg := True, total_segments := total_segments st + 1,
      current_segment := Some \<lparr>gs_points = []\<rparr>\<rparr>"
  have start: "on_event (Start ''trkseg'' []) st = Ok ?st"
    using assms(2,4) by (simp add: on_start_def start_element_def in_track_def limits Let_def)
  have "in_segment ?st" using assms(2) by (simp add: in_segment_def in_track_def)
  from run_points [OF assms(1) this] assms(3)
  have pts: "run_events (concat (map point_events ps)) ?st =
      Ok (?st\<lparr>total_points := total_points st + length ps, current_segment := Some (segment_of ps)\<rparr>)"
    by (simp add: segment_of_def)
  show ?thesis
    using assms(2) start pts
    by (cases st) (simp add: segment_events_def run_events_append on_end_def end_element_def
        in_track_def push_segment_def Let_def)
qed

lemma run_segments:
  assumes "\<forall>ps\<in>set segs. \<forall>p\<in>set ps. point_ok p" and "in_track st"
    and "total_points st + sum_list (map length segs) \<le> MAX_POINTS"
    and "total_segments st + length segs \<le> MAX_SEGMENTS"
  shows "run_events (concat (map segment_events segs)) st =
    Ok (st\<lparr>total_points := total_points st + sum_list (map length segs),
           total_segments := total_segments st + length segs,
           current_track := map_option (\<lambda>t. t\<lparr>gt_segments := gt_segments t @ map segment_of segs\<rparr>)
             (current_track st)\<rparr>)"
  using assms
proof (induction segs arbitrary: st)
  case Nil
  have "map_option (\<lambda>t. t\<lparr>gt_segments := gt_segments t\<rparr>) x = x" for x :: "gpx_track option"
    by (cases x) auto
  with Nil show ?case by simp
next
  case (Cons ps segs)
  let ?st = "st\<lparr>total_points := total_points st + length ps, total_segments := total_segments st + 1,
      current_track := map_option (push_segment (segment_of ps)) (current_track st)\<rparr>"
  from Cons.prems run_segment [of ps st] have step: "run_events (segment_events ps) st = Ok ?st"
    by simp
  from Cons.prems have "in_track ?st" by (auto simp: in_track_def)
  with Cons.IH [of ?st] Cons.prems step show ?case
    by (cases "current_track st") (simp_all add: run_events_append push_segment_def add.assoc)
qed

definition in_gpx :: "gpx_state \<Rightarrow> bool" where
  "in_gpx st \<longleftrightarrow> \<not> in_trk st \<and> \<not> in_trkpt st \<and> \<not> in_trkseg st \<and> depth st = 1 \<and> current_point st = None \<and>
     current_segment st = None \<and> current_text_target st = None \<and> current_track st = None"

lemma run_track:
  assumes "\<forall>ps\<in>set segs. \<forall>p\<in>set ps. point_ok p" and "in_gpx st"
    and "total_points st + sum_list (map length segs) \<le> MAX_POINTS"
    and "total_segments st + length segs \<le> MAX_SEGMENTS"
  shows "run_events (track_events segs) st =
    Ok (st\<lparr>total_points := total_points st + sum_list (map length segs),
           total_segments := total_segments st + length segs,
           tracks := tracks st @ [track_of segs]\<rparr>)"
proof -
  let ?st = "st\<lparr>depth := 2, in_trk := True, current_track := Some \<lparr>gt_name = None, gt_segments = []\<rparr>\<rparr>"
  have start: "on_event (Start ''trk'' []) st = Ok ?st"
    using assms(2) by (simp add: on_start_def start_element_def in_gpx_def limits Let_def)
  have "in_track ?st" using assms(2) by (simp add: in_track_def in_gpx_def)
  from run_segments [OF assms(1) this] assms(3,4)
  have segs: "run_events (concat (map segment_events segs)) ?st =
      Ok (?st\<lparr>total_points := total_points st + sum_list (map length segs),
           total_segments := total_segments st + length segs, current_track := Some (track_of segs)\<rparr>)"
    by (simp add: track_of_def)
  show ?thesis
    using assms(2) start segs
    by (cases st) (simp add: track_events_def run_events_append on_end_def end_element_def
        in_gpx_def Let_def)
qed

lemma run_tracks:
  assumes "\<forall>segs\<in>set doc. \<forall>ps\<in>set segs. \<forall>p\<in>set ps. point_ok p" and "in_gpx st"
    and "total_points st + count_points doc \<le> MAX_POINTS"
    and "total_segments st + count_segments doc \<le> MAX_SEGMENTS"
  shows "run_events (concat (map track_events doc)) st =
    Ok (st\<lparr>total_points := total_points st + count_points doc,
           total_segments := total_segments st + count_segments doc,
           tracks := tracks st @ map track_of doc\<rparr>)"
  using assms
proof (induction doc arbitrary: st)
  case Nil
  then show ?case by (simp add: count_points_def count_segments_def)
next
  case (Cons segs doc)
  let ?st = "st\<lparr>total_points := total_points st + sum_list (map length segs),
           total_segments := total_segments st + length segs,
           tracks := tracks st @ [track_of segs]\<rparr>"
  from Cons.prems run_track [of segs st] have step: "run_events (track_events segs) st = Ok ?st"
    by (simp add: count_points_def count_segments_def)
  from Cons.prems have "in_gpx ?st" by (auto simp: in_gpx_def)
  with Cons.IH [of ?st] Cons.prems step show ?case
    by (simp add: run_events_append count_points_def count_segments_def add.assoc)
qed

section \<open>A sample document\<close>

definition sample_events :: "xml_event list" where
  "sample_events =
    [Start ''gpx'' [(''version'', ''1.1'')], Start ''trk'' [], Start ''trkseg'' [],
     Start ''trkpt'' [(''lat'', ''0''), (''lon'', ''0'')], End ''trkpt'',
     Empty ''trkpt'' [(''lat'', ''0''), (''lon'', ''0'')],
     End ''trkseg'', End ''trk'', End ''gpx'']"

lemma parse_f64_zero: "parse_f64 ''0'' = Some (Fin 0)"
  by code_simp

lemma sample_parsed:
  "\<exists>r. parse_gpx (\<lambda>_. sample_events) ''<gpx/>'' = Ok r \<and> gr_total_points r = 2"
proof -
  have "valid_utf8 ''<gpx/>'' \<and> \<not> contains ''<gpx/>'' ''<!DOCTYPE'' \<and> \<not> contains ''<gpx/>'' ''<!ENTITY''"
    by code_simp
  moreover have "case parse_events sample_events initial_state of
      Ok st \<Rightarrow> version st = Some Gpx11 \<and> total_points st = 2 | Err _ \<Rightarrow> False"
    by (simp add: sample_events_def initial_state_def on_start_def start_element_def on_end_def
        end_element_def on_empty_def count_point_def parse_trkpt_def parse_f64_zero limits
        range_contains_def)
  ultimately show ?thesis by (auto simp: parse_gpx_def limits split: result.splits)
qed

lemma parse_gpx_inv:
  assumes "parse_gpx read_events input = Ok r"
  obtains st where "gpx_inv st" and "gr_metadata r = metadata st" and "gr_tracks r = tracks st"
    and "gr_total_points r = total_points st"
proof -
  from assms obtain st where st: "parse_events (read_events input) initial_state = Ok st"
    and r: "gr_metadata r = metadata st" "gr_tracks r = tracks st" "gr_total_points r = total_points st"
    by (auto simp: parse_gpx_def result_simps split: if_splits)
  from parse_events_inv [OF initial_inv st] r show thesis by (rule that)
qed

lemma parse_gpx_points_valid:
  "parse_gpx read_events input = Ok r \<Longrightarrow>
    \<forall>p\<in>set (segment_points (track_segments (gr_tracks r))). valid_gpx_point p"
  by (erule parse_gpx_inv) (auto simp: gpx_inv_def held_points_def held_segments_def ball_Un)

section \<open>Properties\<close>





end
