(* ===== verification/Recorded_Activity.thy ===== *)
theory Recorded_Activity
  imports Gpx_Parser Sql
begin

text \<open>
  Recorded activities, \<open>crates/app/src/recorded_activity/mod.rs\<close> and \<open>normalization.rs\<close>:
  coordinates, segments, bounding boxes and the normalisation of a parsed GPX file with its
  statistics and preview.  The platform's \<open>sin\<close>, \<open>cos\<close>, \<open>asin\<close> and \<open>sqrt\<close> are the fields of a
  parameter, as is the timestamp parser of \<open>chrono\<close>.
\<close>

section \<open>Values\<close>

datatype source_artifact_id = SourceArtifactId (artifact_uuid: uuid)
datatype source_revision_id = SourceRevisionId (source_revision_uuid: uuid)
datatype recorded_track_id = RecordedTrackId (track_uuid: uuid)
datatype leg_id = LegId (leg_uuid: uuid)

text \<open>Messages: a fixed text or a formatted one with its argument.\<close>

datatype ra_message = RaText string | RaLatitude f64 | RaLongitude f64 | RaDatabase db_error
  | RaLength nat

datatype recorded_activity_error =
    NotFound
  | InvalidCoordinate ra_message
  | InsufficientPoints nat nat
  | NoSegments
  | Persistence ra_message
  | LegNotFound leg_id
  | InvalidLegNumber u32 ra_message
  | DuplicateLegNumber u32
  | MaxLegsExceeded activity_id u32
  | InvalidLegTitle ra_message

record position =
  pos_lat :: f64
  pos_lng :: f64

definition position_new :: "f64 \<Rightarrow> f64 \<Rightarrow> (position, recorded_activity_error) result" where
  "position_new lat lon =
    (if \<not> range_contains (Fin (- 90)) (Fin 90) lat then Err (InvalidCoordinate (RaLatitude lat))
     else if \<not> range_contains (Fin (- 180)) (Fin 180) lon
     then Err (InvalidCoordinate (RaLongitude lon))
     else Ok \<lparr>pos_lat = lat, pos_lng = lon\<rparr>)"

definition as_geojson_position :: "position \<Rightarrow> f64 list" where
  "as_geojson_position p = [pos_lng p, pos_lat p]"

datatype ra_elevation = RaElevation (ra_meters: f64)

record track_point =
  tp_coordinate :: position
  tp_elevation :: "ra_elevation option"
  tp_timestamp :: "time option"

record track_segment =
  ts_points :: "track_point list"

definition track_segment_new ::
  "track_point list \<Rightarrow> (track_segment, recorded_activity_error) result" where
  "track_segment_new ps =
    (if length ps < 2 then Err (InsufficientPoints 2 (length ps)) else Ok \<lparr>ts_points = ps\<rparr>)"

record bounding_box =
  south_west :: position
  north_east :: position

definition as_geojson_bbox :: "bounding_box \<Rightarrow> f64 list" where
  "as_geojson_bbox b = [pos_lng (south_west b), pos_lat (south_west b),
     pos_lng (north_east b), pos_lat (north_east b)]"

text \<open>The loop of \<open>from_coordinates\<close>, over the four running extrema.\<close>

fun extend_box :: "f64 \<times> f64 \<times> f64 \<times> f64 \<Rightarrow> position list \<Rightarrow> f64 \<times> f64 \<times> f64 \<times> f64" where
  "extend_box b [] = b"
| "extend_box (min_lat, max_lat, min_lng, max_lng) (c # cs) =
    extend_box (fmin min_lat (pos_lat c), fmax max_lat (pos_lat c),
                fmin min_lng (pos_lng c), fmax max_lng (pos_lng c)) cs"

definition from_coordinates :: "position list \<Rightarrow> bounding_box option" where
  "from_coordinates cs =
    (if cs = [] then None
     else let (min_lat, max_lat, min_lng, max_lng) =
            extend_box (f64_MAX, f64_MIN, f64_MAX, f64_MIN) cs in
       Some \<lparr>south_west = \<lparr>pos_lat = min_lat, pos_lng = min_lng\<rparr>,
             north_east = \<lparr>pos_lat = max_lat, pos_lng = max_lng\<rparr>\<rparr>)"

record recorded_statistics =
  rs_distance_meters :: f64
  rs_duration_seconds :: "f64 option"
  rs_elevation_gain_meters :: "f64 option"
  rs_elevation_loss_meters :: "f64 option"
  rs_point_count :: u32
  rs_segment_count :: u32

record recorded_track =
  rt_id :: recorded_track_id
  rt_segments :: "track_segment list"
  rt_bounding_box :: bounding_box
  rt_statistics :: recorded_statistics

definition recorded_track_new ::
  "recorded_track_id \<Rightarrow> track_segment list \<Rightarrow> bounding_box \<Rightarrow> recorded_statistics \<Rightarrow>
    (recorded_track, recorded_activity_error) result" where
  "recorded_track_new new_id segs bb stats =
    (if segs = [] then Err NoSegments
     else Ok \<lparr>rt_id = new_id, rt_segments = segs, rt_bounding_box = bb, rt_statistics = stats\<rparr>)"

section \<open>Distance and elevation\<close>

record libm =
  m_sin :: "f64 \<Rightarrow> f64"
  m_cos :: "f64 \<Rightarrow> f64"
  m_asin :: "f64 \<Rightarrow> f64"
  m_sqrt :: "f64 \<Rightarrow> f64"

text \<open>\<open>f64::to_radians\<close>: the product with the rounded constant \<open>PI / 180\<close>.\<close>

definition f64_PI :: f64 where
  "f64_PI = Fin (884279719003555 / 281474976710656)"

definition to_radians :: "f64 \<Rightarrow> f64" where
  "to_radians x = fmul x (fdiv f64_PI (Fin 180))"

definition EARTH_RADIUS_METERS :: f64 where
  "EARTH_RADIUS_METERS = Fin 6371000"

definition MAX_PREVIEW_POINTS :: nat where
  "MAX_PREVIEW_POINTS = 1000"

definition haversine_distance :: "libm \<Rightarrow> position \<Rightarrow> position \<Rightarrow> f64" where
  "haversine_distance M from to =
    (let lat1 = to_radians (pos_lat from); lat2 = to_radians (pos_lat to);
         dlat = to_radians (fsub (pos_lat to) (pos_lat from));
         dlon = to_radians (fsub (pos_lng to) (pos_lng from));
         s1 = m_sin M (fdiv dlat (Fin 2)); s2 = m_sin M (fdiv dlon (Fin 2));
         a = fadd (fmul s1 s1) (fmul (fmul (m_cos M lat1) (m_cos M lat2)) (fmul s2 s2));
         c = fmul (Fin 2) (m_asin M (m_sqrt M a))
     in fmul EARTH_RADIUS_METERS c)"

definition ELEVATION_DEAD_BAND :: f64 where
  "ELEVATION_DEAD_BAND = Fin 2"

fun elevation_loop :: "f64 list \<Rightarrow> f64 option \<Rightarrow> f64 \<Rightarrow> f64 \<Rightarrow> f64 \<times> f64" where
  "elevation_loop [] prev gain loss = (gain, loss)"
| "elevation_loop (e # es) prev gain loss =
    (case prev of
       None \<Rightarrow> elevation_loop es (Some e) gain loss
     | Some p \<Rightarrow>
         (let diff = fsub e p in
          if fle ELEVATION_DEAD_BAND diff then elevation_loop es (Some e) (fadd gain diff) loss
          else if fle diff (fneg ELEVATION_DEAD_BAND)
          then elevation_loop es (Some e) gain (fadd loss (fabs diff))
          else elevation_loop es (Some e) gain loss))"

definition calculate_elevation_stats :: "ra_elevation option list \<Rightarrow> f64 option \<times> f64 option" where
  "calculate_elevation_stats es =
    (let known = map ra_meters (List.map_filter (\<lambda>e. e) es) in
     if known = [] then (None, None)
     else let (gain, loss) = elevation_loop known None (Fin 0) (Fin 0) in (Some gain, Some loss))"

section \<open>Normalisation\<close>

record normalized_track =
  nt_recorded_track :: recorded_track
  nt_preview_geometry :: "position list"
  nt_suggested_title :: "string option"
  nt_started_at :: "time option"
  nt_ended_at :: "time option"

definition gpx_point_to_track_point ::
  "(string \<Rightarrow> time option) \<Rightarrow> gpx_track_point \<Rightarrow> (track_point, recorded_activity_error) result" where
  "gpx_point_to_track_point parse_timestamp pt =
    and_then (position_new (gp_lat pt) (gp_lon pt)) (\<lambda>c.
      Ok \<lparr>tp_coordinate = c, tp_elevation = map_option RaElevation (gp_elevation pt),
          tp_timestamp = Option.bind (gp_time pt) parse_timestamp\<rparr>)"

text \<open>The variables of the loops of \<open>normalize_gpx\<close>.\<close>

record normalize_acc =
  all_segments :: "track_segment list"
  all_coordinates :: "position list"
  all_elevations :: "ra_elevation option list"
  all_timestamps :: "time list"
  total_distance :: f64
  n_points :: u32

fun add_points ::
  "(string \<Rightarrow> time option) \<Rightarrow> gpx_track_point list \<Rightarrow> track_point list \<Rightarrow> normalize_acc \<Rightarrow>
    (track_point list \<times> normalize_acc, recorded_activity_error) result" where
  "add_points P [] tps acc = Ok (tps, acc)"
| "add_points P (pt # pts) tps acc =
    and_then (gpx_point_to_track_point P pt) (\<lambda>tp.
      add_points P pts (tps @ [tp])
        (acc\<lparr>all_coordinates := all_coordinates acc @ [tp_coordinate tp],
             all_elevations := all_elevations acc @ [tp_elevation tp],
             all_timestamps := all_timestamps acc @
               (case tp_timestamp tp of Some t \<Rightarrow> [t] | None \<Rightarrow> []),
             n_points := n_points acc + 1\<rparr>))"

definition add_distances :: "libm \<Rightarrow> track_point list \<Rightarrow> f64 \<Rightarrow> f64" where
  "add_distances M tps d0 =
    foldl (\<lambda>d (p, q). fadd d (haversine_distance M (tp_coordinate p) (tp_coordinate q)))
      d0 (windows2 tps)"

definition add_segment ::
  "libm \<Rightarrow> (string \<Rightarrow> time option) \<Rightarrow> gpx_track_segment \<Rightarrow> normalize_acc \<Rightarrow>
    (normalize_acc, recorded_activity_error) result" where
  "add_segment M P seg acc =
    (if length (gs_points seg) < 2 then Ok acc
     else and_then (add_points P (gs_points seg) [] acc) (\<lambda>(tps, acc1).
       and_then (track_segment_new tps) (\<lambda>s.
         Ok (acc1\<lparr>total_distance := add_distances M tps (total_distance acc1),
                  all_segments := all_segments acc1 @ [s]\<rparr>))))"

fun add_segments ::
  "libm \<Rightarrow> (string \<Rightarrow> time option) \<Rightarrow> gpx_track_segment list \<Rightarrow> normalize_acc \<Rightarrow>
    (normalize_acc, recorded_activity_error) result" where
  "add_segments M P [] acc = Ok acc"
| "add_segments M P (s # ss) acc = and_then (add_segment M P s acc) (add_segments M P ss)"

text \<open>
  \<open>num_milliseconds\<close> truncates the nanoseconds toward zero; the latest timestamp is not before the
  earliest, so the division is of a nonnegative number.
\<close>

definition duration_seconds :: "time list \<Rightarrow> f64 option" where
  "duration_seconds ts =
    (if 2 \<le> length ts then
       (let d = fdiv (rnd (of_int ((last ts - hd ts) div 1000000))) (Fin 1000) in
        if flt (Fin 0) d then Some d else None)
     else None)"

text \<open>\<open>f64::round\<close> (half away from zero) and the saturating cast to \<open>usize\<close>.\<close>

definition round_to_usize :: "f64 \<Rightarrow> nat" where
  "round_to_usize x = (case x of
      Fin q \<Rightarrow> if q < 0 then 0 else min (nat \<lfloor>q + 1 / 2\<rfloor>) (2 ^ 64 - 1)
    | PInf \<Rightarrow> 2 ^ 64 - 1
    | _ \<Rightarrow> 0)"

definition preview_index :: "nat \<Rightarrow> nat \<Rightarrow> nat \<Rightarrow> nat" where
  "preview_index n max_points i =
    (let step = fdiv (rnd (of_nat (n - 1))) (rnd (of_nat (max_points - 1)));
         index = round_to_usize (fmul (rnd (of_nat i)) step)
     in min index (n - 1))"

definition simplify_preview :: "position list \<Rightarrow> nat \<Rightarrow> position list" where
  "simplify_preview coords max_points =
    (if length coords \<le> max_points then coords
     else if max_points < 2 then take 1 coords
     else map (\<lambda>i. coords ! preview_index (length coords) max_points i) [0..<max_points])"

definition normalize_gpx ::
  "libm \<Rightarrow> (string \<Rightarrow> time option) \<Rightarrow> recorded_track_id \<Rightarrow> gpx_parse_result \<Rightarrow>
    (normalized_track, recorded_activity_error) result" where
  "normalize_gpx M parse_timestamp new_id r =
    and_then (add_segments M parse_timestamp (concat (map gt_segments (gr_tracks r)))
        \<lparr>all_segments = [], all_coordinates = [], all_elevations = [], all_timestamps = [],
         total_distance = Fin 0, n_points = 0\<rparr>) (\<lambda>acc.
    if all_segments acc = [] then Err NoSegments
    else and_then (ok_or NoSegments (from_coordinates (all_coordinates acc))) (\<lambda>bb.
      let (gain, loss) = calculate_elevation_stats (all_elevations acc);
          timestamps = (if 2 \<le> length (all_timestamps acc) then sort (all_timestamps acc)
                        else all_timestamps acc);
          stats = \<lparr>rs_distance_meters = total_distance acc,
            rs_duration_seconds = duration_seconds timestamps,
            rs_elevation_gain_meters = gain, rs_elevation_loss_meters = loss,
            rs_point_count = n_points acc, rs_segment_count = of_nat (length (all_segments acc))\<rparr>
      in and_then (recorded_track_new new_id (all_segments acc) bb stats) (\<lambda>track.
        Ok \<lparr>nt_recorded_track = track,
            nt_preview_geometry = simplify_preview (all_coordinates acc) MAX_PREVIEW_POINTS,
            nt_suggested_title =
              (case gr_tracks r of
                 t # _ \<Rightarrow> (case gt_name t of Some n \<Rightarrow> Some n | None \<Rightarrow> gm_name (gr_metadata r))
               | [] \<Rightarrow> gm_name (gr_metadata r)),
            nt_started_at = (if timestamps = [] then None else Some (hd timestamps)),
            nt_ended_at = (if timestamps = [] then None else Some (last timestamps))\<rparr>)))"

section \<open>Bounding boxes\<close>

definition valid_position :: "position \<Rightarrow> bool" where
  "valid_position p \<longleftrightarrow>
    range_contains (Fin (- 90)) (Fin 90) (pos_lat p) \<and> range_contains (Fin (- 180)) (Fin 180) (pos_lng p)"

definition in_box :: "bounding_box \<Rightarrow> position \<Rightarrow> bool" where
  "in_box b p \<longleftrightarrow>
    fle (pos_lat (south_west b)) (pos_lat p) \<and> fle (pos_lat p) (pos_lat (north_east b)) \<and>
    fle (pos_lng (south_west b)) (pos_lng p) \<and> fle (pos_lng p) (pos_lng (north_east b))"

definition fold_min :: "f64 \<Rightarrow> f64 list \<Rightarrow> f64" where
  "fold_min m xs = foldl fmin m xs"

definition fold_max :: "f64 \<Rightarrow> f64 list \<Rightarrow> f64" where
  "fold_max m xs = foldl fmax m xs"

lemma extend_box_fold:
  "extend_box (a, b, c, d) cs =
    (fold_min a (map pos_lat cs), fold_max b (map pos_lat cs),
     fold_min c (map pos_lng cs), fold_max d (map pos_lng cs))"
  by (induction cs arbitrary: a b c d) (simp_all add: fold_min_def fold_max_def)

lemma fold_min_le:
  "m \<noteq> NaN \<Longrightarrow> \<forall>x\<in>set xs. x \<noteq> NaN \<Longrightarrow>
    fle (fold_min m xs) m \<and> (\<forall>x\<in>set xs. fle (fold_min m xs) x) \<and> fold_min m xs \<in> insert m (set xs)"
proof (induction xs arbitrary: m)
  case (Cons y ys)
  from Cons.prems have "fmin m y \<noteq> NaN" by (simp add: fmin_not_NaN)
  with Cons.IH [of "fmin m y"] Cons.prems fmin_le(1) [of m y] fmin_le(2) [of y m] fmin_cases [of m y]
  show ?case by (auto simp: fold_min_def intro: fle_trans)
qed (simp add: fold_min_def)

lemma fold_max_ge:
  "m \<noteq> NaN \<Longrightarrow> \<forall>x\<in>set xs. x \<noteq> NaN \<Longrightarrow>
    fle m (fold_max m xs) \<and> (\<forall>x\<in>set xs. fle x (fold_max m xs)) \<and> fold_max m xs \<in> insert m (set xs)"
proof (induction xs arbitrary: m)
  case (Cons y ys)
  from Cons.prems have "fmax m y \<noteq> NaN" by (simp add: fmax_not_NaN)
  with Cons.IH [of "fmax m y"] Cons.prems fmax_ge(1) [of m y] fmax_ge(2) [of y m] fmax_cases [of m y]
  show ?case by (auto simp: fold_max_def intro: fle_trans)
qed (simp add: fold_max_def)

text \<open>The start values are never better than a coordinate in range, so the extrema are attained.\<close>

lemma fold_min_attained:
  assumes "xs \<noteq> []" and "\<forall>x\<in>set xs. \<exists>q. x = Fin q \<and> q < (2 ^ 53 - 1) * 2 ^ 971"
  shows "fold_min f64_MAX xs \<in> set xs"
proof -
  have nn: "\<forall>x\<in>set xs. x \<noteq> NaN" using assms(2) by auto
  from fold_min_le [of f64_MAX xs] nn have fm: "\<forall>x\<in>set xs. fle (fold_min f64_MAX xs) x"
    "fold_min f64_MAX xs \<in> insert f64_MAX (set xs)" by (simp_all add: f64_MAX_def)
  obtain q where "hd xs = Fin q" "q < (2 ^ 53 - 1) * 2 ^ 971" using assms by (meson hd_in_set)
  with fm(1) assms(1) have "fold_min f64_MAX xs \<noteq> f64_MAX"
    by (metis fle_Fin hd_in_set not_le f64_MAX_def)
  with fm(2) show ?thesis by simp
qed

lemma fold_max_attained:
  assumes "xs \<noteq> []" and "\<forall>x\<in>set xs. \<exists>q. x = Fin q \<and> - ((2 ^ 53 - 1) * 2 ^ 971) < q"
  shows "fold_max f64_MIN xs \<in> set xs"
proof -
  have nn: "\<forall>x\<in>set xs. x \<noteq> NaN" using assms(2) by auto
  from fold_max_ge [of f64_MIN xs] nn have fm: "\<forall>x\<in>set xs. fle x (fold_max f64_MIN xs)"
    "fold_max f64_MIN xs \<in> insert f64_MIN (set xs)" by (simp_all add: f64_MIN_def)
  obtain q where "hd xs = Fin q" "- ((2 ^ 53 - 1) * 2 ^ 971) < q" using assms by (meson hd_in_set)
  with fm(1) assms(1) have "fold_max f64_MIN xs \<noteq> f64_MIN"
    by (metis fle_Fin hd_in_set not_le f64_MIN_def)
  with fm(2) show ?thesis by simp
qed

lemma valid_position_Fin:
  assumes "valid_position p"
  shows "\<exists>q. pos_lat p = Fin q \<and> - 90 \<le> q \<and> q \<le> 90" and "\<exists>q. pos_lng p = Fin q \<and> - 180 \<le> q \<and> q \<le> 180"
  using assms by (auto simp: valid_position_def range_contains_Fin_iff)

lemma from_coordinates_sound:
  assumes "cs \<noteq> []" and "\<forall>p\<in>set cs. valid_position p"
  shows "\<exists>b. from_coordinates cs = Some b \<and> (\<forall>p\<in>set cs. in_box b p) \<and>
    pos_lat (south_west b) \<in> pos_lat ` set cs \<and> pos_lat (north_east b) \<in> pos_lat ` set cs \<and>
    pos_lng (south_west b) \<in> pos_lng ` set cs \<and> pos_lng (north_east b) \<in> pos_lng ` set cs"
proof -
  have big: "(180::rat) < (2 ^ 53 - 1) * 2 ^ 971" by simp
  have lat: "\<forall>x\<in>set (map pos_lat cs). \<exists>q. x = Fin q \<and> q < (2 ^ 53 - 1) * 2 ^ 971 \<and> - ((2 ^ 53 - 1) * 2 ^ 971) < q"
    and lng: "\<forall>x\<in>set (map pos_lng cs). \<exists>q. x = Fin q \<and> q < (2 ^ 53 - 1) * 2 ^ 971 \<and> - ((2 ^ 53 - 1) * 2 ^ 971) < q"
    using assms(2) valid_position_Fin big by (fastforce)+
  have nn: "\<forall>x\<in>set (map pos_lat cs). x \<noteq> NaN" "\<forall>x\<in>set (map pos_lng cs). x \<noteq> NaN"
    using lat lng by auto
  have ne: "map pos_lat cs \<noteq> []" "map pos_lng cs \<noteq> []" using assms(1) by simp_all
  have m: "f64_MAX \<noteq> NaN" "f64_MIN \<noteq> NaN" by (simp_all add: f64_MAX_def f64_MIN_def)
  have att: "fold_min f64_MAX (map pos_lat cs) \<in> pos_lat ` set cs"
    "fold_max f64_MIN (map pos_lat cs) \<in> pos_lat ` set cs"
    "fold_min f64_MAX (map pos_lng cs) \<in> pos_lng ` set cs"
    "fold_max f64_MIN (map pos_lng cs) \<in> pos_lng ` set cs"
    using fold_min_attained [OF ne(1)] fold_max_attained [OF ne(1)]
      fold_min_attained [OF ne(2)] fold_max_attained [OF ne(2)] lat lng
    by (metis (no_types, lifting) list.set_map)+
  show ?thesis
    unfolding from_coordinates_def extend_box_fold in_box_def
    using assms(1) att fold_min_le [OF m(1) nn(1)] fold_max_ge [OF m(2) nn(1)]
      fold_min_le [OF m(1) nn(2)] fold_max_ge [OF m(2) nn(2)]
    by simp
qed

section \<open>Elevation\<close>

lemma elevation_loop_nonneg:
  "fnonneg gain \<Longrightarrow> fnonneg loss \<Longrightarrow> elevation_loop es prev gain loss = (g, l) \<Longrightarrow>
    fnonneg g \<and> fnonneg l"
proof (induction es arbitrary: prev gain loss)
  case (Cons e es)
  have up: "fle ELEVATION_DEAD_BAND x \<Longrightarrow> fnonneg x" for x
    unfolding fnonneg_def ELEVATION_DEAD_BAND_def by (rule fle_trans [of _ "Fin 2"]) simp_all
  have down: "fle x y \<Longrightarrow> fnonneg (fabs x)" for x y
    by (rule fabs_nonneg) auto
  show ?case
  proof (cases prev)
    case None
    with Cons.prems Cons.IH [of gain loss "Some e"] show ?thesis by simp
  next
    case (Some p)
    let ?d = "fsub e p"
    consider "fle ELEVATION_DEAD_BAND ?d"
      | "\<not> fle ELEVATION_DEAD_BAND ?d" "fle ?d (fneg ELEVATION_DEAD_BAND)"
      | "\<not> fle ELEVATION_DEAD_BAND ?d" "\<not> fle ?d (fneg ELEVATION_DEAD_BAND)" by blast
    then show ?thesis
    proof cases
      case 1
      with Cons.prems Some Cons.IH [of "fadd gain ?d" loss "Some e"] up fadd_nonneg show ?thesis
        by simp
    next
      case 2
      with Cons.prems Some Cons.IH [of gain "fadd loss (fabs ?d)" "Some e"] down fadd_nonneg
      show ?thesis by simp
    next
      case 3
      with Cons.prems Some Cons.IH [of gain loss "Some e"] show ?thesis by simp
    qed
  qed
qed simp

section \<open>Preview\<close>

lemma of_nat_less_pow: "n < 2 ^ k \<Longrightarrow> (of_nat n::rat) < 2 ^ k"
  by (metis of_nat_less_iff of_nat_numeral of_nat_power)

lemma rnd_of_nat:
  assumes "1 \<le> n" and "n < 2 ^ 50"
  obtains y where "rnd (of_nat n) = Fin y" and "\<bar>y - of_nat n\<bar> \<le> of_nat n / 2 ^ 53"
proof (rule rnd_error [of "of_nat n"])
  have "pow2 (- 1022) \<le> pow2 0" by (rule pow2_mono) simp
  also have "\<dots> \<le> of_nat n" using assms(1) by (simp add: pow2_def)
  finally show "pow2 (- 1022) \<le> of_nat n" .
  have "(of_nat n::rat) < 2 ^ 50" using assms(2) by (rule of_nat_less_pow)
  also have "\<dots> = pow2 50" by (simp add: pow2_def)
  also have "\<dots> \<le> pow2 1023" by (rule pow2_mono) simp
  finally show "of_nat n < pow2 1023" .
qed (use that in blast)

lemma round_to_usize_near:
  assumes "\<bar>q - of_nat n\<bar> < 1 / 2" and "n < 2 ^ 63"
  shows "round_to_usize (Fin q) = n"
proof -
  have near: "q - of_nat n < 1 / 2" "of_nat n - q < 1 / 2" using assms(1) by linarith+
  have "\<lfloor>q + 1 / 2\<rfloor> = int n"
  proof (rule floor_unique)
    show "of_int (int n) \<le> q + 1 / 2" unfolding of_int_of_nat_eq using near by linarith
    show "q + 1 / 2 < of_int (int n) + 1" unfolding of_int_of_nat_eq using near by linarith
  qed
  moreover have "n = 0" if "q < 0"
  proof -
    have "(of_nat n::rat) < 1" using near that by linarith
    then show ?thesis by simp
  qed
  ultimately show ?thesis using assms(2) by (auto simp: round_to_usize_def)
qed

text \<open>
  The last sampled index: with \<open>a\<close> and \<open>b\<close> the rounded counts, the product \<open>b * (a / b)\<close> is off
  by two roundings, far less than half a point.
\<close>

lemma rounded_count_bounds:
  fixes a x :: rat
  assumes "\<bar>a - x\<bar> \<le> x / 2 ^ 53" and "1 \<le> x" and "x < 2 ^ 50"
  shows "a - x \<le> 1 / 8" and "x - a \<le> 1 / 8"
proof -
  have "x / 2 ^ 53 \<le> 2 ^ 50 / 2 ^ 53" using assms(3) by (intro divide_right_mono) simp_all
  also have "\<dots> = 1 / 8" by simp
  finally have "x / 2 ^ 53 \<le> 1 / 8" .
  with assms(1) show "a - x \<le> 1 / 8" and "x - a \<le> 1 / 8" by linarith+
qed

lemma small_relative_error:
  fixes y z :: rat
  assumes "\<bar>z - y\<bar> \<le> y / 2 ^ 53" and "y \<le> 2 ^ 50 + 1"
  shows "\<bar>z - y\<bar> \<le> 9 / 64"
proof -
  have "y / 2 ^ 53 \<le> (2 ^ 50 + 1) / 2 ^ 53" using assms(2) by (intro divide_right_mono) simp_all
  also have "\<dots> \<le> 9 / 64" by simp
  finally show ?thesis using assms(1) by linarith
qed

lemma quotient_product_near:
  assumes a: "7 / 8 \<le> a" "a \<le> 2 ^ 50 + 1 / 8" and b: "7 / 8 \<le> b" "b \<le> 2 ^ 50 + 1 / 8"
  obtains s t where "rnd (a / b) = Fin s" and "rnd (b * s) = Fin t" and "\<bar>t - a\<bar> \<le> 9 / 32"
proof -
  have lo: "pow2 (- 1022) \<le> a / b"
  proof -
    have "pow2 (- 1022) \<le> pow2 (- 52)" by (rule pow2_mono) simp
    also have "\<dots> \<le> (7 / 8) / (2 ^ 50 + 1 / 8)" by (simp add: pow2_def)
    also have "\<dots> \<le> a / b" using a b by (intro frac_le) linarith+
    finally show ?thesis .
  qed
  have hi: "a / b < pow2 1023"
  proof -
    have "a / b \<le> (2 ^ 50 + 1 / 8) / (7 / 8)" using a b by (intro frac_le) linarith+
    also have "\<dots> < pow2 52" by (simp add: pow2_def)
    also have "\<dots> \<le> pow2 1023" by (rule pow2_mono) simp
    finally show ?thesis .
  qed
  obtain s where s: "rnd (a / b) = Fin s" "\<bar>s - a / b\<bar> \<le> (a / b) / 2 ^ 53"
    using lo hi by (rule rnd_error)
  have b0: "0 < b" using b by linarith
  have "b * s - a = b * (s - a / b)" using b0 by (simp add: right_diff_distrib)
  then have "\<bar>b * s - a\<bar> = b * \<bar>s - a / b\<bar>" using b0 by (simp add: abs_mult)
  also have "\<dots> \<le> b * ((a / b) / 2 ^ 53)" using s(2) b0 by (intro mult_left_mono) linarith+
  also have "\<dots> = a / 2 ^ 53" using b0 by simp
  finally have "\<bar>b * s - a\<bar> \<le> a / 2 ^ 53" .
  then have bs: "\<bar>b * s - a\<bar> \<le> 9 / 64" by (rule small_relative_error) (use a in linarith)
  obtain t where t: "rnd (b * s) = Fin t" "\<bar>t - b * s\<bar> \<le> (b * s) / 2 ^ 53"
  proof (rule rnd_error [of "b * s"])
    have "pow2 (- 1022) \<le> pow2 (- 2)" by (rule pow2_mono) simp
    also have "\<dots> = 1 / 4" by (simp add: pow2_def)
    also have "\<dots> \<le> b * s" using bs a by linarith
    finally show "pow2 (- 1022) \<le> b * s" .
    have "b * s \<le> 2 ^ 50 + 1" using bs a by linarith
    also have "\<dots> < pow2 52" by (simp add: pow2_def)
    also have "\<dots> \<le> pow2 1023" by (rule pow2_mono) simp
    finally show "b * s < pow2 1023" .
  qed (use that in blast)
  from t(2) have "\<bar>t - b * s\<bar> \<le> 9 / 64" by (rule small_relative_error) (use bs a in linarith)
  with bs have "\<bar>t - a\<bar> \<le> 9 / 32" by linarith
  with s(1) t(1) show thesis by (rule that)
qed

lemma preview_index_last:
  assumes "1 \<le> m" and "m < 2 ^ 50" and "1 \<le> n" and "n < 2 ^ 50"
  shows "preview_index (n + 1) (m + 1) m = n"
proof -
  obtain a where a: "rnd (of_nat n) = Fin a" "\<bar>a - of_nat n\<bar> \<le> of_nat n / 2 ^ 53"
    using assms(3,4) by (rule rnd_of_nat)
  obtain b where b: "rnd (of_nat m) = Fin b" "\<bar>b - of_nat m\<bar> \<le> of_nat m / 2 ^ 53"
    using assms(1,2) by (rule rnd_of_nat)
  have n: "1 \<le> (of_nat n::rat)" and m: "1 \<le> (of_nat m::rat)" using assms(1,3) by simp_all
  note n = n of_nat_less_pow [OF assms(4)] and m = m of_nat_less_pow [OF assms(2)]
  note ab = rounded_count_bounds [OF a(2) n] rounded_count_bounds [OF b(2) m]
  obtain s t where st: "rnd (a / b) = Fin s" "rnd (b * s) = Fin t" "\<bar>t - a\<bar> \<le> 9 / 32"
    by (rule quotient_product_near [of a b]) (use ab n m in linarith)+
  have near: "\<bar>t - of_nat n\<bar> < 1 / 2" using st(3) ab by linarith
  have "b \<noteq> 0" using ab m by linarith
  with round_to_usize_near [OF near] assms(4) a(1) b(1) st(1,2) show ?thesis
    by (simp add: preview_index_def Let_def)
qed

lemma preview_index_first: "preview_index n k 0 = 0"
proof -
  have "rnd (of_nat 0) = Fin 0" by (simp add: rnd_def)
  moreover have "round_to_usize (fmul (Fin 0) x) = 0" for x
    by (cases x) (simp_all add: round_to_usize_def rnd_def)
  ultimately show ?thesis by (simp add: preview_index_def Let_def)
qed

lemma preview_index_bound: "1 \<le> n \<Longrightarrow> preview_index n k i < n"
  by (simp add: preview_index_def Let_def)

lemma simplify_preview_set: "set (simplify_preview cs k) \<subseteq> set cs"
proof (cases "cs = []")
  case False
  then have "preview_index (length cs) k i < length cs" for i
    by (intro preview_index_bound) (simp add: Suc_le_eq)
  then show ?thesis by (auto simp: simplify_preview_def dest: in_set_takeD)
qed (simp add: simplify_preview_def)

section \<open>Normalisation as a comprehension\<close>

text \<open>
  The reference: every point of every segment of two points or more, converted one by one, in the
  order of the file.
\<close>

definition tp_of :: "(string \<Rightarrow> time option) \<Rightarrow> gpx_track_point \<Rightarrow> track_point" where
  "tp_of P pt = \<lparr>tp_coordinate = \<lparr>pos_lat = gp_lat pt, pos_lng = gp_lon pt\<rparr>,
     tp_elevation = map_option RaElevation (gp_elevation pt),
     tp_timestamp = Option.bind (gp_time pt) P\<rparr>"

definition seg_of :: "(string \<Rightarrow> time option) \<Rightarrow> gpx_track_segment \<Rightarrow> track_segment" where
  "seg_of P s = \<lparr>ts_points = map (tp_of P) (gs_points s)\<rparr>"

definition kept_segments :: "gpx_track_segment list \<Rightarrow> gpx_track_segment list" where
  "kept_segments ss = filter (\<lambda>s. 2 \<le> length (gs_points s)) ss"

definition kept_points :: "(string \<Rightarrow> time option) \<Rightarrow> gpx_track_segment list \<Rightarrow> track_point list" where
  "kept_points P ss = map (tp_of P) (segment_points (kept_segments ss))"

definition timestamps_of :: "track_point list \<Rightarrow> time list" where
  "timestamps_of tps = List.map_filter tp_timestamp tps"

definition absorb :: "track_point list \<Rightarrow> normalize_acc \<Rightarrow> normalize_acc" where
  "absorb tps acc = acc\<lparr>all_coordinates := all_coordinates acc @ map tp_coordinate tps,
     all_elevations := all_elevations acc @ map tp_elevation tps,
     all_timestamps := all_timestamps acc @ timestamps_of tps,
     n_points := n_points acc + of_nat (length tps)\<rparr>"

lemma position_new_valid:
  "range_contains (Fin (- 90)) (Fin 90) lat \<Longrightarrow> range_contains (Fin (- 180)) (Fin 180) lon \<Longrightarrow>
    position_new lat lon = Ok \<lparr>pos_lat = lat, pos_lng = lon\<rparr>"
  by (simp add: position_new_def)

lemma gpx_point_to_track_point_valid:
  "valid_gpx_point pt \<Longrightarrow> gpx_point_to_track_point P pt = Ok (tp_of P pt)"
  by (simp add: gpx_point_to_track_point_def valid_gpx_point_def position_new_valid tp_of_def)

lemma add_points_valid:
  "\<forall>p\<in>set pts. valid_gpx_point p \<Longrightarrow>
    add_points P pts tps acc = Ok (tps @ map (tp_of P) pts, absorb (map (tp_of P) pts) acc)"
proof (induction pts arbitrary: tps acc)
  case (Cons p pts)
  then show ?case
    by (simp add: gpx_point_to_track_point_valid absorb_def timestamps_of_def map_filter_simps
        add.assoc split: option.split)
qed (simp add: absorb_def timestamps_of_def map_filter_simps)

definition track_distance ::
  "libm \<Rightarrow> (string \<Rightarrow> time option) \<Rightarrow> gpx_track_segment list \<Rightarrow> f64 \<Rightarrow> f64" where
  "track_distance M P ss d0 = foldl (\<lambda>d s. add_distances M (ts_points (seg_of P s)) d) d0 ss"

lemma add_segment_valid:
  "\<forall>p\<in>set (gs_points s). valid_gpx_point p \<Longrightarrow> 2 \<le> length (gs_points s) \<Longrightarrow>
    add_segment M P s acc = Ok ((absorb (ts_points (seg_of P s)) acc)
      \<lparr>total_distance := track_distance M P [s] (total_distance acc),
       all_segments := all_segments acc @ [seg_of P s]\<rparr>)"
  by (simp add: add_segment_def add_points_valid track_segment_new_def seg_of_def absorb_def
      track_distance_def)

lemma absorb_append:
  "absorb ys ((absorb xs acc)\<lparr>total_distance := d, all_segments := ss\<rparr>) =
    (absorb (xs @ ys) acc)\<lparr>total_distance := d, all_segments := ss\<rparr>"
  by (simp add: absorb_def timestamps_of_def map_filter_def add.assoc)

lemma absorb_Nil [simp]: "absorb [] acc = acc"
  by (simp add: absorb_def timestamps_of_def map_filter_simps)

lemma add_segments_valid:
  "\<forall>p\<in>set (segment_points ss). valid_gpx_point p \<Longrightarrow>
    add_segments M P ss acc = Ok ((absorb (kept_points P ss) acc)
      \<lparr>total_distance := track_distance M P (kept_segments ss) (total_distance acc),
       all_segments := all_segments acc @ map (seg_of P) (kept_segments ss)\<rparr>)"
proof (induction ss arbitrary: acc)
  case Nil
  then show ?case
    by (simp add: kept_points_def kept_segments_def segment_points_def track_distance_def)
next
  case (Cons s ss)
  then have valid: "\<forall>p\<in>set (segment_points ss). valid_gpx_point p"
    "\<forall>p\<in>set (gs_points s). valid_gpx_point p" by (auto simp: segment_points_def)
  show ?case
  proof (cases "2 \<le> length (gs_points s)")
    case True
    with add_segment_valid [OF valid(2) True] Cons.IH [OF valid(1)] show ?thesis
      by (simp add: absorb_append kept_points_def kept_segments_def segment_points_def
          track_distance_def) (simp add: absorb_def seg_of_def)
  next
    case False
    with Cons.IH [OF valid(1), of acc] show ?thesis
      by (simp add: add_segment_def kept_points_def kept_segments_def)
  qed
qed

lemma kept_points_ne: "kept_segments ss \<noteq> [] \<Longrightarrow> kept_points P ss \<noteq> []"
proof -
  assume "kept_segments ss \<noteq> []"
  then obtain s where "s \<in> set (kept_segments ss)" by (meson hd_in_set)
  then show ?thesis by (auto simp: kept_points_def segment_points_def kept_segments_def)
qed

lemma kept_points_valid:
  "\<forall>p\<in>set (segment_points ss). valid_gpx_point p \<Longrightarrow>
    \<forall>tp\<in>set (kept_points P ss). valid_position (tp_coordinate tp)"
  by (auto simp: kept_points_def segment_points_def kept_segments_def tp_of_def valid_gpx_point_def
      valid_position_def)

definition normalized_as ::
  "(string \<Rightarrow> time option) \<Rightarrow> gpx_track_segment list \<Rightarrow> normalized_track \<Rightarrow> bool" where
  "normalized_as P ss nt \<longleftrightarrow>
    (let track = nt_recorded_track nt; stats = rt_statistics track; pts = kept_points P ss in
     rt_segments track = map (seg_of P) (kept_segments ss) \<and>
     rs_point_count stats = of_nat (length pts) \<and>
     rs_segment_count stats = of_nat (length (kept_segments ss)) \<and>
     list_all (\<lambda>tp. in_box (rt_bounding_box track) (tp_coordinate tp)) pts \<and>
     set (nt_preview_geometry nt) \<subseteq> set (map tp_coordinate pts) \<and>
     pred_option fnonneg (rs_elevation_gain_meters stats) \<and>
     pred_option fnonneg (rs_elevation_loss_meters stats) \<and>
     list_all (\<lambda>t. \<exists>a b. nt_started_at nt = Some a \<and> nt_ended_at nt = Some b \<and> a \<le> t \<and> t \<le> b)
       (timestamps_of pts))"

lemma calculate_elevation_stats_nonneg:
  "calculate_elevation_stats es = (g, l) \<Longrightarrow> pred_option fnonneg g \<and> pred_option fnonneg l"
  using elevation_loop_nonneg [of "Fin 0" "Fin 0"]
  by (auto simp: calculate_elevation_stats_def fnonneg_def Let_def split: if_splits prod.splits)

lemma sorted_span:
  fixes ts :: "time list"
  assumes "t \<in> set ts"
  shows "hd (sort ts) \<le> t \<and> t \<le> last (sort ts)"
proof -
  from assms obtain i where i: "i < length ts" "sort ts ! i = t"
    by (metis in_set_conv_nth set_sort length_sort)
  then have ne: "sort ts \<noteq> []" by (metis length_0_conv length_sort not_less_zero)
  have "sort ts ! 0 \<le> sort ts ! i" by (rule sorted_nth_mono) (use i in simp_all)
  moreover have "sort ts ! i \<le> sort ts ! (length ts - 1)" by (rule sorted_nth_mono) (use i in simp_all)
  ultimately show ?thesis using ne i by (simp add: hd_conv_nth last_conv_nth)
qed

lemma normalize_gpx_valid:
  assumes "\<forall>p\<in>set (segment_points (track_segments (gr_tracks r))). valid_gpx_point p"
  defines "ss \<equiv> track_segments (gr_tracks r)"
  shows "case normalize_gpx M P i r of
      Err e \<Rightarrow> e = NoSegments \<and> kept_segments ss = []
    | Ok nt \<Rightarrow> kept_segments ss \<noteq> [] \<and> normalized_as P ss nt \<and>
        rs_distance_meters (rt_statistics (nt_recorded_track nt)) =
          track_distance M P (kept_segments ss) (Fin 0)"
proof (cases "kept_segments ss = []")
  case True
  with assms(1) show ?thesis
    by (simp add: normalize_gpx_def add_segments_valid track_segments_def [symmetric] ss_def)
next
  case False
  let ?cs = "map tp_coordinate (kept_points P ss)"
  have "?cs \<noteq> []" and "\<forall>p\<in>set ?cs. valid_position p"
    using kept_points_ne [OF False] kept_points_valid [OF assms(1)] by (simp_all add: ss_def)
  then obtain b where b: "from_coordinates ?cs = Some b" "\<forall>p\<in>set ?cs. in_box b p"
    using from_coordinates_sound by blast
  obtain g l where gl: "calculate_elevation_stats (map tp_elevation (kept_points P ss)) = (g, l)"
    by fastforce
  define ts where "ts = timestamps_of (kept_points P ss)"
  have span: "(2 \<le> length ts \<longrightarrow> (sort ts = [] \<longrightarrow> ts = []) \<and>
      (sort ts \<noteq> [] \<longrightarrow> (\<forall>t\<in>set ts. hd (sort ts) \<le> t \<and> t \<le> last (sort ts)))) \<and>
      (\<not> 2 \<le> length ts \<longrightarrow> ts \<noteq> [] \<longrightarrow> (\<forall>t\<in>set ts. hd ts \<le> t \<and> t \<le> last ts))"
    using sorted_span [of _ ts] by (cases ts; cases "tl ts") (auto simp flip: length_0_conv)
  show ?thesis
    using assms(1) False b gl calculate_elevation_stats_nonneg [OF gl] span
      simplify_preview_set [of ?cs MAX_PREVIEW_POINTS]
    by (simp add: normalize_gpx_def add_segments_valid track_segments_def [symmetric] ss_def [symmetric]
        absorb_def recorded_track_new_def normalized_as_def list_all_iff ts_def [symmetric] Let_def)
qed

section \<open>Properties\<close>

text \<open>C19. Normalising a parsed file cannot fail on a coordinate: it fails exactly when no segment has two
  points, with \<open>NoSegments\<close>; otherwise the recorded track holds exactly the segments of two points
  or more, every point of them converted in order, counts them, adds the haversine distance of each
  consecutive pair, spans all timestamps, and its bounding box contains every point.\<close>

theorem parse_normalize_exact:
  assumes "parse_gpx read_events input = Ok r"
  shows "case normalize_gpx M P i r of
      Err e \<Rightarrow> e = NoSegments \<and> kept_segments (track_segments (gr_tracks r)) = []
    | Ok nt \<Rightarrow> kept_segments (track_segments (gr_tracks r)) \<noteq> [] \<and>
        normalized_as P (track_segments (gr_tracks r)) nt \<and>
        rs_distance_meters (rt_statistics (nt_recorded_track nt)) =
          track_distance M P (kept_segments (track_segments (gr_tracks r))) (Fin 0)"
  using parse_gpx_points_valid [OF assms] by (rule normalize_gpx_valid)

theorem parse_normalize_exact_witness:
  "\<exists>r. parse_gpx (\<lambda>_. sample_events) ''<gpx/>'' = Ok r \<and>
    (case normalize_gpx \<lparr>m_sin = \<lambda>_. Fin 0, m_cos = \<lambda>_. Fin 1, m_asin = \<lambda>_. Fin 0, m_sqrt = \<lambda>_. Fin 0\<rparr>
        (\<lambda>_. None) (RecordedTrackId 1) r of
      Err e \<Rightarrow> kept_segments (track_segments (gr_tracks r)) = []
    | Ok nt \<Rightarrow> normalized_as (\<lambda>_. None) (track_segments (gr_tracks r)) nt)"
proof -
  from sample_parsed obtain r where r: "parse_gpx (\<lambda>_. sample_events) ''<gpx/>'' = Ok r" by blast
  with parse_normalize_exact [OF r, where M =
      "\<lparr>m_sin = \<lambda>_. Fin 0, m_cos = \<lambda>_. Fin 1, m_asin = \<lambda>_. Fin 0, m_sqrt = \<lambda>_. Fin 0\<rparr>"
      and P = "\<lambda>_. None" and i = "RecordedTrackId 1"] show ?thesis
    by (intro exI [of _ r]) (auto split: result.splits)
qed

text \<open>The bounding box of valid positions contains all of them and is the smallest such box: each
  side passes through one of the positions.\<close>

theorem from_coordinates_tight:
  assumes "cs \<noteq> []" and "\<forall>p\<in>set cs. valid_position p"
  shows "\<exists>b. from_coordinates cs = Some b \<and> (\<forall>p\<in>set cs. in_box b p) \<and>
    (\<forall>b'. (\<forall>p\<in>set cs. in_box b' p) \<longrightarrow> in_box b' (south_west b) \<and> in_box b' (north_east b))"
proof -
  from from_coordinates_sound [OF assms] obtain b where
    b: "from_coordinates cs = Some b" "\<forall>p\<in>set cs. in_box b p"
      "pos_lat (south_west b) \<in> pos_lat ` set cs" "pos_lat (north_east b) \<in> pos_lat ` set cs"
      "pos_lng (south_west b) \<in> pos_lng ` set cs" "pos_lng (north_east b) \<in> pos_lng ` set cs"
    by blast
  then show ?thesis by (intro exI [of _ b]) (auto simp: in_box_def)
qed

theorem from_coordinates_tight_witness:
  "\<exists>b. from_coordinates [\<lparr>pos_lat = Fin 1, pos_lng = Fin 2\<rparr>] = Some b \<and>
    in_box b \<lparr>pos_lat = Fin 1, pos_lng = Fin 2\<rparr>"
  using from_coordinates_tight [of "[\<lparr>pos_lat = Fin 1, pos_lng = Fin 2\<rparr>]"]
  by (auto simp: valid_position_def range_contains_def)

text \<open>The preview keeps the ends: for any track of fewer than \<open>2 ^ 50\<close> points it has at most
  \<open>max_points\<close> points, all of them points of the track, and begins and ends where the track does,
  whatever the rounding of the sampling step.\<close>

theorem simplify_preview_keeps_ends:
  assumes "2 \<le> k" and "k \<le> 2 ^ 50" and "cs \<noteq> []" and "length cs \<le> 2 ^ 50"
  shows "length (simplify_preview cs k) = min (length cs) k \<and>
    set (simplify_preview cs k) \<subseteq> set cs \<and>
    hd (simplify_preview cs k) = hd cs \<and> last (simplify_preview cs k) = last cs"
proof (cases "length cs \<le> k")
  case False
  let ?n = "length cs - 1" and ?m = "k - 1"
  have nm: "length cs = ?n + 1" "k = ?m + 1" using assms False by simp_all
  have "preview_index (?n + 1) (?m + 1) ?m = ?n"
    by (rule preview_index_last) (use assms False in simp_all)
  then have last: "preview_index (length cs) k ?m = ?n" using nm by simp
  have ups: "[0..<k] = 0 # [1..<k]" "[0..<k] = [0..<?m] @ [?m]"
    using assms(1) by (simp_all add: upt_conv_Cons upt_Suc_append [symmetric])
  have "hd (simplify_preview cs k) = cs ! 0"
    unfolding simplify_preview_def using False assms(1) ups(1) by (simp add: preview_index_first)
  moreover have "last (simplify_preview cs k) = cs ! ?n"
    unfolding simplify_preview_def using False assms(1) ups(2) last by (simp add: last_map)
  ultimately show ?thesis
    using False assms simplify_preview_set [of cs k]
    by (simp add: simplify_preview_def hd_conv_nth last_conv_nth)
qed (simp add: simplify_preview_def)

theorem simplify_preview_keeps_ends_witness:
  "last (simplify_preview (map (\<lambda>i. \<lparr>pos_lat = Fin (of_nat i), pos_lng = Fin 0\<rparr>) [0..<8]) 3) =
    \<lparr>pos_lat = Fin 7, pos_lng = Fin 0\<rparr>"
  using simplify_preview_keeps_ends [of 3 "map (\<lambda>i. \<lparr>pos_lat = Fin (of_nat i), pos_lng = Fin 0\<rparr>) [0..<8]"]
  by (simp add: last_map upt_rec)

end
