(* ===== verification/Route_Versioning.thy ===== *)
theory Route_Versioning
  imports Draft_Persistence Recorded_Activity
begin

text \<open>
  Route versions, \<open>crates/app/src/route_versioning\<close>: the immutable versions with their two
  factories (\<open>mod.rs\<close>), the statistics computed from a corrected geometry
  (\<open>corrected_statistics.rs\<close>) and the publication of a draft as version N+1
  (\<open>publish_command.rs\<close>).  The repositories and the gateway are records of functions on the state
  behind them; a generated id and the current time are arguments.
\<close>

section \<open>Corrected statistics\<close>

definition CALCULATION_VERSION :: string where
  "CALCULATION_VERSION = ''v1.0''"

record corrected_statistics =
  cs_distance_meters :: f64
  cs_point_count :: u32
  cs_calculation_version :: string

definition corrected_haversine :: "libm \<Rightarrow> position \<Rightarrow> position \<Rightarrow> f64" where
  "corrected_haversine M a b =
    (let r = Fin 6371000; lat1 = to_radians (pos_lat a); lat2 = to_radians (pos_lat b);
         dlat = to_radians (fsub (pos_lat b) (pos_lat a));
         dlon = to_radians (fsub (pos_lng b) (pos_lng a));
         s1 = m_sin M (fdiv dlat (Fin 2)); s2 = m_sin M (fdiv dlon (Fin 2));
         h = fadd (fmul s1 s1) (fmul (fmul (m_cos M lat1) (m_cos M lat2)) (fmul s2 s2))
     in fmul (fmul (Fin 2) r) (m_asin M (m_sqrt M h)))"

definition compute_total_distance :: "libm \<Rightarrow> position list \<Rightarrow> f64" where
  "compute_total_distance M coords =
    (if length coords < 2 then Fin 0
     else foldl (\<lambda>d (p, q). fadd d (corrected_haversine M p q)) (Fin 0) (windows2 coords))"

definition calculate_from_geometry :: "libm \<Rightarrow> position list \<Rightarrow> corrected_statistics" where
  "calculate_from_geometry M coords =
    \<lparr>cs_distance_meters = compute_total_distance M coords,
     cs_point_count = of_nat (length coords), cs_calculation_version = CALCULATION_VERSION\<rparr>"

section \<open>Versions\<close>

datatype route_version_id = RouteVersionId (version_uuid: uuid)

datatype rv_message =
    RvText string
  | RvDatabase db_error
  | RvDatabaseText string db_error
  | RvInvalid publication_validation_error

datatype route_versioning_error =
    NotFound
  | Immutable
  | InsufficientGeometry nat nat
  | InvalidVersionNumber i32 i32
  | DraftNotFound
  | NotAuthorized
  | RevisionConflict u64 u64
  | DraftNotActive
  | ValidationFailed "rv_message list"
  | IdempotencyConflict
  | ActivityNotFound
  | PersistenceError rv_message

record route_version =
  rv_id :: route_version_id
  rv_activity_id :: activity_id
  rv_parent_version_id :: "route_version_id option"
  rv_version_number :: i32
  rv_geometry :: "position list"
  rv_bounding_box :: bounding_box
  rv_corrected_statistics :: corrected_statistics
  rv_calculation_version :: string
  rv_edit_summary :: "string option"
  rv_created_by :: user_id
  rv_created_at :: time

definition new_initial ::
  "route_version_id \<Rightarrow> time \<Rightarrow> activity_id \<Rightarrow> position list \<Rightarrow> bounding_box \<Rightarrow> corrected_statistics \<Rightarrow>
    string \<Rightarrow> user_id \<Rightarrow> (route_version, route_versioning_error) result" where
  "new_initial new_id now activity geo bb stats calc created_by =
    (if length geo < 2 then Err (InsufficientGeometry 2 (length geo))
     else Ok \<lparr>rv_id = new_id, rv_activity_id = activity, rv_parent_version_id = None,
       rv_version_number = 1, rv_geometry = geo, rv_bounding_box = bb,
       rv_corrected_statistics = stats, rv_calculation_version = calc, rv_edit_summary = None,
       rv_created_by = created_by, rv_created_at = now\<rparr>)"

definition new_from_publication ::
  "route_version_id \<Rightarrow> time \<Rightarrow> route_version_id \<Rightarrow> i32 \<Rightarrow> activity_id \<Rightarrow> position list \<Rightarrow> bounding_box \<Rightarrow>
    corrected_statistics \<Rightarrow> string \<Rightarrow> string option \<Rightarrow> user_id \<Rightarrow>
    (route_version, route_versioning_error) result" where
  "new_from_publication new_id now parent number activity geo bb stats calc summary created_by =
    (if sint number < 2 then Err (InvalidVersionNumber 2 number)
     else if length geo < 2 then Err (InsufficientGeometry 2 (length geo))
     else Ok \<lparr>rv_id = new_id, rv_activity_id = activity, rv_parent_version_id = Some parent,
       rv_version_number = number, rv_geometry = geo, rv_bounding_box = bb,
       rv_corrected_statistics = stats, rv_calculation_version = calc, rv_edit_summary = summary,
       rv_created_by = created_by, rv_created_at = now\<rparr>)"

section \<open>Publication\<close>

record 's route_version_repository =
  ver_save :: "route_version \<Rightarrow> ('s, unit, route_versioning_error) step"
  ver_find_latest :: "activity_id \<Rightarrow> ('s, route_version option, route_versioning_error) step"
  ver_find_by_idempotency_key :: "string \<Rightarrow> ('s, route_version option, route_versioning_error) step"

record 's publication_gateway =
  update_activity_current_version ::
    "activity_id \<Rightarrow> route_version_id \<Rightarrow> corrected_statistics \<Rightarrow> ('s, unit, route_versioning_error) step"

record publish_route_version_command =
  pc_draft_id :: route_draft_id
  pc_expected_revision :: u64
  pc_actor_id :: user_id
  pc_idempotency_key :: string
  pc_edit_summary :: "string option"

definition flatten_geometry :: "geometry \<Rightarrow> position list" where
  "flatten_geometry segs =
    map (\<lambda>p. \<lparr>pos_lat = latitude (coordinate p), pos_lng = longitude (coordinate p)\<rparr>) (concat segs)"

definition map_validation_errors :: "publication_validation_error list \<Rightarrow> route_versioning_error" where
  "map_validation_errors errors =
    (case errors of
       [NotOwner] \<Rightarrow> NotAuthorized
     | [publication_validation_error.DraftNotActive] \<Rightarrow> DraftNotActive
     | [RevisionMismatch expected actual] \<Rightarrow> RevisionConflict expected actual
     | _ \<Rightarrow> ValidationFailed (map RvInvalid errors))"

definition execute_publish ::
  "libm \<Rightarrow> route_version_id \<Rightarrow> time \<Rightarrow> 's draft_repository \<Rightarrow> 's route_version_repository \<Rightarrow>
    's publication_gateway \<Rightarrow> publish_route_version_command \<Rightarrow>
    ('s, route_version, route_versioning_error) step" where
  "execute_publish M new_id now D V G cmd =
    bindq (ver_find_by_idempotency_key V (pc_idempotency_key cmd)) (\<lambda>existing. case existing of
      Some v \<Rightarrow> returnq v
    | None \<Rightarrow>
      bindq (map_errq (\<lambda>_. DraftNotFound) (repo_find_by_id D (pc_draft_id cmd))) (\<lambda>found.
      bindq (of_result (ok_or DraftNotFound found)) (\<lambda>draft.
      bindq (of_result (map_err map_validation_errors
          (validate_for_publication draft (pc_expected_revision cmd) (pc_actor_id cmd)))) (\<lambda>_.
      let flat = flatten_geometry (geometry draft) in
      bindq (of_result (ok_or (ValidationFailed [RvText ''geometry produced no bounding box''])
          (from_coordinates flat))) (\<lambda>bb.
      let stats = calculate_from_geometry M flat in
      bindq (ver_find_latest V (d_activity_id draft)) (\<lambda>latest_opt.
      bindq (of_result (ok_or ActivityNotFound latest_opt)) (\<lambda>latest.
      bindq (of_result (new_from_publication new_id now (rv_id latest)
          (rv_version_number latest + 1) (d_activity_id draft) flat bb stats
          (cs_calculation_version stats) (pc_edit_summary cmd) (pc_actor_id cmd))) (\<lambda>version.
      bindq (ver_save V version) (\<lambda>_.
      case publish now draft of
        (Err _, _) \<Rightarrow> failq DraftNotActive
      | (Ok _, draft') \<Rightarrow>
        bindq (map_errq (\<lambda>_. PersistenceError (RvText ''failed to update draft''))
            (repo_update D draft')) (\<lambda>_.
        bindq (update_activity_current_version G (d_activity_id draft') (rv_id version)
            (rv_corrected_statistics version)) (\<lambda>_.
        returnq version)))))))))))"

section \<open>The two distance computations\<close>

text \<open>
  \<open>f64::asin\<close> returns a number of the format in \<open>[-\<pi>/2, \<pi>/2]\<close>, or NaN.  Doubling such a number is
  exact, so the two bracketings of \<open>2 * r * asin(...)\<close> round alike.
\<close>

definition asin_in_range :: "libm \<Rightarrow> bool" where
  "asin_in_range M \<longleftrightarrow>
    (\<forall>x. m_asin M x = NaN \<or> (\<exists>c. m_asin M x = Fin c \<and> rnd c = Fin c \<and> \<bar>c\<bar> \<le> 2))"

lemma corrected_haversine_eq:
  assumes "asin_in_range M"
  shows "corrected_haversine M a b = haversine_distance M a b"
proof -
  have r: "rnd 12742000 = Fin 12742000" using rnd_of_nat_exact [of 12742000] by simp
  have "fmul (fmul (Fin 2) (Fin 6371000)) y = fmul (Fin 6371000) (fmul (Fin 2) y)"
    if y: "y = NaN \<or> (\<exists>c. y = Fin c \<and> rnd c = Fin c \<and> \<bar>c\<bar> \<le> 2)" for y
  proof (cases "y = NaN")
    case True
    then show ?thesis by (simp add: r)
  next
    case False
    with y obtain c where c: "y = Fin c" "rnd c = Fin c" "\<bar>c\<bar> \<le> 2" by blast
    have "\<bar>c\<bar> < pow2 2" using c(3) by (simp add: pow2_def)
    also have "\<dots> \<le> pow2 1023" by (rule pow2_mono) simp
    finally have "rnd (2 * c) = Fin (2 * c)" by (rule rnd_double [OF c(2)])
    with c r show ?thesis by simp
  qed
  then have "fmul (fmul (Fin 2) (Fin 6371000)) (m_asin M x) =
      fmul (Fin 6371000) (fmul (Fin 2) (m_asin M x))" for x
    using assms unfolding asin_in_range_def by blast
  then show ?thesis
    by (simp only: corrected_haversine_def haversine_distance_def Let_def EARTH_RADIUS_METERS_def)
qed

lemma windows2_map: "windows2 (map f xs) = map (map_prod f f) (windows2 xs)"
  by (simp add: windows2_def map_prod_def zip_map_map flip: map_tl)

lemma foldl_map_pairs:
  "foldl (\<lambda>d (p, q). g d p q) d0 (map (map_prod f f) ps) = foldl (\<lambda>d (p, q). g d (f p) (f q)) d0 ps"
  by (induction ps arbitrary: d0) auto

section \<open>What publication establishes\<close>

lemma validated_geometry:
  assumes "validate_for_publication d r actor = Ok ()"
  shows "d_owner_id d = actor" and "d_state d = Active" and "revision d = r"
    and "2 \<le> length (flatten_geometry (geometry d))"
    and "\<forall>p\<in>set (flatten_geometry (geometry d)). valid_position p"
proof -
  from assms show "d_owner_id d = actor" "d_state d = Active" "revision d = r"
    by (auto simp: validate_for_publication_def Let_def split: if_splits)
  from assms have "publication_errors d = []"
    by (auto simp: validate_for_publication_def Let_def split: if_splits)
  then have "geometry_problems d = {}" using set_publication_errors [of d] by simp
  then have ne: "geometry d \<noteq> []"
    and len: "\<And>i. i < length (geometry d) \<Longrightarrow> 2 \<le> length (geometry d ! i)"
    and pts: "\<And>i j. i < length (geometry d) \<Longrightarrow> j < length (geometry d ! i) \<Longrightarrow>
      range_contains (Fin (- 90)) (Fin 90) (latitude (coordinate (geometry d ! i ! j))) \<and>
      range_contains (Fin (- 180)) (Fin 180) (longitude (coordinate (geometry d ! i ! j)))"
    unfolding geometry_problems_def by (auto simp: not_less [symmetric])
  from ne obtain seg rest where geo: "geometry d = seg # rest" by (cases "geometry d") auto
  with len [of 0] have "2 \<le> length seg" by simp
  then show "2 \<le> length (flatten_geometry (geometry d))"
    by (simp add: flatten_geometry_def geo)
  show "\<forall>p\<in>set (flatten_geometry (geometry d)). valid_position p"
    using pts by (fastforce simp: flatten_geometry_def valid_position_def in_set_conv_nth)
qed

lemma sint_succ:
  fixes w :: i32
  assumes "2 \<le> sint (w + 1)"
  shows "sint (w + 1) = sint w + 1"
proof (cases "sint w = 2 ^ 31 - 1")
  case True
  then have "sint (w + 1) = signed_take_bit 31 (2 ^ 31 :: int)"
    by (simp add: sint_word_ariths)
  then have "sint (w + 1) = - (2 ^ 31)" by (simp add: signed_take_bit_int_eq_self_iff) 
  with assms show ?thesis by simp
next
  case False
  with sint_lt [of w] sint_ge [of w] show ?thesis
    by (simp add: sint_word_ariths signed_take_bit_int_eq_self)
qed

text \<open>How a published version relates to the draft and to the version before it.\<close>

definition publishes ::
  "libm \<Rightarrow> publish_route_version_command \<Rightarrow> route_draft \<Rightarrow> route_version \<Rightarrow> route_version \<Rightarrow> bool" where
  "publishes M cmd d latest v \<longleftrightarrow>
    d_owner_id d = pc_actor_id cmd \<and> d_state d = Active \<and> revision d = pc_expected_revision cmd \<and>
    rv_parent_version_id v = Some (rv_id latest) \<and>
    sint (rv_version_number v) = sint (rv_version_number latest) + 1 \<and>
    rv_activity_id v = d_activity_id d \<and> rv_created_by v = d_owner_id d \<and>
    rv_geometry v = flatten_geometry (geometry d) \<and> 2 \<le> length (rv_geometry v) \<and>
    list_all (in_box (rv_bounding_box v)) (rv_geometry v) \<and>
    rv_corrected_statistics v = calculate_from_geometry M (rv_geometry v)"

lemma new_from_publication_publishes:
  assumes "validate_for_publication d (pc_expected_revision cmd) (pc_actor_id cmd) = Ok ()"
    and "from_coordinates (flatten_geometry (geometry d)) = Some bb"
    and "new_from_publication i now (rv_id latest) (rv_version_number latest + 1) (d_activity_id d)
      (flatten_geometry (geometry d)) bb (calculate_from_geometry M (flatten_geometry (geometry d)))
      calc summary (pc_actor_id cmd) = Ok v"
  shows "publishes M cmd d latest v"
proof -
  note g = validated_geometry [OF assms(1)]
  have "flatten_geometry (geometry d) \<noteq> []" using g(4) by auto
  from from_coordinates_sound [OF this g(5)] assms(2)
  have box: "\<forall>p\<in>set (flatten_geometry (geometry d)). in_box bb p" by auto
  from assms(3) have "2 \<le> sint (rv_version_number latest + 1)"
    by (auto simp: new_from_publication_def split: if_splits)
  from sint_succ [OF this] assms(3) g(1-4) box show ?thesis
    by (auto simp: new_from_publication_def publishes_def list_all_iff split: if_splits)
qed

lemma execute_publish_Ok:
  assumes "execute_publish M i now D V G cmd s = (Ok v, s')"
  obtains (replay) "ver_find_by_idempotency_key V (pc_idempotency_key cmd) s = (Ok (Some v), s')"
  | (new) s1 s2 s3 s4 s5 d latest where
      "ver_find_by_idempotency_key V (pc_idempotency_key cmd) s = (Ok None, s1)"
      "repo_find_by_id D (pc_draft_id cmd) s1 = (Ok (Some d), s2)"
      "ver_find_latest V (d_activity_id d) s2 = (Ok (Some latest), s3)"
      "publishes M cmd d latest v"
      "ver_save V v s3 = (Ok (), s4)"
      "repo_update D (d\<lparr>d_state := Published, d_updated_at := now\<rparr>) s4 = (Ok (), s5)"
      "update_activity_current_version G (d_activity_id d) (rv_id v) (rv_corrected_statistics v) s5 =
        (Ok (), s')"
proof -
  from assms obtain existing s1 where
    key: "ver_find_by_idempotency_key V (pc_idempotency_key cmd) s = (Ok existing, s1)"
    by (auto simp: execute_publish_def bindq_Ok)
  show thesis
  proof (cases existing)
    case (Some w)
    with assms key have "w = v" "s1 = s'" by (auto simp: execute_publish_def bindq_Ok)
    with key Some show thesis by (intro replay) simp
  next
    case None
    with assms key obtain d s2 where
      d: "repo_find_by_id D (pc_draft_id cmd) s1 = (Ok (Some d), s2)"
      by (auto simp: execute_publish_def bindq_Ok map_errq_Ok result_simps)
    with assms key None obtain bb latest s3 where
      val: "validate_for_publication d (pc_expected_revision cmd) (pc_actor_id cmd) = Ok ()" and
      bb: "from_coordinates (flatten_geometry (geometry d)) = Some bb" and
      latest: "ver_find_latest V (d_activity_id d) s2 = (Ok (Some latest), s3)"
      by (auto simp: execute_publish_def bindq_Ok map_errq_Ok result_simps Let_def)
    from validated_geometry(2) [OF val]
    have pub: "publish now d = (Ok (), d\<lparr>d_state := Published, d_updated_at := now\<rparr>)"
      by (simp add: publish_def check_active_def)
    from assms key None d val bb latest pub obtain s4 s5 where
      v: "new_from_publication i now (rv_id latest) (rv_version_number latest + 1) (d_activity_id d)
        (flatten_geometry (geometry d)) bb (calculate_from_geometry M (flatten_geometry (geometry d)))
        (cs_calculation_version (calculate_from_geometry M (flatten_geometry (geometry d))))
        (pc_edit_summary cmd) (pc_actor_id cmd) = Ok v" and
      save: "ver_save V v s3 = (Ok (), s4)" and
      "repo_update D (d\<lparr>d_state := Published, d_updated_at := now\<rparr>) s4 = (Ok (), s5)"
      "update_activity_current_version G (d_activity_id d) (rv_id v) (rv_corrected_statistics v) s5 =
        (Ok (), s')"
      by (auto simp: execute_publish_def bindq_Ok map_errq_Ok result_simps Let_def)
    with key None d latest new_from_publication_publishes [OF val bb v] save show thesis
      by (intro new) auto
  qed
qed

section \<open>Properties\<close>

text \<open>C22. The distance a published version reports for an unedited segment is, bit for bit, the
  distance recorded for it at import: the two haversine implementations agree.\<close>

theorem corrected_distance_eq_recorded:
  assumes "asin_in_range M"
  shows "compute_total_distance M (map tp_coordinate tps) = add_distances M tps (Fin 0)"
proof (cases "length tps < 2")
  case True
  then have "windows2 tps = []" by (cases tps; cases "tl tps") (auto simp: windows2_def)
  with True show ?thesis by (simp add: compute_total_distance_def add_distances_def)
next
  case False
  then show ?thesis
    by (simp add: compute_total_distance_def add_distances_def windows2_map foldl_map_pairs
        corrected_haversine_eq [OF assms])
qed

definition sample_libm :: libm where
  "sample_libm = \<lparr>m_sin = \<lambda>_. Fin 0, m_cos = \<lambda>_. Fin 1, m_asin = \<lambda>_. Fin 1, m_sqrt = \<lambda>_. Fin 0\<rparr>"

definition sample_track_point :: "rat \<Rightarrow> track_point" where
  "sample_track_point x = \<lparr>tp_coordinate = \<lparr>pos_lat = Fin x, pos_lng = Fin 0\<rparr>, tp_elevation = None,
     tp_timestamp = None\<rparr>"

theorem corrected_distance_eq_recorded_witness:
  "compute_total_distance sample_libm (map tp_coordinate [sample_track_point 0, sample_track_point 1]) =
    add_distances sample_libm [sample_track_point 0, sample_track_point 1] (Fin 0)"
proof (rule corrected_distance_eq_recorded)
  show "asin_in_range sample_libm"
    using rnd_of_nat_exact [of 1] by (simp add: asin_in_range_def sample_libm_def)
qed

text \<open>C23. Publishing yields either the version already recorded under the idempotency key or a new
  one, and then: the caller owns the draft, which was active and at the expected revision; the
  version number is the latest one plus one, without overflow, with the latest as its parent; the
  geometry is the draft's, of two points or more, inside the bounding box; and the statistics are
  the ones computed from it.\<close>

theorem execute_publish_next_version:
  assumes "execute_publish M i now D V G cmd s = (Ok v, s')"
  shows "ver_find_by_idempotency_key V (pc_idempotency_key cmd) s = (Ok (Some v), s') \<or>
    (\<exists>s1 s2 s3 d latest. repo_find_by_id D (pc_draft_id cmd) s1 = (Ok (Some d), s2) \<and>
      ver_find_latest V (d_activity_id d) s2 = (Ok (Some latest), s3) \<and> publishes M cmd d latest v)"
  using assms by (rule execute_publish_Ok) blast+

definition sample_publishable :: route_draft where
  "sample_publishable = sample_draft\<lparr>base_route_version_id := Some 7\<rparr>"

definition sample_version :: route_version where
  "sample_version = \<lparr>rv_id = RouteVersionId 7, rv_activity_id = ActivityId 2,
     rv_parent_version_id = None, rv_version_number = 1, rv_geometry = [],
     rv_bounding_box = \<lparr>south_west = \<lparr>pos_lat = Fin 0, pos_lng = Fin 0\<rparr>,
       north_east = \<lparr>pos_lat = Fin 0, pos_lng = Fin 0\<rparr>\<rparr>,
     rv_corrected_statistics = \<lparr>cs_distance_meters = Fin 0, cs_point_count = 0,
       cs_calculation_version = ''v1.0''\<rparr>,
     rv_calculation_version = ''v1.0'', rv_edit_summary = None, rv_created_by = UserId 3,
     rv_created_at = 0\<rparr>"

definition sample_drafts :: "unit draft_repository" where
  "sample_drafts = \<lparr>repo_save = \<lambda>_ s. (Ok (), s),
     repo_find_by_id = \<lambda>_ s. (Ok (Some sample_publishable), s),
     repo_find_active = \<lambda>_ _ s. (Ok None, s), repo_update = \<lambda>_ s. (Ok (), s),
     repo_find_by_operation_id = \<lambda>_ s. (Ok None, s)\<rparr>"

definition sample_versions :: "unit route_version_repository" where
  "sample_versions = \<lparr>ver_save = \<lambda>_ s. (Ok (), s),
     ver_find_latest = \<lambda>_ s. (Ok (Some sample_version), s),
     ver_find_by_idempotency_key = \<lambda>_ s. (Ok None, s)\<rparr>"

theorem execute_publish_next_version_witness:
  "\<exists>v s'. execute_publish sample_libm (RouteVersionId 8) 5 sample_drafts sample_versions
      \<lparr>update_activity_current_version = \<lambda>_ _ _ s. (Ok (), s)\<rparr>
      \<lparr>pc_draft_id = RouteDraftId 1, pc_expected_revision = revision sample_publishable,
       pc_actor_id = d_owner_id sample_publishable, pc_idempotency_key = ''k'', pc_edit_summary = None\<rparr> () =
        (Ok v, s') \<and> sint (rv_version_number v) = 2"
proof -
  let ?cmd = "\<lparr>pc_draft_id = RouteDraftId 1, pc_expected_revision = revision sample_publishable,
       pc_actor_id = d_owner_id sample_publishable, pc_idempotency_key = ''k'', pc_edit_summary = None\<rparr>"
  let ?flat = "flatten_geometry (geometry sample_publishable)"
  have val: "validate_for_publication sample_publishable (revision sample_publishable)
      (d_owner_id sample_publishable) = Ok ()"
    by (simp add: validate_for_publication_def publication_errors_def sample_publishable_def
        sample_draft_def sample_geometry_def sample_point_def segment_errors_def point_errors_def
        MIN_POINTS_PER_SEGMENT_def range_contains_def)
  note g = validated_geometry [OF val]
  have "?flat \<noteq> []" using g(4) by auto
  from from_coordinates_sound [OF this g(5)] obtain bb where bb: "from_coordinates ?flat = Some bb" by blast
  have "sint (2 :: i32) = 2" by simp
  then obtain v s' where run: "execute_publish sample_libm (RouteVersionId 8) 5 sample_drafts sample_versions
      \<lparr>update_activity_current_version = \<lambda>_ _ _ s. (Ok (), s)\<rparr> ?cmd () = (Ok v, s')"
    using val bb g(2,4)
    by (auto simp: execute_publish_def bindq_def map_errq_def sample_drafts_def sample_versions_def
        Let_def new_from_publication_def sample_version_def publish_def check_active_def)
  from execute_publish_next_version [OF run] have "sint (rv_version_number v) = 2"
    by (auto simp: sample_drafts_def sample_versions_def publishes_def sample_version_def)
  with run show ?thesis by blast
qed

end
