(* ===== verification/Import_Lifecycle.thy ===== *)
theory Import_Lifecycle
  imports Route_Versioning
begin

text \<open>
  The import aggregate, \<open>crates/app/src/imports\<close>: the status machine (\<open>state_machine.rs\<close>), the
  aggregate with its transitions (\<open>mod.rs\<close>), failure codes, checksums and the clean-up of abandoned
  imports.  The Unicode tables behind \<open>str::to_lowercase\<close> are a parameter.
\<close>

section \<open>Status\<close>

datatype import_status =
    Requested | Uploading | Uploaded | Validating | Queued | Parsing | Committing | Completed
  | Failed | Cancelled

fun import_status_to_string :: "import_status \<Rightarrow> string" where
  "import_status_to_string Requested = ''requested''"
| "import_status_to_string Uploading = ''uploading''"
| "import_status_to_string Uploaded = ''uploaded''"
| "import_status_to_string Validating = ''validating''"
| "import_status_to_string Queued = ''queued''"
| "import_status_to_string Parsing = ''parsing''"
| "import_status_to_string Committing = ''committing''"
| "import_status_to_string Completed = ''completed''"
| "import_status_to_string Failed = ''failed''"
| "import_status_to_string Cancelled = ''cancelled''"

definition is_terminal :: "import_status \<Rightarrow> bool" where
  "is_terminal s \<longleftrightarrow> s = Completed \<or> s = Failed \<or> s = Cancelled"

datatype failure_code =
    ParseError | ChecksumMismatchCode | FileTooLarge | InvalidFormat | StorageUnavailable | Timeout
  | InternalError

fun failure_code_as_str :: "failure_code \<Rightarrow> string" where
  "failure_code_as_str ParseError = ''PARSE_ERROR''"
| "failure_code_as_str ChecksumMismatchCode = ''CHECKSUM_MISMATCH''"
| "failure_code_as_str FileTooLarge = ''FILE_TOO_LARGE''"
| "failure_code_as_str InvalidFormat = ''INVALID_FORMAT''"
| "failure_code_as_str StorageUnavailable = ''STORAGE_UNAVAILABLE''"
| "failure_code_as_str Timeout = ''TIMEOUT''"
| "failure_code_as_str InternalError = ''INTERNAL_ERROR''"

definition failure_code_parse :: "string \<Rightarrow> failure_code option" where
  "failure_code_parse s =
    (if s = ''PARSE_ERROR'' then Some ParseError
     else if s = ''CHECKSUM_MISMATCH'' then Some ChecksumMismatchCode
     else if s = ''FILE_TOO_LARGE'' then Some FileTooLarge
     else if s = ''INVALID_FORMAT'' then Some InvalidFormat
     else if s = ''STORAGE_UNAVAILABLE'' then Some StorageUnavailable
     else if s = ''TIMEOUT'' then Some Timeout
     else if s = ''INTERNAL_ERROR'' then Some InternalError
     else None)"

section \<open>Errors\<close>

text \<open>
  \<open>import_text\<close> are the texts the code composes: a fixed one, or a format string with its
  arguments.
\<close>

datatype import_error =
    UnsupportedFormat
  | InvalidTransition string string
  | NotFound
  | Unauthorized
  | DuplicateIdempotencyKey
  | DuplicateChecksum
  | ChecksumMismatch string string
  | UploadTooLarge
  | InvalidMediaType
  | ParsingFailed import_text
  | ObjectNotFound
  | StorageError import_text
  | ValidationFailed import_text
  | IdempotencyPayloadMismatch
and import_text =
    ImText string
  | ChecksumLengthText nat
  | DisplayText import_error
  | DownloadFailedText import_error
  | ChecksumMismatchText string string
  | ParseFailedText gpx_message gpx_parse_error_code
  | NormalizationFailedText recorded_activity_error
  | CommitFailedText import_error
  | RouteVersionText route_versioning_error
  | DatabaseText string db_error

definition transition_to :: "import_status \<Rightarrow> import_status \<Rightarrow> (import_status, import_error) result" where
  "transition_to s target =
    (if is_terminal s
     then Err (InvalidTransition (import_status_to_string s) (import_status_to_string target))
     else
       (let is_valid = (case (s, target) of
            (Requested, Uploading) \<Rightarrow> True
          | (Uploading, Uploaded) \<Rightarrow> True
          | (Uploaded, Validating) \<Rightarrow> True
          | (Validating, Queued) \<Rightarrow> True
          | (Queued, Parsing) \<Rightarrow> True
          | (Parsing, Committing) \<Rightarrow> True
          | (Committing, Completed) \<Rightarrow> True
          | (_, Failed) \<Rightarrow> True
          | (_, Cancelled) \<Rightarrow> True
          | _ \<Rightarrow> False) in
        if is_valid then Ok target
        else Err (InvalidTransition (import_status_to_string s) (import_status_to_string target))))"

section \<open>Checksums\<close>

datatype checksum = Checksum (checksum_str: string)

definition checksum_new :: "(string \<Rightarrow> string) \<Rightarrow> string \<Rightarrow> (checksum, import_error) result" where
  "checksum_new to_lowercase s =
    (let value = to_lowercase s in
     if length value \<noteq> 64 then Err (ValidationFailed (ChecksumLengthText (length value)))
     else if \<not> list_all (\<lambda>c. \<exists>b. c = [b] \<and> is_ascii_hexdigit b) (chars value)
     then Err (ValidationFailed (ImText ''checksum must contain only hexadecimal characters''))
     else Ok (Checksum value))"

section \<open>The aggregate\<close>

datatype import_id = ImportId (import_uuid: uuid)
datatype import_format = Gpx

fun import_format_to_string :: "import_format \<Rightarrow> string" where
  "import_format_to_string Gpx = ''gpx''"

record import_rec =
  im_id :: import_id
  im_owner_id :: user_id
  im_source_artifact_id :: "source_artifact_id option"
  im_format :: import_format
  im_status :: import_status
  im_checksum :: "checksum option"
  im_failure_reason :: "import_text option"
  im_failure_code :: "failure_code option"
  im_idempotency_key :: string
  im_payload_hash :: "string option"
  im_activity_id :: "activity_id option"
  im_created_at :: time
  im_updated_at :: time

definition import_new ::
  "import_id \<Rightarrow> time \<Rightarrow> user_id \<Rightarrow> import_format \<Rightarrow> string \<Rightarrow> string option \<Rightarrow>
    (import_rec, import_error) result" where
  "import_new new_id now owner fmt key hash =
    (if trim key = [] then Err (ValidationFailed (ImText ''idempotency key must not be empty''))
     else Ok \<lparr>im_id = new_id, im_owner_id = owner, im_source_artifact_id = None, im_format = fmt,
       im_status = Requested, im_checksum = None, im_failure_reason = None, im_failure_code = None,
       im_idempotency_key = key, im_payload_hash = hash, im_activity_id = None,
       im_created_at = now, im_updated_at = now\<rparr>)"

type_synonym import_cmd = "(unit, import_error) result \<times> import_rec"

definition start_upload :: "time \<Rightarrow> import_rec \<Rightarrow> import_cmd" where
  "start_upload now i = attempt (transition_to (im_status i) Uploading) i (\<lambda>s.
     (Ok (), i\<lparr>im_status := s, im_updated_at := now\<rparr>))"

definition complete_upload :: "time \<Rightarrow> import_rec \<Rightarrow> source_artifact_id \<Rightarrow> checksum \<Rightarrow> import_cmd" where
  "complete_upload now i artifact c = attempt (transition_to (im_status i) Uploaded) i (\<lambda>s.
     (Ok (), i\<lparr>im_status := s, im_source_artifact_id := Some artifact, im_checksum := Some c,
        im_updated_at := now\<rparr>))"

definition start_validation :: "time \<Rightarrow> import_rec \<Rightarrow> import_cmd" where
  "start_validation now i = attempt (transition_to (im_status i) Validating) i (\<lambda>s.
     (Ok (), i\<lparr>im_status := s, im_updated_at := now\<rparr>))"

definition queue_for_parsing :: "time \<Rightarrow> import_rec \<Rightarrow> import_cmd" where
  "queue_for_parsing now i = attempt (transition_to (im_status i) Queued) i (\<lambda>s.
     (Ok (), i\<lparr>im_status := s, im_updated_at := now\<rparr>))"

definition start_parsing :: "time \<Rightarrow> import_rec \<Rightarrow> import_cmd" where
  "start_parsing now i = attempt (transition_to (im_status i) Parsing) i (\<lambda>s.
     (Ok (), i\<lparr>im_status := s, im_updated_at := now\<rparr>))"

definition start_committing :: "time \<Rightarrow> import_rec \<Rightarrow> import_cmd" where
  "start_committing now i = attempt (transition_to (im_status i) Committing) i (\<lambda>s.
     (Ok (), i\<lparr>im_status := s, im_updated_at := now\<rparr>))"

definition complete_import :: "time \<Rightarrow> import_rec \<Rightarrow> import_cmd" where
  "complete_import now i = attempt (transition_to (im_status i) Completed) i (\<lambda>s.
     (Ok (), i\<lparr>im_status := s, im_updated_at := now\<rparr>))"

definition fail_import :: "time \<Rightarrow> import_rec \<Rightarrow> import_text \<Rightarrow> import_cmd" where
  "fail_import now i reason = attempt (transition_to (im_status i) Failed) i (\<lambda>s.
     (Ok (), i\<lparr>im_status := s, im_failure_reason := Some reason, im_updated_at := now\<rparr>))"

definition fail_with_code :: "time \<Rightarrow> import_rec \<Rightarrow> import_text \<Rightarrow> failure_code \<Rightarrow> import_cmd" where
  "fail_with_code now i reason code = attempt (transition_to (im_status i) Failed) i (\<lambda>s.
     (Ok (), i\<lparr>im_status := s, im_failure_reason := Some reason, im_failure_code := Some code,
        im_updated_at := now\<rparr>))"

definition cancel_import :: "time \<Rightarrow> import_rec \<Rightarrow> import_cmd" where
  "cancel_import now i = attempt (transition_to (im_status i) Cancelled) i (\<lambda>s.
     (Ok (), i\<lparr>im_status := s, im_updated_at := now\<rparr>))"

section \<open>Clean-up\<close>

record cleanup_result =
  cleaned_up :: nat
  skipped :: nat

text \<open>The loop of \<open>fail_abandoned_imports\<close>; \<open>clock\<close> gives the \<open>Utc::now()\<close> of each round.\<close>

fun fail_abandoned_loop ::
  "(nat \<Rightarrow> time) \<Rightarrow> nat \<Rightarrow> import_rec list \<Rightarrow> cleanup_result \<Rightarrow> cleanup_result \<times> import_rec list" where
  "fail_abandoned_loop clock k [] acc = (acc, [])"
| "fail_abandoned_loop clock k (i # is) acc =
    (case fail_with_code (clock k) i (ImText ''import processing timed out'') Timeout of
       (Ok _, i') \<Rightarrow>
         map_prod id (Cons i')
           (fail_abandoned_loop clock (k + 1) is (acc\<lparr>cleaned_up := cleaned_up acc + 1\<rparr>))
     | (Err _, i') \<Rightarrow>
         map_prod id (Cons i')
           (fail_abandoned_loop clock (k + 1) is (acc\<lparr>skipped := skipped acc + 1\<rparr>)))"

definition fail_abandoned_imports ::
  "(nat \<Rightarrow> time) \<Rightarrow> import_rec list \<Rightarrow> cleanup_result \<times> import_rec list" where
  "fail_abandoned_imports clock is =
    fail_abandoned_loop clock 0 is \<lparr>cleaned_up = 0, skipped = 0\<rparr>"

section \<open>Transitions\<close>

lemmas import_cmd_defs = start_upload_def complete_upload_def start_validation_def
  queue_for_parsing_def start_parsing_def start_committing_def complete_import_def fail_import_def
  fail_with_code_def cancel_import_def

definition happy_path :: "import_status list" where
  "happy_path = [Requested, Uploading, Uploaded, Validating, Queued, Parsing, Committing, Completed]"

text \<open>The abstract machine: forward along the path, or out of a live state.\<close>

definition may_follow :: "import_status \<Rightarrow> import_status \<Rightarrow> bool" where
  "may_follow s t \<longleftrightarrow> \<not> is_terminal s \<and>
    (t = Failed \<or> t = Cancelled \<or> (\<exists>n<7. s = happy_path ! n \<and> t = happy_path ! Suc n))"

lemma Ex_less_7: "(\<exists>n<7. P n) \<longleftrightarrow> P 0 \<or> P 1 \<or> P 2 \<or> P 3 \<or> P 4 \<or> P 5 \<or> P (6::nat)"
proof -
  have "{..<7} = {0, 1, 2, 3, 4, 5, 6::nat}" by auto
  then show ?thesis by (metis (no_types, lifting) insertE insertI1 insertI2 lessThan_iff singletonD)
qed

lemma transition_to_Ok: "transition_to s t = Ok u \<longleftrightarrow> u = t \<and> may_follow s t"
  unfolding may_follow_def Ex_less_7
  by (cases s; cases t) (auto simp: transition_to_def is_terminal_def happy_path_def)

lemma transition_to_Err:
  "transition_to s t = Err e \<longleftrightarrow> \<not> may_follow s t \<and>
    e = InvalidTransition (import_status_to_string s) (import_status_to_string t)"
proof (cases "transition_to s t")
  case (Ok u)
  then show ?thesis using transition_to_Ok [of s t u] by simp
next
  case (Err f)
  then have "\<not> may_follow s t" using transition_to_Ok [of s t t] by auto
  moreover have "f = InvalidTransition (import_status_to_string s) (import_status_to_string t)"
    using Err by (auto simp: transition_to_def Let_def split: if_splits)
  ultimately show ?thesis using Err by auto
qed

text \<open>One call of a mutating method.\<close>

datatype import_event =
    StartUpload time
  | CompleteUpload time source_artifact_id checksum
  | StartValidation time
  | QueueForParsing time
  | StartParsing time
  | StartCommitting time
  | Complete time
  | Fail time import_text
  | FailWithCode time import_text failure_code
  | Cancel time

fun import_event_run :: "import_event \<Rightarrow> import_rec \<Rightarrow> import_cmd" where
  "import_event_run (StartUpload now) i = start_upload now i"
| "import_event_run (CompleteUpload now a c) i = complete_upload now i a c"
| "import_event_run (StartValidation now) i = start_validation now i"
| "import_event_run (QueueForParsing now) i = queue_for_parsing now i"
| "import_event_run (StartParsing now) i = start_parsing now i"
| "import_event_run (StartCommitting now) i = start_committing now i"
| "import_event_run (Complete now) i = complete_import now i"
| "import_event_run (Fail now r) i = fail_import now i r"
| "import_event_run (FailWithCode now r c) i = fail_with_code now i r c"
| "import_event_run (Cancel now) i = cancel_import now i"

fun event_target :: "import_event \<Rightarrow> import_status" where
  "event_target (StartUpload _) = Uploading"
| "event_target (CompleteUpload _ _ _) = Uploaded"
| "event_target (StartValidation _) = Validating"
| "event_target (QueueForParsing _) = Queued"
| "event_target (StartParsing _) = Parsing"
| "event_target (StartCommitting _) = Committing"
| "event_target (Complete _) = Completed"
| "event_target (Fail _ _) = Failed"
| "event_target (FailWithCode _ _ _) = Failed"
| "event_target (Cancel _) = Cancelled"

lemma import_event_run_cases:
  obtains (ok) i' where "import_event_run e i = (Ok (), i')" and "may_follow (im_status i) (event_target e)"
      and "im_status i' = event_target e"
  | (err) "import_event_run e i = (Err (InvalidTransition (import_status_to_string (im_status i))
      (import_status_to_string (event_target e))), i)" and "\<not> may_follow (im_status i) (event_target e)"
proof (cases "transition_to (im_status i) (event_target e)")
  case (Ok u)
  then have "u = event_target e" and follow: "may_follow (im_status i) (event_target e)"
    by (simp_all add: transition_to_Ok)
  with Ok have "\<exists>i'. import_event_run e i = (Ok (), i') \<and> im_status i' = event_target e"
    by (cases e) (simp_all add: import_cmd_defs)
  with follow ok show thesis by blast
next
  case (Err f)
  then have "import_event_run e i = (Err f, i)" by (cases e) (simp_all add: import_cmd_defs)
  with Err err show thesis by (simp add: transition_to_Err)
qed

text \<open>A run of calls, failing ones included, and the statuses the successful ones lead through.\<close>

fun run_import :: "import_event list \<Rightarrow> import_rec \<Rightarrow> import_rec" where
  "run_import [] i = i"
| "run_import (e # es) i = run_import es (snd (import_event_run e i))"

fun status_trace :: "import_event list \<Rightarrow> import_rec \<Rightarrow> import_status list" where
  "status_trace [] i = []"
| "status_trace (e # es) i =
    (case import_event_run e i of
       (Ok _, i') \<Rightarrow> im_status i' # status_trace es i'
     | (Err _, i') \<Rightarrow> status_trace es i')"

lemma status_trace_terminal: "is_terminal (im_status i) \<Longrightarrow> status_trace es i = []"
proof (induction es arbitrary: i)
  case (Cons e es)
  then have "\<not> may_follow (im_status i) (event_target e)" by (simp add: may_follow_def)
  with Cons show ?case by (cases rule: import_event_run_cases [of e i]) auto
qed simp

lemma happy_path_distinct: "distinct happy_path"
  by (simp add: happy_path_def)

lemma status_trace_path:
  "im_status i = happy_path ! n \<Longrightarrow> n < 8 \<Longrightarrow>
    \<exists>m out. status_trace es i = take m (drop (Suc n) happy_path) @ out \<and> (out = [] \<or> n + m < 7 \<and> (out = [Failed] \<or> out = [Cancelled]))"
proof (induction es arbitrary: i n)
  case Nil
  then show ?case by (intro exI [of _ 0] exI [of _ "[]"]) simp
next
  case (Cons e es)
  have len: "length happy_path = 8" by (simp add: happy_path_def)
  show ?case
  proof (cases rule: import_event_run_cases [of e i])
    case (ok i')
    then consider "event_target e = Failed" | "event_target e = Cancelled"
      | k where "k < 7" "im_status i = happy_path ! k" "event_target e = happy_path ! Suc k"
      by (auto simp: may_follow_def)
    moreover have "n < 7"
    proof (rule ccontr)
      assume "\<not> n < 7"
      then have "n = 7" using Cons.prems(2) by simp
      with Cons.prems(1) ok(2) show False by (simp add: happy_path_def may_follow_def is_terminal_def)
    qed
    ultimately show ?thesis
    proof cases
      case 3
      then have "k = n"
        using Cons.prems happy_path_distinct len by (simp add: nth_eq_iff_index_eq)
      with 3 ok Cons.IH [of i' "Suc n"] obtain m out where
        "status_trace es i' = take m (drop (Suc (Suc n)) happy_path) @ out"
        "out = [] \<or> Suc n + m < 7 \<and> (out = [Failed] \<or> out = [Cancelled])" by auto
      moreover have "drop (Suc n) happy_path = happy_path ! Suc n # drop (Suc (Suc n)) happy_path"
        using 3 \<open>k = n\<close> len by (simp add: Cons_nth_drop_Suc)
      ultimately show ?thesis using ok 3 \<open>k = n\<close>
        by (intro exI [of _ "Suc m"] exI [of _ out]) auto
    qed (use ok status_trace_terminal [of i' es] in
        \<open>intro exI [of _ 0] exI [of _ "[event_target e]"]; simp add: is_terminal_def\<close>)+
  next
    case err
    with Cons.IH [OF Cons.prems] show ?thesis by simp
  qed
qed

section \<open>Invariant of the aggregate\<close>

text \<open>An uploaded import carries its artifact and checksum, and only a failed one a reason.\<close>

definition import_inv :: "import_rec \<Rightarrow> bool" where
  "import_inv i \<longleftrightarrow>
    (im_status i \<in> {Uploaded, Validating, Queued, Parsing, Committing, Completed} \<longrightarrow>
      im_source_artifact_id i \<noteq> None \<and> im_checksum i \<noteq> None) \<and>
    (im_failure_reason i \<noteq> None \<longleftrightarrow> im_status i = Failed) \<and>
    (im_failure_code i \<noteq> None \<longrightarrow> im_status i = Failed) \<and>
    trim (im_idempotency_key i) \<noteq> []"

lemma import_new_inv: "import_new i now owner fmt key hash = Ok r \<Longrightarrow> import_inv r"
  by (auto simp: import_new_def import_inv_def split: if_splits)

lemma import_event_inv:
  assumes "import_inv i"
  shows "import_inv (snd (import_event_run e i))"
  using assms
  by (cases e; cases "im_status i")
    (simp_all add: import_cmd_defs import_inv_def transition_to_def is_terminal_def)

lemma run_import_inv: "import_inv i \<Longrightarrow> import_inv (run_import es i)"
  by (induction es arbitrary: i) (simp_all add: import_event_inv)

section \<open>Checksums are canonical\<close>

text \<open>
  What is used of Unicode lower-casing: on ASCII it maps the capital letters, and no character
  outside ASCII lower-cases to hexadecimal digits only.
\<close>

definition lowercases :: "(string \<Rightarrow> string) \<Rightarrow> bool" where
  "lowercases f \<longleftrightarrow>
    (\<forall>s. list_all (\<lambda>c. byte c < 128) s \<longrightarrow> f s = map to_ascii_lower s) \<and>
    (\<forall>s. \<not> list_all (\<lambda>c. byte c < 128) s \<longrightarrow> \<not> list_all is_ascii_hexdigit (f s))"

lemma hexdigit_ascii: "is_ascii_hexdigit c \<Longrightarrow> byte c < 128"
  by (auto simp: is_ascii_hexdigit_def is_ascii_digit_def)

lemma byte_lower: "byte (to_ascii_lower c) = (if 65 \<le> byte c \<and> byte c \<le> 90 then byte c + 32 else byte c)"
  by (simp add: to_ascii_lower_def)

lemma hexdigit_lower [simp]: "is_ascii_hexdigit (to_ascii_lower c) \<longleftrightarrow> is_ascii_hexdigit c"
  unfolding is_ascii_hexdigit_def is_ascii_digit_def byte_lower by auto

lemma lower_lower [simp]: "to_ascii_lower (to_ascii_lower c) = to_ascii_lower c"
proof -
  have "\<not> (65 \<le> byte (to_ascii_lower c) \<and> byte (to_ascii_lower c) \<le> 90)" unfolding byte_lower by auto
  then show ?thesis by (simp only: to_ascii_lower_def [of "to_ascii_lower c"] if_False)
qed

lemma chars_single_hex:
  "list_all (\<lambda>c. \<exists>b. c = [b] \<and> is_ascii_hexdigit b) (chars s) \<longleftrightarrow> list_all is_ascii_hexdigit s"
proof (induction s rule: chars.induct)
  case (2 c cs)
  have one: "char_width c = 1" if "is_ascii_hexdigit c"
    using hexdigit_ascii [OF that] by (simp add: char_width_def)
  show ?case
  proof (cases "is_ascii_hexdigit c")
    case True
    with 2 one show ?thesis by simp
  next
    case False
    then show ?thesis by auto
  qed
qed simp

lemma checksum_new_Ok:
  assumes "lowercases f"
  shows "checksum_new f s = Ok c \<longleftrightarrow>
    length s = 64 \<and> list_all is_ascii_hexdigit s \<and> c = Checksum (map to_ascii_lower s)"
proof (cases "list_all (\<lambda>c. byte c < 128) s")
  case True
  with assms have "f s = map to_ascii_lower s" by (simp add: lowercases_def)
  then show ?thesis
    by (auto simp: checksum_new_def chars_single_hex Let_def list.pred_map comp_def)
next
  case False
  with assms have "\<not> list_all is_ascii_hexdigit (f s)" by (simp add: lowercases_def)
  moreover from False have "\<not> list_all is_ascii_hexdigit s"
    using hexdigit_ascii by (auto simp: list_all_iff)
  ultimately show ?thesis by (auto simp: checksum_new_def chars_single_hex Let_def)
qed

lemma checksum_new_again:
  assumes "lowercases f" and "checksum_new f s = Ok c"
  shows "checksum_new f (checksum_str c) = Ok c"
  using assms by (auto simp: checksum_new_Ok list.pred_map comp_def)

lemma failure_code_roundtrip [simp]: "failure_code_parse (failure_code_as_str c) = Some c"
  by (cases c) (simp_all add: failure_code_parse_def)

section \<open>Properties\<close>

text \<open>C24. Whatever methods are called on a fresh import, in whatever order and with whatever failures
  in between, the successful ones lead it along the path from Requested to Completed, one status at
  a time, possibly cut short by Failed or Cancelled, and then nothing more happens: at most seven
  calls succeed.  At every moment an uploaded import carries its checksum and artifact, and exactly
  the failed ones a reason.\<close>

theorem import_runs_follow_path:
  assumes "import_new i now owner fmt key hash = Ok r"
  shows "\<exists>m out. status_trace es r = take m (tl happy_path) @ out \<and>
      (out = [] \<or> m < 7 \<and> (out = [Failed] \<or> out = [Cancelled])) \<and>
      length (status_trace es r) \<le> 7 \<and> import_inv (run_import es r)"
proof -
  have start: "im_status r = happy_path ! 0"
    using assms by (auto simp: import_new_def happy_path_def split: if_splits)
  from status_trace_path [OF start, of es] obtain m out where
    tr: "status_trace es r = take m (tl happy_path) @ out"
      "out = [] \<or> m < 7 \<and> (out = [Failed] \<or> out = [Cancelled])" by (auto simp: drop_Suc)
  have "length (tl happy_path) = 7" by (simp add: happy_path_def)
  with tr have "length (status_trace es r) \<le> 7" by auto
  with tr run_import_inv [OF import_new_inv [OF assms], of es] show ?thesis by blast
qed

theorem import_runs_follow_path_witness:
  "\<exists>r m out. import_new (ImportId 1) 0 (UserId 2) Gpx ''k'' None = Ok r \<and>
    status_trace [StartUpload 1, StartParsing 2, Cancel 3] r = take m (tl happy_path) @ out"
proof -
  have "trim ''k'' \<noteq> []" by code_simp
  then obtain r where r: "import_new (ImportId 1) 0 (UserId 2) Gpx ''k'' None = Ok r"
    by (auto simp: import_new_def)
  from import_runs_follow_path [OF r, of "[StartUpload 1, StartParsing 2, Cancel 3]"] r show ?thesis by blast
qed

end
