(* ===== verification/Import_Persistence.thy ===== *)
theory Import_Persistence
  imports Import_Lifecycle
begin

text \<open>
  Persistence of imports: the repository interface (\<open>crates/app/src/imports/repository.rs\<close>), its
  PostgreSQL implementation (\<open>crates/infrastructure/src/import_persistence.rs\<close>) and the commit
  of a parsed import across the contexts (\<open>import_commit.rs\<close>), over the tables of the migrations with
  their keys, foreign keys and the partial unique index on completed imports.  \<open>serde_json\<close> is a
  parameter; \<open>now()\<close> and generated ids are arguments.
\<close>

section \<open>Tables\<close>

record import_row =
  ir_id :: uuid
  ir_owner_id :: uuid
  ir_source_artifact_id :: "uuid option"
  ir_format :: string
  ir_status :: string
  ir_checksum :: "string option"
  ir_failure_reason :: "import_text option"
  ir_failure_code :: "string option"
  ir_idempotency_key :: string
  ir_payload_hash :: "string option"
  ir_activity_id :: "uuid option"
  ir_created_at :: time
  ir_updated_at :: time

record artifact_row =
  ar_id :: uuid
  ar_import_id :: uuid
  ar_owner_id :: uuid
  ar_object_storage_key :: string
  ar_content_type :: string
  ar_size_bytes :: "64 word"
  ar_checksum :: string

record revision_row =
  rr_id :: uuid
  rr_activity_id :: uuid
  rr_source_artifact_id :: uuid
  rr_revision_number :: i32
  rr_provider :: string
  rr_parser_version :: string

record 'j track_row =
  tr_id :: uuid
  tr_source_revision_id :: uuid
  tr_geometry_json :: 'j
  tr_bounding_box_json :: 'j
  tr_started_at :: "time option"
  tr_ended_at :: "time option"
  tr_distance_meters :: f64
  tr_elevation_gain_meters :: "f64 option"
  tr_elevation_loss_meters :: "f64 option"
  tr_point_count :: i32
  tr_segment_count :: i32
  tr_calculation_version :: string

record 'j activity_row =
  act_id :: uuid
  act_owner_id :: uuid
  act_title :: string
  act_type :: string
  act_started_at :: "time option"
  act_ended_at :: "time option"
  act_current_route_version_id :: "uuid option"
  act_recorded_summary_json :: "'j option"
  act_corrected_summary_json :: "'j option"

record 'j version_row =
  vr_id :: uuid
  vr_activity_id :: uuid
  vr_parent_version_id :: "uuid option"
  vr_version_number :: i32
  vr_geometry_json :: 'j
  vr_bounding_box_json :: 'j
  vr_corrected_statistics_json :: 'j
  vr_calculation_version :: string
  vr_edit_summary :: "string option"
  vr_created_by :: uuid

record 'j audit_row =
  au_actor_id :: uuid
  au_action :: string
  au_resource_type :: string
  au_resource_id :: string
  au_metadata :: 'j

record 'j outbox_row =
  ob_id :: uuid
  ob_aggregate_type :: string
  ob_aggregate_id :: string
  ob_event_type :: string
  ob_payload :: 'j
  ob_correlation_id :: "uuid option"

record 'j import_tables =
  t_imports :: "import_row list"
  t_artifacts :: "artifact_row list"
  t_revisions :: "revision_row list"
  t_tracks :: "'j track_row list"
  t_activities :: "'j activity_row list"
  t_versions :: "'j version_row list"
  t_audit :: "'j audit_row list"
  t_outbox :: "'j outbox_row list"
  t_users :: "uuid list"

section \<open>The repository interface\<close>

record 's import_repository =
  imp_save :: "import_rec \<Rightarrow> ('s, unit, import_error) step"
  imp_find_by_id :: "import_id \<Rightarrow> ('s, import_rec option, import_error) step"
  imp_find_by_idempotency_key :: "user_id \<Rightarrow> string \<Rightarrow> ('s, import_rec option, import_error) step"
  imp_find_completed_by_checksum ::
    "user_id \<Rightarrow> checksum \<Rightarrow> ('s, (import_id \<times> activity_id option) option, import_error) step"
  imp_update :: "import_rec \<Rightarrow> ('s, unit, import_error) step"
  imp_find_abandoned :: "time \<Rightarrow> time \<Rightarrow> ('s, import_rec list, import_error) step"

section \<open>The PostgreSQL repository\<close>

definition parse_import_status :: "string \<Rightarrow> import_status" where
  "parse_import_status s =
    (if s = ''requested'' then Requested else if s = ''uploading'' then Uploading
     else if s = ''uploaded'' then Uploaded else if s = ''validating'' then Validating
     else if s = ''queued'' then Queued else if s = ''parsing'' then Parsing
     else if s = ''committing'' then Committing else if s = ''completed'' then Completed
     else if s = ''failed'' then Failed else if s = ''cancelled'' then Cancelled
     else Failed)"

definition row_to_import :: "(string \<Rightarrow> string) \<Rightarrow> import_row \<Rightarrow> import_rec" where
  "row_to_import to_lowercase r =
    \<lparr>im_id = ImportId (ir_id r), im_owner_id = UserId (ir_owner_id r),
     im_source_artifact_id = map_option SourceArtifactId (ir_source_artifact_id r),
     im_format = Gpx, im_status = parse_import_status (ir_status r),
     im_checksum = Option.bind (ir_checksum r) (\<lambda>c. ok (checksum_new to_lowercase c)),
     im_failure_reason = ir_failure_reason r,
     im_failure_code = Option.bind (ir_failure_code r) failure_code_parse,
     im_idempotency_key = ir_idempotency_key r, im_payload_hash = ir_payload_hash r,
     im_activity_id = map_option ActivityId (ir_activity_id r),
     im_created_at = ir_created_at r, im_updated_at = ir_updated_at r\<rparr>"

definition import_row_of :: "import_rec \<Rightarrow> import_row" where
  "import_row_of i =
    \<lparr>ir_id = import_uuid (im_id i), ir_owner_id = user_uuid (im_owner_id i),
     ir_source_artifact_id = map_option artifact_uuid (im_source_artifact_id i),
     ir_format = import_format_to_string (im_format i),
     ir_status = import_status_to_string (im_status i),
     ir_checksum = map_option checksum_str (im_checksum i),
     ir_failure_reason = im_failure_reason i,
     ir_failure_code = map_option failure_code_as_str (im_failure_code i),
     ir_idempotency_key = im_idempotency_key i, ir_payload_hash = im_payload_hash i,
     ir_activity_id = map_option activity_uuid (im_activity_id i),
     ir_created_at = im_created_at i, ir_updated_at = im_updated_at i\<rparr>"

definition import_db_error :: "db_error \<Rightarrow> import_error" where
  "import_db_error e = StorageError (DatabaseText [] e)"

text \<open>The key of the partial index \<open>idx_imports_owner_checksum_completed\<close>; NULLs never collide.\<close>

definition completed_key :: "import_row \<Rightarrow> (uuid \<times> string) option" where
  "completed_key r =
    (if ir_status r = ''completed'' then map_option (Pair (ir_owner_id r)) (ir_checksum r) else None)"

definition completed_keys :: "import_row list \<Rightarrow> (uuid \<times> string) list" where
  "completed_keys rows = List.map_filter completed_key rows"

definition insert_import ::
  "import_row \<Rightarrow> 'j import_tables \<Rightarrow> (unit, db_error) result \<times> 'j import_tables" where
  "insert_import r t =
    (if ir_id r \<in> ir_id ` set (t_imports t) then (Err (UniqueViolation ''imports_pkey''), t)
     else if (ir_owner_id r, ir_idempotency_key r)
         \<in> (\<lambda>x. (ir_owner_id x, ir_idempotency_key x)) ` set (t_imports t)
     then (Err (UniqueViolation ''imports_owner_id_idempotency_key_key''), t)
     else if \<not> distinct (completed_keys (t_imports t @ [r]))
     then (Err (UniqueViolation ''idx_imports_owner_checksum_completed''), t)
     else if ir_owner_id r \<notin> set (t_users t)
     then (Err (ForeignKeyViolation ''imports_owner_id_fkey''), t)
     else (Ok (), t\<lparr>t_imports := t_imports t @ [r]\<rparr>))"

text \<open>An \<open>UPDATE\<close> by id with the unique index checked on the result.\<close>

definition update_imports ::
  "uuid \<Rightarrow> (import_row \<Rightarrow> import_row) \<Rightarrow> 'j import_tables \<Rightarrow>
    (unit, db_error) result \<times> 'j import_tables" where
  "update_imports i f t =
    (let rows = map (\<lambda>r. if ir_id r = i then f r else r) (t_imports t) in
     if \<not> distinct (completed_keys rows)
     then (Err (UniqueViolation ''idx_imports_owner_checksum_completed''), t)
     else (Ok (), t\<lparr>t_imports := rows\<rparr>))"

definition pg_import_save :: "import_rec \<Rightarrow> ('j import_tables, unit, import_error) sql" where
  "pg_import_save i = map_errq import_db_error (query (insert_import (import_row_of i)))"

definition pg_import_find_by_id ::
  "(string \<Rightarrow> string) \<Rightarrow> import_id \<Rightarrow> ('j import_tables, import_rec option, import_error) sql" where
  "pg_import_find_by_id low i =
    bindq (map_errq import_db_error (select (\<lambda>t.
        find (\<lambda>r. ir_id r = import_uuid i) (t_imports t))))
      (\<lambda>row. returnq (map_option (row_to_import low) row))"

definition pg_import_find_by_idempotency_key ::
  "(string \<Rightarrow> string) \<Rightarrow> user_id \<Rightarrow> string \<Rightarrow> ('j import_tables, import_rec option, import_error) sql" where
  "pg_import_find_by_idempotency_key low owner key =
    bindq (map_errq import_db_error (select (\<lambda>t.
        find (\<lambda>r. ir_owner_id r = user_uuid owner \<and> ir_idempotency_key r = key) (t_imports t))))
      (\<lambda>row. returnq (map_option (row_to_import low) row))"

definition pg_import_find_completed ::
  "user_id \<Rightarrow> checksum \<Rightarrow> ('j import_tables, (import_id \<times> activity_id option) option, import_error) sql" where
  "pg_import_find_completed owner c =
    bindq (map_errq import_db_error (select (\<lambda>t.
        find (\<lambda>r. ir_owner_id r = user_uuid owner \<and> ir_checksum r = Some (checksum_str c) \<and>
          ir_status r = ''completed'') (t_imports t))))
      (\<lambda>row. returnq (map_option (\<lambda>r. (ImportId (ir_id r), map_option ActivityId (ir_activity_id r))) row))"

definition set_import_columns :: "import_rec \<Rightarrow> import_row \<Rightarrow> import_row" where
  "set_import_columns i r =
    r\<lparr>ir_source_artifact_id := map_option artifact_uuid (im_source_artifact_id i),
      ir_status := import_status_to_string (im_status i),
      ir_checksum := map_option checksum_str (im_checksum i),
      ir_failure_reason := im_failure_reason i,
      ir_failure_code := map_option failure_code_as_str (im_failure_code i),
      ir_activity_id := map_option activity_uuid (im_activity_id i),
      ir_updated_at := im_updated_at i\<rparr>"

definition pg_import_update :: "import_rec \<Rightarrow> ('j import_tables, unit, import_error) sql" where
  "pg_import_update i =
    map_errq import_db_error (query (update_imports (import_uuid (im_id i)) (set_import_columns i)))"

definition pg_import_find_abandoned ::
  "(string \<Rightarrow> string) \<Rightarrow> time \<Rightarrow> time \<Rightarrow> ('j import_tables, import_rec list, import_error) sql" where
  "pg_import_find_abandoned low now limit =
    (let threshold = now - limit in
     bindq (map_errq import_db_error (select (\<lambda>t.
        filter (\<lambda>r. ir_status r \<in> {''validating'', ''queued'', ''parsing'', ''committing''} \<and>
          ir_updated_at r < threshold) (t_imports t))))
      (\<lambda>rows. returnq (map (row_to_import low) rows)))"

definition PgImportRepository :: "(string \<Rightarrow> string) \<Rightarrow> 'j import_tables db import_repository" where
  "PgImportRepository low =
    \<lparr>imp_save = pg_import_save, imp_find_by_id = pg_import_find_by_id low,
     imp_find_by_idempotency_key = pg_import_find_by_idempotency_key low,
     imp_find_completed_by_checksum = pg_import_find_completed, imp_update = pg_import_update,
     imp_find_abandoned = pg_import_find_abandoned low\<rparr>"

section \<open>The contract of the repository\<close>

text \<open>
  A client sees a map from ids to imports, changed by \<open>save\<close> and \<open>update\<close> alone and only when they
  succeed.  An update writes the mutable columns of an existing import and creates none; \<open>canon\<close>
  is what storing and loading makes of an import.
\<close>

definition merge_update :: "import_rec \<Rightarrow> import_rec \<Rightarrow> import_rec" where
  "merge_update new old =
    new\<lparr>im_id := im_id old, im_owner_id := im_owner_id old, im_format := im_format old,
      im_idempotency_key := im_idempotency_key old, im_payload_hash := im_payload_hash old,
      im_created_at := im_created_at old\<rparr>"

definition is_abandoned :: "time \<Rightarrow> time \<Rightarrow> import_rec \<Rightarrow> bool" where
  "is_abandoned now limit i \<longleftrightarrow>
    im_status i \<in> {Validating, Queued, Parsing, Committing} \<and> im_updated_at i < now - limit"

locale import_store =
  fixes R :: "'s import_repository"
    and inv :: "'s \<Rightarrow> bool"
    and view :: "'s \<Rightarrow> import_id \<Rightarrow> import_rec option"
    and canon :: "import_rec \<Rightarrow> import_rec"
  assumes find_keeps: "imp_find_by_id R i s = (r1, s') \<Longrightarrow> inv s \<Longrightarrow> inv s' \<and> view s' = view s"
    and key_keeps:
      "imp_find_by_idempotency_key R u k s = (r1, s') \<Longrightarrow> inv s \<Longrightarrow> inv s' \<and> view s' = view s"
    and completed_keeps:
      "imp_find_completed_by_checksum R u c s = (r2, s') \<Longrightarrow> inv s \<Longrightarrow> inv s' \<and> view s' = view s"
    and abandoned_keeps:
      "imp_find_abandoned R now limit s = (r3, s') \<Longrightarrow> inv s \<Longrightarrow> inv s' \<and> view s' = view s"
    and find_Ok: "imp_find_by_id R i s = (Ok m, s') \<Longrightarrow> inv s \<Longrightarrow> m = view s i"
    and view_id: "inv s \<Longrightarrow> view s i = Some im \<Longrightarrow> im_id im = i"
    and key_Some: "imp_find_by_idempotency_key R u k s = (Ok (Some im), s') \<Longrightarrow> inv s \<Longrightarrow>
      view s (im_id im) = Some im \<and> im_owner_id im = u \<and> im_idempotency_key im = k"
    and key_unique: "inv s \<Longrightarrow> view s i = Some im \<Longrightarrow> view s j = Some im2 \<Longrightarrow>
      im_owner_id im = im_owner_id im2 \<Longrightarrow> im_idempotency_key im = im_idempotency_key im2 \<Longrightarrow> i = j"
    and key_None: "imp_find_by_idempotency_key R u k s = (Ok None, s') \<Longrightarrow> inv s \<Longrightarrow>
      view s i = Some im \<Longrightarrow> \<not> (im_owner_id im = u \<and> im_idempotency_key im = k)"
    and save_Ok: "imp_save R new s = (Ok (), s') \<Longrightarrow> inv s \<Longrightarrow>
      inv s' \<and> view s (im_id new) = None \<and> view s' = (view s)(im_id new \<mapsto> canon new)"
    and save_Err: "imp_save R new s = (Err e, s') \<Longrightarrow> inv s \<Longrightarrow> inv s' \<and> view s' = view s"
    and update_Ok: "imp_update R new s = (Ok (), s') \<Longrightarrow> inv s \<Longrightarrow>
      inv s' \<and> view s' = (view s)(im_id new := map_option (\<lambda>old. canon (merge_update new old))
        (view s (im_id new)))"
    and update_Err: "imp_update R new s = (Err e, s') \<Longrightarrow> inv s \<Longrightarrow> inv s' \<and> view s' = view s"
    and abandoned_Ok: "imp_find_abandoned R now limit s = (Ok ims, s') \<Longrightarrow> inv s \<Longrightarrow>
      im \<in> set ims \<longleftrightarrow> view s (im_id im) = Some im \<and> is_abandoned now limit im"
    and abandoned_distinct: "imp_find_abandoned R now limit s = (Ok ims, s') \<Longrightarrow> inv s \<Longrightarrow>
      distinct (map im_id ims)"
    and canon_fields: "im_id (canon new) = im_id new" "im_owner_id (canon new) = im_owner_id new"
      "im_status (canon new) = im_status new"
      "im_idempotency_key (canon new) = im_idempotency_key new"
      "im_payload_hash (canon new) = im_payload_hash new"
      "im_failure_code (canon new) = im_failure_code new"
      "im_updated_at (canon new) = im_updated_at new"
begin

lemma update_keeps_inv: "imp_update R new s = (r, s') \<Longrightarrow> inv s \<Longrightarrow> inv s'"
  using update_Ok update_Err by (cases r) auto

text \<open>An update touches the import it names and no other.\<close>

lemma update_frame:
  assumes "imp_update R new s = (r, s')" and "inv s" and "i \<noteq> im_id new"
  shows "view s' i = view s i"
  using assms update_Ok [of new s s'] update_Err [of new s _ s'] by (cases r) auto

text \<open>Neither ownership nor the idempotency key of a stored import ever changes by an update.\<close>

lemma update_owner:
  assumes "imp_update R new s = (r, s')" and "inv s" and "view s i = Some im" and "view s' i = Some im2"
  shows "im_owner_id im2 = im_owner_id im \<and> im_idempotency_key im2 = im_idempotency_key im"
  using assms update_Ok [of new s s'] update_Err [of new s _ s']
  by (cases r; cases "i = im_id new") (auto simp: canon_fields merge_update_def)

end

section \<open>PostgreSQL implements the contract\<close>

definition imports_ok :: "'j import_tables db \<Rightarrow> bool" where
  "imports_ok db \<longleftrightarrow>
    distinct (map ir_id (t_imports (tables db))) \<and>
    distinct (map (\<lambda>r. (ir_owner_id r, ir_idempotency_key r)) (t_imports (tables db))) \<and>
    distinct (completed_keys (t_imports (tables db)))"

definition pg_import_view ::
  "(string \<Rightarrow> string) \<Rightarrow> 'j import_tables db \<Rightarrow> import_id \<Rightarrow> import_rec option" where
  "pg_import_view low db i =
    map_option (row_to_import low) (find (\<lambda>r. ir_id r = import_uuid i) (t_imports (tables db)))"

definition pg_import_canon :: "(string \<Rightarrow> string) \<Rightarrow> import_rec \<Rightarrow> import_rec" where
  "pg_import_canon low i = row_to_import low (import_row_of i)"

lemma parse_import_status_roundtrip [simp]: "parse_import_status (import_status_to_string s) = s"
  by (cases s) (simp_all add: parse_import_status_def)

lemma import_status_to_string_inject [simp]:
  "import_status_to_string s = import_status_to_string t \<longleftrightarrow> s = t"
  by (metis parse_import_status_roundtrip)

text \<open>A stored import is loaded as it was, provided its checksum is a value of \<open>Checksum::new\<close>.\<close>

lemma pg_import_roundtrip:
  assumes "\<And>c. im_checksum i = Some c \<Longrightarrow> checksum_new low (checksum_str c) = Ok c"
  shows "pg_import_canon low i = i"
proof -
  have fmt: "im_format i = Gpx" by (cases "im_format i") simp
  have chk: "Option.bind (map_option checksum_str (im_checksum i)) (\<lambda>c. ok (checksum_new low c)) =
      im_checksum i"
    using assms by (cases "im_checksum i") auto
  have code: "Option.bind (map_option failure_code_as_str (im_failure_code i)) failure_code_parse =
      im_failure_code i"
    by (cases "im_failure_code i") auto
  show ?thesis
    by (cases i)
      (use fmt chk code in \<open>simp add: pg_import_canon_def row_to_import_def import_row_of_def
        option.map_comp comp_def option.map_ident\<close>)
qed

lemma row_import_merge:
  "row_to_import low (set_import_columns new r) =
    pg_import_canon low (merge_update new (row_to_import low r))"
  by (simp add: row_to_import_def set_import_columns_def pg_import_canon_def import_row_of_def
      merge_update_def)

lemma pg_finds_keep:
  "reads_only (pg_import_find_by_id low i)"
  "reads_only (pg_import_find_by_idempotency_key low u k)"
  "reads_only (pg_import_find_completed u c)"
  "reads_only (pg_import_find_abandoned low now limit)"
  unfolding pg_import_find_by_id_def pg_import_find_by_idempotency_key_def pg_import_find_completed_def
    pg_import_find_abandoned_def Let_def
  by (intro keeps_bindq keeps_map_errq keeps_select keeps_returnq)+

lemma reads_only_view:
  assumes "reads_only m" and "m db = (r, db')"
  shows "imports_ok db' = imports_ok db" and "pg_import_view low db' = pg_import_view low db"
  using keepsD [OF assms] by (simp_all add: imports_ok_def pg_import_view_def fun_eq_iff)

lemma find_Some_set: "find P xs = Some x \<Longrightarrow> x \<in> set xs \<and> P x"
  by (metis find_Some_iff nth_mem)

lemma pg_view_row:
  assumes "imports_ok db" and "r \<in> set (t_imports (tables db))"
  shows "pg_import_view low db (ImportId (ir_id r)) = Some (row_to_import low r)"
  using find_by_key [of ir_id "t_imports (tables db)" r] assms
  by (simp add: pg_import_view_def imports_ok_def)

lemma pg_view_Some:
  assumes "pg_import_view low db i = Some im"
  obtains r where "r \<in> set (t_imports (tables db))" and "im = row_to_import low r" and "i = ImportId (ir_id r)"
proof -
  from assms obtain r where "find (\<lambda>r. ir_id r = import_uuid i) (t_imports (tables db)) = Some r"
    and im: "im = row_to_import low r" by (auto simp: pg_import_view_def)
  with find_Some_set have "r \<in> set (t_imports (tables db))" "ir_id r = import_uuid i" by fastforce+
  with im that show thesis by (cases i) auto
qed

lemma pg_import_save_Ok:
  assumes "pg_import_save i db = (Ok (), db')" and "imports_ok db"
  shows "imports_ok db' \<and> pg_import_view low db (im_id i) = None \<and>
    pg_import_view low db' = (pg_import_view low db)(im_id i \<mapsto> pg_import_canon low i)"
proof -
  let ?r = "import_row_of i" and ?rows = "t_imports (tables db)"
  from assms(1) have fresh: "ir_id ?r \<notin> ir_id ` set ?rows"
    and key: "(ir_owner_id ?r, ir_idempotency_key ?r) \<notin> (\<lambda>x. (ir_owner_id x, ir_idempotency_key x)) ` set ?rows"
    and comp: "distinct (completed_keys (?rows @ [?r]))"
    and rows: "t_imports (tables db') = ?rows @ [?r]"
    by (auto simp: pg_import_save_def map_errq_Ok query_Ok insert_import_def split: if_splits)
  have none: "pg_import_view low db (im_id i) = None"
    using fresh by (simp add: pg_import_view_def find_None_iff import_row_of_def image_iff) metis
  have ok: "imports_ok db'"
    using assms(2) fresh key comp rows by (auto simp: imports_ok_def)
  have "pg_import_view low db' j = ((pg_import_view low db)(im_id i \<mapsto> pg_import_canon low i)) j" for j
  proof (cases "j = im_id i")
    case True
    with none show ?thesis
      by (simp add: pg_import_view_def rows find_append pg_import_canon_def import_row_of_def)
  next
    case False
    then have "import_uuid j \<noteq> import_uuid (im_id i)" by (metis import_id.collapse)
    with False show ?thesis
      by (cases "find (\<lambda>r. ir_id r = import_uuid j) ?rows")
        (simp_all add: pg_import_view_def rows find_append import_row_of_def)
  qed
  with none ok show ?thesis by blast
qed

lemma update_imports_rows:
  assumes "update_imports i f t = (Ok (), t')"
  shows "t_imports t' = map (\<lambda>r. if ir_id r = i then f r else r) (t_imports t)"
    and "distinct (completed_keys (t_imports t'))"
  using assms by (auto simp: update_imports_def Let_def split: if_splits)

lemma set_import_columns_keys [simp]:
  "ir_id (set_import_columns i r) = ir_id r"
  "ir_owner_id (set_import_columns i r) = ir_owner_id r"
  "ir_idempotency_key (set_import_columns i r) = ir_idempotency_key r"
  by (simp_all add: set_import_columns_def)

lemma pg_import_update_Ok:
  assumes "pg_import_update i db = (Ok (), db')" and "imports_ok db"
  shows "imports_ok db' \<and> pg_import_view low db' = (pg_import_view low db)(im_id i :=
    map_option (\<lambda>old. pg_import_canon low (merge_update i old)) (pg_import_view low db (im_id i)))"
proof -
  let ?f = "\<lambda>r. if ir_id r = import_uuid (im_id i) then set_import_columns i r else r"
  from assms(1) have upd: "update_imports (import_uuid (im_id i)) (set_import_columns i) (tables db) =
      (Ok (), tables db')"
    by (auto simp: pg_import_update_def map_errq_Ok query_Ok)
  note rows = update_imports_rows [OF upd]
  have "map ir_id (t_imports (tables db')) = map ir_id (t_imports (tables db))"
    "map (\<lambda>r. (ir_owner_id r, ir_idempotency_key r)) (t_imports (tables db')) =
      map (\<lambda>r. (ir_owner_id r, ir_idempotency_key r)) (t_imports (tables db))"
    by (auto simp: rows(1))
  with assms(2) rows(2) have ok: "imports_ok db'" by (simp add: imports_ok_def)
  have look: "find (\<lambda>r. ir_id r = k) (t_imports (tables db')) =
      map_option ?f (find (\<lambda>r. ir_id r = k) (t_imports (tables db)))" for k
    unfolding rows(1) by (rule find_map_same_key) simp
  have "pg_import_view low db' j = ((pg_import_view low db)(im_id i :=
      map_option (\<lambda>old. pg_import_canon low (merge_update i old)) (pg_import_view low db (im_id i)))) j" for j
  proof (cases "find (\<lambda>r. ir_id r = import_uuid j) (t_imports (tables db))")
    case None
    then show ?thesis by (auto simp: pg_import_view_def look)
  next
    case (Some r)
    then have r: "ir_id r = import_uuid j" using find_Some_set by fastforce
    have "import_uuid j = import_uuid (im_id i) \<longleftrightarrow> j = im_id i" by (metis import_id.collapse)
    with Some r show ?thesis by (auto simp: pg_import_view_def look row_import_merge)
  qed
  with ok show ?thesis by blast
qed

lemma pg_import_writes_Err:
  assumes "pg_import_save i db = (Err e, db') \<or> pg_import_update i db = (Err e, db')"
  shows "tables db' = tables db"
  using assms by (auto simp: pg_import_save_def pg_import_update_def map_errq_Err dest: query_Err)

lemma row_to_import_fields [simp]:
  "im_id (row_to_import low r) = ImportId (ir_id r)"
  "im_owner_id (row_to_import low r) = UserId (ir_owner_id r)"
  "im_idempotency_key (row_to_import low r) = ir_idempotency_key r"
  "im_status (row_to_import low r) = parse_import_status (ir_status r)"
  "im_updated_at (row_to_import low r) = ir_updated_at r"
  by (simp_all add: row_to_import_def)

lemma parse_abandoned:
  "parse_import_status s \<in> {Validating, Queued, Parsing, Committing} \<longleftrightarrow>
    s \<in> {''validating'', ''queued'', ''parsing'', ''committing''}"
  by (auto simp: parse_import_status_def)

lemma pg_abandoned_rows:
  assumes "pg_import_find_abandoned low now limit db = (Ok ims, db')"
  shows "ims = map (row_to_import low)
    (filter (\<lambda>r. is_abandoned now limit (row_to_import low r)) (t_imports (tables db)))"
  using assms
  by (auto simp: pg_import_find_abandoned_def Let_def bindq_Ok map_errq_Ok select_Ok is_abandoned_def
      parse_abandoned [simplified] intro!: arg_cong [where f = "map (row_to_import low)"] filter_cong)

interpretation pgi: import_store "PgImportRepository low" imports_ok "pg_import_view low" "pg_import_canon low"
  for low :: "string \<Rightarrow> string"
proof
  fix i r1 s s'
  assume "imp_find_by_id (PgImportRepository low) i s = (r1, s')" "imports_ok s"
  then show "imports_ok s' \<and> pg_import_view low s' = pg_import_view low s"
    by (auto simp: PgImportRepository_def dest: reads_only_view [OF pg_finds_keep(1)])
next
  fix u k r1 s s'
  assume "imp_find_by_idempotency_key (PgImportRepository low) u k s = (r1, s')" "imports_ok s"
  then show "imports_ok s' \<and> pg_import_view low s' = pg_import_view low s"
    by (auto simp: PgImportRepository_def dest: reads_only_view [OF pg_finds_keep(2)])
next
  fix u c r2 s s'
  assume "imp_find_completed_by_checksum (PgImportRepository low) u c s = (r2, s')" "imports_ok s"
  then show "imports_ok s' \<and> pg_import_view low s' = pg_import_view low s"
    by (auto simp: PgImportRepository_def dest: reads_only_view [OF pg_finds_keep(3)])
next
  fix now limit r3 s s'
  assume "imp_find_abandoned (PgImportRepository low) now limit s = (r3, s')" "imports_ok s"
  then show "imports_ok s' \<and> pg_import_view low s' = pg_import_view low s"
    by (auto simp: PgImportRepository_def dest: reads_only_view [OF pg_finds_keep(4)])
next
  fix i m s s'
  assume "imp_find_by_id (PgImportRepository low) i s = (Ok m, s')"
  then show "m = pg_import_view low s i"
    by (auto simp: PgImportRepository_def pg_import_find_by_id_def bindq_Ok map_errq_Ok select_Ok
        pg_import_view_def)
next
  fix s i im
  assume "pg_import_view low s i = Some im"
  then show "im_id im = i" by (elim pg_view_Some) simp
next
  fix u k s im s'
  assume "imp_find_by_idempotency_key (PgImportRepository low) u k s = (Ok (Some im), s')" and ok: "imports_ok s"
  then obtain r where "find (\<lambda>r. ir_owner_id r = user_uuid u \<and> ir_idempotency_key r = k)
      (t_imports (tables s)) = Some r" and im: "im = row_to_import low r"
    by (auto simp: PgImportRepository_def pg_import_find_by_idempotency_key_def bindq_Ok map_errq_Ok select_Ok)
  with find_Some_set have "r \<in> set (t_imports (tables s))" "ir_owner_id r = user_uuid u" "ir_idempotency_key r = k"
    by fastforce+
  with im pg_view_row [OF ok] show "pg_import_view low s (im_id im) = Some im \<and> im_owner_id im = u \<and>
      im_idempotency_key im = k" by (cases u) auto
next
  fix s i im j im2
  assume ok: "imports_ok s" and i: "pg_import_view low s i = Some im" and j: "pg_import_view low s j = Some im2"
    and eq: "im_owner_id im = im_owner_id im2" "im_idempotency_key im = im_idempotency_key im2"
  from i obtain r where r: "r \<in> set (t_imports (tables s))" "im = row_to_import low r" "i = ImportId (ir_id r)"
    by (rule pg_view_Some)
  from j obtain r2 where r2: "r2 \<in> set (t_imports (tables s))" "im2 = row_to_import low r2"
    "j = ImportId (ir_id r2)" by (rule pg_view_Some)
  have "distinct (map (\<lambda>r. (ir_owner_id r, ir_idempotency_key r)) (t_imports (tables s)))"
    using ok by (simp add: imports_ok_def)
  with r r2 eq have "r = r2" by (auto simp: distinct_map dest: inj_onD)
  with r r2 show "i = j" by simp
next
  fix u k s s' i im
  assume "imp_find_by_idempotency_key (PgImportRepository low) u k s = (Ok None, s')"
    and i: "pg_import_view low s i = Some im"
  then have none: "find (\<lambda>r. ir_owner_id r = user_uuid u \<and> ir_idempotency_key r = k)
      (t_imports (tables s)) = None"
    by (auto simp: PgImportRepository_def pg_import_find_by_idempotency_key_def bindq_Ok map_errq_Ok select_Ok)
  from i show "\<not> (im_owner_id im = u \<and> im_idempotency_key im = k)"
    by (rule pg_view_Some) (use none in \<open>auto simp: find_None_iff\<close>)
next
  fix new s s'
  assume "imp_save (PgImportRepository low) new s = (Ok (), s')" "imports_ok s"
  then show "imports_ok s' \<and> pg_import_view low s (im_id new) = None \<and>
      pg_import_view low s' = (pg_import_view low s)(im_id new \<mapsto> pg_import_canon low new)"
    using pg_import_save_Ok by (simp add: PgImportRepository_def)
next
  fix new s e s'
  assume "imp_save (PgImportRepository low) new s = (Err e, s')" "imports_ok s"
  then show "imports_ok s' \<and> pg_import_view low s' = pg_import_view low s"
    using pg_import_writes_Err [of new s e s']
    by (simp add: PgImportRepository_def imports_ok_def pg_import_view_def fun_eq_iff)
next
  fix new s s'
  assume "imp_update (PgImportRepository low) new s = (Ok (), s')" "imports_ok s"
  then show "imports_ok s' \<and> pg_import_view low s' = (pg_import_view low s)(im_id new :=
      map_option (\<lambda>old. pg_import_canon low (merge_update new old)) (pg_import_view low s (im_id new)))"
    using pg_import_update_Ok by (simp add: PgImportRepository_def)
next
  fix new s e s'
  assume "imp_update (PgImportRepository low) new s = (Err e, s')" "imports_ok s"
  then show "imports_ok s' \<and> pg_import_view low s' = pg_import_view low s"
    using pg_import_writes_Err [of new s e s']
    by (simp add: PgImportRepository_def imports_ok_def pg_import_view_def fun_eq_iff)
next
  fix now limit s ims s' im
  assume "imp_find_abandoned (PgImportRepository low) now limit s = (Ok ims, s')" and ok: "imports_ok s"
  then have ims: "ims = map (row_to_import low)
      (filter (\<lambda>r. is_abandoned now limit (row_to_import low r)) (t_imports (tables s)))"
    by (simp add: PgImportRepository_def pg_abandoned_rows)
  show "im \<in> set ims \<longleftrightarrow> pg_import_view low s (im_id im) = Some im \<and> is_abandoned now limit im"
    unfolding ims by (auto simp: pg_view_row [OF ok] elim: pg_view_Some)
next
  fix now limit s ims s'
  assume found: "imp_find_abandoned (PgImportRepository low) now limit s = (Ok ims, s')" and ok: "imports_ok s"
  from found have "pg_import_find_abandoned low now limit s = (Ok ims, s')"
    by (simp add: PgImportRepository_def)
  from pg_abandoned_rows [OF this] have "map im_id ims = map ImportId (map ir_id
      (filter (\<lambda>r. is_abandoned now limit (row_to_import low r)) (t_imports (tables s))))"
    by (simp add: comp_def)
  moreover have "distinct (map ir_id (filter P (t_imports (tables s))))" for P
    using ok by (simp add: imports_ok_def distinct_map_filter)
  ultimately show "distinct (map im_id ims)" by (simp add: distinct_map inj_on_def)
qed (simp_all add: pg_import_canon_def row_to_import_def import_row_of_def map_option_case
    split: option.splits)

end
