(* ===== verification/Import_Commit.thy ===== *)
theory Import_Commit
  imports Import_Persistence
begin

text \<open>
  The transactional commit of a parsed import, \<open>crates/app/src/imports/commit.rs\<close> and
  \<open>crates/infrastructure/src/import_commit.rs\<close>: the nine statements, the errors of each, and the
  constraints of the tables they write.
\<close>

datatype activity_type = Hike | Walk | Run | Other

fun activity_type_to_string :: "activity_type \<Rightarrow> string" where
  "activity_type_to_string Hike = ''hike''"
| "activity_type_to_string Walk = ''walk''"
| "activity_type_to_string Run = ''run''"
| "activity_type_to_string Other = ''other''"

record import_commit_data =
  cd_owner_id :: user_id
  cd_import_id :: import_id
  cd_correlation_id :: uuid
  cd_source_artifact_id :: source_artifact_id
  cd_object_storage_key :: string
  cd_content_type :: string
  cd_file_size_bytes :: "64 word"
  cd_checksum :: string
  cd_source_revision_id :: source_revision_id
  cd_revision_number :: i32
  cd_parser_version :: string
  cd_recorded_track_id :: recorded_track_id
  cd_segments :: "track_segment list"
  cd_bounding_box :: bounding_box
  cd_statistics :: recorded_statistics
  cd_preview_geometry :: "position list"
  cd_activity_id :: activity_id
  cd_activity_title :: string
  cd_activity_type :: activity_type
  cd_started_at :: "time option"
  cd_ended_at :: "time option"
  cd_route_version_id :: route_version_id
  cd_corrected_statistics :: corrected_statistics

text \<open>What is used of \<open>serde_json\<close>: encodings that may fail, and the \<open>json!\<close> objects.\<close>

record 'j import_serde =
  segments_to_value :: "track_segment list \<Rightarrow> 'j option"
  box_to_value :: "bounding_box \<Rightarrow> 'j option"
  positions_to_value :: "position list \<Rightarrow> 'j option"
  recorded_to_value :: "recorded_statistics \<Rightarrow> 'j option"
  corrected_to_value :: "corrected_statistics \<Rightarrow> 'j option"
  json_string :: "string \<Rightarrow> 'j"
  json_number :: "f64 \<Rightarrow> 'j"
  json_option :: "'j option \<Rightarrow> 'j"
  json_object :: "(string \<times> 'j) list \<Rightarrow> 'j"

section \<open>Statements\<close>

definition insert_artifact ::
  "artifact_row \<Rightarrow> 'j import_tables \<Rightarrow> (unit, db_error) result \<times> 'j import_tables" where
  "insert_artifact r t =
    (if ar_id r \<in> ar_id ` set (t_artifacts t) then (Err (UniqueViolation ''source_artifacts_pkey''), t)
     else (Ok (), t\<lparr>t_artifacts := t_artifacts t @ [r]\<rparr>))"

definition insert_revision ::
  "revision_row \<Rightarrow> 'j import_tables \<Rightarrow> (unit, db_error) result \<times> 'j import_tables" where
  "insert_revision r t =
    (if rr_id r \<in> rr_id ` set (t_revisions t) then (Err (UniqueViolation ''source_revisions_pkey''), t)
     else if (rr_activity_id r, rr_revision_number r)
         \<in> (\<lambda>x. (rr_activity_id x, rr_revision_number x)) ` set (t_revisions t)
     then (Err (UniqueViolation ''source_revisions_activity_id_revision_number_key''), t)
     else if rr_source_artifact_id r \<notin> ar_id ` set (t_artifacts t)
     then (Err (ForeignKeyViolation ''source_revisions_source_artifact_id_fkey''), t)
     else (Ok (), t\<lparr>t_revisions := t_revisions t @ [r]\<rparr>))"

definition insert_track ::
  "'j track_row \<Rightarrow> 'j import_tables \<Rightarrow> (unit, db_error) result \<times> 'j import_tables" where
  "insert_track r t =
    (if tr_id r \<in> tr_id ` set (t_tracks t) then (Err (UniqueViolation ''recorded_tracks_pkey''), t)
     else if tr_source_revision_id r \<notin> rr_id ` set (t_revisions t)
     then (Err (ForeignKeyViolation ''recorded_tracks_source_revision_id_fkey''), t)
     else (Ok (), t\<lparr>t_tracks := t_tracks t @ [r]\<rparr>))"

definition insert_activity ::
  "'j activity_row \<Rightarrow> 'j import_tables \<Rightarrow> (unit, db_error) result \<times> 'j import_tables" where
  "insert_activity r t =
    (if act_id r \<in> act_id ` set (t_activities t) then (Err (UniqueViolation ''activities_pkey''), t)
     else if act_owner_id r \<notin> set (t_users t)
     then (Err (ForeignKeyViolation ''activities_owner_id_fkey''), t)
     else (Ok (), t\<lparr>t_activities := t_activities t @ [r]\<rparr>))"

definition insert_version ::
  "'j version_row \<Rightarrow> 'j import_tables \<Rightarrow> (unit, db_error) result \<times> 'j import_tables" where
  "insert_version r t =
    (if vr_id r \<in> vr_id ` set (t_versions t) then (Err (UniqueViolation ''route_versions_pkey''), t)
     else if (vr_activity_id r, vr_version_number r)
         \<in> (\<lambda>x. (vr_activity_id x, vr_version_number x)) ` set (t_versions t)
     then (Err (UniqueViolation ''route_versions_activity_id_version_number_key''), t)
     else if vr_activity_id r \<notin> act_id ` set (t_activities t)
     then (Err (ForeignKeyViolation ''route_versions_activity_id_fkey''), t)
     else (Ok (), t\<lparr>t_versions := t_versions t @ [r]\<rparr>))"

definition point_activity_at ::
  "uuid \<Rightarrow> uuid \<Rightarrow> 'j \<Rightarrow> 'j \<Rightarrow> 'j import_tables \<Rightarrow> (unit, db_error) result \<times> 'j import_tables" where
  "point_activity_at activity ver recorded corrected t =
    (if activity \<in> act_id ` set (t_activities t) \<and> ver \<notin> vr_id ` set (t_versions t)
     then (Err (ForeignKeyViolation ''fk_activities_current_route_version''), t)
     else (Ok (), t\<lparr>t_activities := map (\<lambda>r. if act_id r = activity
        then r\<lparr>act_current_route_version_id := Some ver,
               act_recorded_summary_json := Some recorded,
               act_corrected_summary_json := Some corrected\<rparr> else r) (t_activities t)\<rparr>))"

definition append_audit :: "'j audit_row \<Rightarrow> 'j import_tables \<Rightarrow> 'j import_tables" where
  "append_audit r t = t\<lparr>t_audit := t_audit t @ [r]\<rparr>"

definition publish_outbox ::
  "'j outbox_row \<Rightarrow> 'j import_tables \<Rightarrow> (unit, db_error) result \<times> 'j import_tables" where
  "publish_outbox r t =
    (if ob_id r \<in> ob_id ` set (t_outbox t) then (Err (UniqueViolation ''outbox_pkey''), t)
     else (Ok (), t\<lparr>t_outbox := t_outbox t @ [r]\<rparr>))"

section \<open>The commit\<close>

definition ctx :: "string \<Rightarrow> db_error \<Rightarrow> import_error" where
  "ctx what e = StorageError (DatabaseText what e)"

definition encoded :: "string \<Rightarrow> 'j option \<Rightarrow> ('s, 'j, import_error) step" where
  "encoded what v = of_result (ok_or (StorageError (ImText what)) v)"

definition artifact_row_of :: "import_commit_data \<Rightarrow> artifact_row" where
  "artifact_row_of d =
    \<lparr>ar_id = artifact_uuid (cd_source_artifact_id d), ar_import_id = import_uuid (cd_import_id d),
     ar_owner_id = user_uuid (cd_owner_id d), ar_object_storage_key = cd_object_storage_key d,
     ar_content_type = cd_content_type d, ar_size_bytes = cd_file_size_bytes d,
     ar_checksum = cd_checksum d\<rparr>"

definition revision_row_of :: "import_commit_data \<Rightarrow> revision_row" where
  "revision_row_of d =
    \<lparr>rr_id = source_revision_uuid (cd_source_revision_id d),
     rr_activity_id = activity_uuid (cd_activity_id d),
     rr_source_artifact_id = artifact_uuid (cd_source_artifact_id d),
     rr_revision_number = cd_revision_number d, rr_provider = ''gpx_import'',
     rr_parser_version = cd_parser_version d\<rparr>"

definition track_row_of :: "import_commit_data \<Rightarrow> 'j \<Rightarrow> 'j \<Rightarrow> 'j track_row" where
  "track_row_of d geo bb =
    \<lparr>tr_id = track_uuid (cd_recorded_track_id d),
     tr_source_revision_id = source_revision_uuid (cd_source_revision_id d),
     tr_geometry_json = geo, tr_bounding_box_json = bb,
     tr_started_at = cd_started_at d, tr_ended_at = cd_ended_at d,
     tr_distance_meters = rs_distance_meters (cd_statistics d),
     tr_elevation_gain_meters = rs_elevation_gain_meters (cd_statistics d),
     tr_elevation_loss_meters = rs_elevation_loss_meters (cd_statistics d),
     tr_point_count = rs_point_count (cd_statistics d),
     tr_segment_count = rs_segment_count (cd_statistics d),
     tr_calculation_version = cd_parser_version d\<rparr>"

definition activity_row_of :: "import_commit_data \<Rightarrow> 'j activity_row" where
  "activity_row_of d =
    \<lparr>act_id = activity_uuid (cd_activity_id d), act_owner_id = user_uuid (cd_owner_id d),
     act_title = cd_activity_title d, act_type = activity_type_to_string (cd_activity_type d),
     act_started_at = cd_started_at d, act_ended_at = cd_ended_at d,
     act_current_route_version_id = None, act_recorded_summary_json = None,
     act_corrected_summary_json = None\<rparr>"

definition version_row_of :: "import_commit_data \<Rightarrow> 'j \<Rightarrow> 'j \<Rightarrow> 'j \<Rightarrow> 'j version_row" where
  "version_row_of d geo bb corrected =
    \<lparr>vr_id = version_uuid (cd_route_version_id d), vr_activity_id = activity_uuid (cd_activity_id d),
     vr_parent_version_id = None, vr_version_number = 1, vr_geometry_json = geo,
     vr_bounding_box_json = bb, vr_corrected_statistics_json = corrected,
     vr_calculation_version = cd_parser_version d, vr_edit_summary = Some ''Initial import'',
     vr_created_by = user_uuid (cd_owner_id d)\<rparr>"

definition mark_completed :: "time \<Rightarrow> import_commit_data \<Rightarrow> import_row \<Rightarrow> import_row" where
  "mark_completed now d r =
    r\<lparr>ir_status := ''completed'', ir_activity_id := Some (activity_uuid (cd_activity_id d)),
      ir_updated_at := now\<rparr>"

definition audit_row_of :: "'j import_serde \<Rightarrow> import_commit_data \<Rightarrow> 'j audit_row" where
  "audit_row_of J d =
    \<lparr>au_actor_id = user_uuid (cd_owner_id d), au_action = ''import.completed'',
     au_resource_type = ''activity'', au_resource_id = uuid_to_string (activity_uuid (cd_activity_id d)),
     au_metadata = json_object J
       [(''import_id'', json_string J (uuid_to_string (import_uuid (cd_import_id d)))),
        (''activity_id'', json_string J (uuid_to_string (activity_uuid (cd_activity_id d)))),
        (''format'', json_string J ''gpx'')]\<rparr>"

definition outbox_row_of :: "'j import_serde \<Rightarrow> uuid \<Rightarrow> import_commit_data \<Rightarrow> 'j outbox_row" where
  "outbox_row_of J event_id d =
    \<lparr>ob_id = event_id, ob_aggregate_type = ''import'',
     ob_aggregate_id = uuid_to_string (import_uuid (cd_import_id d)),
     ob_event_type = ''ImportedActivityCommitted'',
     ob_payload = json_object J
       [(''import_id'', json_string J (uuid_to_string (import_uuid (cd_import_id d)))),
        (''activity_id'', json_string J (uuid_to_string (activity_uuid (cd_activity_id d)))),
        (''owner_id'', json_string J (uuid_to_string (user_uuid (cd_owner_id d)))),
        (''route_version_id'', json_string J (uuid_to_string (version_uuid (cd_route_version_id d)))),
        (''distance_meters'', json_number J (rs_distance_meters (cd_statistics d))),
        (''duration_seconds'', json_option J (map_option (json_number J)
           (rs_duration_seconds (cd_statistics d)))),
        (''elevation_gain_meters'', json_option J (map_option (json_number J)
           (rs_elevation_gain_meters (cd_statistics d))))],
     ob_correlation_id = Some (cd_correlation_id d)\<rparr>"

definition commit_body ::
  "'j import_serde \<Rightarrow> time \<Rightarrow> uuid \<Rightarrow> import_commit_data \<Rightarrow> ('j import_tables, activity_id, import_error) sql" where
  "commit_body J now event_id d =
    bindq (map_errq (ctx ''failed to insert source_artifact'')
        (query (insert_artifact (artifact_row_of d)))) (\<lambda>_.
    bindq (map_errq (ctx ''failed to insert source_revision'')
        (query (insert_revision (revision_row_of d)))) (\<lambda>_.
    bindq (encoded ''failed to serialize segments'' (segments_to_value J (cd_segments d))) (\<lambda>geo.
    bindq (encoded ''failed to serialize bounding_box'' (box_to_value J (cd_bounding_box d))) (\<lambda>bb.
    bindq (map_errq (ctx ''failed to insert recorded_track'')
        (query (insert_track (track_row_of d geo bb)))) (\<lambda>_.
    bindq (map_errq (ctx ''failed to insert activity'')
        (query (insert_activity (activity_row_of d)))) (\<lambda>_.
    bindq (encoded ''failed to serialize route version geometry''
        (positions_to_value J (cd_preview_geometry d))) (\<lambda>vgeo.
    bindq (encoded ''failed to serialize route version bounding_box''
        (box_to_value J (cd_bounding_box d))) (\<lambda>vbb.
    bindq (encoded ''failed to serialize statistics'' (recorded_to_value J (cd_statistics d))) (\<lambda>rec.
    bindq (encoded ''failed to serialize corrected statistics''
        (corrected_to_value J (cd_corrected_statistics d))) (\<lambda>corr.
    bindq (map_errq (ctx ''failed to insert route_version'')
        (query (insert_version (version_row_of d vgeo vbb corr)))) (\<lambda>_.
    bindq (map_errq (ctx ''failed to update activity with route version'')
        (query (point_activity_at (activity_uuid (cd_activity_id d))
          (version_uuid (cd_route_version_id d)) rec corr))) (\<lambda>_.
    bindq (map_errq (ctx ''failed to update import status'')
        (query (update_imports (import_uuid (cd_import_id d)) (mark_completed now d)))) (\<lambda>_.
    bindq (map_errq (ctx ''failed to write audit event'')
        (modify (append_audit (audit_row_of J d)))) (\<lambda>_.
    bindq (map_errq (ctx ''failed to write outbox event'')
        (query (publish_outbox (outbox_row_of J event_id d)))) (\<lambda>_.
    returnq (cd_activity_id d))))))))))))))))"

definition pg_commit_import ::
  "'j import_serde \<Rightarrow> time \<Rightarrow> uuid \<Rightarrow> import_commit_data \<Rightarrow> ('j import_tables, activity_id, import_error) sql" where
  "pg_commit_import J now event_id d =
    transaction_with (ctx ''failed to begin transaction'') (ctx ''failed to commit transaction'')
      (commit_body J now event_id d)"

end
