(* ===== verification/Import_Pipeline.thy ===== *)
theory Import_Pipeline
  imports Import_Commit
begin

text \<open>
  The import pipeline: the command handlers (\<open>crates/app/src/imports/commands.rs\<close>), the orchestrator
  that downloads, verifies, parses, normalises and commits a file (\<open>orchestrator.rs\<close>), the worker's
  job handler (\<open>crates/infrastructure/src/import_worker.rs\<close>) and the periodic clean-up
  (\<open>import_cleanup.rs\<close>).  Object storage, URL signing, SHA-256, the XML reader, the mathematical
  library and Unicode tables are parameters.  \<open>clock n\<close> is the value of the \<open>n\<close>th \<open>Utc::now()\<close>.
\<close>

record import_env =
  env_sha256 :: "string \<Rightarrow> string"
  env_lowercase :: "string \<Rightarrow> string"
  env_read_events :: "string \<Rightarrow> xml_event list"
  env_libm :: libm
  env_parse_timestamp :: "string \<Rightarrow> time option"

section \<open>Commands\<close>

definition MAX_FILE_SIZE_BYTES :: u64 where
  "MAX_FILE_SIZE_BYTES = 52428800"

definition ALLOWED_CONTENT_TYPES :: "string list" where
  "ALLOWED_CONTENT_TYPES = [''application/gpx+xml'', ''application/xml'']"

record start_import_command =
  sic_owner_id :: user_id
  sic_idempotency_key :: string
  sic_filename :: string
  sic_content_type :: string
  sic_file_size_bytes :: u64

record start_import_result =
  sir_import :: import_rec
  sir_upload_url :: string

record complete_upload_command =
  cuc_import_id :: import_id
  cuc_owner_id :: user_id
  cuc_checksum :: string

record upload_metadata =
  um_content_length :: u64
  um_content_type :: "string option"

definition to_le_bytes :: "u64 \<Rightarrow> string" where
  "to_le_bytes w = map (\<lambda>k. char_of (unat (drop_bit (8 * k) w) mod 256)) [0..<8]"

definition compute_payload_hash :: "import_env \<Rightarrow> string \<Rightarrow> string \<Rightarrow> u64 \<Rightarrow> string" where
  "compute_payload_hash E filename content_type file_size =
    env_sha256 E (filename @ [CHR 0x00] @ content_type @ [CHR 0x00] @ to_le_bytes file_size)"

definition storage_key :: "user_id \<Rightarrow> import_id \<Rightarrow> string" where
  "storage_key owner i =
    ''imports/'' @ uuid_to_string (user_uuid owner) @ ''/'' @ uuid_to_string (import_uuid i)"

text \<open>A method of the aggregate with \<open>?\<close>: the changed import, or the error.\<close>

definition import_call :: "import_cmd \<Rightarrow> ('s, import_rec, import_error) step" where
  "import_call c = of_result (case c of (Ok _, i) \<Rightarrow> Ok i | (Err e, _) \<Rightarrow> Err e)"

definition handle_start_import ::
  "import_env \<Rightarrow> (nat \<Rightarrow> time) \<Rightarrow> import_id \<Rightarrow> 's import_repository \<Rightarrow>
    (string \<Rightarrow> (string, import_error) result) \<Rightarrow> start_import_command \<Rightarrow>
    ('s, start_import_result, import_error) step" where
  "handle_start_import E clock new_id R upload_url cmd =
    (if MAX_FILE_SIZE_BYTES < sic_file_size_bytes cmd then failq UploadTooLarge
     else if sic_content_type cmd \<notin> set ALLOWED_CONTENT_TYPES then failq InvalidMediaType
     else if trim (sic_filename cmd) = []
     then failq (ValidationFailed (ImText ''filename must not be empty''))
     else
       let hash = compute_payload_hash E (sic_filename cmd) (sic_content_type cmd)
             (sic_file_size_bytes cmd) in
       bindq (imp_find_by_idempotency_key R (sic_owner_id cmd) (sic_idempotency_key cmd)) (\<lambda>found.
       case found of
         Some existing \<Rightarrow>
           if (case im_payload_hash existing of Some h \<Rightarrow> h \<noteq> hash | None \<Rightarrow> False)
           then failq IdempotencyPayloadMismatch
           else bindq (of_result (upload_url (storage_key (sic_owner_id cmd) (im_id existing)))) (\<lambda>url.
             returnq \<lparr>sir_import = existing, sir_upload_url = url\<rparr>)
       | None \<Rightarrow>
           bindq (of_result (import_new new_id (clock 0) (sic_owner_id cmd) Gpx
               (sic_idempotency_key cmd) (Some hash))) (\<lambda>fresh.
           bindq (import_call (start_upload (clock 1) fresh)) (\<lambda>i.
           bindq (of_result (upload_url (storage_key (sic_owner_id cmd) (im_id i)))) (\<lambda>url.
           bindq (imp_save R i) (\<lambda>_.
           returnq \<lparr>sir_import = i, sir_upload_url = url\<rparr>))))))"

text \<open>\<open>import.fail(reason).map_err(|_| err)?; repo.update(&import).await?; return Err(err)\<close>.\<close>

definition reject_upload ::
  "time \<Rightarrow> 's import_repository \<Rightarrow> import_rec \<Rightarrow> import_text \<Rightarrow> import_error \<Rightarrow>
    ('s, 'a, import_error) step" where
  "reject_upload now R i reason err =
    (case fail_import now i reason of
       (Err _, _) \<Rightarrow> failq err
     | (Ok _, i') \<Rightarrow> bindq (imp_update R i') (\<lambda>_. failq err))"

definition handle_complete_upload ::
  "import_env \<Rightarrow> time \<Rightarrow> source_artifact_id \<Rightarrow> 's import_repository \<Rightarrow>
    (string \<Rightarrow> (upload_metadata, import_error) result) \<Rightarrow> complete_upload_command \<Rightarrow>
    ('s, import_rec, import_error) step" where
  "handle_complete_upload E now artifact R verify_upload cmd =
    bindq (of_result (checksum_new (env_lowercase E) (cuc_checksum cmd))) (\<lambda>c.
    bindq (imp_find_by_id R (cuc_import_id cmd)) (\<lambda>found.
    bindq (of_result (ok_or NotFound found)) (\<lambda>i.
      if im_owner_id i \<noteq> cuc_owner_id cmd then failq Unauthorized
      else if im_status i \<noteq> Uploading
      then failq (InvalidTransition (import_status_to_string (im_status i)) ''uploaded'')
      else case verify_upload (storage_key (cuc_owner_id cmd) (cuc_import_id cmd)) of
        Err (StorageError _) \<Rightarrow> failq (StorageError (ImText ''storage temporarily unavailable''))
      | Err ObjectNotFound \<Rightarrow>
          reject_upload now R i (ImText ''upload not found in storage'') ObjectNotFound
      | Err e \<Rightarrow> reject_upload now R i (DisplayText e) e
      | Ok m \<Rightarrow>
          if MAX_FILE_SIZE_BYTES < um_content_length m
          then reject_upload now R i (ImText ''upload too large'') UploadTooLarge
          else if um_content_length m = 0
          then reject_upload now R i (ImText ''upload is empty'')
            (ValidationFailed (ImText ''upload is empty''))
          else if (case um_content_type m of Some t \<Rightarrow> t \<notin> set ALLOWED_CONTENT_TYPES | None \<Rightarrow> False)
          then reject_upload now R i (ImText ''invalid media type'') InvalidMediaType
          else
            bindq (import_call (complete_upload now i artifact c)) (\<lambda>i'.
            bindq (imp_update R i') (\<lambda>_. returnq i')))))"

definition handle_get_import ::
  "'s import_repository \<Rightarrow> import_id \<Rightarrow> user_id \<Rightarrow> ('s, import_rec, import_error) step" where
  "handle_get_import R i owner =
    bindq (imp_find_by_id R i) (\<lambda>found.
    bindq (of_result (ok_or NotFound found)) (\<lambda>im.
      if im_owner_id im \<noteq> owner then failq NotFound else returnq im))"

section \<open>The orchestrator\<close>

definition PARSER_VERSION :: string where
  "PARSER_VERSION = ''1.0.0''"

datatype duplicate_check_result = NotDuplicate | ExactDuplicate import_id "activity_id option"

datatype import_processing_result =
    ProcessingCompleted activity_id u64 u64
  | Duplicate import_id "activity_id option"

record 's import_orchestrator =
  orc_repo :: "'s import_repository"
  orc_download :: "string \<Rightarrow> (string, import_error) result"
  orc_check :: "user_id \<Rightarrow> checksum \<Rightarrow> ('s, duplicate_check_result, import_error) step"
  orc_commit :: "import_commit_data \<Rightarrow> ('s, activity_id, import_error) step"

text \<open>The ids generated during a run.\<close>

record import_ids =
  id_activity :: activity_id
  id_artifact :: source_artifact_id
  id_revision :: source_revision_id
  id_track :: recorded_track_id
  id_commit_track :: recorded_track_id
  id_version :: route_version_id

text \<open>\<open>import.fail_with_code(..)?; self.repo.update(&import).await?; return Err(err)\<close>.\<close>

definition fail_and_store ::
  "time \<Rightarrow> 's import_repository \<Rightarrow> import_rec \<Rightarrow> import_text \<Rightarrow> failure_code \<Rightarrow> import_error \<Rightarrow>
    ('s, 'a, import_error) step" where
  "fail_and_store now R i reason code err =
    bindq (import_call (fail_with_code now i reason code)) (\<lambda>i'.
    bindq (imp_update R i') (\<lambda>_. failq err))"

definition complete_duplicate ::
  "(nat \<Rightarrow> time) \<Rightarrow> 's import_repository \<Rightarrow> import_rec \<Rightarrow> import_id \<Rightarrow> activity_id option \<Rightarrow>
    ('s, import_processing_result, import_error) step" where
  "complete_duplicate clock R i existing_import existing_activity =
    bindq (import_call (start_committing (clock 3) (i\<lparr>im_activity_id := existing_activity\<rparr>))) (\<lambda>i1.
    bindq (import_call (complete_import (clock 4) i1)) (\<lambda>i2.
    bindq (imp_update R i2) (\<lambda>_.
    returnq (Duplicate existing_import existing_activity))))"

definition commit_data ::
  "import_env \<Rightarrow> import_ids \<Rightarrow> import_rec \<Rightarrow> import_id \<Rightarrow> user_id \<Rightarrow> string \<Rightarrow> uuid \<Rightarrow> string \<Rightarrow>
    normalized_track \<Rightarrow> route_version \<Rightarrow> import_commit_data" where
  "commit_data E ids i import_id owner key correlation bytes n v =
    \<lparr>cd_owner_id = owner, cd_import_id = import_id, cd_correlation_id = correlation,
     cd_source_artifact_id = (case im_source_artifact_id i of Some a \<Rightarrow> a | None \<Rightarrow> id_artifact ids),
     cd_object_storage_key = key, cd_content_type = ''application/gpx+xml'',
     cd_file_size_bytes = of_nat (length bytes), cd_checksum = env_sha256 E bytes,
     cd_source_revision_id = id_revision ids, cd_revision_number = 1,
     cd_parser_version = PARSER_VERSION, cd_recorded_track_id = id_commit_track ids,
     cd_segments = rt_segments (nt_recorded_track n),
     cd_bounding_box = rt_bounding_box (nt_recorded_track n),
     cd_statistics = rt_statistics (nt_recorded_track n),
     cd_preview_geometry = nt_preview_geometry n, cd_activity_id = id_activity ids,
     cd_activity_title =
       (case nt_suggested_title n of Some title \<Rightarrow> title | None \<Rightarrow> ''Imported Activity''),
     cd_activity_type = Hike, cd_started_at = nt_started_at n, cd_ended_at = nt_ended_at n,
     cd_route_version_id = rv_id v,
     cd_corrected_statistics = calculate_from_geometry (env_libm E) (nt_preview_geometry n)\<rparr>"

definition commit_normalized ::
  "import_env \<Rightarrow> (nat \<Rightarrow> time) \<Rightarrow> import_ids \<Rightarrow> 's import_orchestrator \<Rightarrow> import_rec \<Rightarrow> import_id \<Rightarrow>
    user_id \<Rightarrow> string \<Rightarrow> uuid \<Rightarrow> string \<Rightarrow> normalized_track \<Rightarrow>
    ('s, import_processing_result, import_error) step" where
  "commit_normalized E clock ids orc i import_id owner key correlation bytes n =
    bindq (import_call (start_committing (clock 3) i)) (\<lambda>i2.
    bindq (imp_update (orc_repo orc) i2) (\<lambda>_.
    bindq (of_result (map_err (\<lambda>e. ValidationFailed (RouteVersionText e))
        (new_initial (id_version ids) (clock 4) (id_activity ids) (nt_preview_geometry n)
          (rt_bounding_box (nt_recorded_track n))
          (calculate_from_geometry (env_libm E) (nt_preview_geometry n)) PARSER_VERSION owner))) (\<lambda>v s.
    case orc_commit orc (commit_data E ids i2 import_id owner key correlation bytes n v) s of
      (Ok _, s') \<Rightarrow> (Ok (ProcessingCompleted (id_activity ids) (of_nat (length bytes))
          (ucast (rs_point_count (rt_statistics (nt_recorded_track n))))), s')
    | (Err e, s') \<Rightarrow>
        (case fail_with_code (clock 5) i2 (CommitFailedText e) InternalError of
           (_, i3) \<Rightarrow> (Err e, snd (imp_update (orc_repo orc) i3 s'))))))"

definition process_bytes ::
  "import_env \<Rightarrow> (nat \<Rightarrow> time) \<Rightarrow> import_ids \<Rightarrow> 's import_orchestrator \<Rightarrow> import_rec \<Rightarrow> import_id \<Rightarrow>
    user_id \<Rightarrow> string \<Rightarrow> uuid \<Rightarrow> string \<Rightarrow> ('s, import_processing_result, import_error) step" where
  "process_bytes E clock ids orc i import_id owner key correlation bytes =
    (let hash = env_sha256 E bytes in
     bindq (of_result (ok_or (ValidationFailed (ImText ''import has no stored checksum''))
         (im_checksum i))) (\<lambda>stored.
     if hash \<noteq> checksum_str stored
     then fail_and_store (clock 2) (orc_repo orc) i (ChecksumMismatchText (checksum_str stored) hash)
       ChecksumMismatchCode (ChecksumMismatch (checksum_str stored) hash)
     else case parse_gpx (env_read_events E) bytes of
       Err pe \<Rightarrow>
         fail_and_store (clock 2) (orc_repo orc) i (ParseFailedText (ge_message pe) (ge_code pe))
           ParseError (ParsingFailed (ParseFailedText (ge_message pe) (ge_code pe)))
     | Ok parsed \<Rightarrow>
         bindq (of_result (checksum_new (env_lowercase E) hash)) (\<lambda>c.
         bindq (orc_check orc owner c) (\<lambda>dup.
         case dup of
           ExactDuplicate existing_import existing_activity \<Rightarrow>
             complete_duplicate clock (orc_repo orc) i existing_import existing_activity
         | NotDuplicate \<Rightarrow>
             (case normalize_gpx (env_libm E) (env_parse_timestamp E) (id_track ids) parsed of
                Err e \<Rightarrow> fail_and_store (clock 2) (orc_repo orc) i (NormalizationFailedText e) ParseError
                  (ParsingFailed (NormalizationFailedText e))
              | Ok n \<Rightarrow> commit_normalized E clock ids orc i import_id owner key correlation bytes n)))))"

definition process_import ::
  "import_env \<Rightarrow> (nat \<Rightarrow> time) \<Rightarrow> import_ids \<Rightarrow> 's import_orchestrator \<Rightarrow> import_id \<Rightarrow> user_id \<Rightarrow>
    string \<Rightarrow> uuid \<Rightarrow> ('s, import_processing_result, import_error) step" where
  "process_import E clock ids orc import_id owner key correlation =
    bindq (imp_find_by_id (orc_repo orc) import_id) (\<lambda>found.
    bindq (of_result (ok_or NotFound found)) (\<lambda>i0.
      if im_status i0 \<noteq> Queued
      then failq (InvalidTransition (import_status_to_string (im_status i0)) ''parsing'')
      else
        bindq (import_call (start_parsing (clock 1) i0)) (\<lambda>i.
        bindq (imp_update (orc_repo orc) i) (\<lambda>_.
        case orc_download orc key of
          Err e \<Rightarrow> fail_and_store (clock 2) (orc_repo orc) i (DownloadFailedText e) StorageUnavailable e
        | Ok bytes \<Rightarrow> process_bytes E clock ids orc i import_id owner key correlation bytes))))"

section \<open>The worker's job handler\<close>

record parse_gpx_job =
  pj_import_id :: uuid
  pj_owner_id :: uuid
  pj_object_storage_key :: string
  pj_correlation_id :: uuid

datatype job_error =
    PayloadError
  | LoadFailed import_error
  | ImportMissing import_id
  | ToValidatingFailed import_error
  | ToQueuedFailed import_error
  | PersistFailed import_error
  | UnexpectedState import_id import_status
  | ImportFailed import_error

definition duplicate_checker ::
  "'s import_repository \<Rightarrow> user_id \<Rightarrow> checksum \<Rightarrow> ('s, duplicate_check_result, import_error) step" where
  "duplicate_checker R owner c =
    bindq (imp_find_completed_by_checksum R owner c) (\<lambda>found.
      returnq (case found of Some (i, a) \<Rightarrow> ExactDuplicate i a | None \<Rightarrow> NotDuplicate))"

definition prepare_import ::
  "(nat \<Rightarrow> time) \<Rightarrow> 's import_repository \<Rightarrow> import_id \<Rightarrow> ('s, unit, job_error) step" where
  "prepare_import clock R import_id =
    bindq (map_errq LoadFailed (imp_find_by_id R import_id)) (\<lambda>found.
    bindq (of_result (ok_or (ImportMissing import_id) found)) (\<lambda>i.
      if im_status i = Uploaded then
        bindq (map_errq ToValidatingFailed (import_call (start_validation (clock 0) i))) (\<lambda>i1.
        bindq (map_errq ToQueuedFailed (import_call (queue_for_parsing (clock 1) i1))) (\<lambda>i2.
        map_errq PersistFailed (imp_update R i2)))
      else if im_status i = Validating then
        bindq (map_errq ToQueuedFailed (import_call (queue_for_parsing (clock 0) i))) (\<lambda>i1.
        map_errq PersistFailed (imp_update R i1))
      else if im_status i = Queued \<or> im_status i = Parsing then returnq ()
      else failq (UnexpectedState import_id (im_status i))))"

definition parse_gpx_handle ::
  "import_env \<Rightarrow> (nat \<Rightarrow> time) \<Rightarrow> (nat \<Rightarrow> time) \<Rightarrow> import_ids \<Rightarrow> 's import_orchestrator \<Rightarrow>
    (user_id \<Rightarrow> import_id \<Rightarrow> import_id \<Rightarrow> activity_id option \<Rightarrow> ('s, unit, db_error) step) \<Rightarrow>
    parse_gpx_job option \<Rightarrow> ('s, unit, job_error) step" where
  "parse_gpx_handle E clock0 clock ids orc audit_duplicate payload =
    bindq (of_result (ok_or PayloadError payload)) (\<lambda>job.
    let import_id = ImportId (pj_import_id job); owner = UserId (pj_owner_id job) in
    bindq (prepare_import clock0 (orc_repo orc) import_id) (\<lambda>_ s.
    case process_import E clock ids orc import_id owner (pj_object_storage_key job)
        (pj_correlation_id job) s of
      (Ok (Duplicate existing_import existing_activity), s') \<Rightarrow>
        ignoreq (audit_duplicate owner import_id existing_import existing_activity) s'
    | (Ok (ProcessingCompleted _ _ _), s') \<Rightarrow> (Ok (), s')
    | (Err e, s') \<Rightarrow> (Err (ImportFailed e), snd (imp_find_by_id (orc_repo orc) import_id s'))))"

section \<open>Clean-up of abandoned imports\<close>

definition ABANDONED_TIMEOUT :: time where
  "ABANDONED_TIMEOUT = 30 * 60 * 1000000000"

definition cleanup_abandoned_imports ::
  "(nat \<Rightarrow> time) \<Rightarrow> 's import_repository \<Rightarrow> ('s, nat, import_error) step" where
  "cleanup_abandoned_imports clock R =
    bindq (imp_find_abandoned R (clock 0) ABANDONED_TIMEOUT) (\<lambda>abandoned.
      if abandoned = [] then returnq 0
      else
        (case fail_abandoned_imports (\<lambda>n. clock (n + 1)) abandoned of
           (res, failed) \<Rightarrow>
             bindq (for_each (\<lambda>i. if im_status i = Failed then ignoreq (imp_update R i) else returnq ()) failed)
               (\<lambda>_. returnq (cleaned_up res))))"

section \<open>The production wiring\<close>

definition pg_audit_duplicate ::
  "'j import_serde \<Rightarrow> user_id \<Rightarrow> import_id \<Rightarrow> import_id \<Rightarrow> activity_id option \<Rightarrow>
    ('j import_tables, unit, db_error) sql" where
  "pg_audit_duplicate J owner i existing_import existing_activity =
    modify (append_audit
      \<lparr>au_actor_id = user_uuid owner, au_action = ''import.duplicate_detected'',
       au_resource_type = ''import'', au_resource_id = uuid_to_string (import_uuid i),
       au_metadata = json_object J
         [(''existing_import_id'', json_string J (uuid_to_string (import_uuid existing_import))),
          (''existing_activity_id'', json_option J (map_option
             (\<lambda>a. json_string J (uuid_to_string (activity_uuid a))) existing_activity)),
          (''owner_id'', json_string J (uuid_to_string (user_uuid owner)))]\<rparr>)"

definition pg_orchestrator ::
  "'j import_serde \<Rightarrow> import_env \<Rightarrow> time \<Rightarrow> uuid \<Rightarrow> (string \<Rightarrow> (string, import_error) result) \<Rightarrow>
    'j import_tables db import_orchestrator" where
  "pg_orchestrator J E now event_id download =
    (let R = PgImportRepository (env_lowercase E) in
     \<lparr>orc_repo = R, orc_download = download, orc_check = duplicate_checker R,
      orc_commit = pg_commit_import J now event_id\<rparr>)"

section \<open>What the handlers do to a store\<close>

lemma storage_key_inject [simp]:
  "storage_key u i = storage_key v j \<longleftrightarrow> u = v \<and> i = j"
proof
  assume "storage_key u i = storage_key v j"
  then have "uuid_to_string (user_uuid u) = uuid_to_string (user_uuid v)"
    "uuid_to_string (import_uuid i) = uuid_to_string (import_uuid j)"
    by (simp_all add: storage_key_def)
  then show "u = v \<and> i = j" by (simp add: user_id.expand import_id.expand)
qed simp

lemma import_call_Ok: "import_call c s = (Ok i, s') \<longleftrightarrow> s' = s \<and> (\<exists>x. c = (Ok x, i))"
  by (auto simp: import_call_def split: prod.splits result.splits)

lemma import_call_Err: "import_call c s = (Err e, s') \<longleftrightarrow> s' = s \<and> (\<exists>i. c = (Err e, i))"
  by (auto simp: import_call_def split: prod.splits result.splits)

lemma import_cmd_fields:
  assumes "import_event_run e i = (r, i')"
  shows "im_id i' = im_id i" and "im_owner_id i' = im_owner_id i"
    and "im_idempotency_key i' = im_idempotency_key i" and "im_payload_hash i' = im_payload_hash i"
    and "im_activity_id i' = im_activity_id i"
  using assms
  by (cases e; auto simp: import_cmd_defs attempt_def split: result.splits)+

lemma import_new_fields:
  "import_new new_id now owner fmt key hash = Ok i \<Longrightarrow>
    im_id i = new_id \<and> im_owner_id i = owner \<and> im_idempotency_key i = key \<and> im_payload_hash i = hash \<and>
    im_status i = Requested"
  by (auto simp: import_new_def split: if_splits)

lemma fail_import_Uploading:
  "im_status i = Uploading \<Longrightarrow> \<exists>i'. fail_import now i reason = (Ok (), i') \<and> im_id i' = im_id i"
  by (simp add: fail_import_def transition_to_def is_terminal_def)

context import_store
begin

lemma start_import_stored:
  assumes "handle_start_import E clock new_id R url cmd s = (Ok res, s')" and "inv s"
  shows "inv s' \<and> (\<exists>im. view s' (im_id (sir_import res)) = Some im \<and>
    im_owner_id im = sic_owner_id cmd \<and> im_idempotency_key im = sic_idempotency_key cmd \<and>
    im_payload_hash im = im_payload_hash (sir_import res) \<and>
    (im_payload_hash im = None \<or> im_payload_hash im =
      Some (compute_payload_hash E (sic_filename cmd) (sic_content_type cmd) (sic_file_size_bytes cmd))))"
proof -
  let ?hash = "compute_payload_hash E (sic_filename cmd) (sic_content_type cmd) (sic_file_size_bytes cmd)"
  from assms(1) obtain found s1 where
    found: "imp_find_by_idempotency_key R (sic_owner_id cmd) (sic_idempotency_key cmd) s = (Ok found, s1)"
    by (auto simp: handle_start_import_def Let_def bindq_Ok split: if_splits)
  note keep = key_keeps [OF found assms(2)]
  show ?thesis
  proof (cases found)
    case (Some existing)
    with assms(1) found have "res = \<lparr>sir_import = existing, sir_upload_url = sir_upload_url res\<rparr>" "s' = s1"
      "im_payload_hash existing = None \<or> im_payload_hash existing = Some ?hash"
      by (auto simp: handle_start_import_def Let_def bindq_Ok split: if_splits option.splits)
    with key_Some [OF found [unfolded Some] assms(2)] keep show ?thesis
      by (metis start_import_result.select_convs(1))
  next
    case None
    with assms(1) found obtain fresh i where
      fresh: "import_new new_id (clock 0) (sic_owner_id cmd) Gpx (sic_idempotency_key cmd) (Some ?hash) = Ok fresh"
      and i: "start_upload (clock 1) fresh = (Ok (), i)" and save: "imp_save R i s1 = (Ok (), s')"
      and res: "sir_import res = i"
      by (auto simp: handle_start_import_def Let_def bindq_Ok import_call_Ok split: if_splits)
    note f = import_cmd_fields [of "StartUpload (clock 1)" fresh, unfolded import_event_run.simps, OF i]
    from save_Ok [OF save] keep have "inv s'" "view s' (im_id i) = Some (canon i)" by simp_all
    with import_new_fields [OF fresh] f res show ?thesis by (simp add: canon_fields)
  qed
qed

lemma start_import_replay:
  assumes "handle_start_import E clock new_id R url cmd s = (r, s')" and "inv s"
    and "view s j = Some im" and "im_owner_id im = sic_owner_id cmd"
    and "im_idempotency_key im = sic_idempotency_key cmd"
  shows "view s' = view s \<and> (case r of Err _ \<Rightarrow> True | Ok res \<Rightarrow> im_id (sir_import res) = j \<and>
    (im_payload_hash im = None \<or> im_payload_hash im =
      Some (compute_payload_hash E (sic_filename cmd) (sic_content_type cmd) (sic_file_size_bytes cmd))))"
proof -
  obtain q s1 where
    q: "imp_find_by_idempotency_key R (sic_owner_id cmd) (sic_idempotency_key cmd) s = (q, s1)" by fastforce
  note keep = key_keeps [OF q assms(2)]
  show ?thesis
  proof (cases q)
    case (Err e)
    with assms(1) q keep show ?thesis
      by (auto simp: handle_start_import_def Let_def bindq_def split: if_splits)
  next
    case (Ok found)
    with key_None [of _ _ s s1 j im] q assms(2-5) obtain existing where ex: "found = Some existing"
      by (cases found) auto
    from key_Some [OF q [unfolded Ok ex] assms(2)] have
      v: "view s (im_id existing) = Some existing" "im_owner_id existing = sic_owner_id cmd"
        "im_idempotency_key existing = sic_idempotency_key cmd" by auto
    from key_unique [OF assms(2) v(1) assms(3)] v assms(4,5) have "im_id existing = j" by simp
    moreover from this v(1) assms(3) have "existing = im" by simp
    ultimately show ?thesis
      using assms(1) q Ok ex keep
      by (auto simp: handle_start_import_def Let_def bindq_def split: if_splits option.splits result.splits)
  qed
qed

text \<open>Completing an upload changes no import of another owner, and none but the one it names.\<close>

lemma reject_upload_view:
  assumes "reject_upload now R im reason err s = (r, s')" and "inv s" and "j \<noteq> im_id im"
  shows "view s' j = view s j"
proof -
  obtain q i' where f: "fail_import now im reason = (q, i')" by fastforce
  have id': "im_id i' = im_id im"
    using import_cmd_fields(1) [of "Fail now reason" im q i'] f by simp
  show ?thesis
  proof (cases q)
    case (Ok u)
    obtain q2 s2 where u: "imp_update R i' s = (q2, s2)" by fastforce
    from update_frame [OF u assms(2), of j] id' assms(3) have "view s2 j = view s j" by simp
    with assms(1) f Ok u show ?thesis
      by (cases q2) (auto simp: reject_upload_def bindq_def)
  qed (use assms f in \<open>auto simp: reject_upload_def\<close>)
qed

lemma complete_upload_frame:
  assumes "handle_complete_upload E now artifact R verify cmd s = (r, s')" and "inv s"
    and "\<And>im. view s j = Some im \<Longrightarrow> j = cuc_import_id cmd \<Longrightarrow> im_owner_id im \<noteq> cuc_owner_id cmd"
  shows "view s' j = view s j"
proof -
  obtain q s1 where q: "imp_find_by_id R (cuc_import_id cmd) s = (q, s1)" by fastforce
  note keep = find_keeps [OF q assms(2)]
  show ?thesis
  proof (cases "\<exists>c i. checksum_new (env_lowercase E) (cuc_checksum cmd) = Ok c \<and> q = Ok (Some i) \<and>
      im_owner_id i = cuc_owner_id cmd \<and> im_status i = Uploading")
    case False
    have "s' = s \<or> s' = s1"
      using assms(1) q False
      by (auto simp: handle_complete_upload_def bindq_def split: result.splits if_splits)
        (auto simp: ok_or_def split: option.splits)
    with keep show ?thesis by auto
  next
    case True
    then obtain c i where ci: "checksum_new (env_lowercase E) (cuc_checksum cmd) = Ok c" "q = Ok (Some i)"
      "im_owner_id i = cuc_owner_id cmd" "im_status i = Uploading" by blast
    from find_Ok [OF q [unfolded ci(2)] assms(2)] have v: "view s (cuc_import_id cmd) = Some i" by simp
    with view_id [OF assms(2)] have id: "im_id i = cuc_import_id cmd" by blast
    with assms(3) v ci(3) have j: "j \<noteq> im_id i" by auto
    have rej: "reject_upload now R i reason err s1 = (r, s') \<Longrightarrow> view s' j = view s j" for reason err
      using reject_upload_view [of now i reason err s1 r s' j] keep j by auto
    have upd: "imp_update R i' s1 = (q2, s2) \<Longrightarrow> im_id i' = im_id i \<Longrightarrow> view s2 j = view s j" for i' q2 s2
      using update_frame [of i' s1 q2 s2 j] keep j by auto
    have com: "view s2 j = view s j" if "complete_upload now i artifact c = (u, i')"
      "imp_update R i' s1 = (q2, s2)" for u i' q2 s2
      using upd [OF that(2)] import_cmd_fields(1) [of "CompleteUpload now artifact c" i u i'] that(1) by simp
    have same: "s1 = s' \<Longrightarrow> view s' j = view s j" using keep by simp
    show ?thesis
      using assms(1) q ci
      by (auto simp: handle_complete_upload_def bindq_def import_call_def
          split: result.splits if_splits import_error.splits prod.splits intro: rej com same)
  qed
qed

lemma cleanup_loop_view:
  assumes "inv s" and "\<forall>im\<in>set ims. im_status im = Failed"
    and "for_each (\<lambda>i. if im_status i = Failed then ignoreq (imp_update R i) else returnq ()) ims s = (r, s')"
  shows "inv s' \<and> (\<forall>j. view s' j = view s j \<or> view s j \<noteq> None \<and>
    (\<exists>new old. new \<in> set ims \<and> im_id new = j \<and> view s' j = Some (canon (merge_update new old))))"
  using assms
proof (induction ims arbitrary: s)
  case (Cons new ims)
  let ?changed = "\<lambda>ns s s' j. view s j \<noteq> None \<and>
    (\<exists>n old. n \<in> set ns \<and> im_id n = j \<and> view s' j = Some (canon (merge_update n old)))"
  obtain q s1 where u: "imp_update R new s = (q, s1)" by fastforce
  have inv1: "inv s1" by (rule update_keeps_inv [OF u Cons.prems(1)])
  from Cons.prems u have run: "for_each (\<lambda>i. if im_status i = Failed then ignoreq (imp_update R i)
      else returnq ()) ims s1 = (r, s')"
    by (simp add: bindq_def ignoreq_def)
  from Cons.IH [OF inv1 _ run] Cons.prems(2) have inv': "inv s'"
    and ih: "\<And>j. view s' j = view s1 j \<or> ?changed ims s1 s' j" by auto
  have step: "view s1 j = view s j \<or> ?changed [new] s s1 j" for j
    using update_Ok [of new s s1] update_Err [of new s _ s1] u Cons.prems(1)
    by (cases q; cases "view s (im_id new)") auto
  have "view s' j = view s j \<or> ?changed (new # ims) s s' j" for j
  proof (cases "view s' j = view s1 j")
    case True
    with step [of j] show ?thesis by auto
  next
    case False
    with ih [of j] have c: "?changed ims s1 s' j" by simp
    with step [of j] have "view s j \<noteq> None" by auto
    with c show ?thesis by auto
  qed
  with inv' show ?case by blast
qed simp

end

lemma fail_with_code_live:
  "\<not> is_terminal (im_status i) \<Longrightarrow> fail_with_code now i reason code =
    (Ok (), i\<lparr>im_status := Failed, im_failure_reason := Some reason, im_failure_code := Some code,
       im_updated_at := now\<rparr>)"
  by (cases "im_status i") (simp_all add: fail_with_code_def transition_to_def is_terminal_def)

lemma fail_abandoned_loop_live:
  assumes "\<forall>i\<in>set is. \<not> is_terminal (im_status i)" and "fail_abandoned_loop clock k is acc = (res, failed)"
  shows "cleaned_up res = cleaned_up acc + length is \<and> map im_id failed = map im_id is \<and>
    (\<forall>i\<in>set failed. im_status i = Failed \<and> im_failure_code i = Some Timeout)"
  using assms
proof (induction "is" arbitrary: k acc failed)
  case (Cons i "is")
  let ?acc = "acc\<lparr>cleaned_up := cleaned_up acc + 1\<rparr>"
  obtain res2 rest where rest: "fail_abandoned_loop clock (k + 1) is ?acc = (res2, rest)" by fastforce
  with Cons.prems have eq: "res2 = res"
    and failed: "failed = i\<lparr>im_status := Failed, im_failure_reason := Some (ImText ''import processing timed out''),
        im_failure_code := Some Timeout, im_updated_at := clock k\<rparr> # rest"
    by (auto simp: fail_with_code_live)
  from Cons.IH [of "k + 1" ?acc rest] rest eq Cons.prems(1) failed show ?case by simp
qed simp

end
