(* ===== verification/Import_Correctness.thy ===== *)
theory Import_Correctness
  imports Import_Pipeline
begin

text \<open>
  Correctness of the import pipeline on PostgreSQL: idempotent creation, isolation of owners,
  clean-up, atomicity and content of the commit, and the treatment of duplicates.
\<close>

section \<open>Clean-up without faults\<close>

lemma completed_keys_failed:
  assumes "\<And>r. completed_key (f r) = None" and "distinct (completed_keys rows)"
  shows "distinct (completed_keys (map (\<lambda>r. if P r then f r else r) rows))"
proof -
  have sub: "set (completed_keys (map (\<lambda>r. if P r then f r else r) rs)) \<subseteq> set (completed_keys rs)" for rs
    by (auto simp: completed_keys_def map_filter_def assms(1) split: if_splits)
  show ?thesis
    using assms(2)
  proof (induction rows)
    case (Cons r rs)
    then show ?case
      using sub [of rs] by (auto simp: completed_keys_def map_filter_simps assms(1) split: option.splits)
  qed (simp add: completed_keys_def map_filter_simps)
qed

lemma pg_update_failed:
  assumes "faults db = []" and "imports_ok db" and "im_status i = Failed"
  obtains db' where "pg_import_update i db = (Ok (), db')" and "faults db' = []"
proof -
  have "completed_key (set_import_columns i r) = None" for r
    using assms(3) by (simp add: completed_key_def set_import_columns_def)
  from completed_keys_failed [of "set_import_columns i", OF this]
  have "\<exists>t. update_imports (import_uuid (im_id i)) (set_import_columns i) (tables db) = (Ok (), t)"
    using assms(2) by (simp add: update_imports_def Let_def imports_ok_def)
  then show thesis
    using assms(1) that by (auto simp: pg_import_update_def map_errq_def query_faultless)
qed

lemma cleanup_loop_faultless:
  assumes "faults db = []" and "imports_ok db"
    and "\<forall>i\<in>set ims. im_status i = Failed \<and> im_failure_code i = Some Timeout"
    and "for_each (\<lambda>i. if im_status i = Failed then ignoreq (imp_update (PgImportRepository low) i)
      else returnq ()) ims db = (r, db')"
  shows "r = Ok () \<and> (\<forall>j im. j \<in> im_id ` set ims \<and> pg_import_view low db j = Some im \<longrightarrow>
    (\<exists>im'. pg_import_view low db' j = Some im' \<and> im_status im' = Failed \<and>
      im_failure_code im' = Some Timeout))"
  using assms
proof (induction ims arbitrary: db)
  case (Cons i ims)
  from Cons.prems obtain db1 where u: "pg_import_update i db = (Ok (), db1)" and f: "faults db1 = []"
    using pg_update_failed [of db i] by auto
  note v = pg_import_update_Ok [OF u Cons.prems(2), of low]
  from Cons.prems u have run: "for_each (\<lambda>i. if im_status i = Failed
      then ignoreq (imp_update (PgImportRepository low) i) else returnq ()) ims db1 = (r, db')"
    by (simp add: bindq_def ignoreq_def PgImportRepository_def)
  have ih: "r = Ok ()" "\<And>j im. j \<in> im_id ` set ims \<Longrightarrow> pg_import_view low db1 j = Some im \<Longrightarrow>
      \<exists>im'. pg_import_view low db' j = Some im' \<and> im_status im' = Failed \<and> im_failure_code im' = Some Timeout"
    using Cons.IH [OF f _ _ run] v Cons.prems(3) by auto
  have fresh: "\<exists>im'. pg_import_view low db' j = Some im' \<and> im_status im' = Failed \<and>
      im_failure_code im' = Some Timeout"
    if j: "j = im_id i" and "j \<notin> im_id ` set ims" and old: "pg_import_view low db j = Some im" for j im
  proof -
    have "pg_import_view low db' j = pg_import_view low db1 j"
      using pgi.cleanup_loop_view [OF _ _ run] v Cons.prems(3) that(2) by (metis imageI list.set_intros(2))
    with j old v Cons.prems(3) show ?thesis by (simp add: pgi.canon_fields merge_update_def)
  qed
  have later: "\<exists>im'. pg_import_view low db1 j = Some im'" if "pg_import_view low db j = Some im" for j im
    using that v by auto
  show ?case using ih fresh later by (metis (no_types, lifting) image_insert insertE list.simps(15))
qed simp

lemma is_abandoned_live: "is_abandoned now limit i \<Longrightarrow> \<not> is_terminal (im_status i)"
  by (auto simp: is_abandoned_def is_terminal_def)

text \<open>What one round of the clean-up does, with the loop over the failed imports left explicit.\<close>

lemma cleanup_cases [consumes 2]:
  assumes "cleanup_abandoned_imports clock (PgImportRepository low) db = (r, db')" and "imports_ok db"
  obtains (idle) "pg_import_view low db' = pg_import_view low db"
      and "faults db = [] \<Longrightarrow> \<forall>j im. pg_import_view low db j = Some im \<longrightarrow>
        \<not> is_abandoned (clock 0) ABANDONED_TIMEOUT im"
  | (work) db1 ims and q :: "(unit, import_error) result" where "imports_ok db1" and "pg_import_view low db1 = pg_import_view low db"
      and "faults db = [] \<Longrightarrow> faults db1 = []"
      and "\<forall>i\<in>set ims. im_status i = Failed \<and> im_failure_code i = Some Timeout"
      and "\<And>j. j \<in> im_id ` set ims \<longleftrightarrow>
        (\<exists>im. pg_import_view low db j = Some im \<and> is_abandoned (clock 0) ABANDONED_TIMEOUT im)"
      and "for_each (\<lambda>i. if im_status i = Failed then ignoreq (imp_update (PgImportRepository low) i)
        else returnq ()) ims db1 = (q, db')"
proof -
  let ?R = "PgImportRepository low"
  obtain q db1 where find: "imp_find_abandoned ?R (clock 0) ABANDONED_TIMEOUT db = (q, db1)" by fastforce
  note keep = pgi.abandoned_keeps [OF find assms(2)]
  show thesis
  proof (cases "\<exists>ab. q = Ok ab \<and> ab \<noteq> []")
    case False
    have same: "db' = db1"
      using assms(1) find False
      by (auto simp: cleanup_abandoned_imports_def bindq_def split: result.splits)
    show thesis
    proof (rule that(1))
      show "pg_import_view low db' = pg_import_view low db" using keep same by simp
      assume "faults db = []"
      then have "q = Ok []"
        using find False
        by (auto simp: PgImportRepository_def pg_import_find_abandoned_def Let_def bindq_def map_errq_def
            select_faultless)
      from pgi.abandoned_Ok [OF find [unfolded this] assms(2)]
      show "\<forall>j im. pg_import_view low db j = Some im \<longrightarrow> \<not> is_abandoned (clock 0) ABANDONED_TIMEOUT im"
        using pgi.view_id [OF assms(2)] by auto
    qed
  next
    case True
    then obtain ab where ab: "q = Ok ab" "ab \<noteq> []" by blast
    obtain res failed where loop: "fail_abandoned_imports (\<lambda>n. clock (n + 1)) ab = (res, failed)" by fastforce
    note sem = pgi.abandoned_Ok [OF find [unfolded ab(1)] assms(2)]
    have live: "\<forall>i\<in>set ab. \<not> is_terminal (im_status i)" using sem is_abandoned_live by blast
    note f = fail_abandoned_loop_live [OF live loop [unfolded fail_abandoned_imports_def]]
    have "j \<in> im_id ` set failed \<longleftrightarrow>
        (\<exists>im. pg_import_view low db j = Some im \<and> is_abandoned (clock 0) ABANDONED_TIMEOUT im)" for j
    proof -
      have "im_id ` set failed = im_id ` set ab" using f by (metis list.set_map)
      moreover have "j \<in> im_id ` set ab \<longleftrightarrow>
          (\<exists>im. pg_import_view low db j = Some im \<and> is_abandoned (clock 0) ABANDONED_TIMEOUT im)"
        using sem pgi.view_id [OF assms(2), of low j] by (auto simp: image_iff)
      ultimately show ?thesis by simp
    qed
    moreover have "faults db1 = []" if "faults db = []"
      using find that
      by (auto simp: PgImportRepository_def pg_import_find_abandoned_def Let_def bindq_def map_errq_def
          select_faultless)
    moreover obtain q2 :: "(unit, import_error) result" and db2 where
      loop2: "for_each (\<lambda>i. if im_status i = Failed then ignoreq (imp_update ?R i) else returnq ()) failed db1 =
        (q2, db2)" by fastforce
    moreover from assms(1) find ab loop loop2 have "db2 = db'"
      by (cases q2) (auto simp: cleanup_abandoned_imports_def bindq_def)
    ultimately show thesis using that(2) keep f by blast
  qed
qed

section \<open>What a commit writes\<close>

text \<open>The rows of the activity, routing, audit and outbox tables, all but the imports.\<close>

definition domain_rows :: "'j import_tables \<Rightarrow> artifact_row list \<times> revision_row list \<times> 'j track_row list \<times>
    'j activity_row list \<times> 'j version_row list \<times> 'j audit_row list \<times> 'j outbox_row list" where
  "domain_rows t = (t_artifacts t, t_revisions t, t_tracks t, t_activities t, t_versions t, t_audit t, t_outbox t)"

text \<open>Exactly one new row in each table, all made of the same data and pointing at each other.\<close>

definition committed ::
  "'j import_serde \<Rightarrow> uuid \<Rightarrow> import_commit_data \<Rightarrow> 'j import_tables \<Rightarrow> 'j import_tables \<Rightarrow> bool" where
  "committed J event_id d t t' \<longleftrightarrow>
    (\<exists>geo bb vgeo vbb rec corr.
      segments_to_value J (cd_segments d) = Some geo \<and> box_to_value J (cd_bounding_box d) = Some bb \<and>
      positions_to_value J (cd_preview_geometry d) = Some vgeo \<and>
      box_to_value J (cd_bounding_box d) = Some vbb \<and>
      recorded_to_value J (cd_statistics d) = Some rec \<and>
      corrected_to_value J (cd_corrected_statistics d) = Some corr \<and>
      domain_rows t' =
        (t_artifacts t @ [artifact_row_of d], t_revisions t @ [revision_row_of d],
         t_tracks t @ [track_row_of d geo bb],
         t_activities t @ [(activity_row_of d)
           \<lparr>act_current_route_version_id := Some (version_uuid (cd_route_version_id d)),
            act_recorded_summary_json := Some rec, act_corrected_summary_json := Some corr\<rparr>],
         t_versions t @ [version_row_of d vgeo vbb corr], t_audit t @ [audit_row_of J d],
         t_outbox t @ [outbox_row_of J event_id d])) \<and>
    (\<forall>r\<in>set (t_imports t'). ir_id r = import_uuid (cd_import_id d) \<longrightarrow>
      ir_status r = ''completed'' \<and> ir_activity_id r = Some (activity_uuid (cd_activity_id d)))"

lemma insert_rows:
  "insert_artifact r1 t = (Ok x, t') \<Longrightarrow> t' = t\<lparr>t_artifacts := t_artifacts t @ [r1]\<rparr>"
  "insert_revision r2 t = (Ok x, t') \<Longrightarrow> t' = t\<lparr>t_revisions := t_revisions t @ [r2]\<rparr>"
  "insert_track r3 t = (Ok x, t') \<Longrightarrow> t' = t\<lparr>t_tracks := t_tracks t @ [r3]\<rparr>"
  "insert_activity r4 t = (Ok x, t') \<Longrightarrow>
    act_id r4 \<notin> act_id ` set (t_activities t) \<and> t' = t\<lparr>t_activities := t_activities t @ [r4]\<rparr>"
  "insert_version r5 t = (Ok x, t') \<Longrightarrow> t' = t\<lparr>t_versions := t_versions t @ [r5]\<rparr>"
  "publish_outbox r6 t = (Ok x, t') \<Longrightarrow> t' = t\<lparr>t_outbox := t_outbox t @ [r6]\<rparr>"
  by (auto simp: insert_artifact_def insert_revision_def insert_track_def insert_activity_def
      insert_version_def publish_outbox_def split: if_splits)

lemma point_activity_rows:
  "point_activity_at a v rec corr t = (Ok x, t') \<Longrightarrow> t' = t\<lparr>t_activities := map (\<lambda>r. if act_id r = a
      then r\<lparr>act_current_route_version_id := Some v, act_recorded_summary_json := Some rec,
        act_corrected_summary_json := Some corr\<rparr> else r) (t_activities t)\<rparr>"
  by (auto simp: point_activity_at_def split: if_splits)

lemma update_imports_eq:
  "update_imports i f t = (Ok x, t') \<Longrightarrow>
    t' = t\<lparr>t_imports := map (\<lambda>r. if ir_id r = i then f r else r) (t_imports t)\<rparr>"
  by (auto simp: update_imports_def Let_def split: if_splits)

lemma ok_or_Ok [simp]: "ok_or e v = Ok x \<longleftrightarrow> v = Some x"
  by (cases v) (simp_all add: ok_or_def)

lemma commit_body_committed:
  assumes "runs (commit_body J now event_id d) t a t'"
  shows "a = cd_activity_id d \<and> committed J event_id d t t'"
proof -
  from assms obtain t1 t2 t3 t4 t5 t6 t7 t8 u geo bb vgeo vbb rec corr where
    enc: "segments_to_value J (cd_segments d) = Some geo" "box_to_value J (cd_bounding_box d) = Some bb"
      "positions_to_value J (cd_preview_geometry d) = Some vgeo" "box_to_value J (cd_bounding_box d) = Some vbb"
      "recorded_to_value J (cd_statistics d) = Some rec"
      "corrected_to_value J (cd_corrected_statistics d) = Some corr" and
    rows: "insert_artifact (artifact_row_of d) t = (Ok (), t1)" "insert_revision (revision_row_of d) t1 = (Ok (), t2)"
      "insert_track (track_row_of d geo bb) t2 = (Ok (), t3)" "insert_activity (activity_row_of d) t3 = (Ok (), t4)"
      "insert_version (version_row_of d vgeo vbb corr) t4 = (Ok (), t5)"
      "point_activity_at (activity_uuid (cd_activity_id d)) (version_uuid (cd_route_version_id d)) rec corr t5 = (Ok (), t6)"
      "update_imports (import_uuid (cd_import_id d)) (mark_completed now d) t6 = (Ok (), t7)"
      "publish_outbox (outbox_row_of J event_id d) (append_audit (audit_row_of J d) t7) = (Ok (), t8)" and
    ret: "a = cd_activity_id d" "t' = t8"
    unfolding commit_body_def encoded_def
    by (elim runs_queryE runs_modifyE runs_of_resultE runs_returnqE) (auto intro: that)
  have fresh: "act_id r \<noteq> activity_uuid (cd_activity_id d)" if "r \<in> set (t_activities t3)" for r
    using insert_rows(4) [OF rows(4)] that by (auto simp: activity_row_of_def image_iff)
  then have old: "map (\<lambda>r. if act_id r = activity_uuid (cd_activity_id d) then f r else r) (t_activities t3) =
      t_activities t3" for f
    by (intro map_idI) simp
  show ?thesis
    using enc ret old insert_rows(1) [OF rows(1)] insert_rows(2) [OF rows(2)] insert_rows(3) [OF rows(3)]
      insert_rows(4) [OF rows(4)] insert_rows(5) [OF rows(5)] insert_rows(6) [OF rows(8)]
      point_activity_rows [OF rows(6)] update_imports_eq [OF rows(7)]
    by (auto simp: committed_def domain_rows_def append_audit_def mark_completed_def activity_row_of_def)
qed

section \<open>What a run of the orchestrator writes\<close>

text \<open>A run that completes has committed one activity as \<open>C\<close> says, any other has no domain row changed.\<close>

definition commits_or_keeps ::
  "(activity_id \<Rightarrow> 'j import_tables \<Rightarrow> 'j import_tables \<Rightarrow> bool) \<Rightarrow>
    ('j import_tables, import_processing_result, import_error) sql \<Rightarrow> bool" where
  "commits_or_keeps C m \<longleftrightarrow> (\<forall>db r db'. m db = (r, db') \<longrightarrow>
    (case r of
       Ok (ProcessingCompleted a _ _) \<Rightarrow> C a (tables db) (tables db')
     | _ \<Rightarrow> domain_rows (tables db') = domain_rows (tables db)))"

definition from_file ::
  "'j import_serde \<Rightarrow> import_env \<Rightarrow> import_ids \<Rightarrow> uuid \<Rightarrow> (string \<Rightarrow> (string, import_error) result) \<Rightarrow>
    import_rec \<Rightarrow> import_id \<Rightarrow> user_id \<Rightarrow> string \<Rightarrow> uuid \<Rightarrow> activity_id \<Rightarrow> 'j import_tables \<Rightarrow>
    'j import_tables \<Rightarrow> bool" where
  "from_file J E ids event_id download im i owner key correlation a t t' \<longleftrightarrow>
    (\<exists>bytes parsed n v c. download key = Ok bytes \<and> rv_id v = id_version ids \<and>
      im_checksum im = Some c \<and> checksum_str c = env_sha256 E bytes \<and>
      parse_gpx (env_read_events E) bytes = Ok parsed \<and>
      normalize_gpx (env_libm E) (env_parse_timestamp E) (id_track ids) parsed = Ok n \<and>
      a = id_activity ids \<and>
      committed J event_id (commit_data E ids im i owner key correlation bytes n v) t t')"

lemma committed_cong:
  "domain_rows t1 = domain_rows t2 \<Longrightarrow> committed J ev d t1 t' = committed J ev d t2 t'"
  by (simp add: committed_def domain_rows_def)

lemma from_file_cong:
  "domain_rows t1 = domain_rows t2 \<Longrightarrow>
    from_file J E ids ev dl im i owner key corr a t1 t' = from_file J E ids ev dl im i owner key corr a t2 t'"
  unfolding from_file_def by (simp only: committed_cong [of t1 t2])

lemma commits_bind:
  assumes "keeps domain_rows m" and "\<And>x. commits_or_keeps (from_file J E ids ev dl im i owner key corr) (k x)"
  shows "commits_or_keeps (from_file J E ids ev dl im i owner key corr) (bindq m k)"
  unfolding commits_or_keeps_def
proof (intro allI impI)
  fix db r db'
  assume run: "bindq m k db = (r, db')"
  obtain q db1 where m: "m db = (q, db1)" by fastforce
  note same = keepsD [OF assms(1) m]
  show "case r of Ok (ProcessingCompleted a _ _) \<Rightarrow>
      from_file J E ids ev dl im i owner key corr a (tables db) (tables db')
    | _ \<Rightarrow> domain_rows (tables db') = domain_rows (tables db)"
  proof (cases q)
    case (Ok x)
    with run m have "k x db1 = (r, db')" by (simp add: bindq_def)
    with assms(2) have "case r of Ok (ProcessingCompleted a _ _) \<Rightarrow>
        from_file J E ids ev dl im i owner key corr a (tables db1) (tables db')
      | _ \<Rightarrow> domain_rows (tables db') = domain_rows (tables db1)" by (simp add: commits_or_keeps_def)
    with from_file_cong [OF same, of J E ids ev dl im i owner key corr] same show ?thesis
      by (auto split: result.splits import_processing_result.splits)
  next
    case (Err e)
    with run m same show ?thesis by (auto simp: bindq_def)
  qed
qed

lemma commits_of_result:
  assumes "\<And>x. r = Ok x \<Longrightarrow> commits_or_keeps C (k x)"
  shows "commits_or_keeps C (bindq (of_result r) k)"
  using assms by (cases r) (auto simp: commits_or_keeps_def bindq_def)

lemma commits_import_call:
  assumes "\<And>i. c = (Ok (), i) \<Longrightarrow> commits_or_keeps C (k i)"
  shows "commits_or_keeps C (bindq (import_call c) k)"
  unfolding import_call_def
proof (rule commits_of_result)
  fix x
  assume "(case c of (Ok _, i) \<Rightarrow> Ok i | (Err e, _) \<Rightarrow> Err e) = Ok x"
  then have "c = (Ok (), x)" by (auto split: prod.splits result.splits)
  then show "commits_or_keeps C (k x)" by (rule assms)
qed

lemma never_completes:
  assumes "keeps domain_rows m" and "\<And>db a n k db'. m db \<noteq> (Ok (ProcessingCompleted a n k), db')"
  shows "commits_or_keeps C m"
  using keepsD [OF assms(1)] assms(2)
  by (auto simp: commits_or_keeps_def split: result.splits import_processing_result.splits)

lemma keeps_import_call [intro]: "keeps f (import_call c)"
  by (auto simp: import_call_def)

lemma pg_update_keeps [intro]: "keeps domain_rows (imp_update (PgImportRepository low) i)"
  unfolding PgImportRepository_def import_repository.simps pg_import_update_def
  by (intro keeps_map_errq keeps_query) (simp add: update_imports_def Let_def domain_rows_def)

lemma pg_find_keeps [intro]:
  "keeps domain_rows (imp_find_by_id (PgImportRepository low) i)"
  "keeps domain_rows (imp_find_completed_by_checksum (PgImportRepository low) u c)"
  unfolding PgImportRepository_def import_repository.simps pg_import_find_by_id_def pg_import_find_completed_def
  by (intro keeps_bindq keeps_map_errq keeps_select keeps_returnq)+

lemma fail_and_store_commits:
  "commits_or_keeps C (fail_and_store now (PgImportRepository low) i reason code err)"
proof (rule never_completes)
  show "keeps domain_rows (fail_and_store now (PgImportRepository low) i reason code err)"
    unfolding fail_and_store_def
    by (intro keeps_bindq keeps_import_call pg_update_keeps keeps_failq)
qed (simp add: fail_and_store_def bindq_Ok)

lemma complete_duplicate_commits:
  "commits_or_keeps C (complete_duplicate clock (PgImportRepository low) i ei ea)"
proof (rule never_completes)
  show "keeps domain_rows (complete_duplicate clock (PgImportRepository low) i ei ea)"
    unfolding complete_duplicate_def
    by (intro keeps_bindq keeps_import_call pg_update_keeps keeps_returnq)
qed (simp add: complete_duplicate_def bindq_Ok)

lemma transition_keeps_upload:
  "start_committing now i = (r, i') \<Longrightarrow>
    im_checksum i' = im_checksum i \<and> im_source_artifact_id i' = im_source_artifact_id i"
  by (auto simp: start_committing_def attempt_def split: result.splits)

lemma commit_normalized_commits:
  assumes "im_checksum im = Some c" and "checksum_str c = env_sha256 E bytes" and "dl key = Ok bytes"
    and "parse_gpx (env_read_events E) bytes = Ok parsed"
    and "normalize_gpx (env_libm E) (env_parse_timestamp E) (id_track ids) parsed = Ok n"
  shows "commits_or_keeps (from_file J E ids ev dl im i owner key corr)
    (commit_normalized E clock ids (pg_orchestrator J E now ev dl) im i owner key corr bytes n)"
  unfolding commit_normalized_def
proof (intro commits_import_call commits_of_result commits_bind)
  fix im2 v
  assume "start_committing (clock 3) im = (Ok (), im2)"
  then have same: "commit_data E ids im2 i owner key corr bytes n v = commit_data E ids im i owner key corr bytes n v"
    using transition_keeps_upload by (simp add: commit_data_def)
  assume "map_err (\<lambda>e. ValidationFailed (RouteVersionText e)) (new_initial (id_version ids) (clock 4)
      (id_activity ids) (nt_preview_geometry n) (rt_bounding_box (nt_recorded_track n))
      (calculate_from_geometry (env_libm E) (nt_preview_geometry n)) PARSER_VERSION owner) = Ok v"
  then have v: "rv_id v = id_version ids"
    by (auto simp: new_initial_def split: if_splits)
  show "commits_or_keeps (from_file J E ids ev dl im i owner key corr) (\<lambda>s.
      case orc_commit (pg_orchestrator J E now ev dl) (commit_data E ids im2 i owner key corr bytes n v) s of
        (Ok _, s') \<Rightarrow> (Ok (ProcessingCompleted (id_activity ids) (of_nat (length bytes))
          (ucast (rs_point_count (rt_statistics (nt_recorded_track n))))), s')
      | (Err e, s') \<Rightarrow>
          (case fail_with_code (clock 5) im2 (CommitFailedText e) InternalError of
             (_, i3) \<Rightarrow> (Err e, snd (imp_update (orc_repo (pg_orchestrator J E now ev dl)) i3 s'))))"
    unfolding commits_or_keeps_def
  proof (intro allI impI, goal_cases)
    case (1 db r db')
    let ?d = "commit_data E ids im2 i owner key corr bytes n v"
    obtain q db1 where q: "pg_commit_import J now ev ?d db = (q, db1)" by fastforce
    show ?case
    proof (cases q)
      case (Ok a)
      with q have "runs (commit_body J now ev ?d) (tables db) a (tables db1)"
        unfolding pg_commit_import_def by (blast intro: runs_transaction)
      from commit_body_committed [OF this] 1 q Ok v assms show ?thesis
        unfolding same from_file_def by (auto simp: pg_orchestrator_def Let_def)
    next
      case (Err e)
      then have "tables db1 = tables db"
        using q unfolding pg_commit_import_def by (blast dest: transaction_Err)
      moreover have "domain_rows (tables (snd (imp_update (PgImportRepository low) i3 db1))) =
          domain_rows (tables db1)" for low i3
        using keepsD [OF pg_update_keeps prod.collapse [symmetric]] .
      ultimately show ?thesis
        using 1 q Err by (auto simp: pg_orchestrator_def Let_def split: prod.splits)
    qed
  qed
qed (auto simp: pg_orchestrator_def Let_def)

lemma commits_failq: "commits_or_keeps C (failq e)"
  by (simp add: commits_or_keeps_def)

lemma pg_orchestrator_repo [simp]:
  "orc_repo (pg_orchestrator J E now ev dl) = PgImportRepository (env_lowercase E)"
  "orc_download (pg_orchestrator J E now ev dl) = dl"
  "orc_check (pg_orchestrator J E now ev dl) = duplicate_checker (PgImportRepository (env_lowercase E))"
  "orc_commit (pg_orchestrator J E now ev dl) = pg_commit_import J now ev"
  by (simp_all add: pg_orchestrator_def Let_def)

lemma duplicate_checker_keeps: "keeps domain_rows (duplicate_checker (PgImportRepository low) u c)"
  unfolding duplicate_checker_def by (intro keeps_bindq pg_find_keeps keeps_returnq)

lemma process_bytes_commits:
  assumes "dl key = Ok bytes"
  shows "commits_or_keeps (from_file J E ids ev dl im i owner key corr)
    (process_bytes E clock ids (pg_orchestrator J E now ev dl) im i owner key corr bytes)"
  unfolding process_bytes_def Let_def pg_orchestrator_repo
proof (rule commits_of_result)
  fix c
  assume c: "ok_or (ValidationFailed (ImText ''import has no stored checksum'')) (im_checksum im) = Ok c"
  show "commits_or_keeps (from_file J E ids ev dl im i owner key corr)
    (if env_sha256 E bytes \<noteq> checksum_str c
     then fail_and_store (clock 2) (PgImportRepository (env_lowercase E)) im
       (ChecksumMismatchText (checksum_str c) (env_sha256 E bytes)) ChecksumMismatchCode
       (ChecksumMismatch (checksum_str c) (env_sha256 E bytes))
     else case parse_gpx (env_read_events E) bytes of
       Err pe \<Rightarrow>
         fail_and_store (clock 2) (PgImportRepository (env_lowercase E)) im
           (ParseFailedText (ge_message pe) (ge_code pe)) ParseError
           (ParsingFailed (ParseFailedText (ge_message pe) (ge_code pe)))
     | Ok parsed \<Rightarrow>
         bindq (of_result (checksum_new (env_lowercase E) (env_sha256 E bytes))) (\<lambda>h.
         bindq (duplicate_checker (PgImportRepository (env_lowercase E)) owner h) (\<lambda>dup.
         case dup of
           ExactDuplicate existing_import existing_activity \<Rightarrow>
             complete_duplicate clock (PgImportRepository (env_lowercase E)) im existing_import existing_activity
         | NotDuplicate \<Rightarrow>
             (case normalize_gpx (env_libm E) (env_parse_timestamp E) (id_track ids) parsed of
                Err e \<Rightarrow> fail_and_store (clock 2) (PgImportRepository (env_lowercase E)) im
                  (NormalizationFailedText e) ParseError (ParsingFailed (NormalizationFailedText e))
              | Ok n \<Rightarrow> commit_normalized E clock ids (pg_orchestrator J E now ev dl) im i owner key corr bytes n))))"
  proof (cases "env_sha256 E bytes = checksum_str c")
    case True
    with c show ?thesis
      by (auto intro!: commits_bind commits_of_result duplicate_checker_keeps fail_and_store_commits
          complete_duplicate_commits commit_normalized_commits assms
          split: result.splits duplicate_check_result.splits)
  qed (simp add: fail_and_store_commits)
qed

lemma start_parsing_upload:
  "start_parsing now i = (r, i') \<Longrightarrow>
    im_checksum i' = im_checksum i \<and> im_source_artifact_id i' = im_source_artifact_id i"
  by (auto simp: start_parsing_def attempt_def split: result.splits)

lemma from_file_upload:
  "im_checksum im' = im_checksum im \<and> im_source_artifact_id im' = im_source_artifact_id im \<Longrightarrow>
    from_file J E ids ev dl im' = from_file J E ids ev dl im"
  by (simp add: from_file_def commit_data_def fun_eq_iff)

lemma process_found_commits:
  "commits_or_keeps (from_file J E ids ev dl im i owner key corr)
    (if im_status im \<noteq> Queued
     then failq (InvalidTransition (import_status_to_string (im_status im)) ''parsing'')
     else bindq (import_call (start_parsing (clock 1) im)) (\<lambda>i1.
       bindq (imp_update (PgImportRepository (env_lowercase E)) i1) (\<lambda>_.
       case dl key of
         Err e \<Rightarrow> fail_and_store (clock 2) (PgImportRepository (env_lowercase E)) i1 (DownloadFailedText e)
           StorageUnavailable e
       | Ok bytes \<Rightarrow>
           process_bytes E clock ids (pg_orchestrator J E now ev dl) i1 i owner key corr bytes)))"
proof (cases "im_status im = Queued")
  case True
  have "commits_or_keeps (from_file J E ids ev dl im i owner key corr)
      (process_bytes E clock ids (pg_orchestrator J E now ev dl) i1 i owner key corr bytes)"
    if "start_parsing (clock 1) im = (Ok (), i1)" and "dl key = Ok bytes" for i1 bytes
    using process_bytes_commits [where dl = dl and key = key and bytes = bytes and im = i1 and clock = clock and now = now, OF that(2)]
    unfolding from_file_upload [OF start_parsing_upload [OF that(1)]] .
  with True show ?thesis
    by (auto intro!: commits_bind commits_import_call pg_update_keeps fail_and_store_commits split: result.splits)
qed (simp add: commits_failq)

section \<open>Duplicates\<close>

lemma completed_keys_clash:
  assumes "r1 \<in> set rows" and "r2 \<in> set rows" and "r1 \<noteq> r2"
    and "completed_key r1 = Some k" and "completed_key r2 = Some k"
  shows "\<not> distinct (completed_keys rows)"
proof -
  have mem: "k \<in> set (completed_keys rs)" if "r \<in> set rs" "completed_key r = Some k" for r rs
    using that by (force simp: completed_keys_def map_filter_def)
  show ?thesis
    using assms
  proof (induction rows)
    case (Cons r rows)
    then show ?case
      using mem [of r1 rows] mem [of r2 rows]
      by (cases "completed_key r") (auto simp: completed_keys_def map_filter_simps)
  qed simp
qed

lemma duplicate_update_fails:
  assumes "imports_ok db" and "r \<in> set (t_imports (tables db))" and "ir_id r = import_uuid (im_id i)"
    and "ir_status r \<noteq> ''completed''" and "im_status i = Completed"
    and "d \<in> set (t_imports (tables db))" and "ir_owner_id d = ir_owner_id r"
    and "ir_checksum d = map_option checksum_str (im_checksum i)" and "ir_checksum d \<noteq> None"
    and "ir_status d = ''completed''"
    and "imp_update (PgImportRepository low) i db = (q, db')"
  shows "\<exists>e. q = Err e"
proof -
  let ?f = "\<lambda>x. if ir_id x = import_uuid (im_id i) then set_import_columns i x else x"
  have dist: "distinct (map ir_id (t_imports (tables db)))" using assms(1) by (simp add: imports_ok_def)
  with assms(2,3,4,6,10) have d: "ir_id d \<noteq> import_uuid (im_id i)"
    by (metis (no_types, lifting) distinct_map inj_onD)
  from assms(8,9) obtain c where c: "im_checksum i = Some c" by auto
  have "?f r \<in> ?f ` set (t_imports (tables db))" using assms(2) by (rule imageI)
  then have "?f r \<in> set (map ?f (t_imports (tables db)))" by simp
  moreover have "d \<in> set (map ?f (t_imports (tables db)))" using assms(6) d by force
  moreover have "?f r \<noteq> d" using assms(3) d by (metis set_import_columns_keys(1))
  moreover have "completed_key (?f r) = Some (ir_owner_id r, checksum_str c)"
    "completed_key d = Some (ir_owner_id r, checksum_str c)"
    using assms(3,5,7,8,10) c by (simp_all add: completed_key_def set_import_columns_def)
  ultimately have "\<not> distinct (completed_keys (map ?f (t_imports (tables db))))"
    by (rule completed_keys_clash)
  then show ?thesis
    using assms(11)
    by (cases q) (auto simp: PgImportRepository_def pg_import_update_def map_errq_Ok query_Ok
        update_imports_def Let_def)
qed

lemma completes_fields:
  assumes "start_committing t1 i = (Ok (), i1)" and "complete_import t2 i1 = (Ok (), i2)"
  shows "im_status i2 = Completed \<and> im_id i2 = im_id i \<and> im_checksum i2 = im_checksum i"
  using assms
  by (auto simp: start_committing_def complete_import_def attempt_def transition_to_Ok split: result.splits)

lemma no_duplicate_from:
  "fail_and_store t1 R im reason code err db \<noteq> (Ok x, db')"
  "commit_normalized E clock ids orc im i owner key corr bytes n db \<noteq> (Ok (Duplicate ei ea), db')"
  by (auto simp: fail_and_store_def commit_normalized_def bindq_Ok split: prod.splits result.splits)

lemma complete_duplicate_Ok:
  "complete_duplicate clock R im ei ea db = (Ok x, db') \<Longrightarrow> \<exists>im1 im2.
    start_committing (clock 3) (im\<lparr>im_activity_id := ea\<rparr>) = (Ok (), im1) \<and>
    complete_import (clock 4) im1 = (Ok (), im2) \<and> imp_update R im2 db = (Ok (), db')"
  by (auto simp: complete_duplicate_def bindq_Ok import_call_Ok)

lemma process_bytes_no_duplicate:
  assumes "lowercases (env_lowercase E)" and "imports_ok db"
    and row: "r \<in> set (t_imports (tables db))" "ir_id r = import_uuid (im_id im)"
      "ir_status r \<noteq> ''completed''" "ir_owner_id r = user_uuid owner"
    and chk: "\<And>c. im_checksum im = Some c \<Longrightarrow> checksum_new (env_lowercase E) (checksum_str c) = Ok c"
  shows "process_bytes E clock ids (pg_orchestrator J E now ev dl) im i owner key corr bytes db \<noteq>
    (Ok (Duplicate ei ea), db')"
proof
  assume "process_bytes E clock ids (pg_orchestrator J E now ev dl) im i owner key corr bytes db =
    (Ok (Duplicate ei ea), db')"
  note run = this [unfolded process_bytes_def Let_def pg_orchestrator_repo]
  from run obtain c where c: "im_checksum im = Some c" by (auto simp: bindq_Ok)
  with run have hash: "env_sha256 E bytes = checksum_str c"
    by (simp add: bindq_def ok_or_def no_duplicate_from split: if_splits)
  from run c hash obtain parsed where parsed: "parse_gpx (env_read_events E) bytes = Ok parsed"
    by (cases "parse_gpx (env_read_events E) bytes") (simp_all add: bindq_def ok_or_def no_duplicate_from)
  from run c hash parsed obtain h dup db1 where h: "checksum_new (env_lowercase E) (checksum_str c) = Ok h"
    and dup: "duplicate_checker (PgImportRepository (env_lowercase E)) owner h db = (Ok dup, db1)"
    by (auto simp: bindq_Ok)
  from run c hash parsed h dup obtain ei2 ea2 where ex: "dup = ExactDuplicate ei2 ea2"
    by (cases dup) (simp_all add: bindq_def ok_or_def no_duplicate_from split: result.splits)
  from run c hash parsed h dup ex have complete:
    "complete_duplicate clock (PgImportRepository (env_lowercase E)) im ei2 ea2 db1 = (Ok (Duplicate ei ea), db')"
    by (simp add: bindq_def ok_or_def)
  from complete_duplicate_Ok [OF complete] obtain im1 im2 where
    steps: "start_committing (clock 3) (im\<lparr>im_activity_id := ea2\<rparr>) = (Ok (), im1)"
      "complete_import (clock 4) im1 = (Ok (), im2)"
      "imp_update (PgImportRepository (env_lowercase E)) im2 db1 = (Ok (), db')" by blast
  from chk [OF c] h have hc: "h = c" by simp
  from dup [unfolded ex] hc obtain d where "find (\<lambda>r. ir_owner_id r = user_uuid owner \<and> ir_checksum r = Some (checksum_str c) \<and>
      ir_status r = ''completed'') (t_imports (tables db)) = Some d" and db1: "tables db1 = tables db"
    by (auto simp: duplicate_checker_def PgImportRepository_def pg_import_find_completed_def bindq_Ok
        map_errq_Ok select_Ok split: option.splits)
  with find_Some_set have d: "d \<in> set (t_imports (tables db))" "ir_owner_id d = user_uuid owner"
    "ir_checksum d = Some (checksum_str c)" "ir_status d = ''completed''" by fastforce+
  note f = completes_fields [OF steps(1,2)]
  have "imports_ok db1" using assms(2) db1 by (simp add: imports_ok_def)
  from duplicate_update_fails [OF this _ _ row(3) _ _ _ _ _ d(4) steps(3)] row d f c db1
  show False by simp
qed

section \<open>Properties\<close>

text \<open>C29. One round of the clean-up touches only abandoned imports (waiting in a processing state since
  more than thirty minutes), and whatever statements fail, it leaves each of them as it was or
  turns it into a failed one with the code Timeout; when no statement fails, no import abandoned at
  the start of the round is still live after it.\<close>

theorem cleanup_fails_abandoned:
  assumes "cleanup_abandoned_imports clock (PgImportRepository low) db = (r, db')" and "imports_ok db"
  shows "(case pg_import_view low db j of
      None \<Rightarrow> pg_import_view low db' j = None
    | Some im \<Rightarrow>
        (if is_abandoned (clock 0) ABANDONED_TIMEOUT im
         then pg_import_view low db' j = Some im \<and> faults db \<noteq> [] \<or>
           (\<exists>im'. pg_import_view low db' j = Some im' \<and> im_status im' = Failed \<and>
              im_failure_code im' = Some Timeout)
         else pg_import_view low db' j = Some im))"
  using assms
proof (cases rule: cleanup_cases)
  case idle
  then show ?thesis by (auto split: option.splits)
next
  case (work db1 ims q)
  have changed: "pg_import_view low db' j = pg_import_view low db1 j \<or> pg_import_view low db1 j \<noteq> None \<and>
      (\<exists>new old. new \<in> set ims \<and> im_id new = j \<and>
        pg_import_view low db' j = Some (pg_import_canon low (merge_update new old)))"
    using pgi.cleanup_loop_view [OF work(1) _ work(6)] work(4) by blast
  have fields: "im_status (pg_import_canon low (merge_update new old)) = Failed \<and>
      im_failure_code (pg_import_canon low (merge_update new old)) = Some Timeout" if "new \<in> set ims" for new old
    using work(4) that by (simp add: pgi.canon_fields merge_update_def)
  show ?thesis
  proof (cases "pg_import_view low db j")
    case None
    with changed work(2) show ?thesis by auto
  next
    case (Some im)
    have mem: "j \<in> im_id ` set ims \<longleftrightarrow> is_abandoned (clock 0) ABANDONED_TIMEOUT im"
      using work(5) [of j] Some by simp
    show ?thesis
    proof (cases "is_abandoned (clock 0) ABANDONED_TIMEOUT im")
      case False
      with mem have "pg_import_view low db' j = pg_import_view low db1 j" using changed by blast
      with False Some work(2) show ?thesis by simp
    next
      case True
      have "faults db = [] \<Longrightarrow> \<exists>im'. pg_import_view low db' j = Some im' \<and> im_status im' = Failed \<and>
          im_failure_code im' = Some Timeout"
        using cleanup_loop_faultless [OF work(3) work(1,4,6)] work(2) mem True Some by simp
      with True Some changed fields work(2) show ?thesis by auto
    qed
  qed
qed

definition sample_import_row :: "string \<Rightarrow> import_row" where
  "sample_import_row status =
    \<lparr>ir_id = 1, ir_owner_id = 7, ir_source_artifact_id = Some 3, ir_format = ''gpx'', ir_status = status,
     ir_checksum = Some (replicate 64 (CHR ''a'')), ir_failure_reason = None, ir_failure_code = None,
     ir_idempotency_key = ''k'', ir_payload_hash = None, ir_activity_id = None, ir_created_at = 0,
     ir_updated_at = 0\<rparr>"

definition sample_import_db :: "import_row list \<Rightarrow> unit import_tables db" where
  "sample_import_db rows =
    \<lparr>tables = \<lparr>t_imports = rows, t_artifacts = [], t_revisions = [], t_tracks = [], t_activities = [],
       t_versions = [], t_audit = [], t_outbox = [], t_users = [7]\<rparr>, faults = []\<rparr>"

definition sample_env :: import_env where
  "sample_env = \<lparr>env_sha256 = \<lambda>_. replicate 64 (CHR ''a''), env_lowercase = map to_ascii_lower,
    env_read_events = \<lambda>_. [], env_libm = sample_libm, env_parse_timestamp = \<lambda>_. None\<rparr>"

lemma sample_import_db_ok: "length rows \<le> 1 \<Longrightarrow> imports_ok (sample_import_db rows)"
  by (cases rows) (auto simp: imports_ok_def sample_import_db_def completed_keys_def map_filter_simps
      split: option.splits)

theorem cleanup_fails_abandoned_witness:
  "\<exists>im'. pg_import_view id (snd (cleanup_abandoned_imports (\<lambda>n. 3000000000000) (PgImportRepository id)
      (sample_import_db [sample_import_row ''parsing'']))) (ImportId 1) = Some im' \<and> im_status im' = Failed"
proof -
  let ?db = "sample_import_db [sample_import_row ''parsing'']"
  let ?out = "cleanup_abandoned_imports (\<lambda>n. 3000000000000) (PgImportRepository id) ?db"
  have "?out = (fst ?out, snd ?out)" by simp
  moreover have "pg_import_view id ?db (ImportId 1) = Some (row_to_import id (sample_import_row ''parsing''))"
    by (simp add: pg_import_view_def sample_import_db_def sample_import_row_def)
  moreover have "is_abandoned 3000000000000 ABANDONED_TIMEOUT (row_to_import id (sample_import_row ''parsing''))"
    by (simp add: is_abandoned_def sample_import_row_def parse_import_status_def ABANDONED_TIMEOUT_def)
  moreover have "faults ?db = []" by (simp add: sample_import_db_def)
  ultimately show ?thesis
    using cleanup_fails_abandoned [of "\<lambda>n. 3000000000000" id ?db "fst ?out" "snd ?out" "ImportId 1"]
      sample_import_db_ok [of "[sample_import_row ''parsing'']"] by auto
qed



lemma foreign_complete_fails:
  assumes "imports_ok db" and "pg_import_view low db j = Some im" and "im_owner_id im \<noteq> cuc_owner_id cmd"
    and "cuc_import_id cmd = j"
  shows "\<nexists>x. fst (handle_complete_upload E now artifact (PgImportRepository low) verify cmd db) = Ok x"
proof
  assume "\<exists>x. fst (handle_complete_upload E now artifact (PgImportRepository low) verify cmd db) = Ok x"
  then obtain x db' where "handle_complete_upload E now artifact (PgImportRepository low) verify cmd db =
      (Ok x, db')" by (metis prod.collapse)
  then obtain m db1 where find: "imp_find_by_id (PgImportRepository low) j db = (Ok (Some m), db1)"
    and "im_owner_id m = cuc_owner_id cmd"
    using assms(4)
    by (auto simp: handle_complete_upload_def bindq_Ok ok_or_def split: option.splits if_splits)
  with pgi.find_Ok [OF find assms(1)] assms(2,3) show False by simp
qed

lemma foreign_get_fails:
  assumes "imports_ok db" and "pg_import_view low db j = Some im" and "im_owner_id im \<noteq> u"
    and get: "handle_get_import (PgImportRepository low) j u db = (r, db')"
  shows "pg_import_view low db' = pg_import_view low db \<and> (r = Err NotFound \<or> (\<exists>t. r = Err (StorageError t)))"
proof -
  obtain q db1 where find: "imp_find_by_id (PgImportRepository low) j db = (q, db1)" by fastforce
  note keep = pgi.find_keeps [OF find assms(1)]
  show ?thesis
  proof (cases q)
    case (Ok m)
    with pgi.find_Ok [of low j db m db1] find assms(1,2) have "m = Some im" by simp
    with get find Ok assms(3) keep show ?thesis by (auto simp: handle_get_import_def bindq_def ok_or_def)
  next
    case (Err e)
    with find obtain t where "e = StorageError t"
      by (auto simp: PgImportRepository_def pg_import_find_by_id_def bindq_Err map_errq_Err import_db_error_def)
    with get find Err keep show ?thesis by (auto simp: handle_get_import_def bindq_def)
  qed
qed



text \<open>C25. A run of the orchestrator on PostgreSQL commits an activity entirely or not at all, whatever
  statement fails.  A run that completes adds exactly one artifact, revision, track, activity, route
  version, audit event and outbox event, of the content of the downloaded file, whose hash is the
  checksum stored with the import; the activity points at the version, and the import is completed
  and points at the activity.  A run with any other outcome changes none of these tables.\<close>

theorem process_import_atomic:
  "case process_import E clock ids (pg_orchestrator J E now event_id download) i owner key correlation db of
      (Ok (ProcessingCompleted a _ _), db') \<Rightarrow> \<exists>im. pg_import_view (env_lowercase E) db i = Some im \<and>
        im_status im = Queued \<and>
        from_file J E ids event_id download im i owner key correlation a (tables db) (tables db')
    | (_, db') \<Rightarrow> domain_rows (tables db') = domain_rows (tables db)"
proof (cases "process_import E clock ids (pg_orchestrator J E now event_id download) i owner key correlation db")
  case run0: (Pair r db')
  let ?R = "PgImportRepository (env_lowercase E)"
  obtain q db1 where find: "imp_find_by_id ?R i db = (q, db1)" by fastforce
  then have t: "tables db1 = tables db"
    using keepsD [OF pg_finds_keep(1)] by (auto simp: PgImportRepository_def)
  consider (none) "\<exists>e. r = Err e \<and> db' = db1" | im where "q = Ok (Some im)"
    using run0 find by (cases q) (auto simp: process_import_def bindq_def ok_or_def split: option.splits)
  then show ?thesis
  proof cases
    case none
    with t run0 show ?thesis by auto
  next
    case (2 im)
    with find have view: "pg_import_view (env_lowercase E) db i = Some im"
      by (auto simp: PgImportRepository_def pg_import_find_by_id_def bindq_Ok map_errq_Ok select_Ok
          pg_import_view_def)
    have run: "(if im_status im \<noteq> Queued
       then failq (InvalidTransition (import_status_to_string (im_status im)) ''parsing'')
       else bindq (import_call (start_parsing (clock 1) im)) (\<lambda>i1.
         bindq (imp_update ?R i1) (\<lambda>_.
         case download key of
           Err e \<Rightarrow> fail_and_store (clock 2) ?R i1 (DownloadFailedText e) StorageUnavailable e
         | Ok bytes \<Rightarrow> process_bytes E clock ids (pg_orchestrator J E now event_id download) i1 i owner key
             correlation bytes))) db1 = (r, db')"
      using run0 find 2 unfolding process_import_def pg_orchestrator_repo
      by (simp add: bindq_def [of "imp_find_by_id ?R i"] bindq_def [of "of_result _"] ok_or_def)
    have queued: "im_status im = Queued" if "r = Ok x" for x
      using run that by (auto split: if_splits)
    show ?thesis
      using process_found_commits [of J E ids event_id download im i owner key correlation clock now] run run0 view t queued
      unfolding commits_or_keeps_def by (fastforce split: result.splits import_processing_result.splits)
  qed
qed

text \<open>C26. Under the unique index on completed imports the duplicate branch of the orchestrator can never
  succeed: a file already imported by its owner is detected, but marking the second import completed
  violates the index, so that no run ends with the result Duplicate.\<close>

theorem process_import_never_duplicate:
  assumes "lowercases (env_lowercase E)" and "imports_ok db"
    and "pg_import_view (env_lowercase E) db i = Some im" and "im_owner_id im = owner"
  shows "fst (process_import E clock ids (pg_orchestrator J E now event_id download) i owner key correlation db) \<noteq>
    Ok (Duplicate existing_import existing_activity)"
proof
  let ?R = "PgImportRepository (env_lowercase E)"
  assume "fst (process_import E clock ids (pg_orchestrator J E now event_id download) i owner key correlation db) =
    Ok (Duplicate existing_import existing_activity)"
  then obtain db' where "process_import E clock ids (pg_orchestrator J E now event_id download) i owner key
      correlation db = (Ok (Duplicate existing_import existing_activity), db')" by (metis prod.collapse)
  then obtain im0 db1 i1 db2 bytes where find: "imp_find_by_id ?R i db = (Ok (Some im0), db1)"
    and start: "start_parsing (clock 1) im0 = (Ok (), i1)" and upd: "imp_update ?R i1 db1 = (Ok (), db2)"
    and run: "process_bytes E clock ids (pg_orchestrator J E now event_id download) i1 i owner key correlation bytes
      db2 = (Ok (Duplicate existing_import existing_activity), db')"
    by (cases "download key")
      (auto simp: process_import_def bindq_Ok import_call_Ok no_duplicate_from split: if_splits)
  from pgi.find_Ok [OF find assms(2)] assms(3) have im0: "im0 = im" by simp
  note keep = pgi.find_keeps [OF find assms(2)]
  from pg_view_Some [OF assms(3)] obtain r0 where r0: "im = row_to_import (env_lowercase E) r0" "i = ImportId (ir_id r0)"
    by blast
  have chk: "checksum_new (env_lowercase E) (checksum_str c) = Ok c" if "im_checksum im = Some c" for c
    using that r0(1) checksum_new_again [OF assms(1)]
    by (auto simp: row_to_import_def simp: ok_def split: bind_splits result.splits)
  note f = import_cmd_fields(1,2) [of "StartParsing (clock 1)" im0, unfolded import_event_run.simps, OF start]
  have status: "im_status i1 = Parsing"
    using start by (auto simp: start_parsing_def attempt_def transition_to_Ok split: result.splits)
  from pgi.update_Ok [OF upd] keep assms(3) im0 f have ok2: "imports_ok db2"
    and v2: "pg_import_view (env_lowercase E) db2 (im_id i1) = Some (pg_import_canon (env_lowercase E) (merge_update i1 im))"
    using r0 by simp_all
  from pg_view_Some [OF v2] obtain r where r: "r \<in> set (t_imports (tables db2))" "im_id i1 = ImportId (ir_id r)"
    "row_to_import (env_lowercase E) r = pg_import_canon (env_lowercase E) (merge_update i1 im)" by metis
  from arg_cong [OF r(3), of im_status] status have "parse_import_status (ir_status r) = Parsing"
    by (simp add: pgi.canon_fields merge_update_def)
  then have "ir_status r \<noteq> ''completed''" by (auto simp: parse_import_status_def)
  moreover from arg_cong [OF r(3), of im_owner_id] assms(4) have "ir_owner_id r = user_uuid owner"
    by (auto simp: pgi.canon_fields merge_update_def)
  moreover have "ir_id r = import_uuid (im_id i1)" using r(2) by simp
  moreover have "checksum_new (env_lowercase E) (checksum_str c) = Ok c" if "im_checksum i1 = Some c" for c
    using chk that start_parsing_upload [OF start] im0 by simp
  ultimately show False
    using process_bytes_no_duplicate [OF assms(1) ok2 r(1)] run by blast
qed

lemma sample_env_lowercases: "lowercases (env_lowercase sample_env)"
proof -
  have "\<not> list_all is_ascii_hexdigit (map to_ascii_lower s)" if "\<not> list_all (\<lambda>c. byte c < 128) s" for s
    using that hexdigit_ascii by (auto simp: list_all_iff)
  then show ?thesis by (simp add: lowercases_def sample_env_def)
qed

theorem process_import_never_duplicate_witness:
  "\<forall>ids J. fst (process_import sample_env (\<lambda>n. int n) ids (pg_orchestrator J sample_env 9 10 (\<lambda>_. Ok ''<gpx/>''))
      (ImportId 1) (UserId 7) ''key'' 11 (sample_import_db [sample_import_row ''queued''])) \<noteq>
    Ok (Duplicate (ImportId 2) None)"
  by (intro allI, rule process_import_never_duplicate [OF sample_env_lowercases sample_import_db_ok,
        of _ _ "row_to_import (env_lowercase sample_env) (sample_import_row ''queued'')"])
    (simp_all add: pg_import_view_def sample_import_db_def sample_import_row_def)

end
