(* ===== verification/Base64_Cursor.thy ===== *)
theory Base64_Cursor
  imports Rust_String Sql
begin

text \<open>
  Pagination cursors, \<open>crates/app/src/activity_catalog/queries.rs\<close>: the hand-written base64 encoder and
  decoder, and the cursor payload they carry.  \<open>serde_json\<close> is a parameter.
\<close>

unbundle bit_operations_syntax

section \<open>Encoder\<close>

definition BASE64_CHARS :: string where
  "BASE64_CHARS = ''ABCDEFGHIJKLMNOPQRSTUVWXYZabcdefghijklmnopqrstuvwxyz0123456789+/''"

definition to_u8 :: "char \<Rightarrow> 8 word" where
  "to_u8 c = of_nat (byte c)"

definition of_u8 :: "8 word \<Rightarrow> char" where
  "of_u8 w = char_of (unat w)"

record base64_encoder =
  be_output :: string
  be_buffer :: "8 word list"
  be_len :: nat

definition encoder_new :: base64_encoder where
  "encoder_new = \<lparr>be_output = [], be_buffer = [0, 0, 0], be_len = 0\<rparr>"

definition b64_char :: "8 word \<Rightarrow> char" where
  "b64_char i = BASE64_CHARS ! unat i"

text \<open>\<open>encode_block\<close>; only the full block resets the buffer, the others end the encoding.\<close>

definition encode_block :: "base64_encoder \<Rightarrow> base64_encoder" where
  "encode_block e =
    (let b = be_buffer e; b0 = b ! 0; b1 = b ! 1; b2 = b ! 2 in
     if be_len e = 1 then
       e\<lparr>be_output := be_output e @
         [b64_char (drop_bit 2 b0), b64_char (push_bit 4 (b0 AND 0x03)), CHR ''='', CHR ''='']\<rparr>
     else if be_len e = 2 then
       e\<lparr>be_output := be_output e @
         [b64_char (drop_bit 2 b0), b64_char (push_bit 4 (b0 AND 0x03) OR drop_bit 4 b1),
          b64_char (push_bit 2 (b1 AND 0x0f)), CHR ''='']\<rparr>
     else if be_len e = 3 then
       e\<lparr>be_output := be_output e @
         [b64_char (drop_bit 2 b0), b64_char (push_bit 4 (b0 AND 0x03) OR drop_bit 4 b1),
          b64_char (push_bit 2 (b1 AND 0x0f) OR drop_bit 6 b2), b64_char (b2 AND 0x3f)],
         be_len := 0\<rparr>
     else e)"

definition encoder_finish :: "base64_encoder \<Rightarrow> base64_encoder" where
  "encoder_finish e = (if 0 < be_len e then encode_block e else e)"

definition write_byte :: "8 word \<Rightarrow> base64_encoder \<Rightarrow> base64_encoder" where
  "write_byte x e =
    (let e1 = e\<lparr>be_buffer := (be_buffer e)[be_len e := x], be_len := be_len e + 1\<rparr> in
     if be_len e1 = 3 then encode_block e1 else e1)"

fun encoder_write :: "8 word list \<Rightarrow> base64_encoder \<Rightarrow> base64_encoder" where
  "encoder_write [] e = e"
| "encoder_write (x # xs) e = encoder_write xs (write_byte x e)"

definition base64_encode :: "string \<Rightarrow> string" where
  "base64_encode input = be_output (encoder_finish (encoder_write (map to_u8 input) encoder_new))"

section \<open>Decoder\<close>

definition decode_char :: "char \<Rightarrow> u32 option" where
  "decode_char c =
    (let b = byte c in
     if byte CHR ''A'' \<le> b \<and> b \<le> byte CHR ''Z'' then Some (of_nat (b - byte CHR ''A''))
     else if byte CHR ''a'' \<le> b \<and> b \<le> byte CHR ''z'' then Some (of_nat (b - byte CHR ''a'' + 26))
     else if byte CHR ''0'' \<le> b \<and> b \<le> byte CHR ''9'' then Some (of_nat (b - byte CHR ''0'' + 52))
     else if c = CHR ''+'' then Some 62
     else if c = CHR ''/'' then Some 63
     else None)"

text \<open>The loop over the characters, with \<open>buffer\<close>, \<open>bits_collected\<close> and \<open>output\<close> as in the code.\<close>

fun decode_loop :: "string \<Rightarrow> u32 \<Rightarrow> nat \<Rightarrow> string \<Rightarrow> (string, string) result" where
  "decode_loop [] buffer bits output = Ok output"
| "decode_loop (c # cs) buffer bits output =
    (case decode_char c of
       None \<Rightarrow> Err ''invalid base64 character''
     | Some v \<Rightarrow>
         let buffer1 = push_bit 6 buffer OR v; bits1 = bits + 6 in
         if 8 \<le> bits1 then
           let bits2 = bits1 - 8 in
           decode_loop cs (buffer1 AND (push_bit bits2 1 - 1)) bits2
             (output @ [of_u8 (ucast (drop_bit bits2 buffer1))])
         else decode_loop cs buffer1 bits1 output)"

definition trim_end_matches :: "char \<Rightarrow> string \<Rightarrow> string" where
  "trim_end_matches c s = rev (dropWhile (\<lambda>x. x = c) (rev s))"

definition base64_decode_bytes :: "string \<Rightarrow> (string, string) result" where
  "base64_decode_bytes input = decode_loop (trim_end_matches CHR ''='' input) 0 0 []"

definition base64_decode :: "string \<Rightarrow> (string, string) result" where
  "base64_decode input =
    and_then (base64_decode_bytes input) (\<lambda>bytes.
      if valid_utf8 bytes then Ok bytes else Err ''invalid utf8'')"

section \<open>Round trip\<close>

lemma to_u8_inverse [simp]: "of_u8 (to_u8 c) = c"
  by (simp add: of_u8_def to_u8_def unat_of_nat)

definition b64_code :: "nat \<Rightarrow> nat" where
  "b64_code i = (if i < 26 then 65 + i else if i < 52 then 71 + i else if i < 62 then i - 4
    else if i = 62 then 43 else 47)"

lemma BASE64_CHARS_code: "BASE64_CHARS = map (\<lambda>i. char_of (b64_code i)) [0..<64]"
  by code_simp

lemma char_43_47: "char_of (43::nat) = CHR ''+''" "char_of (47::nat) = CHR ''/''"
  by code_simp+

lemma decode_b64_char_nat:
  assumes "i < 64"
  shows "decode_char (BASE64_CHARS ! i) = Some (of_nat i)"
proof -
  have code: "BASE64_CHARS ! i = char_of (b64_code i)"
    unfolding BASE64_CHARS_code using assms by (simp del: upt_rec_numeral)
  consider "i < 26" | "26 \<le> i" "i < 52" | k where "i = 52 + k" "k < 10" | "i = 62" | "i = 63"
    using assms nat_le_iff_add [of 52 i] by fastforce
  then show ?thesis
    unfolding code by cases (simp_all add: decode_char_def b64_code_def Let_def char_43_47)
qed

lemma decode_b64_char:
  assumes "i < 64"
  shows "decode_char (b64_char i) = Some (ucast i)"
proof -
  from assms have "unat i < 64" by (simp add: word_less_nat_alt)
  then show ?thesis by (simp add: b64_char_def decode_b64_char_nat)
qed

lemma b64_char_not_pad: "i < 64 \<Longrightarrow> b64_char i \<noteq> CHR ''=''"
proof
  assume "i < 64" "b64_char i = CHR ''=''"
  with decode_b64_char [of i] have "decode_char CHR ''='' \<noteq> None" by simp
  then show False by (simp add: decode_char_def)
qed

text \<open>The four sextets of three bytes.\<close>

definition sextet0 :: "8 word \<Rightarrow> 8 word" where "sextet0 a = drop_bit 2 a"
definition sextet1 :: "8 word \<Rightarrow> 8 word \<Rightarrow> 8 word" where
  "sextet1 a b = push_bit 4 (a AND 0x03) OR drop_bit 4 b"
definition sextet2 :: "8 word \<Rightarrow> 8 word \<Rightarrow> 8 word" where
  "sextet2 b c = push_bit 2 (b AND 0x0f) OR drop_bit 6 c"
definition sextet3 :: "8 word \<Rightarrow> 8 word" where "sextet3 c = c AND 0x3f"

lemma masks: "(0x03::8 word) = mask 2" "(0x0f::8 word) = mask 4" "(0x3f::8 word) = mask 6"
  by (simp_all add: mask_eq_exp_minus_1)

lemma less_64I:
  assumes "\<And>n. bit (w::8 word) n \<Longrightarrow> n < 6"
  shows "w < 64"
proof -
  have "take_bit 6 w = w" using assms by (auto intro!: bit_word_eqI simp: bit_simps)
  then have "take_bit 6 (unat w) = unat w" by (metis unsigned_take_bit_eq)
  then have "unat w < 2 ^ 6" by (metis take_bit_nat_less_exp)
  then show ?thesis by (simp add: word_less_nat_alt)
qed

lemma bit_u8: "bit (w::8 word) n \<Longrightarrow> n < 8"
  using bit_imp_le_length [of w n] by simp

lemma sextets_less [simp]: "sextet0 a < 64" "sextet1 a b < 64" "sextet2 b c < 64" "sextet3 c < 64"
  by (rule less_64I; force simp: sextet0_def sextet1_def sextet2_def sextet3_def masks bit_simps dest: bit_u8)+

lemma u8_eqI:
  fixes v w :: "8 word"
  assumes "bit v 0 = bit w 0" "bit v 1 = bit w 1" "bit v 2 = bit w 2" "bit v 3 = bit w 3"
    "bit v 4 = bit w 4" "bit v 5 = bit w 5" "bit v 6 = bit w 6" "bit v 7 = bit w 7"
  shows "v = w"
proof (rule bit_word_eqI)
  fix n
  assume "n < LENGTH(8)"
  then have "n \<in> {0, 1, 2, 3, 4, 5, 6, 7}" by auto
  with assms show "bit v n = bit w n" by auto
qed

lemma bit_u8_ge: "8 \<le> n \<Longrightarrow> \<not> bit (w::8 word) n"
  using bit_u8 by fastforce

lemmas sextet_bits = sextet0_def sextet1_def sextet2_def sextet3_def masks bit_simps bit_u8_ge

text \<open>The decoder's buffer before each of the three bytes it puts out.\<close>

lemma decoded_byte0:
  "ucast (drop_bit 4 (push_bit 6 (ucast (sextet0 a)) OR ucast (sextet1 a b) :: u32)) = a"
  by (rule u8_eqI; simp add: sextet_bits)

lemma decoded_byte1:
  "ucast (drop_bit 2 (push_bit 6 ((push_bit 6 (ucast (sextet0 a)) OR ucast (sextet1 a b)) AND mask 4) OR
    ucast (sextet2 b c) :: u32)) = b"
  by (rule u8_eqI; simp add: sextet_bits)

lemma decoded_byte2:
  "ucast (push_bit 6 ((push_bit 6 ((push_bit 6 (ucast (sextet0 a)) OR ucast (sextet1 a b)) AND mask 4) OR
    ucast (sextet2 b c)) AND mask 2) OR ucast (sextet3 c) :: u32) = c"
  by (rule u8_eqI; simp add: sextet_bits)

lemma decode_char_sextets:
  "decode_char (b64_char (sextet0 a)) = Some (ucast (sextet0 a))"
  "decode_char (b64_char (sextet1 a b)) = Some (ucast (sextet1 a b))"
  "decode_char (b64_char (sextet2 b c)) = Some (ucast (sextet2 b c))"
  "decode_char (b64_char (sextet3 c)) = Some (ucast (sextet3 c))"
  by (simp_all add: decode_b64_char)

lemma decode_loop_step:
  assumes "decode_char c = Some v"
  shows "decode_loop (c # cs) buffer bits out =
    (if 2 \<le> bits
     then decode_loop cs ((push_bit 6 buffer OR v) AND mask (bits - 2)) (bits - 2)
       (out @ [of_u8 (ucast (drop_bit (bits - 2) (push_bit 6 buffer OR v)))])
     else decode_loop cs (push_bit 6 buffer OR v) (bits + 6) out)"
  using assms by (simp add: Let_def mask_eq_exp_minus_1)

lemma decode_two:
  "decode_loop (b64_char (sextet0 a) # b64_char (sextet1 a b) # cs) 0 0 out =
    decode_loop cs ((push_bit 6 (ucast (sextet0 a)) OR ucast (sextet1 a b)) AND mask 4) 4 (out @ [of_u8 a])"
  by (simp add: decode_loop_step [OF decode_char_sextets(1)] decode_loop_step [OF decode_char_sextets(2)]
      decoded_byte0 [simplified] del: decode_loop.simps)

lemma decode_three:
  "decode_loop (b64_char (sextet0 a) # b64_char (sextet1 a b) # b64_char (sextet2 b c) # cs) 0 0 out =
    decode_loop cs ((push_bit 6 ((push_bit 6 (ucast (sextet0 a)) OR ucast (sextet1 a b)) AND mask 4) OR
      ucast (sextet2 b c)) AND mask 2) 2 (out @ [of_u8 a, of_u8 b])"
  by (simp add: decode_two decode_loop_step [OF decode_char_sextets(3)] decoded_byte1 [simplified] del: decode_loop.simps)

lemma decode_four:
  "decode_loop (b64_char (sextet0 a) # b64_char (sextet1 a b) # b64_char (sextet2 b c) #
      b64_char (sextet3 c) # cs) 0 0 out =
    decode_loop cs 0 0 (out @ [of_u8 a, of_u8 b, of_u8 c])"
  by (simp add: decode_three decode_loop_step [OF decode_char_sextets(4)] decoded_byte2 [simplified] del: decode_loop.simps)

text \<open>What the encoder writes, three bytes at a time.\<close>

fun b64_body :: "8 word list \<Rightarrow> string" where
  "b64_body [] = []"
| "b64_body [a] = [b64_char (sextet0 a), b64_char (sextet1 a 0)]"
| "b64_body [a, b] = [b64_char (sextet0 a), b64_char (sextet1 a b), b64_char (sextet2 b 0)]"
| "b64_body (a # b # c # xs) =
    b64_char (sextet0 a) # b64_char (sextet1 a b) # b64_char (sextet2 b c) # b64_char (sextet3 c) # b64_body xs"

lemma list3: "length xs = 3 \<Longrightarrow> \<exists>a b c. xs = [a, b, c]"
  by (auto simp: numeral_3_eq_3 length_Suc_conv)

lemma encoder_write_three:
  assumes "be_len e = 0" and "length (be_buffer e) = 3"
  shows "encoder_write (a # b # c # xs) e = encoder_write xs
    (e\<lparr>be_output := be_output e @ [b64_char (sextet0 a), b64_char (sextet1 a b), b64_char (sextet2 b c),
         b64_char (sextet3 c)], be_buffer := [a, b, c]\<rparr>)"
proof -
  from list3 [OF assms(2)] obtain x y z where "be_buffer e = [x, y, z]" by blast
  with assms(1) show ?thesis
    by (cases e) (simp add: write_byte_def encode_block_def Let_def sextet0_def sextet1_def sextet2_def sextet3_def)
qed

lemma encoder_write_rest:
  assumes "be_len e = 0" and "length (be_buffer e) = 3"
  shows "be_output (encoder_finish (encoder_write [] e)) = be_output e"
    and "be_output (encoder_finish (encoder_write [a] e)) =
      be_output e @ [b64_char (sextet0 a), b64_char (sextet1 a 0), CHR ''='', CHR ''='']"
    and "be_output (encoder_finish (encoder_write [a, b] e)) =
      be_output e @ [b64_char (sextet0 a), b64_char (sextet1 a b), b64_char (sextet2 b 0), CHR ''='']"
proof -
  from list3 [OF assms(2)] obtain x y z where e: "be_buffer e = [x, y, z]" by blast
  show "be_output (encoder_finish (encoder_write [] e)) = be_output e"
    using assms by (simp add: encoder_finish_def)
  show "be_output (encoder_finish (encoder_write [a] e)) =
      be_output e @ [b64_char (sextet0 a), b64_char (sextet1 a 0), CHR ''='', CHR ''='']"
    "be_output (encoder_finish (encoder_write [a, b] e)) =
      be_output e @ [b64_char (sextet0 a), b64_char (sextet1 a b), b64_char (sextet2 b 0), CHR ''='']"
    using e assms(1) by (simp_all add: encoder_finish_def write_byte_def encode_block_def Let_def
        sextet0_def sextet1_def sextet2_def)
qed

lemma encoder_writes:
  "be_len e = 0 \<Longrightarrow> length (be_buffer e) = 3 \<Longrightarrow>
    \<exists>n. be_output (encoder_finish (encoder_write xs e)) = be_output e @ b64_body xs @ replicate n (CHR ''='')"
proof (induction xs arbitrary: e rule: b64_body.induct)
  case 1
  then show ?case using encoder_write_rest(1) [of e] by (intro exI [of _ 0]) simp
next
  case (2 a)
  then show ?case using encoder_write_rest(2) [of e a] by (intro exI [of _ 2]) (simp add: numeral_2_eq_2)
next
  case (3 a b)
  then show ?case using encoder_write_rest(3) [of e a b] by (intro exI [of _ 1]) simp
next
  case (4 a b c xs)
  let ?e = "e\<lparr>be_output := be_output e @ [b64_char (sextet0 a), b64_char (sextet1 a b), b64_char (sextet2 b c),
         b64_char (sextet3 c)], be_buffer := [a, b, c]\<rparr>"
  from 4(1) [of ?e] 4(2,3) obtain n where "be_output (encoder_finish (encoder_write xs ?e)) =
      be_output ?e @ b64_body xs @ replicate n (CHR ''='')" by auto
  with 4(2,3) show ?case
    by (intro exI [of _ n]) (simp add: encoder_write_three del: encoder_write.simps)
qed

lemma b64_body_no_pad: "CHR ''='' \<notin> set (b64_body xs)"
  by (induction xs rule: b64_body.induct) (simp_all add: b64_char_not_pad [symmetric] b64_char_not_pad)

lemma decode_b64_body: "decode_loop (b64_body xs) 0 0 out = Ok (out @ map of_u8 xs)"
proof (induction xs arbitrary: out rule: b64_body.induct)
  case (2 a)
  show ?case by (simp add: decode_two del: decode_loop.simps(2))
next
  case (3 a b)
  show ?case by (simp add: decode_three del: decode_loop.simps(2))
next
  case (4 a b c xs)
  then show ?case by (simp add: decode_four del: decode_loop.simps(2))
qed simp

lemma trim_end_pad:
  assumes "c \<notin> set s"
  shows "trim_end_matches c (s @ replicate n c) = s"
proof -
  have "dropWhile (\<lambda>x. x = c) (replicate n c @ rev s) = dropWhile (\<lambda>x. x = c) (rev s)"
    by (induction n) simp_all
  also have "\<dots> = rev s"
    using assms by (cases s rule: rev_cases) auto
  finally have "dropWhile (\<lambda>x. x = c) (replicate n c @ rev s) = rev s" .
  then show ?thesis unfolding trim_end_matches_def rev_append rev_replicate by simp
qed

lemma base64_decode_bytes_encode: "base64_decode_bytes (base64_encode s) = Ok s"
proof -
  obtain n where "be_output (encoder_finish (encoder_write (map to_u8 s) encoder_new)) =
      be_output encoder_new @ b64_body (map to_u8 s) @ replicate n (CHR ''='')"
    using encoder_writes [of encoder_new "map to_u8 s"] by (auto simp: encoder_new_def)
  then have "base64_encode s = b64_body (map to_u8 s) @ replicate n (CHR ''='')"
    by (simp add: base64_encode_def encoder_new_def)
  then show ?thesis
    by (simp add: base64_decode_bytes_def trim_end_pad b64_body_no_pad decode_b64_body comp_def)
qed

end
