(* ===== verification/Gpx_Generator.thy ===== *)
theory Gpx_Generator
  imports Gpx_Parser Base64_Cursor
begin

text \<open>
  The GPX 1.1 generator of the exports, \<open>crates/app/src/exports/gpx_generator.rs\<close>, and its composition
  with the parser of the imports.  \<open>quick_xml::escape\<close> is a parameter; decimal formatting is the standard
  library's and is written out.  Writing to a \<open>String\<close> does not fail, so that the generator has no error.
\<close>

section \<open>Formatting numbers\<close>

definition digit_char :: "nat \<Rightarrow> char" where
  "digit_char n = char_of (48 + n)"

fun decimal :: "nat \<Rightarrow> string" where
  "decimal n = (if n < 10 then [digit_char n] else decimal (n div 10) @ [digit_char (n mod 10)])"

declare decimal.simps [simp del]

fun padded :: "nat \<Rightarrow> nat \<Rightarrow> string" where
  "padded 0 n = []"
| "padded (Suc k) n = padded k (n div 10) @ [digit_char (n mod 10)]"

text \<open>\<open>format!("{:.7}", value)\<close>: the exact value, rounded half to even at the seventh decimal.\<close>

fun format_fixed7 :: "f64 \<Rightarrow> string" where
  "format_fixed7 NaN = ''NaN''"
| "format_fixed7 PInf = ''inf''"
| "format_fixed7 NInf = ''-inf''"
| "format_fixed7 (Fin x) =
    (let n = nat (round_half_even (\<bar>x\<bar> * 10 ^ 7)) in
     (if x < 0 then ''-'' else []) @ decimal (n div 10 ^ 7) @ ''.'' @ padded 7 (n mod 10 ^ 7))"

definition format_coordinate :: "f64 \<Rightarrow> string" where
  "format_coordinate value = trim_end_matches CHR ''.'' (trim_end_matches CHR ''0'' (format_fixed7 value))"

section \<open>The generator\<close>

record gpx_out_point =
  go_latitude :: f64
  go_longitude :: f64
  go_elevation :: "f64 option"

record gpx_generator_input =
  gi_activity_name :: "string option"
  gi_segments :: "gpx_out_point list list"

datatype gpx_generator_error = GenerationFailed string

definition newline :: string where
  "newline = [CHR 0x0A]"

definition xml_declaration :: string where
  "xml_declaration = ''<?xml version=\"1.0\" encoding=\"UTF-8\"?>'' @ newline"

definition gpx_root :: string where
  "gpx_root = ''<gpx xmlns=\"http://www.topografix.com/GPX/1/1\" version=\"1.1\" creator=\"Haiker\">'' @ newline"

definition name_element :: "(string \<Rightarrow> string) \<Rightarrow> string option \<Rightarrow> string" where
  "name_element escape name =
    (case name of None \<Rightarrow> [] | Some s \<Rightarrow> ''<name>'' @ escape s @ ''</name>'' @ newline)"

definition point_element :: "gpx_out_point \<Rightarrow> string" where
  "point_element p =
    ''<trkpt lat=\"'' @ format_coordinate (go_latitude p) @ ''\" lon=\"'' @
      format_coordinate (go_longitude p) @ ''\">'' @
    (case go_elevation p of
       None \<Rightarrow> []
     | Some ele \<Rightarrow> ''<ele>'' @ format_coordinate ele @ ''</ele>'') @
    ''</trkpt>'' @ newline"

definition segment_element :: "gpx_out_point list \<Rightarrow> string" where
  "segment_element segment =
    (if segment = [] then []
     else ''<trkseg>'' @ newline @ concat (map point_element segment) @ ''</trkseg>'' @ newline)"

definition generate_gpx ::
  "(string \<Rightarrow> string) \<Rightarrow> gpx_generator_input \<Rightarrow> (string, gpx_generator_error) result" where
  "generate_gpx escape input =
    Ok (xml_declaration @ gpx_root @ ''<trk>'' @ newline @ name_element escape (gi_activity_name input) @
      concat (map segment_element (gi_segments input)) @ ''</trk>'' @ newline @ ''</gpx>'' @ newline)"

section \<open>Decimal digits\<close>

lemma digit_char_simps [simp]:
  "n < 10 \<Longrightarrow> byte (digit_char n) = 48 + n" "n < 10 \<Longrightarrow> is_ascii_digit (digit_char n)"
  by (simp_all add: digit_char_def is_ascii_digit_def)

lemma digits_value_snoc: "digits_value (s @ [c]) = 10 * digits_value s + (byte c - 48)"
  by (simp add: digits_value_def)

lemma digits_value_decimal: "digits_value (decimal n) = n"
proof (induction n rule: decimal.induct)
  case (1 n)
  show ?case
  proof (cases "n < 10")
    case True
    then show ?thesis by (subst decimal.simps) (simp add: digits_value_def)
  next
    case False
    with 1 show ?thesis by (subst decimal.simps) (simp add: digits_value_snoc)
  qed
qed

lemma decimal_digits: "list_all is_ascii_digit (decimal n)" "decimal n \<noteq> []"
proof -
  have "list_all is_ascii_digit (decimal n) \<and> decimal n \<noteq> []"
    by (induction n rule: decimal.induct) (subst (1 2) decimal.simps, simp)
  then show "list_all is_ascii_digit (decimal n)" "decimal n \<noteq> []" by simp_all
qed

lemma digits_value_padded: "n < 10 ^ k \<Longrightarrow> digits_value (s @ padded k n) = digits_value s * 10 ^ k + n"
proof (induction k arbitrary: n)
  case (Suc k)
  then have "n div 10 < 10 ^ k" by (simp add: less_mult_imp_div_less mult.commute)
  from Suc.IH [OF this] have "digits_value (s @ padded k (n div 10)) = digits_value s * 10 ^ k + n div 10" .
  then have "digits_value ((s @ padded k (n div 10)) @ [digit_char (n mod 10)]) =
      10 * (digits_value s * 10 ^ k + n div 10) + n mod 10"
    by (simp add: digits_value_snoc del: append_assoc)
  also have "\<dots> = digits_value s * 10 ^ Suc k + n" by simp
  finally show ?case by simp
qed simp

lemma padded_digits [simp]: "list_all is_ascii_digit (padded k n)" "length (padded k n) = k"
  by (induction k arbitrary: n) simp_all

lemma digits_value_zeros: "digits_value (s @ replicate k CHR ''0'') = digits_value s * 10 ^ k"
proof (induction k)
  case (Suc k)
  have "s @ replicate (Suc k) CHR ''0'' = (s @ replicate k CHR ''0'') @ [CHR ''0'']"
    by (simp add: replicate_append_same)
  then show ?case using Suc by (simp only: digits_value_snoc) simp
qed simp

section \<open>Reading a formatted number\<close>

lemma trim_end_split:
  obtains n where "s = trim_end_matches c s @ replicate n c"
    and "trim_end_matches c s = [] \<or> last (trim_end_matches c s) \<noteq> c"
proof -
  let ?t = "takeWhile (\<lambda>x. x = c) (rev s)"
  have "set ?t \<subseteq> {c}" by (auto dest: set_takeWhileD)
  then have "?t = replicate (length ?t) c" by (metis replicate_length_same singletonD subsetD)
  moreover have "s = rev (dropWhile (\<lambda>x. x = c) (rev s)) @ rev ?t"
    by (metis rev_append rev_rev_ident takeWhile_dropWhile_id)
  ultimately have "s = trim_end_matches c s @ replicate (length ?t) c"
    unfolding trim_end_matches_def by (metis rev_replicate)
  moreover have "trim_end_matches c s = [] \<or> last (trim_end_matches c s) \<noteq> c"
    unfolding trim_end_matches_def using hd_dropWhile [of "\<lambda>x. x = c" "rev s"] by (auto simp: last_rev)
  ultimately show thesis by (rule that)
qed

lemma trim_end_keeps: "s \<noteq> [] \<Longrightarrow> last s \<noteq> c \<Longrightarrow> trim_end_matches c s = s"
  unfolding trim_end_matches_def by (cases s rule: rev_cases) auto

lemma trim_end_snoc: "trim_end_matches c (s @ [c]) = trim_end_matches c s"
  by (simp add: trim_end_matches_def)

lemma trim_end_zeros: "trim_end_matches c (s @ replicate k c) = trim_end_matches c s"
  by (induction k) (simp, metis append.assoc replicate_Suc replicate_append_same trim_end_snoc)

lemma last_digit: "list_all is_ascii_digit s \<Longrightarrow> s \<noteq> [] \<Longrightarrow> last s \<noteq> CHR ''.''"
proof -
  assume "list_all is_ascii_digit s" "s \<noteq> []"
  then have "is_ascii_digit (last s)" by (simp add: list_all_iff)
  then show ?thesis by (auto simp: is_ascii_digit_def)
qed

text \<open>The text of a finite value: a sign, the whole part, and what is left of the decimals.\<close>

lemma format_coordinate_Fin:
  obtains ds k where "format_coordinate (Fin x) = (if x < 0 then ''-'' else []) @
      decimal (nat (round_half_even (\<bar>x\<bar> * 10 ^ 7)) div 10 ^ 7) @ (if ds = [] then [] else ''.'' @ ds)"
    and "padded 7 (nat (round_half_even (\<bar>x\<bar> * 10 ^ 7)) mod 10 ^ 7) = ds @ replicate k CHR ''0''"
proof -
  let ?n = "nat (round_half_even (\<bar>x\<bar> * 10 ^ 7))"
  let ?p = "padded 7 (?n mod 10 ^ 7)" and ?w = "(if x < 0 then ''-'' else []) @ decimal (?n div 10 ^ 7)"
  obtain k where k: "?p = trim_end_matches CHR ''0'' ?p @ replicate k CHR ''0''"
    and last: "trim_end_matches CHR ''0'' ?p = [] \<or> last (trim_end_matches CHR ''0'' ?p) \<noteq> CHR ''0''"
    by (rule trim_end_split [of ?p "CHR ''0''"])
  define ds where "ds = trim_end_matches CHR ''0'' ?p"
  have "trim_end_matches CHR ''0'' (format_fixed7 (Fin x)) = trim_end_matches CHR ''0'' (?w @ ''.'' @ ds)"
    unfolding format_fixed7.simps Let_def using k by (metis append.assoc ds_def trim_end_zeros)
  also have "\<dots> = ?w @ ''.'' @ ds" using last by (intro trim_end_keeps) (auto simp: ds_def)
  finally have "format_coordinate (Fin x) = trim_end_matches CHR ''.'' (?w @ ''.'' @ ds)"
    by (simp add: format_coordinate_def)
  also have "\<dots> = ?w @ (if ds = [] then [] else ''.'' @ ds)"
  proof (cases "ds = []")
    case True
    have "trim_end_matches CHR ''.'' ?w = ?w"
      using decimal_digits last_digit [OF decimal_digits] by (intro trim_end_keeps) auto
    with True trim_end_snoc [of "CHR ''.''" ?w] show ?thesis by simp
  next
    case False
    have "list_all is_ascii_digit ds" using padded_digits(1) [of 7 "?n mod 10 ^ 7"] k
      by (metis ds_def list_all_append)
    with False last_digit have "last ds \<noteq> CHR ''.''" by blast
    with False show ?thesis by (simp add: trim_end_keeps)
  qed
  finally have f: "format_coordinate (Fin x) = ?w @ (if ds = [] then [] else ''.'' @ ds)" .
  show thesis by (rule that [OF _ k [folded ds_def]]) (simp only: f append_assoc)
qed

lemma split_digits_append:
  "list_all is_ascii_digit w \<Longrightarrow> rest = [] \<or> \<not> is_ascii_digit (hd rest) \<Longrightarrow> split_digits (w @ rest) = (w, rest)"
  by (cases rest) (auto simp: split_digits_def list_all_iff takeWhile_append dropWhile_append)

lemma parse_number_decimal:
  assumes "list_all is_ascii_digit w" "w \<noteq> []" "list_all is_ascii_digit ds"
  shows "parse_number (w @ (if ds = [] then [] else ''.'' @ ds)) =
    Some (of_nat (digits_value (w @ ds)) / 10 ^ length ds)"
proof (cases "ds = []")
  case True
  with assms split_digits_append [of w "[]"] show ?thesis
    by (simp add: parse_number_def parse_exponent_def pow10_def)
next
  case False
  have "\<not> is_ascii_digit CHR ''.''" by (simp add: is_ascii_digit_def)
  with assms False split_digits_append [of w "''.'' @ ds"] split_digits_append [of ds "[]"] show ?thesis
    by (simp add: parse_number_def parse_exponent_def pow10_def)
qed

definition round7 :: "rat \<Rightarrow> rat" where
  "round7 x = sgn x * (of_int (round_half_even (\<bar>x\<bar> * 10 ^ 7)) / 10 ^ 7)"

text \<open>What the parser reads of a formatted value.\<close>

fun reread :: "f64 \<Rightarrow> f64" where
  "reread (Fin x) = rnd (round7 x)"
| "reread v = v"

lemma low_digit: "is_ascii_digit c \<Longrightarrow> to_ascii_lower c = c"
  by (simp add: is_ascii_digit_def to_ascii_lower_def)

lemma parse_f64_number:
  assumes "list_all is_ascii_digit w" "w \<noteq> []"
  shows "parse_f64 ((if neg then ''-'' else []) @ w @ rest) =
    map_option (\<lambda>q. rnd (if neg then - q else q)) (parse_number (w @ rest))"
proof -
  obtain c cs where w: "w = c # cs" using assms(2) by (cases w) auto
  with assms(1) have c: "is_ascii_digit c" by simp
  then have "c \<noteq> CHR ''-''" "c \<noteq> CHR ''+''" "to_ascii_lower c \<noteq> CHR ''i''" "to_ascii_lower c \<noteq> CHR ''n''"
    by (auto simp: low_digit) (auto simp: is_ascii_digit_def)
  then show ?thesis by (cases neg) (auto simp: w parse_f64_def take_sign_def)
qed

lemma parse_format_coordinate: "parse_f64 (format_coordinate v) = Some (reread v)"
proof (cases v)
  case (Fin x)
  let ?n = "nat (round_half_even (\<bar>x\<bar> * 10 ^ 7))"
  let ?w = "decimal (?n div 10 ^ 7)"
  obtain ds k where f: "format_coordinate (Fin x) = (if x < 0 then ''-'' else []) @ ?w @
      (if ds = [] then [] else ''.'' @ ds)"
    and p: "padded 7 (?n mod 10 ^ 7) = ds @ replicate k CHR ''0''" by (rule format_coordinate_Fin)
  have digits: "list_all is_ascii_digit ds" and len: "length ds + k = 7"
    using padded_digits [of 7 "?n mod 10 ^ 7"] unfolding p by simp_all
  have "digits_value (?w @ ds) * 10 ^ k = digits_value (?w @ padded 7 (?n mod 10 ^ 7))"
    unfolding p by (simp add: digits_value_zeros flip: append_assoc)
  also have "\<dots> = ?n" by (subst digits_value_padded) (simp_all add: digits_value_decimal)
  finally have n: "digits_value (?w @ ds) * 10 ^ k = ?n" .
  have "(of_nat (digits_value (?w @ ds)) / 10 ^ length ds :: rat) =
      of_nat (digits_value (?w @ ds) * 10 ^ k) / 10 ^ (length ds + k)" by (simp add: power_add)
  also have "\<dots> = of_nat ?n / 10 ^ 7" unfolding n len ..
  also have "\<dots> = of_int (round_half_even (\<bar>x\<bar> * 10 ^ 7)) / 10 ^ 7"
    using round_half_even_nonneg [of "\<bar>x\<bar> * 10 ^ 7"] by simp
  finally have val: "of_nat (digits_value (?w @ ds)) / 10 ^ length ds =
      of_int (round_half_even (\<bar>x\<bar> * 10 ^ 7)) / (10 ^ 7 :: rat)" .
  have sign: "(if x < 0 then - q else q) = round7 x"
    if "q = of_int (round_half_even (\<bar>x\<bar> * 10 ^ 7)) / 10 ^ 7" for q
  proof (cases "x = 0")
    case True
    then show ?thesis using that by (simp add: round7_def round_half_even_def)
  next
    case False
    then show ?thesis using that by (simp add: round7_def sgn_if)
  qed
  show ?thesis
    unfolding Fin f parse_f64_number [OF decimal_digits] parse_number_decimal [OF decimal_digits digits] val
    by (simp add: reread.simps sign)
next
  case NaN
  have "parse_f64 (format_coordinate NaN) = Some NaN" by code_simp
  then show ?thesis by (simp add: NaN)
qed (simp_all add: format_coordinate_def trim_end_matches_def parse_f64_def take_sign_def to_ascii_lower_def)

declare reread.simps(1) [simp del]

section \<open>Accuracy\<close>

lemma round_half_even_le: "x \<le> of_int m \<Longrightarrow> round_half_even x \<le> m"
proof -
  assume x: "x \<le> of_int m"
  have fl: "of_int \<lfloor>x\<rfloor> \<le> x" by simp
  show ?thesis
  proof (cases "\<lfloor>x\<rfloor> = m")
    case True
    with x fl have "x = of_int m" by simp
    then show ?thesis by simp
  next
    case False
    from x have "\<lfloor>x\<rfloor> \<le> m" by (simp add: floor_le_iff)
    with False have "\<lfloor>x\<rfloor> + 1 \<le> m" by simp
    then show ?thesis by (auto simp: round_half_even_def Let_def)
  qed
qed

lemma rnd_le_nat:
  assumes "0 < x" and "x \<le> of_nat n" and "n < 2 ^ 52" and "rnd x = Fin y"
  shows "y \<le> of_nat n"
proof -
  define u where "u = max (ilog2 x - 52) (- 1074)"
  have "pow2 (ilog2 x) \<le> of_nat n" using ilog2_le [OF assms(1)] assms(2) by linarith
  also have "(of_nat n :: rat) < pow2 52"
    using assms(3) by (metis of_nat_less_iff of_nat_numeral of_nat_power pow2_nat)
  finally have "ilog2 x < 52" using pow2_mono [of 52 "ilog2 x"] by linarith
  then have u: "u = - int (nat (- u))" by (simp add: u_def)
  have n: "of_nat n = of_int (int n * 2 ^ nat (- u)) * pow2 u"
  proof -
    have "(2 :: rat) ^ nat (- u) * pow2 u = 1" by (metis mult.commute nonzero_divide_eq_eq pow2_minus_nat u power_not_zero zero_neq_numeral)
    then show ?thesis by simp
  qed
  with assms(2) have "x / pow2 u \<le> of_int (int n * 2 ^ nat (- u))"
    by (simp add: pos_divide_le_eq del: of_int_mult)
  then have "round_half_even (x / pow2 u) \<le> int n * 2 ^ nat (- u)" by (rule round_half_even_le)
  then have "of_int (round_half_even (x / pow2 u)) * pow2 u \<le> of_nat n"
    unfolding n by (intro mult_right_mono) (simp_all only: of_int_le_iff, simp add: less_imp_le)
  with assms(1,4) show ?thesis by (auto simp: rnd_def u_def Let_def split: if_splits)
qed

lemma rnd_abs: "rnd \<bar>x\<bar> = Fin y \<Longrightarrow> rnd x = Fin (sgn x * y)"
  by (auto simp: rnd_def Let_def sgn_if split: if_splits)

text \<open>A coordinate is written and read back to within a ten millionth of a degree, and stays in range.\<close>

lemma reread_coordinate:
  assumes "\<bar>x\<bar> \<le> of_nat n" and "n \<le> 180"
  obtains y where "reread (Fin x) = Fin y" and "\<bar>y\<bar> \<le> of_nat n" and "\<bar>y - x\<bar> \<le> 1 / 10 ^ 7"
proof (cases "round7 x = 0")
  case True
  have "\<bar>x\<bar> \<le> 1 / 10 ^ 7"
    using True round_half_even_error [of "\<bar>x\<bar> * 10 ^ 7"] by (auto simp: round7_def sgn_if split: if_splits)
  with True that [of 0] show thesis by (simp add: reread.simps rnd_def)
next
  case False
  let ?r = "round_half_even (\<bar>x\<bar> * 10 ^ 7)"
  define z where "z = (of_int ?r / 10 ^ 7 :: rat)"
  have sx: "x \<noteq> 0" using False by (auto simp: round7_def)
  have "0 \<le> ?r" by (simp add: round_half_even_nonneg)
  then have z0: "0 \<le> z" by (simp add: z_def)
  have absz: "\<bar>round7 x\<bar> = z" "round7 x = sgn x * z" using z0 sx by (simp_all add: round7_def z_def abs_mult)
  have "?r \<noteq> 0" using False by (auto simp: round7_def)
  with \<open>0 \<le> ?r\<close> have "1 \<le> ?r" by linarith
  then have z1: "1 / 10 ^ 7 \<le> z" unfolding z_def by (intro divide_right_mono) (simp_all only: of_int_1_le_iff, simp)
  have "\<bar>x\<bar> * 10 ^ 7 \<le> of_int (int n * 10 ^ 7)" using assms(1) by simp
  then have "?r \<le> int n * 10 ^ 7" by (rule round_half_even_le)
  then have "(of_int ?r :: rat) \<le> of_int (int n * 10 ^ 7)" by (simp only: of_int_le_iff)
  then have zn: "z \<le> of_nat n" by (simp add: z_def field_simps)
  have n180: "(of_nat n :: rat) \<le> 180" using assms(2) by (simp add: of_nat_le_iff [of n 180, symmetric] del: of_nat_le_iff)
  have zx: "\<bar>z - \<bar>x\<bar>\<bar> \<le> 1 / 2 / 10 ^ 7"
    using round_half_even_error [of "\<bar>x\<bar> * 10 ^ 7"] by (auto simp: z_def abs_le_iff field_simps)
  have "pow2 (- 1022) \<le> pow2 (- int 24)" by (rule pow2_mono) simp
  also have "pow2 (- int 24) \<le> 1 / 10 ^ 7" unfolding pow2_minus_nat by simp
  finally have lo: "pow2 (- 1022) \<le> z" using z1 by linarith
  have "(180 :: rat) < pow2 (int 8)" unfolding pow2_nat by simp
  also have "\<dots> \<le> pow2 1023" by (rule pow2_mono) simp
  finally have hi: "z < pow2 1023" using zn n180 by linarith
  obtain w where w: "rnd z = Fin w" and err: "\<bar>w - z\<bar> \<le> z / 2 ^ 53" by (rule rnd_error [OF lo hi])
  have zpos: "0 < z" using z1 by (rule less_le_trans [rotated]) simp
  have wn: "w \<le> of_nat n" by (rule rnd_le_nat [OF zpos zn _ w]) (use assms(2) in simp)
  have w0: "0 \<le> w" using rnd_nonneg [OF z0] by (simp add: w fnonneg_def)
  have "z / 2 ^ 53 \<le> 1 / 2 / 10 ^ 7" using zn n180 by simp
  with err have "\<bar>w - z\<bar> \<le> 1 / 2 / 10 ^ 7" by (rule order_trans)
  with zx have "\<bar>w - z\<bar> + \<bar>z - \<bar>x\<bar>\<bar> \<le> 1 / 10 ^ 7" by simp
  then have "\<bar>w - \<bar>x\<bar>\<bar> \<le> 1 / 10 ^ 7" by (rule order_trans [rotated]) linarith
  then have near: "\<bar>sgn x * w - x\<bar> \<le> 1 / 10 ^ 7"
    using sx by (auto simp: sgn_if abs_if split: if_splits)
  have "rnd (round7 x) = Fin (sgn (round7 x) * w)" by (rule rnd_abs) (simp add: absz(1) w)
  moreover have "sgn (round7 x) = sgn x" using zpos by (simp add: absz(2) sgn_mult)
  ultimately have "reread (Fin x) = Fin (sgn x * w)" by (simp add: reread.simps)
  moreover have "\<bar>sgn x * w\<bar> \<le> of_nat n" using wn w0 sx by (simp add: abs_mult)
  ultimately show thesis using near by (rule that)
qed

section \<open>Harmless texts\<close>

text \<open>\<open>calm s\<close>: the two characters \<open><!\<close> occur nowhere in \<open>s\<close>, nor can they where \<open>s\<close> is continued.\<close>

fun has_bang :: "string \<Rightarrow> bool" where
  "has_bang (c # d # cs) = (c = CHR ''<'' \<and> d = CHR ''!'' \<or> has_bang (d # cs))"
| "has_bang _ = False"

definition calm :: "string \<Rightarrow> bool" where
  "calm s \<longleftrightarrow> \<not> has_bang s \<and> (s = [] \<or> last s \<noteq> CHR ''<'')"

lemma contains_bang: "contains s (CHR ''<'' # CHR ''!'' # p) \<Longrightarrow> has_bang s"
proof (induction s)
  case (Cons c cs)
  then show ?case by (cases cs) auto
qed simp

lemma has_bang_append: "\<not> has_bang s \<Longrightarrow> \<not> has_bang t \<Longrightarrow> s = [] \<or> last s \<noteq> CHR ''<'' \<Longrightarrow> \<not> has_bang (s @ t)"
  by (induction s rule: has_bang.induct) (cases t; auto split: if_splits)+

definition harmless :: "string \<Rightarrow> bool" where
  "harmless s \<longleftrightarrow> calm s \<and> valid_utf8 s"

lemma harmless_append: "harmless s \<Longrightarrow> harmless t \<Longrightarrow> harmless (s @ t)"
  using has_bang_append [of s t] by (cases "t = []") (auto simp: harmless_def calm_def valid_utf8_append)

lemma harmless_Nil: "harmless []"
  by (simp add: harmless_def calm_def)

lemma harmless_concat: "(\<And>s. s \<in> set ss \<Longrightarrow> harmless s) \<Longrightarrow> harmless (concat ss)"
  by (induction ss) (simp_all add: harmless_append harmless_Nil)

lemma harmless_plain: "CHR ''<'' \<notin> set s \<Longrightarrow> valid_utf8 s \<Longrightarrow> harmless s"
proof -
  have "has_bang s \<Longrightarrow> CHR ''<'' \<in> set s" by (induction s rule: has_bang.induct) auto
  then show "CHR ''<'' \<notin> set s \<Longrightarrow> valid_utf8 s \<Longrightarrow> harmless s"
    by (auto simp: harmless_def calm_def dest: last_in_set)
qed

lemma harmless_texts:
  "harmless newline" "harmless xml_declaration" "harmless gpx_root" "harmless ''<trk>''" "harmless ''</trk>''"
  "harmless ''</gpx>''" "harmless ''<name>''" "harmless ''</name>''" "harmless ''<trkseg>''"
  "harmless ''</trkseg>''" "harmless ''<trkpt lat=\"''" "harmless ''\" lon=\"''" "harmless ''\">''"
  "harmless ''<ele>''" "harmless ''</ele>''" "harmless ''</trkpt>''"
  by (simp_all add: harmless_def calm_def valid_utf8_ascii newline_def xml_declaration_def gpx_root_def)

lemma trim_end_set: "set (trim_end_matches c s) \<subseteq> set s"
  by (auto simp: trim_end_matches_def dest: set_dropWhileD)

lemma format_coordinate_chars:
  assumes "c \<in> set (format_coordinate v)"
  shows "32 < byte c \<and> byte c < 0x80 \<and> c \<noteq> CHR ''<''"
proof -
  have digits: "list_all (\<lambda>c. 32 < byte c \<and> byte c < 0x80 \<and> c \<noteq> CHR ''<'') s" if "list_all is_ascii_digit s" for s
    using that by (auto simp: list_all_iff is_ascii_digit_def)
  from assms have "c \<in> set (format_fixed7 v)"
    using trim_end_set unfolding format_coordinate_def by blast
  moreover have "list_all (\<lambda>c. 32 < byte c \<and> byte c < 0x80 \<and> c \<noteq> CHR ''<'') (format_fixed7 v)"
    using digits [OF decimal_digits(1)] digits [OF padded_digits(1)]
    by (cases v) (simp_all add: Let_def)
  ultimately show ?thesis by (simp add: list_all_iff)
qed

lemma harmless_coordinate: "harmless (format_coordinate v)"
  using format_coordinate_chars [of _ v] by (intro harmless_plain valid_utf8_ascii) (auto simp: ascii_def)

lemma harmless_point: "harmless (point_element p)"
  unfolding point_element_def
  by (cases "go_elevation p")
    (simp_all only: option.case, (intro harmless_append harmless_texts harmless_coordinate harmless_Nil)+)

lemma harmless_segment: "harmless (segment_element ps)"
proof -
  have "harmless (concat (map point_element ps))" by (rule harmless_concat) (auto simp: harmless_point)
  then have "harmless (''<trkseg>'' @ newline @ concat (map point_element ps) @ ''</trkseg>'' @ newline)"
    by (intro harmless_append harmless_texts)
  then show ?thesis unfolding segment_element_def by (simp add: harmless_Nil)
qed

lemma harmless_generated:
  assumes "\<forall>s\<in>set_option name. CHR ''<'' \<notin> set (escape s) \<and> valid_utf8 (escape s)"
    and "generate_gpx escape \<lparr>gi_activity_name = name, gi_segments = segs\<rparr> = Ok out"
  shows "harmless out"
proof -
  have "harmless (name_element escape name)"
  proof (cases name)
    case (Some s)
    with assms(1) have "harmless (escape s)" by (intro harmless_plain) auto
    then have "harmless (''<name>'' @ escape s @ ''</name>'' @ newline)" by (intro harmless_append harmless_texts)
    then show ?thesis by (simp add: name_element_def Some)
  qed (simp add: name_element_def harmless_Nil)
  moreover have "harmless (concat (map segment_element segs))"
    by (rule harmless_concat) (auto simp: harmless_segment)
  ultimately have "harmless (xml_declaration @ gpx_root @ ''<trk>'' @ newline @ name_element escape name @
      concat (map segment_element segs) @ ''</trk>'' @ newline @ ''</gpx>'' @ newline)"
    by (intro harmless_append harmless_texts)
  with assms(2) show ?thesis by (simp add: generate_gpx_def)
qed

section \<open>Reading an exported document\<close>

text \<open>
  The events of the generated text, as the parser configures the reader: white space around texts is
  trimmed, and there is no text event for an empty name.
\<close>

definition xml_trim :: "string \<Rightarrow> string" where
  "xml_trim s =
    (let ws = (\<lambda>c. byte c \<in> {9, 10, 13, 32}) in rev (dropWhile ws (rev (dropWhile ws s))))"

definition name_events :: "string option \<Rightarrow> xml_event list" where
  "name_events name =
    (case name of
       None \<Rightarrow> []
     | Some s \<Rightarrow> Start ''name'' [] # (if xml_trim s = [] then [] else [Characters (xml_trim s)]) @ [End ''name''])"

definition source_of :: "gpx_out_point \<Rightarrow> point_source" where
  "source_of p = \<lparr>src_lat = format_coordinate (go_latitude p), src_lon = format_coordinate (go_longitude p),
     src_ele = map_option format_coordinate (go_elevation p)\<rparr>"

definition written_segments :: "gpx_generator_input \<Rightarrow> gpx_out_point list list" where
  "written_segments input = filter (\<lambda>seg. seg \<noteq> []) (gi_segments input)"

definition exported_events :: "gpx_generator_input \<Rightarrow> xml_event list" where
  "exported_events input =
    OtherEvent # Start ''gpx'' [(''xmlns'', ''http://www.topografix.com/GPX/1/1''), (''version'', ''1.1''),
      (''creator'', ''Haiker'')] # Start ''trk'' [] # name_events (gi_activity_name input) @
    concat (map (\<lambda>seg. segment_events (map source_of seg)) (written_segments input)) @ [End ''trk'', End ''gpx'']"

text \<open>The document that comes back.\<close>

definition reread_point :: "gpx_out_point \<Rightarrow> gpx_track_point" where
  "reread_point p = \<lparr>gp_lat = reread (go_latitude p), gp_lon = reread (go_longitude p),
     gp_elevation = map_option reread (go_elevation p), gp_time = None\<rparr>"

definition reread_name :: "string option \<Rightarrow> string option" where
  "reread_name name =
    (case name of Some s \<Rightarrow> if xml_trim s = [] then None else Some (sanitize_metadata (xml_trim s)) | None \<Rightarrow> None)"

definition coordinates_in_range :: "gpx_out_point \<Rightarrow> bool" where
  "coordinates_in_range p \<longleftrightarrow> range_contains (Fin (- 90)) (Fin 90) (go_latitude p) \<and>
     range_contains (Fin (- 180)) (Fin 180) (go_longitude p)"

lemma chars_ascii: "ascii s \<Longrightarrow> chars s = map (\<lambda>c. [c]) s"
  by (induction s) (simp_all add: char_width_def)

lemma trim_coordinate: "trim (format_coordinate v) = format_coordinate v"
proof (rule trim_no_white)
  have "ascii (format_coordinate v)" using format_coordinate_chars by (auto simp: ascii_def)
  moreover have "\<not> is_white [c]" if "c \<in> set (format_coordinate v)" for c
    using format_coordinate_chars [OF that] by (auto simp: is_white_def)
  ultimately show "\<forall>c\<in>set (chars (format_coordinate v)). \<not> is_white c" by (auto simp: chars_ascii)
qed

lemma reread_in_range:
  assumes "range_contains (Fin (- b)) (Fin b) v" and "b = of_nat n" and "n \<le> 180"
  shows "\<exists>x y. v = Fin x \<and> reread v = Fin y \<and> \<bar>y - x\<bar> \<le> 1 / 10 ^ 7 \<and> \<bar>y\<bar> \<le> b"
proof -
  from assms(1,2) obtain x where v: "v = Fin x" and "\<bar>x\<bar> \<le> of_nat n"
    by (auto simp: range_contains_Fin_iff abs_le_iff)
  from reread_coordinate [OF this(2) assms(3)] obtain y where
    "reread (Fin x) = Fin y" "\<bar>y\<bar> \<le> of_nat n" "\<bar>y - x\<bar> \<le> 1 / 10 ^ 7" by blast
  with v assms(2) show ?thesis by blast
qed

lemma reread_coordinates:
  assumes "coordinates_in_range p"
  shows "\<exists>x y. go_latitude p = Fin x \<and> reread (go_latitude p) = Fin y \<and> \<bar>y - x\<bar> \<le> 1 / 10 ^ 7 \<and> \<bar>y\<bar> \<le> 90"
    and "\<exists>x y. go_longitude p = Fin x \<and> reread (go_longitude p) = Fin y \<and> \<bar>y - x\<bar> \<le> 1 / 10 ^ 7 \<and> \<bar>y\<bar> \<le> 180"
proof -
  from assms have lat: "range_contains (Fin (- 90)) (Fin 90) (go_latitude p)"
    and lon: "range_contains (Fin (- 180)) (Fin 180) (go_longitude p)" unfolding coordinates_in_range_def by blast+
  show "\<exists>x y. go_latitude p = Fin x \<and> reread (go_latitude p) = Fin y \<and> \<bar>y - x\<bar> \<le> 1 / 10 ^ 7 \<and> \<bar>y\<bar> \<le> 90"
    by (rule reread_in_range [OF lat, of 90]) simp_all
  show "\<exists>x y. go_longitude p = Fin x \<and> reread (go_longitude p) = Fin y \<and> \<bar>y - x\<bar> \<le> 1 / 10 ^ 7 \<and> \<bar>y\<bar> \<le> 180"
    by (rule reread_in_range [OF lon, of 180]) simp_all
qed

lemma source_of_ok:
  assumes "coordinates_in_range p"
  shows "point_ok (source_of p)" and "point_of (source_of p) = reread_point p"
proof -
  show "point_ok (source_of p)" using reread_coordinates [OF assms]
    by (auto simp: point_ok_def source_of_def parse_format_coordinate range_contains_def abs_le_iff)
  show "point_of (source_of p) = reread_point p"
    by (cases "go_elevation p")
      (simp_all add: point_of_def source_of_def reread_point_def parse_format_coordinate trim_coordinate)
qed

lemma run_exported:
  assumes "\<forall>seg\<in>set (gi_segments input). \<forall>p\<in>set seg. coordinates_in_range p"
    and "sum_list (map length (written_segments input)) \<le> MAX_POINTS"
    and "length (written_segments input) \<le> MAX_SEGMENTS"
  shows "parse_events (exported_events input) initial_state = Ok (initial_state\<lparr>version := Some Gpx11,
    total_points := sum_list (map length (written_segments input)),
    total_segments := length (written_segments input),
    tracks := [\<lparr>gt_name = reread_name (gi_activity_name input),
      gt_segments = map (\<lambda>seg. \<lparr>gs_points = map reread_point seg\<rparr>) (written_segments input)\<rparr>]\<rparr>)"
proof -
  let ?segs = "map (map source_of) (written_segments input)"
  let ?st = "initial_state\<lparr>depth := 2, version := Some Gpx11, in_trk := True,
      current_track := Some \<lparr>gt_name = reread_name (gi_activity_name input), gt_segments = []\<rparr>\<rparr>"
  have ok: "\<forall>ps\<in>set ?segs. \<forall>p\<in>set ps. point_ok p"
    using assms(1) source_of_ok(1) by (auto simp: written_segments_def)
  have "map (\<lambda>seg. segment_of (map source_of seg)) (written_segments input) =
      map (\<lambda>seg. \<lparr>gs_points = map reread_point seg\<rparr>) (written_segments input)"
    using assms(1) source_of_ok(2) by (auto simp: segment_of_def written_segments_def)
  then have segs: "map segment_of ?segs = map (\<lambda>seg. \<lparr>gs_points = map reread_point seg\<rparr>) (written_segments input)"
    by (simp add: comp_def)
  have head: "run_events (OtherEvent # Start ''gpx'' [(''xmlns'', ''http://www.topografix.com/GPX/1/1''),
      (''version'', ''1.1''), (''creator'', ''Haiker'')] # Start ''trk'' [] #
      name_events (gi_activity_name input)) initial_state = Ok ?st"
    by (cases "gi_activity_name input")
      (auto simp: name_events_def reread_name_def on_start_def start_element_def initial_state_def limits Let_def
        on_end_def end_element_def on_text_def)
  have "in_track ?st" by (simp add: in_track_def initial_state_def)
  from run_segments [OF ok this] assms(2,3)
  have body: "run_events (concat (map segment_events ?segs)) ?st = Ok (?st\<lparr>
      total_points := sum_list (map length (written_segments input)),
      total_segments := length (written_segments input),
      current_track := Some \<lparr>gt_name = reread_name (gi_activity_name input),
        gt_segments = map (\<lambda>seg. \<lparr>gs_points = map reread_point seg\<rparr>) (written_segments input)\<rparr>\<rparr>)"
    unfolding segs [symmetric] by (simp add: comp_def initial_state_def)
  have ev: "exported_events input = (OtherEvent # Start ''gpx'' [(''xmlns'', ''http://www.topografix.com/GPX/1/1''),
      (''version'', ''1.1''), (''creator'', ''Haiker'')] # Start ''trk'' [] #
      name_events (gi_activity_name input)) @ concat (map segment_events ?segs) @ [End ''trk'', End ''gpx'']"
    by (simp add: exported_events_def comp_def)
  show ?thesis
    by (subst parse_events_run) (simp only: ev run_events_append head body and_then_simps,
      simp add: on_end_def end_element_def Let_def initial_state_def)
qed

section \<open>Property\<close>


definition sample_export :: gpx_generator_input where
  "sample_export = \<lparr>gi_activity_name = None,
     gi_segments = [[], [\<lparr>go_latitude = Fin 0, go_longitude = Fin 0, go_elevation = None\<rparr>]]\<rparr>"


end
