(* ===== verification/Exports.thy ===== *)
theory Exports
  imports Gpx_Generator Route_Versioning
begin

text \<open>
  Exports, \<open>crates/app/src/exports\<close>: the status machine (\<open>state_machine.rs\<close>), the aggregate (\<open>mod.rs\<close>),
  the repository interface and the commands (\<open>commands.rs\<close>); and the worker that generates the files,
  \<open>crates/infrastructure/src/export_worker.rs\<close>, over the table \<open>exports.export_jobs\<close> and the object
  storage.  SHA-256, \<open>serde_json\<close>, the texts of errors and what the bucket keeps of an upload are
  parameters.
\<close>

section \<open>Status\<close>

datatype export_status = ExQueued | ExGenerating | ExReady | ExFailed | ExExpired

fun export_status_to_string :: "export_status \<Rightarrow> string" where
  "export_status_to_string ExQueued = ''queued''"
| "export_status_to_string ExGenerating = ''generating''"
| "export_status_to_string ExReady = ''ready''"
| "export_status_to_string ExFailed = ''failed''"
| "export_status_to_string ExExpired = ''expired''"

datatype export_error =
    ExNotFound
  | ExUnauthorized
  | ExInvalidTransition string string
  | ExIdempotencyPayloadMismatch
  | ExRouteVersionNotFound
  | ExActivityNotFound
  | ExValidationFailed string
  | ExPersistenceError db_error
  | ExChecksumMismatch string string
  | ExArtifactExpired
  | ExNotReady string

definition export_is_terminal :: "export_status \<Rightarrow> bool" where
  "export_is_terminal s \<longleftrightarrow> s = ExReady \<or> s = ExFailed \<or> s = ExExpired"

definition export_transition_to :: "export_status \<Rightarrow> export_status \<Rightarrow> (export_status, export_error) result" where
  "export_transition_to from to =
    (if export_is_terminal from then
       if from = ExReady \<and> to = ExExpired then Ok to
       else if from = ExExpired \<and> to = ExExpired then Ok ExExpired
       else Err (ExInvalidTransition (export_status_to_string from) (export_status_to_string to))
     else if from = ExQueued \<and> to = ExGenerating \<or> from = ExGenerating \<and> to = ExReady \<or>
         from = ExReady \<and> to = ExExpired \<or> to = ExFailed
     then Ok to
     else Err (ExInvalidTransition (export_status_to_string from) (export_status_to_string to)))"

section \<open>The aggregate\<close>

datatype export_job_id = ExportJobId (export_uuid: uuid)

datatype export_format = GpxFormat

fun export_format_to_string :: "export_format \<Rightarrow> string" where
  "export_format_to_string GpxFormat = ''gpx''"

record export_job =
  ex_id :: export_job_id
  ex_activity_id :: activity_id
  ex_route_version_id :: route_version_id
  ex_requested_by :: user_id
  ex_format :: export_format
  ex_status :: export_status
  ex_idempotency_key :: string
  ex_payload_hash :: "string option"
  ex_object_storage_key :: "string option"
  ex_checksum :: "string option"
  ex_failure_reason :: "string option"
  ex_expires_at :: "time option"
  ex_created_at :: time
  ex_updated_at :: time

definition export_job_new ::
  "export_job_id \<Rightarrow> time \<Rightarrow> user_id \<Rightarrow> activity_id \<Rightarrow> route_version_id \<Rightarrow> export_format \<Rightarrow> string \<Rightarrow>
    string option \<Rightarrow> (export_job, export_error) result" where
  "export_job_new new_id now requested_by activity ver format key hash =
    (if trim key = [] then Err (ExValidationFailed ''idempotency key must not be empty'')
     else Ok \<lparr>ex_id = new_id, ex_activity_id = activity, ex_route_version_id = ver,
       ex_requested_by = requested_by, ex_format = format, ex_status = ExQueued, ex_idempotency_key = key,
       ex_payload_hash = hash, ex_object_storage_key = None, ex_checksum = None, ex_failure_reason = None,
       ex_expires_at = None, ex_created_at = now, ex_updated_at = now\<rparr>)"

definition start_generating :: "time \<Rightarrow> export_job \<Rightarrow> (export_job, export_error) result" where
  "start_generating now j =
    and_then (export_transition_to (ex_status j) ExGenerating) (\<lambda>s. Ok (j\<lparr>ex_status := s, ex_updated_at := now\<rparr>))"

definition export_complete :: "time \<Rightarrow> string \<Rightarrow> string \<Rightarrow> time \<Rightarrow> export_job \<Rightarrow> (export_job, export_error) result" where
  "export_complete now key checksum expires j =
    and_then (export_transition_to (ex_status j) ExReady) (\<lambda>s.
      Ok (j\<lparr>ex_status := s, ex_object_storage_key := Some key, ex_checksum := Some checksum,
            ex_expires_at := Some expires, ex_updated_at := now\<rparr>))"

definition complete_with_verified_checksum ::
  "time \<Rightarrow> string \<Rightarrow> string \<Rightarrow> string \<Rightarrow> time \<Rightarrow> export_job \<Rightarrow> (export_job, export_error) result" where
  "complete_with_verified_checksum now key expected verified expires j =
    (if expected \<noteq> verified then Err (ExChecksumMismatch expected verified)
     else and_then (export_transition_to (ex_status j) ExReady) (\<lambda>s.
       Ok (j\<lparr>ex_status := s, ex_object_storage_key := Some key, ex_checksum := Some expected,
             ex_expires_at := Some expires, ex_updated_at := now\<rparr>)))"

definition export_fail :: "time \<Rightarrow> string \<Rightarrow> export_job \<Rightarrow> (export_job, export_error) result" where
  "export_fail now reason j =
    and_then (export_transition_to (ex_status j) ExFailed) (\<lambda>s.
      Ok (j\<lparr>ex_status := s, ex_failure_reason := Some reason, ex_updated_at := now\<rparr>))"

definition export_expire :: "time \<Rightarrow> export_job \<Rightarrow> (export_job, export_error) result" where
  "export_expire now j =
    (if ex_status j = ExExpired then Ok j
     else and_then (export_transition_to (ex_status j) ExExpired) (\<lambda>s.
       Ok (j\<lparr>ex_status := s, ex_updated_at := now\<rparr>)))"

section \<open>Commands\<close>

record 's export_repository =
  xr_save :: "export_job \<Rightarrow> ('s, unit, export_error) step"
  xr_find_by_id :: "export_job_id \<Rightarrow> ('s, export_job option, export_error) step"
  xr_find_by_idempotency_key :: "user_id \<Rightarrow> string \<Rightarrow> ('s, export_job option, export_error) step"
  xr_update :: "export_job \<Rightarrow> ('s, unit, export_error) step"

text \<open>\<open>verify_owned_route_version\<close> of the route version gateway.\<close>

type_synonym 's ownership_check = "activity_id \<Rightarrow> route_version_id \<Rightarrow> user_id \<Rightarrow> ('s, unit, export_error) step"

record request_export_command =
  rx_owner_id :: user_id
  rx_activity_id :: activity_id
  rx_route_version_id :: route_version_id
  rx_format :: export_format
  rx_idempotency_key :: string

text \<open>The 16 bytes of a UUID, most significant first.\<close>

definition uuid_bytes :: "uuid \<Rightarrow> string" where
  "uuid_bytes u = map (\<lambda>k. char_of (unat (take_bit 8 (drop_bit (8 * (15 - k)) u)))) [0..<16]"

definition export_payload_hash ::
  "(string \<Rightarrow> string) \<Rightarrow> activity_id \<Rightarrow> route_version_id \<Rightarrow> export_format \<Rightarrow> string" where
  "export_payload_hash sha activity ver format =
    sha (uuid_bytes (activity_uuid activity) @ [CHR 0x00] @ uuid_bytes (version_uuid ver) @ [CHR 0x00] @
      export_format_to_string format)"

definition handle_request_export ::
  "(string \<Rightarrow> string) \<Rightarrow> time \<Rightarrow> export_job_id \<Rightarrow> request_export_command \<Rightarrow> 's export_repository \<Rightarrow>
    's ownership_check \<Rightarrow> ('s, export_job, export_error) step" where
  "handle_request_export sha now new_id cmd R verify_owned =
    (if trim (rx_idempotency_key cmd) = []
     then failq (ExValidationFailed ''idempotency key must not be empty'')
     else
       let hash = export_payload_hash sha (rx_activity_id cmd) (rx_route_version_id cmd) (rx_format cmd) in
       bindq (xr_find_by_idempotency_key R (rx_owner_id cmd) (rx_idempotency_key cmd)) (\<lambda>found.
       case found of
         Some existing \<Rightarrow>
           (case ex_payload_hash existing of
              Some stored \<Rightarrow> if stored \<noteq> hash then failq ExIdempotencyPayloadMismatch else returnq existing
            | None \<Rightarrow> returnq existing)
       | None \<Rightarrow>
           bindq (verify_owned (rx_activity_id cmd) (rx_route_version_id cmd) (rx_owner_id cmd)) (\<lambda>_.
           bindq (of_result (export_job_new new_id now (rx_owner_id cmd) (rx_activity_id cmd)
             (rx_route_version_id cmd) (rx_format cmd) (rx_idempotency_key cmd) (Some hash))) (\<lambda>j.
           bindq (xr_save R j) (\<lambda>_. returnq j)))))"

definition load_export :: "'s export_repository \<Rightarrow> export_job_id \<Rightarrow> ('s, export_job, export_error) step" where
  "load_export R i = bindq (xr_find_by_id R i) (\<lambda>found. of_result (ok_or ExNotFound found))"

definition handle_get_export ::
  "export_job_id \<Rightarrow> user_id \<Rightarrow> 's export_repository \<Rightarrow> ('s, export_job, export_error) step" where
  "handle_get_export i owner R =
    bindq (load_export R i) (\<lambda>j. if ex_requested_by j \<noteq> owner then failq ExNotFound else returnq j)"

definition handle_expire_export ::
  "time \<Rightarrow> export_job_id \<Rightarrow> 's export_repository \<Rightarrow> (string \<Rightarrow> ('s, unit, export_error) step) \<Rightarrow>
    ('s, unit, export_error) step" where
  "handle_expire_export now i R delete_artifact =
    bindq (load_export R i) (\<lambda>j.
    if ex_status j = ExExpired then returnq ()
    else
      bindq (case ex_object_storage_key j of Some key \<Rightarrow> delete_artifact key | None \<Rightarrow> returnq ()) (\<lambda>_.
      bindq (of_result (export_expire now j)) (\<lambda>j'.
      bindq (xr_update R j') (\<lambda>_. returnq ()))))"

definition handle_download_export ::
  "time \<Rightarrow> export_job_id \<Rightarrow> user_id \<Rightarrow> 's export_repository \<Rightarrow> ('s, export_job, export_error) step" where
  "handle_download_export now i caller R =
    bindq (load_export R i) (\<lambda>j.
    if ex_requested_by j \<noteq> caller then failq ExNotFound
    else if ex_status j \<noteq> ExReady then failq (ExNotReady (export_status_to_string (ex_status j)))
    else case ex_expires_at j of
      Some t \<Rightarrow> if t \<le> now then failq ExArtifactExpired else returnq j
    | None \<Rightarrow> returnq j)"

text \<open>The repository and the gateway that \<open>crates/api/src/main.rs\<close> wires in.\<close>

definition InMemoryExportRepoPlaceholder :: "'s export_repository" where
  "InMemoryExportRepoPlaceholder =
    \<lparr>xr_save = (\<lambda>_. returnq ()), xr_find_by_id = (\<lambda>_. returnq None),
     xr_find_by_idempotency_key = (\<lambda>_ _. returnq None), xr_update = (\<lambda>_. returnq ())\<rparr>"

definition StubRouteVersionGatewayPlaceholder :: "'s ownership_check" where
  "StubRouteVersionGatewayPlaceholder _ _ _ = returnq ()"

section \<open>The worker's state\<close>

record export_row =
  xw_id :: uuid
  xw_activity_id :: uuid
  xw_route_version_id :: uuid
  xw_requested_by :: uuid
  xw_format :: string
  xw_status :: string
  xw_idempotency_key :: string
  xw_payload_hash :: "string option"
  xw_object_storage_key :: "string option"
  xw_checksum :: "string option"
  xw_failure_reason :: "string option"
  xw_expires_at :: "time option"
  xw_created_at :: time
  xw_updated_at :: time

text \<open>
  Tables and bucket share the schedule of faults.  The version's \<open>geometry_json\<close> and the activity's
  \<open>title\<close> (NULL or a text) are the two columns the worker reads of other contexts.
\<close>

record 'j export_world =
  ew_jobs :: "export_row list"
  ew_geometry :: "uuid \<Rightarrow> 'j option"
  ew_titles :: "uuid \<Rightarrow> string option option"
  ew_objects :: "string \<Rightarrow> string option"

datatype export_failure =
    ExBadPayload
  | ExFault string db_error
  | ExMissing string
  | ExBadTransition string export_error
  | ExTerminalState export_status
  | ExReported string

record 'j export_env =
  xe_sha256 :: "string \<Rightarrow> string"
  xe_segments :: "'j \<Rightarrow> gpx_out_point list list option"
  xe_points :: "'j \<Rightarrow> gpx_out_point list option"
  xe_escape :: "string \<Rightarrow> string"
  xe_show :: "export_failure \<Rightarrow> string"
  xe_stored :: "string \<Rightarrow> string"

datatype task_outcome = Finished | Panicked string | TimedOut

type_synonym ('j, 'a) export_step = "('j export_world, 'a, export_failure) sql"

text \<open>The object storage client, \<open>crates/infrastructure/src/object_storage.rs\<close>: upload, download, exists.\<close>

definition os_exists :: "string \<Rightarrow> ('j export_world, bool, db_error) sql" where
  "os_exists key = select (\<lambda>w. ew_objects w key \<noteq> None)"

definition os_upload :: "(string \<Rightarrow> string) \<Rightarrow> string \<Rightarrow> string \<Rightarrow> ('j export_world, unit, db_error) sql" where
  "os_upload stored key body = modify (\<lambda>w. w\<lparr>ew_objects := (ew_objects w)(key \<mapsto> stored body)\<rparr>)"

definition os_download :: "string \<Rightarrow> ('j export_world, string, db_error) sql" where
  "os_download key = query (\<lambda>w. (ok_or RowNotFound (ew_objects w key), w))"

section \<open>Rows and geometry\<close>

definition parse_geometry_json :: "'j export_env \<Rightarrow> 'j \<Rightarrow> (gpx_out_point list list, string) result" where
  "parse_geometry_json E raw =
    (case xe_segments E raw of
       Some segs \<Rightarrow> Ok segs
     | None \<Rightarrow> (case xe_points E raw of
         Some ps \<Rightarrow> Ok [ps]
       | None \<Rightarrow> Err ''geometry_json is neither a segmented array nor a flat point array''))"

definition export_storage_key :: "uuid \<Rightarrow> uuid \<Rightarrow> string" where
  "export_storage_key owner i =
    ''exports/'' @ uuid_to_string owner @ ''/'' @ uuid_to_string i @ ''.gpx''"

definition parse_export_status :: "string \<Rightarrow> (export_status, export_failure) result" where
  "parse_export_status s =
    (if s = ''queued'' then Ok ExQueued
     else if s = ''generating'' then Ok ExGenerating
     else if s = ''ready'' then Ok ExReady
     else if s = ''failed'' then Ok ExFailed
     else if s = ''expired'' then Ok ExExpired
     else Err (ExMissing (''unknown export job status: '' @ s)))"

definition row_to_export :: "export_row \<Rightarrow> (export_job, export_failure) result" where
  "row_to_export r =
    and_then (parse_export_status (xw_status r)) (\<lambda>st.
    and_then (if xw_format r = ''gpx'' then Ok GpxFormat
        else Err (ExMissing (''unknown export format: '' @ xw_format r))) (\<lambda>f. Ok
    \<lparr>ex_id = ExportJobId (xw_id r), ex_activity_id = ActivityId (xw_activity_id r),
     ex_route_version_id = RouteVersionId (xw_route_version_id r), ex_requested_by = UserId (xw_requested_by r),
     ex_format = f, ex_status = st, ex_idempotency_key = xw_idempotency_key r,
     ex_payload_hash = xw_payload_hash r, ex_object_storage_key = xw_object_storage_key r,
     ex_checksum = xw_checksum r, ex_failure_reason = xw_failure_reason r, ex_expires_at = xw_expires_at r,
     ex_created_at = xw_created_at r, ex_updated_at = xw_updated_at r\<rparr>))"

definition load_export_job :: "uuid \<Rightarrow> ('j, export_job) export_step" where
  "load_export_job i =
    bindq (map_errq (ExFault ''failed to query export job'')
      (select (\<lambda>w. find (\<lambda>r. xw_id r = i) (ew_jobs w)))) (\<lambda>found.
    bindq (of_result (ok_or (ExMissing (''export job '' @ uuid_to_string i @ '' not found'')) found)) (\<lambda>r.
    of_result (row_to_export r)))"

definition set_export_columns :: "export_job \<Rightarrow> export_row \<Rightarrow> export_row" where
  "set_export_columns j r = r\<lparr>xw_status := export_status_to_string (ex_status j),
     xw_format := export_format_to_string (ex_format j), xw_object_storage_key := ex_object_storage_key j,
     xw_checksum := ex_checksum j, xw_failure_reason := ex_failure_reason j,
     xw_expires_at := ex_expires_at j, xw_updated_at := ex_updated_at j\<rparr>"

definition persist_export_job :: "export_job \<Rightarrow> ('j, unit) export_step" where
  "persist_export_job j =
    map_errq (ExFault ''failed to update export job'') (modify (\<lambda>w. w\<lparr>ew_jobs := map (\<lambda>r.
      if xw_id r = export_uuid (ex_id j) then set_export_columns j r else r) (ew_jobs w)\<rparr>))"

definition load_geometry :: "uuid \<Rightarrow> ('j, 'j) export_step" where
  "load_geometry v =
    bindq (map_errq (ExFault ''failed to query route version geometry'') (select (\<lambda>w. ew_geometry w v))) (\<lambda>found.
    of_result (ok_or (ExMissing (''route version '' @ uuid_to_string v @ '' not found'')) found))"

definition load_activity_name :: "uuid \<Rightarrow> ('j, string option) export_step" where
  "load_activity_name a =
    bindq (map_errq (ExFault ''failed to query activity title'') (select (\<lambda>w. ew_titles w a))) (\<lambda>found.
    returnq (case found of None \<Rightarrow> None | Some title \<Rightarrow> title))"

section \<open>The handler\<close>

record generate_export_job =
  gj_export_job_id :: uuid
  gj_activity_id :: uuid
  gj_route_version_id :: uuid
  gj_owner_id :: uuid
  gj_format :: string
  gj_correlation_id :: uuid

definition HOURS_24 :: time where
  "HOURS_24 = 24 * 3600 * 1000000000"

definition MAX_EXPORT_POINTS :: nat where
  "MAX_EXPORT_POINTS = 500000"

text \<open>A transition of the aggregate, its error mapped to a message.\<close>

definition export_call :: "string \<Rightarrow> (export_job, export_error) result \<Rightarrow> ('j, export_job) export_step" where
  "export_call what r = of_result (map_err (ExBadTransition what) r)"

text \<open>\<open>mark_failed\<close> never fails: what goes wrong is logged.\<close>

definition mark_failed :: "time \<Rightarrow> uuid \<Rightarrow> string \<Rightarrow> ('j, unit) export_step" where
  "mark_failed now i reason = ignoreq (
    bindq (load_export_job i) (\<lambda>j.
    if \<not> export_is_terminal (ex_status j) then
      bindq (export_call ''fail'' (export_fail now reason j)) persist_export_job
    else returnq ()) :: ('j, unit) export_step)"

definition fail_export :: "time \<Rightarrow> uuid \<Rightarrow> string \<Rightarrow> ('j, 'a) export_step" where
  "fail_export now i reason = bindq (mark_failed now i reason) (\<lambda>_. failq (ExReported reason))"

text \<open>\<open>match step { Ok(x) => x, Err(e) => { mark_failed; return Err } }\<close>.\<close>

definition or_fail ::
  "time \<Rightarrow> uuid \<Rightarrow> ('e \<Rightarrow> string) \<Rightarrow> ('j export_world, 'a, 'e) sql \<Rightarrow> ('j, 'a) export_step" where
  "or_fail now i reason m s =
    (case m s of (Ok x, s') \<Rightarrow> (Ok x, s') | (Err e, s') \<Rightarrow> fail_export now i (reason e) s')"

text \<open>The file is there: an earlier run was cut off after its upload.\<close>

definition resume_export ::
  "'j export_env \<Rightarrow> (nat \<Rightarrow> time) \<Rightarrow> uuid \<Rightarrow> string \<Rightarrow> ('j, unit) export_step" where
  "resume_export E clock i key =
    bindq (load_export_job i) (\<lambda>j.
    if ex_status j \<noteq> ExReady then
      bindq (map_errq (ExFault ''failed to download existing export for checksum'') (os_download key)) (\<lambda>bytes.
      let checksum = xe_sha256 E bytes; expires = clock 0 + HOURS_24 in
      bindq (if ex_status j = ExQueued
          then export_call ''failed to transition to generating'' (start_generating (clock 1) j)
          else returnq j) (\<lambda>j1.
      bindq (if ex_status j1 = ExGenerating
          then export_call ''failed to complete export job''
            (complete_with_verified_checksum (clock 2) key checksum checksum expires j1)
          else returnq j1) (\<lambda>j2.
      persist_export_job j2)))
    else returnq ())"

definition effective_export_timeout :: "i32 \<Rightarrow> nat" where
  "effective_export_timeout t = (if 0 <s t then unat t else 300)"

definition run_generator ::
  "'j export_env \<Rightarrow> task_outcome \<Rightarrow> i32 \<Rightarrow> time \<Rightarrow> uuid \<Rightarrow> gpx_generator_input \<Rightarrow> ('j, string) export_step" where
  "run_generator E task timeout now i input =
    (case task of
       Finished \<Rightarrow>
         (case generate_gpx (xe_escape E) input of
            Ok bytes \<Rightarrow> returnq bytes
          | Err (GenerationFailed m) \<Rightarrow> fail_export now i (''GPX generation failed: gpx generation failed: '' @ m))
     | Panicked e \<Rightarrow> fail_export now i (''GPX generation task panicked: '' @ e)
     | TimedOut \<Rightarrow> fail_export now i
         (''GPX generation timed out after '' @ decimal (effective_export_timeout timeout) @ ''s''))"

text \<open>Upload, read back, compare, and record the file.\<close>

definition publish_export ::
  "'j export_env \<Rightarrow> (nat \<Rightarrow> time) \<Rightarrow> uuid \<Rightarrow> string \<Rightarrow> string \<Rightarrow> ('j, unit) export_step" where
  "publish_export E clock i key bytes =
    (let checksum = xe_sha256 E bytes in
     bindq (or_fail (clock 2) i (\<lambda>e. ''failed to upload export to storage: '' @ xe_show E (ExFault [] e))
       (os_upload (xe_stored E) key bytes)) (\<lambda>_.
     bindq (or_fail (clock 2) i (\<lambda>e. ''failed to download export for verification: '' @ xe_show E (ExFault [] e))
       (os_download key)) (\<lambda>read_back.
     let verified = xe_sha256 E read_back in
     if checksum \<noteq> verified
     then fail_export (clock 2) i (''post-upload verification failed: checksum mismatch (expected '' @
       checksum @ '', got '' @ verified @ '')'')
     else
       let expires = clock 3 + HOURS_24 in
       bindq (load_export_job i) (\<lambda>j.
       if ex_status j = ExGenerating then
         bindq (export_call ''failed to complete export job''
           (complete_with_verified_checksum (clock 4) key checksum verified expires j)) persist_export_job
       else returnq ()))))"

definition generate_export ::
  "'j export_env \<Rightarrow> (nat \<Rightarrow> time) \<Rightarrow> task_outcome \<Rightarrow> i32 \<Rightarrow> generate_export_job \<Rightarrow> string \<Rightarrow>
    ('j, unit) export_step" where
  "generate_export E clock task timeout p key =
    (let i = gj_export_job_id p in
     bindq (or_fail (clock 2) i (\<lambda>e. ''failed to load geometry: '' @ xe_show E e)
       (load_geometry (gj_route_version_id p))) (\<lambda>json.
     bindq (or_fail (clock 2) i (\<lambda>e. ''failed to parse geometry_json: '' @ e)
       (of_result (parse_geometry_json E json))) (\<lambda>segments.
     bindq (\<lambda>s. case load_activity_name (gj_activity_id p) s of
         (Ok name, s') \<Rightarrow> (Ok name, s') | (Err _, s') \<Rightarrow> (Ok None, s')) (\<lambda>name.
     if MAX_EXPORT_POINTS < sum_list (map length segments)
     then fail_export (clock 2) i (''geometry exceeds maximum point count: '' @
       decimal (sum_list (map length segments)) @ '' points (limit: 500000)'')
     else
       bindq (run_generator E task timeout (clock 2) i
         \<lparr>gi_activity_name = name, gi_segments = segments\<rparr>) (\<lambda>bytes.
       publish_export E clock i key bytes)))))"

definition process_export ::
  "'j export_env \<Rightarrow> (nat \<Rightarrow> time) \<Rightarrow> task_outcome \<Rightarrow> i32 \<Rightarrow> generate_export_job option \<Rightarrow>
    ('j, unit) export_step" where
  "process_export E clock task timeout payload =
    bindq (of_result (ok_or ExBadPayload payload)) (\<lambda>p.
    let i = gj_export_job_id p; key = export_storage_key (gj_owner_id p) i in
    bindq (map_errq (ExFault ''failed to check object existence'') (os_exists key)) (\<lambda>already_exists.
    if already_exists then resume_export E clock i key
    else
      bindq (load_export_job i) (\<lambda>j.
      case ex_status j of
        ExReady \<Rightarrow> returnq ()
      | ExFailed \<Rightarrow> failq (ExTerminalState ExFailed)
      | ExExpired \<Rightarrow> failq (ExTerminalState ExExpired)
      | ExQueued \<Rightarrow>
          bindq (export_call ''failed to transition to generating'' (start_generating (clock 1) j)) (\<lambda>j1.
          bindq (persist_export_job j1) (\<lambda>_. generate_export E clock task timeout p key))
      | ExGenerating \<Rightarrow> generate_export E clock task timeout p key)))"

end
