(* ===== verification/Step_Logic.thy ===== *)
theory Step_Logic
  imports Sql
begin

text \<open>
  Assertions about fallible steps: \<open>ensures P m Q E\<close> says that \<open>m\<close>, started where \<open>P\<close> holds of the tables,
  ends with \<open>Q x\<close> when it returns \<open>x\<close> and with \<open>E\<close> when it fails, whatever faults occur.  One rule per
  construct; the collection \<open>ensures_rules\<close> takes a handler apart.
\<close>

definition ensures :: "('s \<Rightarrow> bool) \<Rightarrow> ('s, 'a, 'e) sql \<Rightarrow> ('a \<Rightarrow> 's \<Rightarrow> bool) \<Rightarrow> ('s \<Rightarrow> bool) \<Rightarrow> bool" where
  "ensures P m Q E \<longleftrightarrow>
    (\<forall>db x db'. m db = (Ok x, db') \<longrightarrow> P (tables db) \<longrightarrow> Q x (tables db')) \<and>
    (\<forall>db e db'. m db = (Err e, db') \<longrightarrow> P (tables db) \<longrightarrow> E (tables db'))"

named_theorems ensures_rules

lemma ensures_Ok: "ensures P m Q E \<Longrightarrow> m db = (Ok x, db') \<Longrightarrow> P (tables db) \<Longrightarrow> Q x (tables db')"
  by (auto simp: ensures_def)

lemma ensures_Err: "ensures P m Q E \<Longrightarrow> m db = (Err e, db') \<Longrightarrow> P (tables db) \<Longrightarrow> E (tables db')"
  by (auto simp: ensures_def)

lemma ensures_invariant:
  "ensures P m (\<lambda>_. R) R \<Longrightarrow> m db = (r, db') \<Longrightarrow> P (tables db) \<Longrightarrow> R (tables db')"
  by (cases r) (auto intro: ensures_Ok ensures_Err)

lemma ensures_weaken:
  assumes "ensures P m Q E" and "\<And>t. P' t \<Longrightarrow> P t" and "\<And>x t. Q x t \<Longrightarrow> Q' x t" and "\<And>t. E t \<Longrightarrow> E' t"
  shows "ensures P' m Q' E'"
  using assms unfolding ensures_def by blast

lemma ensures_bindq [ensures_rules]:
  assumes "ensures P m R E" and "\<And>x. ensures (R x) (k x) Q E"
  shows "ensures P (bindq m k) Q E"
  using assms unfolding ensures_def bindq_Ok bindq_Err by blast

lemma ensures_returnq [ensures_rules]: "(\<And>t. P t \<Longrightarrow> Q x t) \<Longrightarrow> ensures P (returnq x) Q E"
  by (simp add: ensures_def)

lemma ensures_failq [ensures_rules]: "(\<And>t. P t \<Longrightarrow> E t) \<Longrightarrow> ensures P (failq e) Q E"
  by (simp add: ensures_def)

lemma ensures_of_result [ensures_rules]:
  "(\<And>x t. r = Ok x \<Longrightarrow> P t \<Longrightarrow> Q x t) \<Longrightarrow> (\<And>e t. r = Err e \<Longrightarrow> P t \<Longrightarrow> E t) \<Longrightarrow> ensures P (of_result r) Q E"
  by (auto simp: ensures_def)

lemma ensures_map_errq [ensures_rules]: "ensures P m Q E \<Longrightarrow> ensures P (map_errq f m) Q E"
  unfolding ensures_def map_errq_Ok map_errq_Err by blast

lemma ensures_ignoreq [ensures_rules]:
  assumes "ensures P m (\<lambda>_. Q ()) (Q ())"
  shows "ensures P (ignoreq m) Q E"
  using ensures_invariant [OF assms prod.collapse [symmetric]] by (auto simp: ensures_def)

lemma ensures_query [ensures_rules]:
  assumes "\<And>t x t'. P t \<Longrightarrow> q t = (Ok x, t') \<Longrightarrow> Q x t'" and "\<And>t. P t \<Longrightarrow> E t"
  shows "ensures P (query q) Q E"
  using assms by (auto simp: ensures_def query_Ok dest: query_Err)

lemma ensures_select [ensures_rules]:
  "(\<And>t. P t \<Longrightarrow> Q (f t) t) \<Longrightarrow> (\<And>t. P t \<Longrightarrow> E t) \<Longrightarrow> ensures P (select f) Q E"
  unfolding select_def by (rule ensures_query) auto

lemma ensures_modify [ensures_rules]:
  "(\<And>t. P t \<Longrightarrow> Q () (f t)) \<Longrightarrow> (\<And>t. P t \<Longrightarrow> E t) \<Longrightarrow> ensures P (modify f) Q E"
  unfolding modify_def by (rule ensures_query) auto

lemma ensures_if [ensures_rules]:
  "(b \<Longrightarrow> ensures P m Q E) \<Longrightarrow> (\<not> b \<Longrightarrow> ensures P n Q E) \<Longrightarrow> ensures P (if b then m else n) Q E"
  by simp

lemma ensures_conj_pure: "(b \<Longrightarrow> ensures P m Q E) \<Longrightarrow> ensures (\<lambda>t. P t \<and> b) m Q E"
  by (auto simp: ensures_def)

lemma ensures_for_each:
  assumes "\<And>x. x \<in> set xs \<Longrightarrow> ensures P (f x) (\<lambda>_. P) P"
  shows "ensures P (for_each f xs) (\<lambda>_. P) P"
  using assms by (induction xs) (auto intro!: ensures_returnq ensures_bindq)

text \<open>A transaction that fails leaves the tables as they were.\<close>

lemma ensures_transaction:
  assumes "ensures P m Q (\<lambda>_. True)"
  shows "ensures P (transaction_with f g m) Q P"
  unfolding ensures_def
proof (intro conjI allI impI)
  fix db x db' assume "transaction_with f g m db = (Ok x, db')" "P (tables db)"
  with ensures_Ok [OF assms] show "Q x (tables db')" by (fastforce simp: transaction_Ok)
next
  fix db e db' assume "transaction_with f g m db = (Err e, db')" "P (tables db)"
  with transaction_Err [of f g m db e db'] show "P (tables db')" by simp
qed

end
