(* ===== verification/Export_Correctness.thy ===== *)
theory Export_Correctness
  imports Exports Step_Logic
begin

text \<open>
  Correctness of the exports: what is ready has been verified, a status only moves forward, and a run of
  the worker delivers the file.
\<close>

section \<open>The invariant of the worker's table and bucket\<close>

definition ready_verified :: "'j export_env \<Rightarrow> 'j export_world \<Rightarrow> export_row \<Rightarrow> bool" where
  "ready_verified E w r \<longleftrightarrow> (xw_status r = ''ready'' \<longrightarrow>
    (\<exists>owner bytes. xw_object_storage_key r = Some (export_storage_key owner (xw_id r)) \<and>
      ew_objects w (export_storage_key owner (xw_id r)) = Some bytes \<and>
      xw_checksum r = Some (xe_sha256 E bytes)))"

definition exports_ok :: "'j export_env \<Rightarrow> 'j export_world \<Rightarrow> bool" where
  "exports_ok E w \<longleftrightarrow> distinct (map xw_id (ew_jobs w)) \<and> (\<forall>r\<in>set (ew_jobs w). ready_verified E w r)"

text \<open>How far a status is: unknown texts count as final, the worker does not process them.\<close>

definition progress :: "string \<Rightarrow> nat" where
  "progress s = (if s = ''queued'' then 0 else if s = ''generating'' then 1 else 2)"

definition evolves :: "export_row \<Rightarrow> export_row \<Rightarrow> bool" where
  "evolves r0 r \<longleftrightarrow> r = r0 \<or>
    progress (xw_status r0) < progress (xw_status r) \<and> xw_status r \<in> {''generating'', ''ready'', ''failed''} \<and>
    xw_id r = xw_id r0 \<and> xw_activity_id r = xw_activity_id r0 \<and>
    xw_route_version_id r = xw_route_version_id r0 \<and> xw_requested_by r = xw_requested_by r0 \<and>
    xw_format r = xw_format r0 \<and> xw_idempotency_key r = xw_idempotency_key r0 \<and>
    xw_payload_hash r = xw_payload_hash r0 \<and> xw_created_at r = xw_created_at r0"

definition exports_since :: "'j export_env \<Rightarrow> export_row list \<Rightarrow> 'j export_world \<Rightarrow> bool" where
  "exports_since E rows0 w \<longleftrightarrow> exports_ok E w \<and> list_all2 evolves rows0 (ew_jobs w)"

lemma evolves_trans: "evolves r0 r1 \<Longrightarrow> evolves r1 r2 \<Longrightarrow> evolves r0 r2"
  by (auto simp: evolves_def)

lemma evolves_id: "evolves r0 r \<Longrightarrow> xw_id r = xw_id r0"
  by (auto simp: evolves_def)

lemma export_storage_key_inject [simp]:
  "export_storage_key u i = export_storage_key v j \<longleftrightarrow> u = v \<and> i = j"
proof
  assume "export_storage_key u i = export_storage_key v j"
  then have "uuid_to_string u @ (''/'' @ uuid_to_string i @ ''.gpx'') =
      uuid_to_string v @ (''/'' @ uuid_to_string j @ ''.gpx'')"
    by (simp add: export_storage_key_def)
  then show "u = v \<and> i = j" by (subst (asm) append_eq_append_conv) auto
qed simp

section \<open>Loading and storing a row\<close>

definition loaded :: "uuid \<Rightarrow> export_job \<Rightarrow> 'j export_world \<Rightarrow> bool" where
  "loaded i j w \<longleftrightarrow> (\<exists>r. find (\<lambda>r. xw_id r = i) (ew_jobs w) = Some r \<and> row_to_export r = Ok j)"

lemma ensures_load:
  assumes "\<And>t. P t \<Longrightarrow> E t"
  shows "ensures P (load_export_job i) (\<lambda>j t. P t \<and> loaded i j t) E"
proof -
  have sel: "ensures P (select (\<lambda>w. find (\<lambda>r. xw_id r = i) (ew_jobs w)))
      (\<lambda>found t. P t \<and> find (\<lambda>r. xw_id r = i) (ew_jobs t) = found) E"
    by (rule ensures_select) (auto simp: assms)
  have row: "ensures (\<lambda>t. P t \<and> find (\<lambda>r. xw_id r = i) (ew_jobs t) = found) (of_result (ok_or e found))
      (\<lambda>r t. P t \<and> find (\<lambda>r. xw_id r = i) (ew_jobs t) = Some r) E" for e :: export_failure and found
    by (rule ensures_of_result) (auto simp: result_simps assms)
  have parse: "ensures (\<lambda>t. P t \<and> find (\<lambda>r. xw_id r = i) (ew_jobs t) = Some r) (of_result (row_to_export r))
      (\<lambda>j t. P t \<and> loaded i j t) E" for r
    by (rule ensures_of_result) (auto simp: loaded_def assms)
  show ?thesis
    unfolding load_export_job_def by (rule ensures_bindq [OF ensures_map_errq [OF sel] ensures_bindq [OF row parse]])
qed

lemma export_status_text:
  "parse_export_status s = Ok st \<longleftrightarrow> s = export_status_to_string st"
  by (cases st) (auto simp: parse_export_status_def)

lemma row_to_export_fields:
  "row_to_export r = Ok j \<Longrightarrow> ex_id j = ExportJobId (xw_id r) \<and> xw_status r = export_status_to_string (ex_status j) \<and>
    xw_format r = ''gpx'' \<and> ex_object_storage_key j = xw_object_storage_key r \<and> ex_checksum j = xw_checksum r \<and>
    set_export_columns j r = r"
  by (auto simp: row_to_export_def result_simps export_status_text set_export_columns_def split: if_splits)

lemma find_id_unique:
  assumes "exports_ok E w" and "find (\<lambda>r. xw_id r = i) (ew_jobs w) = Some r"
  shows "r \<in> set (ew_jobs w)" and "xw_id r = i" and "q \<in> set (ew_jobs w) \<Longrightarrow> xw_id q = i \<Longrightarrow> q = r"
proof -
  from assms(2) show r: "r \<in> set (ew_jobs w)" "xw_id r = i" by (auto simp: find_Some_iff)
  from assms(1) r show "q \<in> set (ew_jobs w) \<Longrightarrow> xw_id q = i \<Longrightarrow> q = r"
    by (auto simp: exports_ok_def distinct_map dest: inj_onD)
qed

text \<open>When storing a changed job keeps what has been promised.\<close>

definition may_store :: "'j export_env \<Rightarrow> 'j export_world \<Rightarrow> export_job \<Rightarrow> export_job \<Rightarrow> bool" where
  "may_store E w j j' \<longleftrightarrow> j' = j \<or>
    ex_id j' = ex_id j \<and>
    progress (export_status_to_string (ex_status j)) < progress (export_status_to_string (ex_status j')) \<and>
    ex_status j' \<noteq> ExExpired \<and>
    (ex_status j' = ExReady \<longrightarrow> (\<exists>owner bytes.
      ex_object_storage_key j' = Some (export_storage_key owner (export_uuid (ex_id j))) \<and>
      ew_objects w (export_storage_key owner (export_uuid (ex_id j))) = Some bytes \<and>
      ex_checksum j' = Some (xe_sha256 E bytes)))"

lemma store_keeps:
  assumes inv: "exports_since E rows0 w" and "loaded i j w" and store: "may_store E w j j'"
  shows "exports_since E rows0 (w\<lparr>ew_jobs := map (\<lambda>r.
    if xw_id r = export_uuid (ex_id j') then set_export_columns j' r else r) (ew_jobs w)\<rparr>)"
proof -
  let ?f = "\<lambda>r. if xw_id r = export_uuid (ex_id j') then set_export_columns j' r else r"
  from assms(2) obtain r where find: "find (\<lambda>r. xw_id r = i) (ew_jobs w) = Some r" and r: "row_to_export r = Ok j"
    by (auto simp: loaded_def)
  note ok = inv [unfolded exports_since_def, THEN conjunct1]
  note u = find_id_unique [OF ok find] and fields = row_to_export_fields [OF r]
  have id: "export_uuid (ex_id j') = i" using store fields u(2) by (auto simp: may_store_def)
  have other: "?f q = q" if "q \<in> set (ew_jobs w)" "q \<noteq> r" for q using u(3) that id by auto
  have one: "?f r = set_export_columns j' r" using u(2) id by simp
  have step: "evolves q (?f q) \<and> ready_verified E w (?f q)" if q: "q \<in> set (ew_jobs w)" for q
  proof (cases "q = r \<and> j' \<noteq> j")
    case True
    then have st: "progress (xw_status r) < progress (export_status_to_string (ex_status j'))"
      "ex_status j' \<noteq> ExExpired" using store fields by (auto simp: may_store_def)
    then have "export_status_to_string (ex_status j') \<in> {''generating'', ''ready'', ''failed''}"
      by (cases "ex_status j'") (auto simp: progress_def)
    moreover have "export_format_to_string (ex_format j') = ''gpx''" by (cases "ex_format j'") simp
    ultimately have "evolves r (set_export_columns j' r)"
      using st fields by (auto simp: evolves_def set_export_columns_def)
    moreover have "ready_verified E w (set_export_columns j' r)"
      using store True fields u(2)
      by (cases "ex_status j'") (auto simp: ready_verified_def may_store_def set_export_columns_def)
    ultimately show ?thesis using True one by (elim conjE) (simp only:)
  next
    case False
    have "?f q = q"
    proof (cases "q = r")
      case True
      with False fields one show ?thesis by (elim conjE) (simp only:, simp)
    next
      case False
      with other q show ?thesis by blast
    qed
    with ok q show ?thesis by (auto simp: exports_ok_def evolves_def)
  qed
  have "list_all2 evolves rows0 (map ?f (ew_jobs w))"
  proof -
    have "list_all2 evolves rows0 (ew_jobs w)" using inv by (simp add: exports_since_def)
    moreover have "list_all2 evolves (ew_jobs w) (map ?f (ew_jobs w))"
      using step by (auto simp: list_all2_map2 list_all2_same)
    ultimately show ?thesis using list_all2_trans [of evolves evolves evolves] evolves_trans by blast
  qed
  moreover have "map xw_id (map ?f (ew_jobs w)) = map xw_id (ew_jobs w)"
    by (auto simp: set_export_columns_def)
  moreover have "ready_verified E (w\<lparr>ew_jobs := x\<rparr>) = ready_verified E w" for x
    by (simp add: ready_verified_def fun_eq_iff)
  moreover have "\<forall>r\<in>set (map ?f (ew_jobs w)). ready_verified E w r"
  proof
    fix r' assume "r' \<in> set (map ?f (ew_jobs w))"
    then obtain q where "q \<in> set (ew_jobs w)" "r' = ?f q" unfolding set_map by (rule imageE)
    with step show "ready_verified E w r'" by blast
  qed
  ultimately show ?thesis
    using ok by (simp add: exports_since_def exports_ok_def del: map_map set_map)
qed

text \<open>Where the job can still change, nothing is ready under its id.\<close>

definition unfinished :: "uuid \<Rightarrow> 'j export_world \<Rightarrow> bool" where
  "unfinished i w \<longleftrightarrow> (\<forall>r\<in>set (ew_jobs w). xw_id r = i \<longrightarrow> xw_status r \<noteq> ''ready'')"

lemma loaded_unfinished:
  assumes "exports_since E rows0 w" and "loaded i j w" and "ex_status j \<noteq> ExReady"
  shows "unfinished i w"
proof -
  from assms(2) obtain r where find: "find (\<lambda>r. xw_id r = i) (ew_jobs w) = Some r" and r: "row_to_export r = Ok j"
    by (auto simp: loaded_def)
  from assms(1) have "exports_ok E w" by (simp add: exports_since_def)
  note u = find_id_unique [OF this find]
  from row_to_export_fields [OF r] assms(3) have "xw_status r \<noteq> ''ready''" by (cases "ex_status j") auto
  with u(3) show ?thesis unfolding unfinished_def by blast
qed

lemma ensures_persist:
  "ensures (\<lambda>t. exports_since E rows0 t \<and> loaded i j t \<and> may_store E t j j') (persist_export_job j')
    (\<lambda>_. exports_since E rows0) (exports_since E rows0)"
  unfolding persist_export_job_def by (intro ensures_rules) (auto intro: store_keeps)

lemma ensures_persist_unfinished:
  "ensures (\<lambda>t. exports_since E rows0 t \<and> loaded i j t \<and> may_store E t j j' \<and> ex_status j' \<noteq> ExReady)
    (persist_export_job j') (\<lambda>_ t. exports_since E rows0 t \<and> unfinished i t) (exports_since E rows0)"
proof -
  let ?P = "\<lambda>t. exports_since E rows0 t \<and> loaded i j t \<and> may_store E t j j' \<and> ex_status j' \<noteq> ExReady"
  have "unfinished i (w\<lparr>ew_jobs := map (\<lambda>r. if xw_id r = export_uuid (ex_id j') then set_export_columns j' r else r)
      (ew_jobs w)\<rparr>)" if P: "?P w" for w
  proof -
    from P obtain r where find: "find (\<lambda>r. xw_id r = i) (ew_jobs w) = Some r" and r: "row_to_export r = Ok j"
      by (auto simp: loaded_def)
    from find have "xw_id r = i" by (auto simp: find_Some_iff)
    with P row_to_export_fields [OF r] have "export_uuid (ex_id j') = i" by (auto simp: may_store_def)
    then show ?thesis using P by (cases "ex_status j'") (auto simp: unfinished_def set_export_columns_def)
  qed
  then show ?thesis unfolding persist_export_job_def by (intro ensures_rules) (auto intro: store_keeps)
qed

section \<open>The handler keeps the invariant\<close>

abbreviation ens_inv :: "'j export_env \<Rightarrow> export_row list \<Rightarrow> ('j, 'a) export_step \<Rightarrow> bool" where
  "ens_inv E rows0 m \<equiv> ensures (exports_since E rows0) m (\<lambda>_. exports_since E rows0) (exports_since E rows0)"

lemma export_call_Ok [simp]: "map_err (ExBadTransition what) r = Ok j \<longleftrightarrow> r = Ok j"
  by (cases r) auto

lemma ensures_export_call:
  assumes "\<And>j t. r = Ok j \<Longrightarrow> P t \<Longrightarrow> Q j t" and "\<And>t. P t \<Longrightarrow> E t"
  shows "ensures P (export_call what r) Q E"
  unfolding export_call_def by (rule ensures_of_result) (auto simp: assms)

lemma ens_call_persist:
  assumes "\<And>j' t. r = Ok j' \<Longrightarrow> loaded i j t \<Longrightarrow> P t \<Longrightarrow> may_store E t j j'"
  shows "ensures (\<lambda>t. exports_since E rows0 t \<and> loaded i j t \<and> P t) (bindq (export_call what r) persist_export_job)
    (\<lambda>_. exports_since E rows0) (exports_since E rows0)"
  by (rule ensures_bindq [where R = "\<lambda>j' t. exports_since E rows0 t \<and> loaded i j t \<and> may_store E t j j'"])
    (rule ensures_export_call, use assms in blast, blast, rule ensures_persist)

lemma ens_mark_failed: "ens_inv E rows0 (mark_failed now i reason)"
proof -
  have store: "may_store E t j j'" if "export_fail now reason j = Ok j'" "\<not> export_is_terminal (ex_status j)"
    for t :: "'a export_world" and j j'
  proof -
    from that have "j' = j\<lparr>ex_status := ExFailed, ex_failure_reason := Some reason, ex_updated_at := now\<rparr>"
      by (auto simp: export_fail_def result_simps export_transition_to_def split: if_splits)
    with that(2) show ?thesis
      by (cases "ex_status j") (simp_all add: may_store_def progress_def export_is_terminal_def)
  qed
  have "ensures (\<lambda>t. exports_since E rows0 t \<and> loaded i j t)
      (if \<not> export_is_terminal (ex_status j)
       then bindq (export_call ''fail'' (export_fail now reason j)) persist_export_job else returnq ())
      (\<lambda>_. exports_since E rows0) (exports_since E rows0)" for j
    using ens_call_persist [of "export_fail now reason j" i j "\<lambda>_. True" E rows0 "''fail''"] store
    by (intro ensures_if) (simp_all, intro ensures_returnq, simp)
  then show ?thesis
    unfolding mark_failed_def by (intro ensures_ignoreq ensures_bindq [OF ensures_load]) simp_all
qed

lemma ens_fail_export: "ensures (exports_since E rows0) (fail_export now i reason) Q (exports_since E rows0)"
  unfolding fail_export_def by (rule ensures_bindq [OF ens_mark_failed]) (auto intro: ensures_failq)

lemma ens_or_fail:
  fixes m :: "('j export_world, 'a, 'e) sql"
  assumes "ensures P m Q (exports_since E rows0)"
  shows "ensures P (or_fail now i reason m) Q (exports_since E rows0)"
  unfolding ensures_def
proof (intro conjI allI impI)
  note fail = ens_fail_export [of E rows0 now i]
  fix db x db' assume run: "or_fail now i reason m db = (Ok x, db')" and P: "P (tables db)"
  show "Q x (tables db')"
  proof (cases "fst (m db)")
    case (Ok y)
    with run assms P show ?thesis by (auto simp: or_fail_def split: prod.splits dest: ensures_Ok)
  next
    case (Err e)
    with run show ?thesis by (auto simp: or_fail_def fail_export_def bindq_Ok split: prod.splits)
  qed
next
  note fail = ens_fail_export [of E rows0 now i]
  fix db e db' assume run: "or_fail now i reason m db = (Err e, db')" and P: "P (tables db)"
  then obtain e1 db1 where m: "m db = (Err e1, db1)"
    and run1: "(fail_export now i (reason e1) :: ('j, 'a) export_step) db1 = (Err e, db')"
    by (auto simp: or_fail_def split: prod.splits result.splits)
  show "exports_since E rows0 (tables db')"
    by (rule ensures_Err [OF ens_fail_export run1 ensures_Err [OF assms m P]])
qed

lemma completed_Ok:
  "complete_with_verified_checksum now key expected verified expires j = Ok j' \<longleftrightarrow>
    expected = verified \<and> ex_status j = ExGenerating \<and>
    j' = j\<lparr>ex_status := ExReady, ex_object_storage_key := Some key, ex_checksum := Some expected,
            ex_expires_at := Some expires, ex_updated_at := now\<rparr>"
  by (cases "ex_status j")
    (auto simp: complete_with_verified_checksum_def result_simps export_transition_to_def export_is_terminal_def)

lemma start_generating_Ok:
  "start_generating now j = Ok j' \<longleftrightarrow>
    ex_status j = ExQueued \<and> j' = j\<lparr>ex_status := ExGenerating, ex_updated_at := now\<rparr>"
  by (cases "ex_status j")
    (auto simp: start_generating_def result_simps export_transition_to_def export_is_terminal_def)

lemma loaded_id: "loaded i j w \<Longrightarrow> ex_id j = ExportJobId i"
  by (auto simp: loaded_def find_Some_iff dest!: row_to_export_fields)

text \<open>A completed job may be stored when the bucket holds what its checksum is of.\<close>

lemma may_store_complete:
  assumes "loaded i j w" and "ew_objects w (export_storage_key owner i) = Some bytes"
    and "ex_status j = ExQueued \<or> ex_status j = ExGenerating" and "ex_id j' = ex_id j"
    and "ex_status j' = ExReady" and "ex_object_storage_key j' = Some (export_storage_key owner i)"
    and "ex_checksum j' = Some (xe_sha256 E bytes)"
  shows "may_store E w j j'"
  using assms loaded_id [OF assms(1)] by (auto simp: may_store_def progress_def)

lemma ensures_download:
  assumes "\<And>t. P t \<Longrightarrow> E t"
  shows "ensures P (os_download key) (\<lambda>bytes t. P t \<and> ew_objects t key = Some bytes) E"
  unfolding os_download_def by (rule ensures_query) (auto simp: result_simps assms)

lemma ens_resume: "ens_inv E rows0 (resume_export E clock i (export_storage_key owner i))"
proof -
  let ?key = "export_storage_key owner i"
  let ?A = "\<lambda>j bytes t. exports_since E rows0 t \<and> loaded i j t \<and> ew_objects t ?key = Some bytes"
  let ?C = "\<lambda>j j1. ex_status j \<noteq> ExQueued \<and> j1 = j \<or>
    ex_status j = ExQueued \<and> j1 = j\<lparr>ex_status := ExGenerating, ex_updated_at := clock 1\<rparr>"
  have store: "ensures (\<lambda>t. exports_since E rows0 t \<and> loaded i j t)
      (bindq (map_errq (ExFault ''failed to download existing export for checksum'') (os_download ?key)) (\<lambda>bytes.
        bindq (if ex_status j = ExQueued
          then export_call ''failed to transition to generating'' (start_generating (clock 1) j)
          else returnq j) (\<lambda>j1.
        bindq (if ex_status j1 = ExGenerating
          then export_call ''failed to complete export job''
            (complete_with_verified_checksum (clock 2) ?key (xe_sha256 E bytes) (xe_sha256 E bytes)
              (clock 0 + HOURS_24) j1)
          else returnq j1) persist_export_job)))
      (\<lambda>_. exports_since E rows0) (exports_since E rows0)"
    if "ex_status j \<noteq> ExReady" for j
  proof (intro ensures_bindq [OF ensures_map_errq [OF ensures_download]])
    fix bytes
    show "ensures (\<lambda>t. (exports_since E rows0 t \<and> loaded i j t) \<and> ew_objects t ?key = Some bytes)
      (bindq (if ex_status j = ExQueued
          then export_call ''failed to transition to generating'' (start_generating (clock 1) j)
          else returnq j) (\<lambda>j1.
        bindq (if ex_status j1 = ExGenerating
          then export_call ''failed to complete export job''
            (complete_with_verified_checksum (clock 2) ?key (xe_sha256 E bytes) (xe_sha256 E bytes)
              (clock 0 + HOURS_24) j1)
          else returnq j1) persist_export_job))
      (\<lambda>_. exports_since E rows0) (exports_since E rows0)"
    proof (rule ensures_bindq [where R = "\<lambda>j1 t. ?A j bytes t \<and> ?C j j1"])
      show "ensures (\<lambda>t. (exports_since E rows0 t \<and> loaded i j t) \<and> ew_objects t ?key = Some bytes)
          (if ex_status j = ExQueued
           then export_call ''failed to transition to generating'' (start_generating (clock 1) j) else returnq j)
          (\<lambda>j1 t. ?A j bytes t \<and> ?C j j1) (exports_since E rows0)"
        by (intro ensures_if ensures_export_call ensures_returnq) (auto simp: start_generating_Ok)
    next
      fix j1
      show "ensures (\<lambda>t. ?A j bytes t \<and> ?C j j1)
          (bindq (if ex_status j1 = ExGenerating
            then export_call ''failed to complete export job''
              (complete_with_verified_checksum (clock 2) ?key (xe_sha256 E bytes) (xe_sha256 E bytes)
                (clock 0 + HOURS_24) j1)
            else returnq j1) persist_export_job)
          (\<lambda>_. exports_since E rows0) (exports_since E rows0)"
      proof (rule ensures_bindq [OF _ ensures_persist [of E rows0 i j]])
        show "ensures (\<lambda>t. ?A j bytes t \<and> ?C j j1)
            (if ex_status j1 = ExGenerating
             then export_call ''failed to complete export job''
               (complete_with_verified_checksum (clock 2) ?key (xe_sha256 E bytes) (xe_sha256 E bytes)
                 (clock 0 + HOURS_24) j1)
             else returnq j1)
            (\<lambda>j2 t. exports_since E rows0 t \<and> loaded i j t \<and> may_store E t j j2) (exports_since E rows0)"
        proof (intro ensures_if ensures_export_call ensures_returnq)
          fix j2 t
          assume "complete_with_verified_checksum (clock 2) ?key (xe_sha256 E bytes) (xe_sha256 E bytes)
              (clock 0 + HOURS_24) j1 = Ok j2" and t: "?A j bytes t \<and> ?C j j1"
          then have "ex_status j1 = ExGenerating" and j2: "j2 = j1\<lparr>ex_status := ExReady,
              ex_object_storage_key := Some ?key, ex_checksum := Some (xe_sha256 E bytes),
              ex_expires_at := Some (clock 0 + HOURS_24), ex_updated_at := clock 2\<rparr>"
            by (simp_all add: completed_Ok)
          with t have "may_store E t j j2"
            by (intro may_store_complete [of i j t owner bytes]) auto
          with t show "exports_since E rows0 t \<and> loaded i j t \<and> may_store E t j j2" by blast
        next
          fix t assume "ex_status j1 \<noteq> ExGenerating" "?A j bytes t \<and> ?C j j1"
          then show "exports_since E rows0 t \<and> loaded i j t \<and> may_store E t j j1"
            by (auto simp: may_store_def)
        qed simp_all
      qed
    qed
  qed simp
  show ?thesis
    unfolding resume_export_def Let_def
    by (rule ensures_bindq [OF ensures_load], simp, rule ensures_if, rule store, assumption,
      rule ensures_returnq, simp)
qed

text \<open>The state in which a file is generated: the job can still change.\<close>

definition pending :: "'j export_env \<Rightarrow> export_row list \<Rightarrow> uuid \<Rightarrow> 'j export_world \<Rightarrow> bool" where
  "pending E rows0 i w \<longleftrightarrow> exports_since E rows0 w \<and> unfinished i w"

lemma pendingD: "pending E rows0 i w \<Longrightarrow> exports_since E rows0 w"
  by (simp add: pending_def)

lemma ens_fail_pending: "ensures (pending E rows0 i) (fail_export now k reason) Q (exports_since E rows0)"
  by (rule ensures_weaken [OF ens_fail_export [where Q = Q]]) (auto dest: pendingD)

lemma upload_keeps:
  assumes "pending E rows0 i w"
  shows "pending E rows0 i (w\<lparr>ew_objects := (ew_objects w)(export_storage_key owner i \<mapsto> body)\<rparr>)"
proof -
  from assms have "ready_verified E (w\<lparr>ew_objects := (ew_objects w)(export_storage_key owner i \<mapsto> body)\<rparr>) r"
    if "r \<in> set (ew_jobs w)" for r
    using that by (fastforce simp: pending_def exports_since_def exports_ok_def unfinished_def ready_verified_def)
  with assms show ?thesis by (auto simp: pending_def exports_since_def exports_ok_def unfinished_def)
qed

lemma ens_publish:
  "ensures (pending E rows0 i) (publish_export E clock i (export_storage_key owner i) bytes)
    (\<lambda>_. exports_since E rows0) (exports_since E rows0)"
proof -
  let ?key = "export_storage_key owner i"
  let ?I = "exports_since E rows0"
  have upload: "ensures (pending E rows0 i) (or_fail now i reason (os_upload (xe_stored E) ?key bytes))
      (\<lambda>_. ?I) ?I" for now and reason :: "db_error \<Rightarrow> string"
    unfolding os_upload_def
    by (intro ens_or_fail ensures_modify) (auto intro: upload_keeps pendingD)
  have read: "ensures ?I (or_fail now i reason (os_download ?key)) (\<lambda>b t. ?I t \<and> ew_objects t ?key = Some b) ?I"
    for now and reason :: "db_error \<Rightarrow> string"
    by (intro ens_or_fail ensures_download)
  have finish: "ensures (\<lambda>t. ?I t \<and> loaded i j t \<and> ew_objects t ?key = Some b)
      (if ex_status j = ExGenerating then
         bindq (export_call what (complete_with_verified_checksum now ?key (xe_sha256 E bytes) (xe_sha256 E b)
           expires j)) persist_export_job
       else returnq ()) (\<lambda>_. ?I) ?I" if "xe_sha256 E bytes = xe_sha256 E b" for j b what now expires
    using that
    by (intro ensures_if ens_call_persist ensures_returnq)
      (auto simp: completed_Ok intro!: may_store_complete)
  have "ensures (\<lambda>t. (?I t \<and> ew_objects t ?key = Some b) \<and> loaded i j t)
      (if ex_status j = ExGenerating then
         bindq (export_call what (complete_with_verified_checksum now ?key (xe_sha256 E bytes) (xe_sha256 E b)
           expires j)) persist_export_job
       else returnq ()) (\<lambda>_. ?I) ?I" if "xe_sha256 E bytes = xe_sha256 E b" for j b what now expires
    by (rule ensures_weaken [OF finish [OF that]]) auto
  note verified = ensures_bindq [OF ensures_load this]
  have mismatch: "ensures (\<lambda>t. ?I t \<and> ew_objects t ?key = Some b) (fail_export now i reason) (\<lambda>_. ?I) ?I"
    for b now reason
    by (rule ensures_weaken [OF ens_fail_export [where Q = "\<lambda>_. ?I"]]) auto
  show ?thesis
    unfolding publish_export_def Let_def
    by (intro ensures_bindq [OF upload] ensures_bindq [OF read] ensures_if mismatch verified) auto
qed

lemma ens_generate:
  "ensures (pending E rows0 (gj_export_job_id p))
    (generate_export E clock task timeout p (export_storage_key owner (gj_export_job_id p)))
    (\<lambda>_. exports_since E rows0) (exports_since E rows0)"
proof -
  let ?P = "pending E rows0 (gj_export_job_id p)" and ?I = "exports_since E rows0"
  have geometry: "ensures ?P (or_fail now i reason (load_geometry v)) (\<lambda>_. ?P) ?I"
    for now i v and reason :: "export_failure \<Rightarrow> string"
    unfolding load_geometry_def
    by (intro ens_or_fail ensures_bindq [OF ensures_map_errq [OF ensures_select [where Q = "\<lambda>_. ?P"]]]
      ensures_of_result) (auto dest: pendingD)
  have parse: "ensures ?P (or_fail now i reason (of_result r)) (\<lambda>_. ?P) ?I"
    for now i and reason :: "string \<Rightarrow> string" and r :: "(gpx_out_point list list, string) result"
    by (intro ens_or_fail ensures_of_result) (auto dest: pendingD)
  have name: "ensures ?P (\<lambda>s. case load_activity_name a s of
         (Ok name, s') \<Rightarrow> (Ok name, s') | (Err _, s') \<Rightarrow> (Ok None, s')) (\<lambda>_. ?P) ?I" for a
  proof -
    have "ensures ?P (load_activity_name a) (\<lambda>_. ?P) ?P"
      unfolding load_activity_name_def
      by (intro ensures_bindq [OF ensures_map_errq [OF ensures_select [where Q = "\<lambda>_. ?P"]]] ensures_returnq)
    then show ?thesis unfolding ensures_def by (fastforce split: prod.splits result.splits)
  qed
  have run: "ensures ?P (run_generator E task timeout now (gj_export_job_id p) input) (\<lambda>_. ?P) ?I" for now input
    unfolding run_generator_def
    by (cases task) (auto simp: generate_gpx_def intro!: ensures_returnq ens_fail_pending)
  show ?thesis
    unfolding generate_export_def Let_def
    by (intro ensures_bindq [OF geometry] ensures_bindq [OF parse] ensures_bindq [OF name] ensures_if
        ens_fail_pending ensures_bindq [OF run] ens_publish)
qed

lemma ens_process: "ens_inv E rows0 (process_export E clock task timeout payload)"
proof -
  let ?I = "exports_since E rows0"
  have start: "ensures (\<lambda>t. ?I t \<and> loaded i j t) (export_call what (start_generating now j))
      (\<lambda>j1 t. ?I t \<and> loaded i j t \<and> may_store E t j j1 \<and> ex_status j1 \<noteq> ExReady) ?I" for i j what now
    by (rule ensures_export_call) (auto simp: start_generating_Ok may_store_def progress_def)
  have queued: "ensures (\<lambda>t. ?I t \<and> loaded (gj_export_job_id p) j t)
      (bindq (export_call what (start_generating now j)) (\<lambda>j1. bindq (persist_export_job j1) (\<lambda>_.
        generate_export E clock task timeout p (export_storage_key owner (gj_export_job_id p)))))
      (\<lambda>_. ?I) ?I" for j p what now owner
    by (rule ensures_bindq [OF start], rule ensures_bindq [OF ensures_persist_unfinished],
      rule ens_generate [unfolded pending_def])
  have generating: "ensures (\<lambda>t. ?I t \<and> loaded (gj_export_job_id p) j t)
      (generate_export E clock task timeout p (export_storage_key owner (gj_export_job_id p)))
      (\<lambda>_. ?I) ?I" if "ex_status j = ExGenerating" for j p owner
    by (rule ensures_weaken [OF ens_generate]) (use that in \<open>auto simp: pending_def intro: loaded_unfinished\<close>)
  have body: "ens_inv E rows0 (bindq (load_export_job (gj_export_job_id p)) (\<lambda>j.
      case ex_status j of
        ExReady \<Rightarrow> returnq ()
      | ExFailed \<Rightarrow> failq (ExTerminalState ExFailed)
      | ExExpired \<Rightarrow> failq (ExTerminalState ExExpired)
      | ExQueued \<Rightarrow> bindq (export_call what (start_generating now j)) (\<lambda>j1. bindq (persist_export_job j1) (\<lambda>_.
          generate_export E clock task timeout p (export_storage_key owner (gj_export_job_id p))))
      | ExGenerating \<Rightarrow> generate_export E clock task timeout p (export_storage_key owner (gj_export_job_id p))))"
    for p what now owner
  proof (rule ensures_bindq [OF ensures_load])
    fix j
    show "ensures (\<lambda>t. ?I t \<and> loaded (gj_export_job_id p) j t) (case ex_status j of
        ExReady \<Rightarrow> returnq ()
      | ExFailed \<Rightarrow> failq (ExTerminalState ExFailed)
      | ExExpired \<Rightarrow> failq (ExTerminalState ExExpired)
      | ExQueued \<Rightarrow> bindq (export_call what (start_generating now j)) (\<lambda>j1. bindq (persist_export_job j1) (\<lambda>_.
          generate_export E clock task timeout p (export_storage_key owner (gj_export_job_id p))))
      | ExGenerating \<Rightarrow> generate_export E clock task timeout p (export_storage_key owner (gj_export_job_id p)))
      (\<lambda>_. ?I) ?I"
      by (cases "ex_status j") (auto intro: ensures_returnq ensures_failq queued generating)
  qed
  show ?thesis
    unfolding process_export_def Let_def
    by (rule ensures_bindq [OF ensures_of_result [where Q = "\<lambda>_. ?I"]], simp, simp,
      rule ensures_bindq [OF ensures_map_errq], unfold os_exists_def, rule ensures_select [where Q = "\<lambda>_. ?I"],
      simp, simp, rule ensures_if, rule ens_resume, rule body)
qed

section \<open>A run without faults\<close>

lemma load_faultless:
  "faults db = [] \<Longrightarrow> find (\<lambda>r. xw_id r = i) (ew_jobs (tables db)) = Some r \<Longrightarrow> row_to_export r = Ok j \<Longrightarrow>
    load_export_job i db = (Ok j, db)"
  by (simp add: load_export_job_def bindq_def map_errq_def select_faultless)

definition with_job :: "export_job \<Rightarrow> 'j export_world \<Rightarrow> 'j export_world" where
  "with_job j w = w\<lparr>ew_jobs := map (\<lambda>r. if xw_id r = export_uuid (ex_id j) then set_export_columns j r else r) (ew_jobs w)\<rparr>"

lemma persist_faultless:
  "faults db = [] \<Longrightarrow> persist_export_job j db = (Ok (), db\<lparr>tables := with_job j (tables db)\<rparr>)"
  by (simp add: persist_export_job_def map_errq_def modify_faultless with_job_def)

lemma find_map_id:
  "(\<And>r. xw_id (f r) = xw_id r) \<Longrightarrow> find (\<lambda>r. xw_id r = i) (map f rows) = map_option f (find (\<lambda>r. xw_id r = i) rows)"
  by (induction rows) auto

lemma find_with_job:
  assumes "find (\<lambda>r. xw_id r = i) (ew_jobs w) = Some r" and "ex_id j = ExportJobId i"
  shows "find (\<lambda>r. xw_id r = i) (ew_jobs (with_job j w)) = Some (set_export_columns j r)"
proof -
  have "xw_id r = i" using assms(1) by (auto simp: find_Some_iff)
  then show ?thesis using assms
    by (simp add: with_job_def find_map_id set_export_columns_def)
qed

lemma with_job_frame [simp]:
  "ew_objects (with_job j w) = ew_objects w" "ew_geometry (with_job j w) = ew_geometry w"
  "ew_titles (with_job j w) = ew_titles w"
  by (simp_all add: with_job_def)

text \<open>What a job has in common with its row for good.\<close>

definition same_request :: "export_job \<Rightarrow> export_job \<Rightarrow> bool" where
  "same_request j k \<longleftrightarrow> ex_id j = ex_id k \<and> ex_activity_id j = ex_activity_id k \<and>
    ex_route_version_id j = ex_route_version_id k \<and> ex_requested_by j = ex_requested_by k \<and>
    ex_idempotency_key j = ex_idempotency_key k \<and> ex_payload_hash j = ex_payload_hash k \<and>
    ex_created_at j = ex_created_at k"

lemma row_to_export_set:
  assumes "row_to_export r = Ok k" and "same_request j k"
  shows "row_to_export (set_export_columns j r) = Ok j"
proof -
  have "parse_export_status (export_status_to_string (ex_status j)) = Ok (ex_status j)"
    by (simp add: export_status_text)
  moreover have "export_format_to_string (ex_format j) = ''gpx''" "ex_format j = GpxFormat"
    by (cases "ex_format j", simp)+
  ultimately show ?thesis
    using assms by (cases j) (auto simp: row_to_export_def set_export_columns_def result_simps same_request_def
      split: if_splits)
qed

text \<open>The name that goes into the file: the activity's title, if there is one.\<close>

definition export_name :: "'j export_world \<Rightarrow> uuid \<Rightarrow> string option" where
  "export_name w a = (case ew_titles w a of None \<Rightarrow> None | Some title \<Rightarrow> title)"

lemma publish_faultless:
  assumes "faults db = []" and "find (\<lambda>r. xw_id r = i) (ew_jobs (tables db)) = Some r"
    and "row_to_export r = Ok j" and "ex_status j = ExGenerating" and "xe_stored E = id"
  shows "publish_export E clock i key out db = (Ok (), db\<lparr>tables :=
    with_job (j\<lparr>ex_status := ExReady, ex_object_storage_key := Some key, ex_checksum := Some (xe_sha256 E out),
        ex_expires_at := Some (clock 3 + HOURS_24), ex_updated_at := clock 4\<rparr>)
      ((tables db)\<lparr>ew_objects := (ew_objects (tables db))(key \<mapsto> out)\<rparr>)\<rparr>)"
proof -
  let ?db = "db\<lparr>tables := (tables db)\<lparr>ew_objects := (ew_objects (tables db))(key \<mapsto> out)\<rparr>\<rparr>"
  have load: "load_export_job i ?db = (Ok j, ?db)"
    by (rule load_faultless) (use assms(1-3) in simp_all)
  have completed: "complete_with_verified_checksum (clock 4) key (xe_sha256 E out) (xe_sha256 E out)
      (clock 3 + HOURS_24) j = Ok (j\<lparr>ex_status := ExReady, ex_object_storage_key := Some key,
        ex_checksum := Some (xe_sha256 E out), ex_expires_at := Some (clock 3 + HOURS_24),
        ex_updated_at := clock 4\<rparr>)"
    by (simp add: completed_Ok assms(4))
  show ?thesis
    using assms(1,4,5)
    by (simp add: publish_export_def Let_def bindq_def or_fail_def os_upload_def os_download_def modify_faultless
        query_faultless load export_call_def completed persist_faultless)
qed

lemma generate_faultless:
  assumes "faults db = []" and "find (\<lambda>r. xw_id r = gj_export_job_id p) (ew_jobs (tables db)) = Some r"
    and "row_to_export r = Ok j" and "ex_status j = ExGenerating" and "xe_stored E = id"
    and "ew_geometry (tables db) (gj_route_version_id p) = Some json"
    and "parse_geometry_json E json = Ok segs" and "sum_list (map length segs) \<le> 500000"
    and "generate_gpx (xe_escape E) \<lparr>gi_activity_name = export_name (tables db) (gj_activity_id p), gi_segments = segs\<rparr> =
      Ok out"
  shows "generate_export E clock Finished timeout p key db = publish_export E clock (gj_export_job_id p) key out db"
  using assms
  by (simp add: generate_export_def Let_def bindq_def or_fail_def load_geometry_def map_errq_def select_faultless
      load_activity_name_def run_generator_def MAX_EXPORT_POINTS_def export_name_def)

lemma process_started:
  assumes "faults db = []" and "find (\<lambda>r. xw_id r = gj_export_job_id p) (ew_jobs (tables db)) = Some r"
    and "row_to_export r = Ok j" and "ex_status j = ExQueued \<or> ex_status j = ExGenerating"
    and "ew_objects (tables db) (export_storage_key (gj_owner_id p) (gj_export_job_id p)) = None"
  obtains db1 r1 j1 where "process_export E clock task timeout (Some p) db =
      generate_export E clock task timeout p (export_storage_key (gj_owner_id p) (gj_export_job_id p)) db1"
    and "faults db1 = []" and "find (\<lambda>r. xw_id r = gj_export_job_id p) (ew_jobs (tables db1)) = Some r1"
    and "row_to_export r1 = Ok j1" and "ex_status j1 = ExGenerating" and "ex_id j1 = ExportJobId (gj_export_job_id p)"
    and "ew_geometry (tables db1) = ew_geometry (tables db)" and "ew_titles (tables db1) = ew_titles (tables db)"
proof -
  note load = load_faultless [OF assms(1-3)]
  have id: "ex_id j = ExportJobId (gj_export_job_id p)"
    using row_to_export_fields [OF assms(3)] assms(2) by (auto simp: find_Some_iff)
  from assms(4) show thesis
  proof
    assume st: "ex_status j = ExGenerating"
    show thesis
      by (rule that [of db r j]) (use assms(1-3,5) st id load in
        \<open>simp_all add: process_export_def Let_def bindq_def map_errq_def os_exists_def select_faultless\<close>)
  next
    assume st: "ex_status j = ExQueued"
    let ?j = "j\<lparr>ex_status := ExGenerating, ex_updated_at := clock 1\<rparr>"
    have "start_generating (clock 1) j = Ok ?j" by (simp add: start_generating_Ok st)
    with assms(1,5) st load have run: "process_export E clock task timeout (Some p) db =
        generate_export E clock task timeout p (export_storage_key (gj_owner_id p) (gj_export_job_id p))
          (db\<lparr>tables := with_job ?j (tables db)\<rparr>)"
      by (simp add: process_export_def Let_def bindq_def map_errq_def os_exists_def select_faultless
          export_call_def persist_faultless)
    have "row_to_export (set_export_columns ?j r) = Ok ?j"
      by (rule row_to_export_set [OF assms(3)]) (simp add: same_request_def)
    with run find_with_job [OF assms(2), of ?j] assms(1) id show thesis
      by (intro that [of "db\<lparr>tables := with_job ?j (tables db)\<rparr>" "set_export_columns ?j r" ?j]) simp_all
  qed
qed

lemma process_again:
  assumes "faults db = []" and "find (\<lambda>r. xw_id r = gj_export_job_id p) (ew_jobs (tables db)) = Some r"
    and "row_to_export r = Ok j" and "ex_status j = ExReady"
    and "ew_objects (tables db) (export_storage_key (gj_owner_id p) (gj_export_job_id p)) \<noteq> None"
  shows "process_export E clock task timeout (Some p) db = (Ok (), db)"
  using load_faultless [OF assms(1-3)] assms(1,4,5)
  by (simp add: process_export_def Let_def bindq_def map_errq_def os_exists_def select_faultless resume_export_def)

section \<open>Properties\<close>

text \<open>C35. A ready export has been verified: whatever jobs the worker is given, however often they are
  delivered and wherever statements, uploads or the generator fail or the bucket garbles what it stores,
  every ready job refers to a file under its own key whose SHA-256 is the recorded checksum; and a
  status only moves forward, so that a job that is ready, failed or expired is never touched again and
  what was requested never changes.\<close>

theorem exports_verified:
  assumes "exports_ok E (tables db)"
  shows "let db' = foldl (\<lambda>s (clock, task, timeout, payload). snd (process_export E clock task timeout payload s))
      db deliveries in
    exports_ok E (tables db') \<and> list_all2 evolves (ew_jobs (tables db)) (ew_jobs (tables db'))"
proof -
  have since: "exports_since E (ew_jobs (tables db0)) (tables db) \<Longrightarrow>
      exports_since E (ew_jobs (tables db0)) (tables (foldl (\<lambda>s (clock, task, timeout, payload).
        snd (process_export E clock task timeout payload s)) db deliveries))" for db0
  proof (induction deliveries arbitrary: db)
    case (Cons x deliveries)
    obtain clock task timeout payload where x: "x = (clock, task, timeout, payload)" by (cases x)
    have "exports_since E (ew_jobs (tables db0)) (tables (snd (process_export E clock task timeout payload db)))"
      by (rule ensures_invariant [OF ens_process prod.collapse [symmetric]]) (rule Cons.prems)
    from Cons.IH [OF this] show ?case by (simp add: x)
  qed simp
  have "exports_since E (ew_jobs (tables db)) (tables db)"
    using assms by (simp add: exports_since_def list_all2_same evolves_def)
  from since [OF this] show ?thesis by (simp add: exports_since_def Let_def)
qed

text \<open>C36. A requested export is delivered: when nothing fails, one run of the worker on a queued job, or on
  one that an earlier run left generating, stores exactly the GPX text of the version's geometry and of
  the activity's name and makes the job ready, with the checksum of that text and 24 hours to live; and
  delivering the message again changes nothing.\<close>

theorem export_delivers:
  assumes "faults db = []" and "xe_stored E = id"
    and "find (\<lambda>r. xw_id r = gj_export_job_id p) (ew_jobs (tables db)) = Some r"
    and "xw_status r = ''queued'' \<or> xw_status r = ''generating''" and "xw_format r = ''gpx''"
    and "ew_objects (tables db) (export_storage_key (gj_owner_id p) (gj_export_job_id p)) = None"
    and "ew_geometry (tables db) (gj_route_version_id p) = Some json"
    and "parse_geometry_json E json = Ok segs" and "sum_list (map length segs) \<le> 500000"
  shows "\<exists>out db' r'. process_export E clock Finished timeout (Some p) db = (Ok (), db') \<and>
    generate_gpx (xe_escape E) \<lparr>gi_activity_name = export_name (tables db) (gj_activity_id p), gi_segments = segs\<rparr> =
      Ok out \<and>
    ew_objects (tables db') (export_storage_key (gj_owner_id p) (gj_export_job_id p)) = Some out \<and>
    find (\<lambda>r. xw_id r = gj_export_job_id p) (ew_jobs (tables db')) = Some r' \<and> xw_status r' = ''ready'' \<and>
    xw_object_storage_key r' = Some (export_storage_key (gj_owner_id p) (gj_export_job_id p)) \<and>
    xw_checksum r' = Some (xe_sha256 E out) \<and> xw_expires_at r' = Some (clock 3 + 24 * 3600 * 1000000000) \<and>
    (\<forall>clock2 task timeout2. process_export E clock2 task timeout2 (Some p) db' = (Ok (), db'))"
proof -
  let ?i = "gj_export_job_id p" and ?key = "export_storage_key (gj_owner_id p) (gj_export_job_id p)"
  from assms(4,5) obtain j where j: "row_to_export r = Ok j" "ex_status j = ExQueued \<or> ex_status j = ExGenerating"
    by (auto simp: row_to_export_def parse_export_status_def)
  obtain db1 r1 j1 where run: "process_export E clock Finished timeout (Some p) db =
      generate_export E clock Finished timeout p ?key db1"
    and db1: "faults db1 = []" "find (\<lambda>r. xw_id r = ?i) (ew_jobs (tables db1)) = Some r1"
      "row_to_export r1 = Ok j1" "ex_status j1 = ExGenerating"
    and id: "ex_id j1 = ExportJobId ?i"
    and same: "ew_geometry (tables db1) = ew_geometry (tables db)" "ew_titles (tables db1) = ew_titles (tables db)"
    by (rule process_started [OF assms(1,3) j assms(6)])
  obtain out where out: "generate_gpx (xe_escape E) \<lparr>gi_activity_name =
      export_name (tables db) (gj_activity_id p), gi_segments = segs\<rparr> = Ok out" by (simp add: generate_gpx_def)
  let ?j = "j1\<lparr>ex_status := ExReady, ex_object_storage_key := Some ?key, ex_checksum := Some (xe_sha256 E out),
      ex_expires_at := Some (clock 3 + HOURS_24), ex_updated_at := clock 4\<rparr>"
  let ?db = "db1\<lparr>tables := with_job ?j ((tables db1)\<lparr>ew_objects := (ew_objects (tables db1))(?key \<mapsto> out)\<rparr>)\<rparr>"
  have "generate_export E clock Finished timeout p ?key db1 = (Ok (), ?db)"
    using generate_faultless [OF db1 assms(2), of json segs out] publish_faultless [OF db1 assms(2)] assms(7-9) out same
    by (simp add: export_name_def)
  with run have run: "process_export E clock Finished timeout (Some p) db = (Ok (), ?db)" by simp
  have row: "find (\<lambda>r. xw_id r = ?i) (ew_jobs (tables ?db)) = Some (set_export_columns ?j r1)"
    using db1(2) id by (simp add: find_with_job)
  have stored: "row_to_export (set_export_columns ?j r1) = Ok ?j"
    by (rule row_to_export_set [OF db1(3)]) (simp add: same_request_def)
  have again: "process_export E clock2 task timeout2 (Some p) ?db = (Ok (), ?db)" for clock2 task timeout2
    by (rule process_again [OF _ row stored]) (simp_all add: db1(1))
  from run out row again show ?thesis
    by (intro exI [of _ out] exI [of _ ?db] exI [of _ "set_export_columns ?j r1"])
      (simp add: set_export_columns_def HOURS_24_def)
qed

section \<open>Witnesses\<close>

definition sample_export_row :: "string \<Rightarrow> export_row" where
  "sample_export_row status =
    \<lparr>xw_id = 1, xw_activity_id = 2, xw_route_version_id = 3, xw_requested_by = 7, xw_format = ''gpx'',
     xw_status = status, xw_idempotency_key = ''k'', xw_payload_hash = None, xw_object_storage_key = None,
     xw_checksum = None, xw_failure_reason = None, xw_expires_at = None, xw_created_at = 0, xw_updated_at = 0\<rparr>"

definition sample_export_db :: "db_error option list \<Rightarrow> unit export_world db" where
  "sample_export_db fs = \<lparr>tables = \<lparr>ew_jobs = [sample_export_row ''queued''], ew_geometry = (\<lambda>_. Some ()),
     ew_titles = (\<lambda>_. None), ew_objects = (\<lambda>_. None)\<rparr>, faults = fs\<rparr>"

definition sample_export_env :: "(string \<Rightarrow> string) \<Rightarrow> unit export_env" where
  "sample_export_env stored = \<lparr>xe_sha256 = (\<lambda>s. ''sha '' @ s), xe_segments = (\<lambda>_. Some []), xe_points = (\<lambda>_. None),
     xe_escape = id, xe_show = (\<lambda>_. []), xe_stored = stored\<rparr>"

definition sample_generate_job :: generate_export_job where
  "sample_generate_job = \<lparr>gj_export_job_id = 1, gj_activity_id = 2, gj_route_version_id = 3, gj_owner_id = 7,
     gj_format = ''gpx'', gj_correlation_id = 1\<rparr>"

theorem exports_verified_witness:
  "exports_ok (sample_export_env (\<lambda>_. ''garbled'')) (tables (snd (process_export (sample_export_env (\<lambda>_. ''garbled''))
    (\<lambda>_. 0) Finished 60 (Some sample_generate_job) (sample_export_db [None, Some Outage]))))"
proof -
  have "exports_ok (sample_export_env (\<lambda>_. ''garbled'')) (tables (sample_export_db [None, Some Outage]))"
    by (simp add: exports_ok_def sample_export_db_def ready_verified_def sample_export_row_def)
  from exports_verified [OF this, of "[(\<lambda>_. 0, Finished, 60, Some sample_generate_job)]"] show ?thesis
    by (simp add: Let_def)
qed

theorem export_delivers_witness:
  "\<exists>out db'. process_export (sample_export_env id) (\<lambda>_. 5) Finished 60 (Some sample_generate_job) (sample_export_db []) =
      (Ok (), db') \<and>
    ew_objects (tables db') (export_storage_key 7 1) = Some out \<and>
    (\<exists>r'. find (\<lambda>r. xw_id r = 1) (ew_jobs (tables db')) = Some r' \<and> xw_status r' = ''ready'' \<and>
      xw_checksum r' = Some (''sha '' @ out))"
proof -
  let ?p = sample_generate_job
  have "faults (sample_export_db []) = []" "xe_stored (sample_export_env id) = id"
    "find (\<lambda>r. xw_id r = gj_export_job_id ?p) (ew_jobs (tables (sample_export_db []))) = Some (sample_export_row ''queued'')"
    "xw_status (sample_export_row ''queued'') = ''queued'' \<or> xw_status (sample_export_row ''queued'') = ''generating''"
    "xw_format (sample_export_row ''queued'') = ''gpx''"
    "ew_objects (tables (sample_export_db [])) (export_storage_key (gj_owner_id ?p) (gj_export_job_id ?p)) = None"
    "ew_geometry (tables (sample_export_db [])) (gj_route_version_id ?p) = Some ()"
    "parse_geometry_json (sample_export_env id) () = Ok []" "sum_list (map length ([] :: gpx_out_point list list)) \<le> 500000"
    by (simp_all add: sample_export_db_def sample_export_env_def sample_export_row_def sample_generate_job_def
        parse_geometry_json_def)
  from export_delivers [OF this, of "\<lambda>_. 5" 60] show ?thesis
    by (auto simp: sample_generate_job_def sample_export_env_def)
qed

end
