(* ===== verification/Activity_Catalog.thy ===== *)
theory Activity_Catalog
  imports Import_Commit Base64_Cursor "HOL-Library.Product_Lexorder"
begin

text \<open>
  The activity catalog: titles and the activity aggregate (\<open>crates/app/src/activity_catalog/mod.rs\<close>),
  the repository interface (\<open>repository.rs\<close>) and its PostgreSQL implementation with keyset pagination
  (\<open>crates/infrastructure/src/activity_persistence.rs\<close>), the commands (\<open>commands.rs\<close>) and queries
  (\<open>queries.rs\<close>).  JSON, UUID and timestamp texts are parameters.
\<close>

section \<open>Errors and titles\<close>

text \<open>\<open>TitleSlicePanic\<close> is no value of the source's enum: it is the panic of \<open>trimmed[..500]\<close> inside a
  character, which unwinds the request.\<close>

datatype activity_catalog_error =
    ActivityNotFound
  | InvalidTitle string
  | Unauthorized
  | VersionNotBelongsToActivity
  | PersistenceError db_error
  | VersionLoadError route_versioning_error
  | SerializeError
  | InvalidCursor string
  | TitleSlicePanic

definition MAX_TITLE_LENGTH :: nat where
  "MAX_TITLE_LENGTH = 500"

datatype activity_title = ActivityTitle (title_str: string)

definition activity_title_new :: "string \<Rightarrow> (activity_title, activity_catalog_error) result" where
  "activity_title_new value =
    (let trimmed = trim value in
     if trimmed = [] then Err (InvalidTitle ''title must not be empty'')
     else if MAX_TITLE_LENGTH < length trimmed then
       (if is_char_boundary trimmed MAX_TITLE_LENGTH
        then Ok (ActivityTitle (take MAX_TITLE_LENGTH trimmed)) else Err TitleSlicePanic)
     else Ok (ActivityTitle trimmed))"

section \<open>The aggregate\<close>

datatype lifecycle_state = Active | Deleted

fun lifecycle_state_to_string :: "lifecycle_state \<Rightarrow> string" where
  "lifecycle_state_to_string Active = ''active''"
| "lifecycle_state_to_string Deleted = ''deleted''"

record 'j activity =
  ac_id :: activity_id
  ac_owner_id :: user_id
  ac_title :: activity_title
  ac_activity_type :: activity_type
  ac_lifecycle_state :: lifecycle_state
  ac_started_at :: "time option"
  ac_ended_at :: "time option"
  ac_recorded_summary :: "'j option"
  ac_corrected_summary :: "'j option"
  ac_current_route_version_id :: "route_version_id option"
  ac_created_at :: time
  ac_updated_at :: time

definition activity_new ::
  "activity_id \<Rightarrow> time \<Rightarrow> user_id \<Rightarrow> activity_title \<Rightarrow> activity_type \<Rightarrow> time option \<Rightarrow> time option \<Rightarrow>
    'j activity" where
  "activity_new new_id now owner title kind started ended =
    \<lparr>ac_id = new_id, ac_owner_id = owner, ac_title = title, ac_activity_type = kind,
     ac_lifecycle_state = Active, ac_started_at = started, ac_ended_at = ended,
     ac_recorded_summary = None, ac_corrected_summary = None, ac_current_route_version_id = None,
     ac_created_at = now, ac_updated_at = now\<rparr>"

definition update_title :: "time \<Rightarrow> activity_title \<Rightarrow> 'j activity \<Rightarrow> 'j activity" where
  "update_title now title a = a\<lparr>ac_title := title, ac_updated_at := now\<rparr>"

definition update_activity_type :: "time \<Rightarrow> activity_type \<Rightarrow> 'j activity \<Rightarrow> 'j activity" where
  "update_activity_type now kind a = a\<lparr>ac_activity_type := kind, ac_updated_at := now\<rparr>"

definition delete_state :: "time \<Rightarrow> 'j activity \<Rightarrow> 'j activity" where
  "delete_state now a = a\<lparr>ac_lifecycle_state := Deleted, ac_updated_at := now\<rparr>"

definition select_version :: "time \<Rightarrow> route_version_id \<Rightarrow> 'j \<Rightarrow> 'j activity \<Rightarrow> 'j activity" where
  "select_version now v summary a =
    a\<lparr>ac_current_route_version_id := Some v, ac_corrected_summary := Some summary, ac_updated_at := now\<rparr>"

section \<open>The repository interface\<close>

record 'j activity_page =
  pg_items :: "'j activity list"
  pg_next_cursor :: "string option"
  pg_has_more :: bool

record ('s, 'j) activity_repository =
  act_list :: "user_id \<Rightarrow> string option \<Rightarrow> u32 \<Rightarrow> ('s, 'j activity_page, activity_catalog_error) step"
  act_find_by_id :: "activity_id \<Rightarrow> ('s, 'j activity option, activity_catalog_error) step"
  act_save :: "'j activity \<Rightarrow> ('s, unit, activity_catalog_error) step"
  act_update :: "'j activity \<Rightarrow> ('s, unit, activity_catalog_error) step"
  act_delete :: "activity_id \<Rightarrow> ('s, unit, activity_catalog_error) step"

section \<open>Cursors\<close>

record cursor_payload =
  cu_started_at :: "string option"
  cu_id :: string

record cursor_env =
  ce_to_json :: "cursor_payload \<Rightarrow> string"
  ce_from_json :: "string \<Rightarrow> cursor_payload option"
  ce_parse_uuid :: "string \<Rightarrow> uuid option"
  ce_parse_time :: "string \<Rightarrow> time option"
  ce_to_rfc3339 :: "time \<Rightarrow> string"

definition encode_cursor :: "cursor_env \<Rightarrow> cursor_payload \<Rightarrow> string" where
  "encode_cursor C p = base64_encode (ce_to_json C p)"

definition decode_cursor :: "cursor_env \<Rightarrow> string \<Rightarrow> (cursor_payload, activity_catalog_error) result" where
  "decode_cursor C cursor =
    and_then (map_err (\<lambda>_. InvalidCursor ''invalid base64 encoding'') (base64_decode cursor)) (\<lambda>json.
      ok_or (InvalidCursor ''invalid cursor format'') (ce_from_json C json))"

section \<open>The PostgreSQL repository\<close>

record 'j catalog_row =
  cr_id :: uuid
  cr_owner_id :: uuid
  cr_title :: string
  cr_activity_type :: string
  cr_lifecycle_state :: string
  cr_started_at :: "time option"
  cr_ended_at :: "time option"
  cr_recorded_summary_json :: "'j option"
  cr_corrected_summary_json :: "'j option"
  cr_current_route_version_id :: "uuid option"
  cr_created_at :: time
  cr_updated_at :: time

record 'j catalog_tables =
  ct_activities :: "'j catalog_row list"
  ct_version_ids :: "uuid list"
  ct_users :: "uuid list"
  ct_audit :: "(uuid \<times> string \<times> string \<times> string) list"

definition parse_activity_type :: "string \<Rightarrow> activity_type" where
  "parse_activity_type s =
    (if s = ''hike'' then Hike else if s = ''walk'' then Walk else if s = ''run'' then Run else Other)"

definition parse_lifecycle_state :: "string \<Rightarrow> lifecycle_state" where
  "parse_lifecycle_state s =
    (if s = ''active'' then Active else if s = ''deleted'' then Deleted else Active)"

text \<open>\<open>ActivityTitle::new(title).unwrap_or_else(|_| ActivityTitle::new("Untitled").unwrap())\<close>\<close>

definition row_title :: "string \<Rightarrow> (activity_title, activity_catalog_error) result" where
  "row_title s =
    (case activity_title_new s of
       Err (InvalidTitle _) \<Rightarrow> activity_title_new ''Untitled''
     | r \<Rightarrow> r)"

definition row_to_activity :: "'j catalog_row \<Rightarrow> ('j activity, activity_catalog_error) result" where
  "row_to_activity r = and_then (row_title (cr_title r)) (\<lambda>title. Ok
    \<lparr>ac_id = ActivityId (cr_id r), ac_owner_id = UserId (cr_owner_id r), ac_title = title,
     ac_activity_type = parse_activity_type (cr_activity_type r),
     ac_lifecycle_state = parse_lifecycle_state (cr_lifecycle_state r),
     ac_started_at = cr_started_at r, ac_ended_at = cr_ended_at r,
     ac_recorded_summary = cr_recorded_summary_json r,
     ac_corrected_summary = cr_corrected_summary_json r,
     ac_current_route_version_id = map_option RouteVersionId (cr_current_route_version_id r),
     ac_created_at = cr_created_at r, ac_updated_at = cr_updated_at r\<rparr>)"

text \<open>\<open>ORDER BY started_at DESC NULLS LAST, id DESC\<close>\<close>

definition row_key :: "'j catalog_row \<Rightarrow> nat \<times> int \<times> int" where
  "row_key r =
    (case cr_started_at r of
       Some t \<Rightarrow> (0, - t, - uint (cr_id r))
     | None \<Rightarrow> (1, 0, - uint (cr_id r)))"

text \<open>The \<open>WHERE\<close> clauses of the three queries; a comparison with NULL is not true.\<close>

fun after_cursor :: "(time option \<times> uuid) option \<Rightarrow> 'j catalog_row \<Rightarrow> bool" where
  "after_cursor None r = True"
| "after_cursor (Some (Some t, i)) r =
    (case cr_started_at r of
       Some s \<Rightarrow> s < t \<or> s = t \<and> cr_id r < i
     | None \<Rightarrow> True)"
| "after_cursor (Some (None, i)) r = (cr_started_at r = None \<and> cr_id r < i)"

definition live_rows :: "user_id \<Rightarrow> 'j catalog_tables \<Rightarrow> 'j catalog_row list" where
  "live_rows owner t =
    filter (\<lambda>r. cr_owner_id r = user_uuid owner \<and> cr_lifecycle_state r \<noteq> ''deleted'') (ct_activities t)"

definition select_page ::
  "user_id \<Rightarrow> (time option \<times> uuid) option \<Rightarrow> nat \<Rightarrow> 'j catalog_tables \<Rightarrow> 'j catalog_row list" where
  "select_page owner cursor limit t =
    take limit (sort_key row_key (filter (after_cursor cursor) (live_rows owner t)))"

definition read_cursor ::
  "cursor_env \<Rightarrow> string \<Rightarrow> (time option \<times> uuid, activity_catalog_error) result" where
  "read_cursor C s =
    and_then (decode_cursor C s) (\<lambda>p.
    and_then (ok_or (InvalidCursor ''invalid id in cursor'') (ce_parse_uuid C (cu_id p))) (\<lambda>i.
    case cu_started_at p of
      None \<Rightarrow> Ok (None, i)
    | Some x \<Rightarrow> and_then (ok_or (InvalidCursor ''invalid started_at in cursor'') (ce_parse_time C x))
        (\<lambda>t. Ok (Some t, i))))"

definition next_cursor :: "cursor_env \<Rightarrow> 'j activity \<Rightarrow> string" where
  "next_cursor C a = encode_cursor C
    \<lparr>cu_started_at = map_option (ce_to_rfc3339 C) (ac_started_at a),
     cu_id = uuid_to_string (activity_uuid (ac_id a))\<rparr>"

definition pg_act_list ::
  "cursor_env \<Rightarrow> user_id \<Rightarrow> string option \<Rightarrow> u32 \<Rightarrow>
    ('j catalog_tables, 'j activity_page, activity_catalog_error) sql" where
  "pg_act_list C owner cursor page_size =
    bindq (of_result (case cursor of
        None \<Rightarrow> Ok None
      | Some s \<Rightarrow> and_then (read_cursor C s) (\<lambda>k. Ok (Some k)))) (\<lambda>k.
    bindq (map_errq PersistenceError (select (select_page owner k (unat (page_size + 1))))) (\<lambda>rows.
    let has_more = page_size < of_nat (length rows) in
    bindq (of_result (collect row_to_activity (take (unat page_size) rows))) (\<lambda>items.
    returnq \<lparr>pg_items = items,
      pg_next_cursor =
        (if has_more then (if items = [] then None else Some (next_cursor C (last items))) else None),
      pg_has_more = has_more\<rparr>)))"

definition pg_act_find_by_id ::
  "activity_id \<Rightarrow> ('j catalog_tables, 'j activity option, activity_catalog_error) sql" where
  "pg_act_find_by_id i =
    bindq (map_errq PersistenceError (select (\<lambda>t.
        find (\<lambda>r. cr_id r = activity_uuid i) (ct_activities t)))) (\<lambda>row.
    case row of
      None \<Rightarrow> returnq None
    | Some r \<Rightarrow> bindq (of_result (row_to_activity r)) (\<lambda>a. returnq (Some a)))"

definition catalog_row_of :: "'j activity \<Rightarrow> 'j catalog_row" where
  "catalog_row_of a =
    \<lparr>cr_id = activity_uuid (ac_id a), cr_owner_id = user_uuid (ac_owner_id a),
     cr_title = title_str (ac_title a), cr_activity_type = activity_type_to_string (ac_activity_type a),
     cr_lifecycle_state = lifecycle_state_to_string (ac_lifecycle_state a),
     cr_started_at = ac_started_at a, cr_ended_at = ac_ended_at a,
     cr_recorded_summary_json = ac_recorded_summary a,
     cr_corrected_summary_json = ac_corrected_summary a,
     cr_current_route_version_id = map_option version_uuid (ac_current_route_version_id a),
     cr_created_at = ac_created_at a, cr_updated_at = ac_updated_at a\<rparr>"

definition insert_catalog_row ::
  "'j catalog_row \<Rightarrow> 'j catalog_tables \<Rightarrow> (unit, db_error) result \<times> 'j catalog_tables" where
  "insert_catalog_row r t =
    (if cr_id r \<in> cr_id ` set (ct_activities t) then (Err (UniqueViolation ''activities_pkey''), t)
     else if cr_owner_id r \<notin> set (ct_users t)
     then (Err (ForeignKeyViolation ''activities_owner_id_fkey''), t)
     else if (case cr_current_route_version_id r of Some v \<Rightarrow> v \<notin> set (ct_version_ids t) | None \<Rightarrow> False)
     then (Err (ForeignKeyViolation ''fk_activities_current_route_version''), t)
     else (Ok (), t\<lparr>ct_activities := ct_activities t @ [r]\<rparr>))"

definition pg_act_save :: "'j activity \<Rightarrow> ('j catalog_tables, unit, activity_catalog_error) sql" where
  "pg_act_save a = map_errq PersistenceError (query (insert_catalog_row (catalog_row_of a)))"

definition set_catalog_columns :: "'j activity \<Rightarrow> 'j catalog_row \<Rightarrow> 'j catalog_row" where
  "set_catalog_columns a r = (catalog_row_of a)
    \<lparr>cr_id := cr_id r, cr_owner_id := cr_owner_id r, cr_created_at := cr_created_at r\<rparr>"

definition update_catalog_row ::
  "'j activity \<Rightarrow> 'j catalog_tables \<Rightarrow> (unit, db_error) result \<times> 'j catalog_tables" where
  "update_catalog_row a t =
    (if activity_uuid (ac_id a) \<in> cr_id ` set (ct_activities t) \<and>
        (case ac_current_route_version_id a of Some v \<Rightarrow> version_uuid v \<notin> set (ct_version_ids t) | None \<Rightarrow> False)
     then (Err (ForeignKeyViolation ''fk_activities_current_route_version''), t)
     else (Ok (), t\<lparr>ct_activities := map (\<lambda>r.
       if cr_id r = activity_uuid (ac_id a) then set_catalog_columns a r else r) (ct_activities t)\<rparr>))"

definition pg_act_update :: "'j activity \<Rightarrow> ('j catalog_tables, unit, activity_catalog_error) sql" where
  "pg_act_update a = map_errq PersistenceError (query (update_catalog_row a))"

definition pg_act_delete ::
  "time \<Rightarrow> activity_id \<Rightarrow> ('j catalog_tables, unit, activity_catalog_error) sql" where
  "pg_act_delete now i = map_errq PersistenceError (modify (\<lambda>t. t\<lparr>ct_activities := map (\<lambda>r.
     if cr_id r = activity_uuid i then r\<lparr>cr_lifecycle_state := ''deleted'', cr_updated_at := now\<rparr> else r)
     (ct_activities t)\<rparr>))"

definition PgActivityRepository ::
  "cursor_env \<Rightarrow> time \<Rightarrow> ('j catalog_tables db, 'j) activity_repository" where
  "PgActivityRepository C now =
    \<lparr>act_list = pg_act_list C, act_find_by_id = pg_act_find_by_id, act_save = pg_act_save,
     act_update = pg_act_update, act_delete = pg_act_delete now\<rparr>"

text \<open>\<open>AuditSinkAdapter\<close> of \<open>crates/api/src/main.rs\<close> over \<open>AuditLog::append\<close>.\<close>

definition pg_audit_record ::
  "uuid \<Rightarrow> string \<Rightarrow> string \<Rightarrow> string \<Rightarrow> ('j catalog_tables, unit, activity_catalog_error) sql" where
  "pg_audit_record actor action kind resource =
    map_errq PersistenceError (modify (\<lambda>t. t\<lparr>ct_audit := ct_audit t @ [(actor, action, kind, resource)]\<rparr>))"

section \<open>Queries and commands\<close>

definition DEFAULT_PAGE_SIZE :: u32 where "DEFAULT_PAGE_SIZE = 25"
definition MAX_PAGE_SIZE :: u32 where "MAX_PAGE_SIZE = 100"

definition clamp_page_size :: "u32 option \<Rightarrow> u32" where
  "clamp_page_size p =
    (let n = (case p of Some n \<Rightarrow> n | None \<Rightarrow> DEFAULT_PAGE_SIZE) in min (max n 1) MAX_PAGE_SIZE)"

definition list_activities ::
  "user_id \<Rightarrow> string option \<Rightarrow> u32 option \<Rightarrow> ('s, 'j) activity_repository \<Rightarrow>
    ('s, 'j activity_page, activity_catalog_error) step" where
  "list_activities owner cursor page_size R = act_list R owner cursor (clamp_page_size page_size)"

definition get_activity ::
  "activity_id \<Rightarrow> user_id \<Rightarrow> ('s, 'j) activity_repository \<Rightarrow> ('s, 'j activity, activity_catalog_error) step" where
  "get_activity i owner R =
    bindq (act_find_by_id R i) (\<lambda>found.
    of_result (ok_or ActivityNotFound (case found of
      Some a \<Rightarrow> (if ac_owner_id a = owner \<and> ac_lifecycle_state a \<noteq> Deleted then Some a else None)
    | None \<Rightarrow> None)))"

text \<open>An audit sink: actor, action, resource type and resource id.\<close>

type_synonym 's audit_sink = "uuid \<Rightarrow> string \<Rightarrow> string \<Rightarrow> string \<Rightarrow> ('s, unit, activity_catalog_error) step"

text \<open>Loading with the ownership check, as the commands begin.\<close>

definition load_owned ::
  "('s, 'j) activity_repository \<Rightarrow> activity_id \<Rightarrow> user_id \<Rightarrow> ('s, 'j activity, activity_catalog_error) step" where
  "load_owned R i owner =
    bindq (act_find_by_id R i) (\<lambda>found.
    bindq (of_result (ok_or ActivityNotFound found)) (\<lambda>a.
    if ac_owner_id a \<noteq> owner then failq Unauthorized else returnq a))"

definition rename_activity ::
  "time \<Rightarrow> activity_id \<Rightarrow> user_id \<Rightarrow> string \<Rightarrow> ('s, 'j) activity_repository \<Rightarrow> 's audit_sink \<Rightarrow>
    ('s, 'j activity, activity_catalog_error) step" where
  "rename_activity now i owner new_title R audit =
    bindq (of_result (activity_title_new new_title)) (\<lambda>title.
    bindq (load_owned R i owner) (\<lambda>a.
    if ac_lifecycle_state a = Deleted then failq ActivityNotFound
    else
      let a' = update_title now title a in
      bindq (act_update R a') (\<lambda>_.
      bindq (ignoreq (audit (user_uuid owner) ''activity.title.updated'' ''activity''
          (uuid_to_string (activity_uuid i)))) (\<lambda>_.
      returnq a'))))"

definition delete_activity ::
  "time \<Rightarrow> activity_id \<Rightarrow> user_id \<Rightarrow> ('s, 'j) activity_repository \<Rightarrow> 's audit_sink \<Rightarrow>
    ('s, unit, activity_catalog_error) step" where
  "delete_activity now i owner R audit =
    bindq (load_owned R i owner) (\<lambda>a.
    if ac_lifecycle_state a = Deleted then returnq ()
    else
      bindq (act_update R (delete_state now a)) (\<lambda>_.
      bindq (ignoreq (audit (user_uuid owner) ''activity.deleted'' ''activity''
          (uuid_to_string (activity_uuid i)))) (\<lambda>_.
      returnq ())))"

definition select_current_route_version ::
  "time \<Rightarrow> (corrected_statistics \<Rightarrow> 'j option) \<Rightarrow> activity_id \<Rightarrow> user_id \<Rightarrow> route_version_id \<Rightarrow>
    ('s, 'j) activity_repository \<Rightarrow>
    (route_version_id \<Rightarrow> ('s, route_version option, route_versioning_error) step) \<Rightarrow> 's audit_sink \<Rightarrow>
    ('s, 'j activity, activity_catalog_error) step" where
  "select_current_route_version now to_value i owner v R find_version audit =
    bindq (load_owned R i owner) (\<lambda>a.
    if ac_lifecycle_state a = Deleted then failq ActivityNotFound
    else
      bindq (map_errq VersionLoadError (find_version v)) (\<lambda>found.
      bindq (of_result (ok_or VersionNotBelongsToActivity found)) (\<lambda>ver.
      if rv_activity_id ver \<noteq> i then failq VersionNotBelongsToActivity
      else
        bindq (of_result (ok_or SerializeError (to_value (rv_corrected_statistics ver)))) (\<lambda>summary.
        let a' = select_version now v summary a in
        bindq (act_update R a') (\<lambda>_.
        bindq (ignoreq (audit (user_uuid owner) ''activity.current_version.selected'' ''activity''
            (uuid_to_string (activity_uuid i)))) (\<lambda>_.
        returnq a'))))))"

section \<open>The contract of the repository\<close>

text \<open>Requests that change the catalog; the answer is reduced to success or the error.\<close>

datatype catalog_command =
    Rename time activity_id string
  | Delete time activity_id
  | Select time activity_id route_version_id

fun run_catalog ::
  "(corrected_statistics \<Rightarrow> 'j option) \<Rightarrow> ('s, 'j) activity_repository \<Rightarrow>
    (route_version_id \<Rightarrow> ('s, route_version option, route_versioning_error) step) \<Rightarrow> 's audit_sink \<Rightarrow>
    user_id \<Rightarrow> catalog_command \<Rightarrow> ('s, unit, activity_catalog_error) step" where
  "run_catalog J R V audit u (Rename now i title) =
    bindq (rename_activity now i u title R audit) (\<lambda>_. returnq ())"
| "run_catalog J R V audit u (Delete now i) = delete_activity now i u R audit"
| "run_catalog J R V audit u (Select now i v) =
    bindq (select_current_route_version now J i u v R V audit) (\<lambda>_. returnq ())"

text \<open>
  What the commands rely on: a map from ids to activities that finding, auditing and looking up
  versions leave alone, and of which an update changes at most the activity it names.
\<close>

locale activity_store =
  fixes R :: "('s, 'j) activity_repository"
    and V :: "route_version_id \<Rightarrow> ('s, route_version option, route_versioning_error) step"
    and audit :: "'s audit_sink"
    and inv :: "'s \<Rightarrow> bool"
    and view :: "'s \<Rightarrow> activity_id \<Rightarrow> 'j activity option"
  assumes find_keeps: "act_find_by_id R i s = (r, s') \<Longrightarrow> inv s \<Longrightarrow> inv s' \<and> view s' = view s"
    and find_Ok: "act_find_by_id R i s = (Ok m, s') \<Longrightarrow> inv s \<Longrightarrow> m = view s i"
    and view_id: "inv s \<Longrightarrow> view s i = Some a \<Longrightarrow> ac_id a = i"
    and update_frame: "act_update R a s = (r1, s') \<Longrightarrow> inv s \<Longrightarrow>
      inv s' \<and> (\<forall>j. j \<noteq> ac_id a \<longrightarrow> view s' j = view s j)"
    and version_keeps: "V v s = (r2, s') \<Longrightarrow> inv s \<Longrightarrow> inv s' \<and> view s' = view s"
    and audit_keeps: "audit actor action kind resource s = (r1, s') \<Longrightarrow> inv s \<Longrightarrow> inv s' \<and> view s' = view s"
begin

text \<open>\<open>untouched a m\<close>: \<open>m\<close> keeps the invariant and the activity \<open>a\<close>.\<close>

definition untouched :: "'j activity \<Rightarrow> ('s, 'a, 'e) step \<Rightarrow> bool" where
  "untouched a m \<longleftrightarrow> (\<forall>s r s'. m s = (r, s') \<longrightarrow> inv s \<longrightarrow> view s (ac_id a) = Some a \<longrightarrow>
    inv s' \<and> view s' (ac_id a) = Some a)"

lemma untouched_pure [simp]: "untouched a (returnq x)" "untouched a (failq e)" "untouched a (of_result r)"
  by (simp_all add: untouched_def)

lemma untouched_bindq: "untouched a m \<Longrightarrow> (\<And>x. untouched a (k x)) \<Longrightarrow> untouched a (bindq m k)"
  unfolding untouched_def bindq_def by (auto split: prod.splits result.splits)

lemma untouched_map_errq: "untouched a m \<Longrightarrow> untouched a (map_errq f m)"
  unfolding untouched_def map_errq_def by (auto split: prod.splits)

lemma untouched_ignoreq: "untouched a m \<Longrightarrow> untouched a (ignoreq m)"
  unfolding untouched_def ignoreq_def by (metis prod.collapse prod.inject)

lemma untouched_services:
  "untouched a (act_find_by_id R i)" "untouched a (V v)" "untouched a (audit actor action kind resource)"
  "ac_id b \<noteq> ac_id a \<Longrightarrow> untouched a (act_update R b)"
  unfolding untouched_def using find_keeps version_keeps audit_keeps update_frame by metis+

lemma load_owned_Ok:
  "load_owned R i u s = (Ok b, s') \<Longrightarrow> inv s \<Longrightarrow>
    view s i = Some b \<and> ac_owner_id b = u \<and> ac_id b = i \<and> inv s' \<and> view s' = view s"
  using find_Ok find_keeps view_id
  by (auto simp: load_owned_def bindq_Ok ok_or_def split: option.splits if_splits)

lemma untouched_after_load:
  assumes "\<And>b. ac_owner_id b = u \<Longrightarrow> b \<noteq> a \<and> ac_id b \<noteq> ac_id a \<or> b = a \<Longrightarrow> untouched a (k b)"
  shows "untouched a (bindq (load_owned R i u) k)"
  unfolding untouched_def
proof (intro allI impI)
  fix s r s'
  assume run: "bindq (load_owned R i u) k s = (r, s')" and inv: "inv s" and a: "view s (ac_id a) = Some a"
  have keep: "untouched a (load_owned R i u)"
    unfolding load_owned_def by (intro untouched_bindq untouched_services untouched_pure) simp
  obtain q s1 where load: "load_owned R i u s = (q, s1)" by fastforce
  with keep inv a have s1: "inv s1" "view s1 (ac_id a) = Some a" by (auto simp: untouched_def)
  show "inv s' \<and> view s' (ac_id a) = Some a"
  proof (cases q)
    case (Ok b)
    with load_owned_Ok [of i u s b s1] load inv have b: "view s i = Some b" "ac_owner_id b = u" "ac_id b = i" by auto
    with a have "b \<noteq> a \<and> ac_id b \<noteq> ac_id a \<or> b = a" by auto
    with assms b(2) have "untouched a (k b)" by blast
    with run load Ok s1 show ?thesis by (auto simp: bindq_def untouched_def)
  next
    case (Err e)
    with run load s1 show ?thesis by (auto simp: bindq_def)
  qed
qed

lemma command_untouched:
  assumes "ac_owner_id a \<noteq> u \<or> ac_lifecycle_state a = Deleted"
  shows "untouched a (run_catalog J R V audit u c)"
  using assms
  by (cases c)
    (auto simp: rename_activity_def delete_activity_def select_current_route_version_def Let_def
        update_title_def delete_state_def select_version_def
        intro!: untouched_bindq untouched_after_load untouched_map_errq untouched_ignoreq untouched_services)

text \<open>Any sequence of such requests.\<close>

lemma commands_untouched:
  assumes "\<forall>(u, c)\<in>set cs. ac_owner_id a \<noteq> u \<or> ac_lifecycle_state a = Deleted"
    and "inv s" and "view s (ac_id a) = Some a"
  shows "inv (foldl (\<lambda>s (u, c). snd (run_catalog J R V audit u c s)) s cs) \<and>
    view (foldl (\<lambda>s (u, c). snd (run_catalog J R V audit u c s)) s cs) (ac_id a) = Some a"
  using assms
proof (induction cs arbitrary: s)
  case (Cons uc cs)
  obtain u c where uc: "uc = (u, c)" by fastforce
  obtain r s1 where run: "run_catalog J R V audit u c s = (r, s1)" by fastforce
  have "untouched a (run_catalog J R V audit u c)"
    by (rule command_untouched) (use Cons.prems uc in auto)
  with run Cons.prems have "inv s1" "view s1 (ac_id a) = Some a" by (auto simp: untouched_def)
  with Cons.IH [of s1] Cons.prems uc run show ?case by simp
qed simp

end

section \<open>PostgreSQL implements the contract\<close>

definition catalog_ok :: "'j catalog_tables db \<Rightarrow> bool" where
  "catalog_ok db \<longleftrightarrow> distinct (map cr_id (ct_activities (tables db)))"

definition pg_act_view :: "'j catalog_tables db \<Rightarrow> activity_id \<Rightarrow> 'j activity option" where
  "pg_act_view db i = Option.bind (find (\<lambda>r. cr_id r = activity_uuid i) (ct_activities (tables db)))
    (\<lambda>r. ok (row_to_activity r))"

lemma row_to_activity_fields:
  "row_to_activity r = Ok a \<Longrightarrow> ac_id a = ActivityId (cr_id r) \<and> ac_owner_id a = UserId (cr_owner_id r) \<and>
    ac_started_at a = cr_started_at r \<and> ac_lifecycle_state a = parse_lifecycle_state (cr_lifecycle_state r)"
  by (auto simp: row_to_activity_def result_simps)

lemma catalog_keeps:
  assumes "keeps ct_activities m" and "m db = (r, db')"
  shows "catalog_ok db' = catalog_ok db" and "pg_act_view db' = pg_act_view db"
  using keepsD [OF assms] by (simp_all add: catalog_ok_def pg_act_view_def fun_eq_iff)

lemma pg_act_find_keeps: "keeps ct_activities (pg_act_find_by_id i)"
  unfolding pg_act_find_by_id_def
  by (intro keeps_bindq keeps_map_errq keeps_select keeps_option keeps_returnq keeps_of_result)

lemma pg_audit_keeps: "keeps ct_activities (pg_audit_record actor action kind resource)"
  unfolding pg_audit_record_def by (intro keeps_map_errq keeps_modify) simp

lemma set_catalog_columns_keys [simp]:
  "cr_id (set_catalog_columns a r) = cr_id r" "cr_owner_id (set_catalog_columns a r) = cr_owner_id r"
  by (simp_all add: set_catalog_columns_def)

lemma pg_act_update_tables:
  assumes "pg_act_update a db = (r, db')"
  shows "tables db' = tables db \<or> r = Ok () \<and> ct_activities (tables db') = map (\<lambda>r.
    if cr_id r = activity_uuid (ac_id a) then set_catalog_columns a r else r) (ct_activities (tables db))"
  using assms
  by (cases r) (auto simp: pg_act_update_def map_errq_Ok map_errq_Err query_Ok update_catalog_row_def
      dest: query_Err split: if_splits)

lemma find_map_other:
  assumes "\<And>r. cr_id (f r) = cr_id r" and "\<And>r. cr_id r = k \<Longrightarrow> f r = r"
  shows "find (\<lambda>r. cr_id r = k) (map f rows) = find (\<lambda>r. cr_id r = k) rows"
  by (induction rows) (auto simp: assms)

lemma pg_act_update_frame:
  assumes "pg_act_update a db = (r, db')" and "catalog_ok db"
  shows "catalog_ok db' \<and> (\<forall>j. j \<noteq> ac_id a \<longrightarrow> pg_act_view db' j = pg_act_view db j)"
  using pg_act_update_tables [OF assms(1)]
proof (elim disjE conjE)
  let ?f = "\<lambda>r. if cr_id r = activity_uuid (ac_id a) then set_catalog_columns a r else r"
  assume rows: "ct_activities (tables db') = map ?f (ct_activities (tables db))"
  have "cr_id \<circ> ?f = cr_id" by (simp add: fun_eq_iff)
  moreover have "find (\<lambda>r. cr_id r = activity_uuid j) (map ?f (ct_activities (tables db))) =
      find (\<lambda>r. cr_id r = activity_uuid j) (ct_activities (tables db))" if "j \<noteq> ac_id a" for j
    using that by (intro find_map_other) (auto simp: activity_id.expand)
  ultimately show ?thesis using assms(2) by (simp add: catalog_ok_def pg_act_view_def rows)
qed (use assms(2) in \<open>simp add: catalog_ok_def pg_act_view_def\<close>)

interpretation pga: activity_store "PgActivityRepository C now" "\<lambda>v. of_result (find_version v)" pg_audit_record
  catalog_ok pg_act_view
  for C :: cursor_env and now :: time
    and find_version :: "route_version_id \<Rightarrow> (route_version option, route_versioning_error) result"
proof
  fix i r s s'
  assume "act_find_by_id (PgActivityRepository C now) i s = (r, s')" "catalog_ok s"
  then show "catalog_ok s' \<and> pg_act_view s' = pg_act_view s"
    by (auto simp: PgActivityRepository_def dest: catalog_keeps [OF pg_act_find_keeps])
next
  fix i m s s'
  assume "act_find_by_id (PgActivityRepository C now) i s = (Ok m, s')" "catalog_ok s"
  then show "m = pg_act_view s i"
    by (auto simp: PgActivityRepository_def pg_act_find_by_id_def bindq_Ok map_errq_Ok select_Ok pg_act_view_def
        split: option.splits)
next
  fix s i a
  assume "pg_act_view s i = Some a"
  then obtain r where r: "find (\<lambda>r. cr_id r = activity_uuid i) (ct_activities (tables s)) = Some r"
    "row_to_activity r = Ok a"
    by (auto simp: pg_act_view_def ok_def split: bind_splits result.splits)
  then have "cr_id r = activity_uuid i" by (auto simp: find_Some_iff)
  with row_to_activity_fields [OF r(2)] show "ac_id a = i" by simp
next
  fix actor action kind resource s r s'
  assume "pg_audit_record actor action kind resource s = (r, s')" "catalog_ok s"
  then show "catalog_ok s' \<and> pg_act_view s' = pg_act_view s"
    by (auto dest: catalog_keeps [OF pg_audit_keeps])
qed (auto simp: PgActivityRepository_def dest: pg_act_update_frame)

end
