(* ===== verification/Legs.thy ===== *)
theory Legs
  imports Recorded_Activity Step_Logic
begin

text \<open>
  Legs of an activity: the aggregate and its statistics (\<open>crates/app/src/recorded_activity/legs.rs\<close>), the
  repository interface (\<open>leg_repository.rs\<close>), the commands and queries (\<open>leg_commands.rs\<close>,
  \<open>leg_queries.rs\<close>), and the PostgreSQL repository (\<open>crates/infrastructure/src/leg_persistence.rs\<close>) over
  the table of \<open>migrations/20250109000001_create_legs_table.sql\<close>.
\<close>

section \<open>The aggregate\<close>

definition MAX_LEGS_PER_ACTIVITY :: u32 where "MAX_LEGS_PER_ACTIVITY = 30"
definition MAX_LEG_TITLE_LENGTH :: nat where "MAX_LEG_TITLE_LENGTH = 255"

datatype leg_title = LegTitle (leg_title_str: string)

definition leg_title_new :: "string \<Rightarrow> (leg_title, recorded_activity_error) result" where
  "leg_title_new value =
    (let trimmed = trim value in
     if trimmed = [] then Err (InvalidLegTitle (RaText ''leg title must not be empty''))
     else if MAX_LEG_TITLE_LENGTH < length trimmed then Err (InvalidLegTitle (RaLength (length trimmed)))
     else Ok (LegTitle trimmed))"

text \<open>A \<open>NaiveDate\<close> is a number of days.\<close>

type_synonym naive_date = int

record leg =
  lg_id :: leg_id
  lg_activity_id :: activity_id
  lg_leg_number :: u32
  lg_title :: "leg_title option"
  lg_date :: naive_date
  lg_source_revision_id :: "source_revision_id option"
  lg_recorded_track_id :: "recorded_track_id option"
  lg_created_at :: time
  lg_updated_at :: time

definition leg_new ::
  "leg_id \<Rightarrow> time \<Rightarrow> activity_id \<Rightarrow> u32 \<Rightarrow> leg_title option \<Rightarrow> naive_date \<Rightarrow> source_revision_id option \<Rightarrow>
    recorded_track_id option \<Rightarrow> (leg, recorded_activity_error) result" where
  "leg_new new_id now activity leg_number title date source track =
    (if leg_number < 1 then Err (InvalidLegNumber leg_number (RaText ''leg number must be at least 1''))
     else if MAX_LEGS_PER_ACTIVITY < leg_number then Err (MaxLegsExceeded activity MAX_LEGS_PER_ACTIVITY)
     else Ok \<lparr>lg_id = new_id, lg_activity_id = activity, lg_leg_number = leg_number, lg_title = title,
       lg_date = date, lg_source_revision_id = source, lg_recorded_track_id = track,
       lg_created_at = now, lg_updated_at = now\<rparr>)"

definition leg_rename :: "time \<Rightarrow> leg_title option \<Rightarrow> leg \<Rightarrow> leg" where
  "leg_rename now title l = l\<lparr>lg_title := title, lg_updated_at := now\<rparr>"

definition leg_update_date :: "time \<Rightarrow> naive_date \<Rightarrow> leg \<Rightarrow> leg" where
  "leg_update_date now date l = l\<lparr>lg_date := date, lg_updated_at := now\<rparr>"

definition update_leg_number :: "time \<Rightarrow> u32 \<Rightarrow> leg \<Rightarrow> (leg, recorded_activity_error) result" where
  "update_leg_number now n l =
    (if n < 1 then Err (InvalidLegNumber n (RaText ''leg number must be at least 1''))
     else if MAX_LEGS_PER_ACTIVITY < n then Err (MaxLegsExceeded (lg_activity_id l) MAX_LEGS_PER_ACTIVITY)
     else Ok (l\<lparr>lg_leg_number := n, lg_updated_at := now\<rparr>))"

record leg_summary =
  ls_distance_meters :: f64
  ls_elevation_gain_meters :: "f64 option"
  ls_elevation_loss_meters :: "f64 option"
  ls_point_count :: u32
  ls_duration_seconds :: "f64 option"

definition leg_summary_empty :: leg_summary where
  "leg_summary_empty = \<lparr>ls_distance_meters = Fin 0, ls_elevation_gain_meters = None,
     ls_elevation_loss_meters = None, ls_point_count = 0, ls_duration_seconds = None\<rparr>"

definition combine_optional :: "f64 option \<Rightarrow> f64 option \<Rightarrow> f64 option" where
  "combine_optional a b =
    (case (a, b) of
       (Some x, Some y) \<Rightarrow> Some (fadd x y)
     | (Some x, None) \<Rightarrow> Some x
     | (None, Some y) \<Rightarrow> Some y
     | (None, None) \<Rightarrow> None)"

definition leg_summary_combine :: "leg_summary \<Rightarrow> leg_summary \<Rightarrow> leg_summary" where
  "leg_summary_combine a b =
    \<lparr>ls_distance_meters = fadd (ls_distance_meters a) (ls_distance_meters b),
     ls_elevation_gain_meters = combine_optional (ls_elevation_gain_meters a) (ls_elevation_gain_meters b),
     ls_elevation_loss_meters = combine_optional (ls_elevation_loss_meters a) (ls_elevation_loss_meters b),
     ls_point_count = ls_point_count a + ls_point_count b,
     ls_duration_seconds = combine_optional (ls_duration_seconds a) (ls_duration_seconds b)\<rparr>"

section \<open>The repository interface\<close>

record 's leg_repository =
  lr_list :: "activity_id \<Rightarrow> ('s, leg list, recorded_activity_error) step"
  lr_find :: "leg_id \<Rightarrow> ('s, leg option, recorded_activity_error) step"
  lr_save :: "leg \<Rightarrow> ('s, unit, recorded_activity_error) step"
  lr_update :: "leg \<Rightarrow> ('s, unit, recorded_activity_error) step"
  lr_delete :: "leg_id \<Rightarrow> ('s, unit, recorded_activity_error) step"
  lr_next_number :: "activity_id \<Rightarrow> ('s, u32, recorded_activity_error) step"
  lr_reorder :: "activity_id \<Rightarrow> leg_id \<Rightarrow> u32 \<Rightarrow> ('s, unit, recorded_activity_error) step"
  lr_summary :: "leg_id \<Rightarrow> ('s, leg_summary option, recorded_activity_error) step"

section \<open>Commands\<close>

definition optional_title :: "string option \<Rightarrow> (leg_title option, recorded_activity_error) result" where
  "optional_title title =
    (case title of None \<Rightarrow> Ok None | Some t \<Rightarrow> and_then (leg_title_new t) (\<lambda>x. Ok (Some x)))"

definition load_leg :: "'s leg_repository \<Rightarrow> leg_id \<Rightarrow> ('s, leg, recorded_activity_error) step" where
  "load_leg R i = bindq (lr_find R i) (\<lambda>found. of_result (ok_or (LegNotFound i) found))"

definition add_leg ::
  "leg_id \<Rightarrow> time \<Rightarrow> activity_id \<Rightarrow> string option \<Rightarrow> naive_date \<Rightarrow> source_revision_id option \<Rightarrow>
    recorded_track_id option \<Rightarrow> 's leg_repository \<Rightarrow> ('s, leg, recorded_activity_error) step" where
  "add_leg new_id now activity title date source track R =
    bindq (lr_next_number R activity) (\<lambda>n.
    if MAX_LEGS_PER_ACTIVITY < n then failq (MaxLegsExceeded activity MAX_LEGS_PER_ACTIVITY)
    else
      bindq (of_result (optional_title title)) (\<lambda>leg_title.
      bindq (of_result (leg_new new_id now activity n leg_title date source track)) (\<lambda>l.
      bindq (lr_save R l) (\<lambda>_. returnq l))))"

definition rename_leg ::
  "time \<Rightarrow> leg_id \<Rightarrow> string option \<Rightarrow> 's leg_repository \<Rightarrow> ('s, leg, recorded_activity_error) step" where
  "rename_leg now i new_title R =
    bindq (of_result (optional_title new_title)) (\<lambda>title.
    bindq (load_leg R i) (\<lambda>l.
    let l' = leg_rename now title l in
    bindq (lr_update R l') (\<lambda>_. returnq l')))"

definition update_leg_date ::
  "time \<Rightarrow> leg_id \<Rightarrow> naive_date \<Rightarrow> 's leg_repository \<Rightarrow> ('s, leg, recorded_activity_error) step" where
  "update_leg_date now i date R =
    bindq (load_leg R i) (\<lambda>l.
    let l' = leg_update_date now date l in
    bindq (lr_update R l') (\<lambda>_. returnq l'))"

definition reorder_leg ::
  "leg_id \<Rightarrow> u32 \<Rightarrow> 's leg_repository \<Rightarrow> ('s, unit, recorded_activity_error) step" where
  "reorder_leg i new_position R =
    (if new_position < 1 then failq (InvalidLegNumber new_position (RaText ''position must be at least 1''))
     else if MAX_LEGS_PER_ACTIVITY < new_position
     then failq (MaxLegsExceeded (ActivityId 0) MAX_LEGS_PER_ACTIVITY)
     else bindq (load_leg R i) (\<lambda>l. lr_reorder R (lg_activity_id l) i new_position))"

text \<open>The loop that compacts the numbers of the remaining legs; \<open>n\<close> is \<open>idx + 1\<close>.\<close>

fun renumber_legs ::
  "(nat \<Rightarrow> time) \<Rightarrow> 's leg_repository \<Rightarrow> nat \<Rightarrow> leg list \<Rightarrow> ('s, unit, recorded_activity_error) step" where
  "renumber_legs clock R n [] = returnq ()"
| "renumber_legs clock R n (l # ls) =
    bindq (if lg_leg_number l \<noteq> of_nat n then
        bindq (of_result (update_leg_number (clock n) (of_nat n) l)) (\<lambda>l'. lr_update R l')
      else returnq ()) (\<lambda>_.
    renumber_legs clock R (Suc n) ls)"

definition remove_leg ::
  "(nat \<Rightarrow> time) \<Rightarrow> leg_id \<Rightarrow> 's leg_repository \<Rightarrow> ('s, unit, recorded_activity_error) step" where
  "remove_leg clock i R =
    bindq (load_leg R i) (\<lambda>l.
    bindq (lr_delete R i) (\<lambda>_.
    bindq (lr_list R (lg_activity_id l)) (\<lambda>remaining.
    renumber_legs clock R 1 (sort_key lg_leg_number remaining))))"

section \<open>Queries\<close>

record leg_detail =
  ld_leg :: leg
  ld_summary :: "leg_summary option"

record leg_with_summary =
  lws_leg :: leg
  lws_summary :: leg_summary

record activity_leg_stats =
  als_total :: leg_summary
  als_per_leg :: "leg_with_summary list"

definition list_legs_for_activity ::
  "activity_id \<Rightarrow> 's leg_repository \<Rightarrow> ('s, leg list, recorded_activity_error) step" where
  "list_legs_for_activity a R = lr_list R a"

definition get_leg_detail ::
  "leg_id \<Rightarrow> 's leg_repository \<Rightarrow> ('s, leg_detail, recorded_activity_error) step" where
  "get_leg_detail i R =
    bindq (load_leg R i) (\<lambda>l.
    bindq (lr_summary R i) (\<lambda>s. returnq \<lparr>ld_leg = l, ld_summary = s\<rparr>))"

fun collect_stats ::
  "'s leg_repository \<Rightarrow> leg list \<Rightarrow> leg_summary \<Rightarrow> leg_with_summary list \<Rightarrow>
    ('s, activity_leg_stats, recorded_activity_error) step" where
  "collect_stats R [] acc per_leg = returnq \<lparr>als_total = acc, als_per_leg = per_leg\<rparr>"
| "collect_stats R (l # ls) acc per_leg =
    bindq (lr_summary R (lg_id l)) (\<lambda>found.
    let s = (case found of Some s \<Rightarrow> s | None \<Rightarrow> leg_summary_empty) in
    collect_stats R ls (leg_summary_combine acc s) (per_leg @ [\<lparr>lws_leg = l, lws_summary = s\<rparr>]))"

definition get_aggregated_stats ::
  "activity_id \<Rightarrow> 's leg_repository \<Rightarrow> ('s, activity_leg_stats, recorded_activity_error) step" where
  "get_aggregated_stats a R = bindq (lr_list R a) (\<lambda>legs. collect_stats R legs leg_summary_empty [])"

section \<open>The PostgreSQL repository\<close>

record leg_row =
  lw_id :: uuid
  lw_activity_id :: uuid
  lw_leg_number :: i32
  lw_title :: "string option"
  lw_date :: naive_date
  lw_source_revision_id :: "uuid option"
  lw_recorded_track_id :: "uuid option"
  lw_created_at :: time
  lw_updated_at :: time

text \<open>Of a recorded track: distance, gain, loss and point count; each may be NULL.\<close>

record leg_tables =
  lt_legs :: "leg_row list"
  lt_activities :: "uuid list"
  lt_source_revisions :: "uuid list"
  lt_tracks :: "uuid \<Rightarrow> (f64 option \<times> f64 option \<times> f64 option \<times> i32 option) option"

definition into_leg :: "leg_row \<Rightarrow> leg" where
  "into_leg r =
    \<lparr>lg_id = LegId (lw_id r), lg_activity_id = ActivityId (lw_activity_id r),
     lg_leg_number = lw_leg_number r, lg_title = Option.bind (lw_title r) (\<lambda>t. ok (leg_title_new t)),
     lg_date = lw_date r, lg_source_revision_id = map_option SourceRevisionId (lw_source_revision_id r),
     lg_recorded_track_id = map_option RecordedTrackId (lw_recorded_track_id r),
     lg_created_at = lw_created_at r, lg_updated_at = lw_updated_at r\<rparr>"

definition leg_row_of :: "leg \<Rightarrow> leg_row" where
  "leg_row_of l =
    \<lparr>lw_id = leg_uuid (lg_id l), lw_activity_id = activity_uuid (lg_activity_id l),
     lw_leg_number = lg_leg_number l, lw_title = map_option leg_title_str (lg_title l), lw_date = lg_date l,
     lw_source_revision_id = map_option source_revision_uuid (lg_source_revision_id l),
     lw_recorded_track_id = map_option track_uuid (lg_recorded_track_id l),
     lw_created_at = lg_created_at l, lw_updated_at = lg_updated_at l\<rparr>"

abbreviation leg_query ::
  "(leg_tables, 'a, db_error) sql \<Rightarrow> (leg_tables, 'a, recorded_activity_error) sql" where
  "leg_query \<equiv> map_errq (\<lambda>e. Persistence (RaDatabase e))"

definition same_slot :: "leg_row \<Rightarrow> leg_row \<Rightarrow> bool" where
  "same_slot r q \<longleftrightarrow> lw_activity_id r = lw_activity_id q \<and> lw_leg_number r = lw_leg_number q"

definition leg_references :: "leg_row \<Rightarrow> leg_tables \<Rightarrow> db_error option" where
  "leg_references r t =
    (if (case lw_source_revision_id r of None \<Rightarrow> False | Some s \<Rightarrow> s \<notin> set (lt_source_revisions t))
     then Some (ForeignKeyViolation ''legs_source_revision_id_fkey'')
     else if (case lw_recorded_track_id r of None \<Rightarrow> False | Some k \<Rightarrow> lt_tracks t k = None)
     then Some (ForeignKeyViolation ''legs_recorded_track_id_fkey'') else None)"

text \<open>
  \<open>UNIQUE(activity_id, leg_number)\<close> is not deferrable: an update checks it for every row as it is written,
  against the rows as they are at that moment, in the order of the scan.
\<close>

fun update_rows ::
  "(leg_row \<Rightarrow> bool) \<Rightarrow> (leg_row \<Rightarrow> leg_row) \<Rightarrow> leg_row list \<Rightarrow> leg_row list \<Rightarrow> (leg_row list, db_error) result" where
  "update_rows sel f before [] = Ok before"
| "update_rows sel f before (r # rs) =
    (if sel r then
       if \<exists>q\<in>set (before @ rs). same_slot (f r) q
       then Err (UniqueViolation ''legs_activity_id_leg_number_key'')
       else update_rows sel f (before @ [f r]) rs
     else update_rows sel f (before @ [r]) rs)"

definition update_legs ::
  "(leg_row \<Rightarrow> bool) \<Rightarrow> (leg_row \<Rightarrow> leg_row) \<Rightarrow> leg_tables \<Rightarrow> (unit, db_error) result \<times> leg_tables" where
  "update_legs sel f t =
    (case update_rows sel f [] (lt_legs t) of
       Ok rows \<Rightarrow> (Ok (), t\<lparr>lt_legs := rows\<rparr>)
     | Err e \<Rightarrow> (Err e, t))"

definition insert_leg :: "leg_row \<Rightarrow> leg_tables \<Rightarrow> (unit, db_error) result \<times> leg_tables" where
  "insert_leg r t =
    (if lw_id r \<in> lw_id ` set (lt_legs t) then (Err (UniqueViolation ''legs_pkey''), t)
     else if \<exists>q\<in>set (lt_legs t). same_slot r q
     then (Err (UniqueViolation ''legs_activity_id_leg_number_key''), t)
     else if lw_activity_id r \<notin> set (lt_activities t)
     then (Err (ForeignKeyViolation ''legs_activity_id_fkey''), t)
     else case leg_references r t of
       Some e \<Rightarrow> (Err e, t)
     | None \<Rightarrow> (Ok (), t\<lparr>lt_legs := lt_legs t @ [r]\<rparr>))"

definition pg_list_legs :: "activity_id \<Rightarrow> (leg_tables, leg list, recorded_activity_error) sql" where
  "pg_list_legs a = bindq (leg_query (select (\<lambda>t. sort_key (\<lambda>r. sint (lw_leg_number r))
      (filter (\<lambda>r. lw_activity_id r = activity_uuid a) (lt_legs t))))) (\<lambda>rows. returnq (map into_leg rows))"

definition pg_find_leg :: "leg_id \<Rightarrow> (leg_tables, leg option, recorded_activity_error) sql" where
  "pg_find_leg i = bindq (leg_query (select (\<lambda>t. find (\<lambda>r. lw_id r = leg_uuid i) (lt_legs t))))
    (\<lambda>row. returnq (map_option into_leg row))"

definition pg_save_leg :: "leg \<Rightarrow> (leg_tables, unit, recorded_activity_error) sql" where
  "pg_save_leg l = leg_query (query (insert_leg (leg_row_of l)))"

definition set_leg_columns :: "leg \<Rightarrow> leg_row \<Rightarrow> leg_row" where
  "set_leg_columns l r = (leg_row_of l)
    \<lparr>lw_id := lw_id r, lw_activity_id := lw_activity_id r, lw_created_at := lw_created_at r\<rparr>"

definition pg_update_leg :: "leg \<Rightarrow> (leg_tables, unit, recorded_activity_error) sql" where
  "pg_update_leg l = leg_query (query (\<lambda>t.
    if leg_uuid (lg_id l) \<in> lw_id ` set (lt_legs t) \<and> leg_references (leg_row_of l) t \<noteq> None
    then (Err (the (leg_references (leg_row_of l) t)), t)
    else update_legs (\<lambda>r. lw_id r = leg_uuid (lg_id l)) (set_leg_columns l) t))"

definition pg_delete_leg :: "leg_id \<Rightarrow> (leg_tables, unit, recorded_activity_error) sql" where
  "pg_delete_leg i = leg_query (modify (\<lambda>t. t\<lparr>lt_legs := filter (\<lambda>r. lw_id r \<noteq> leg_uuid i) (lt_legs t)\<rparr>))"

definition pg_next_leg_number :: "activity_id \<Rightarrow> (leg_tables, u32, recorded_activity_error) sql" where
  "pg_next_leg_number a = bindq (leg_query (select (\<lambda>t.
      map lw_leg_number (filter (\<lambda>r. lw_activity_id r = activity_uuid a) (lt_legs t))))) (\<lambda>ns.
    returnq ((if ns = [] then 0 else word_of_int (Max (sint ` set ns))) + 1))"

text \<open>The two shifts and the final update of a move; every statement commits on its own.\<close>

definition pg_reorder_legs ::
  "time \<Rightarrow> activity_id \<Rightarrow> leg_id \<Rightarrow> u32 \<Rightarrow> (leg_tables, unit, recorded_activity_error) sql" where
  "pg_reorder_legs now a i new_position =
    bindq (pg_find_leg i) (\<lambda>found.
    bindq (of_result (ok_or (LegNotFound i) found)) (\<lambda>current.
    let old_pos = lg_leg_number current; new_pos = new_position in
    if old_pos = new_pos then returnq ()
    else
      bindq (leg_query (query (
        if new_pos <s old_pos then
          update_legs (\<lambda>r. lw_activity_id r = activity_uuid a \<and> new_pos \<le>s lw_leg_number r \<and>
              lw_leg_number r <s old_pos \<and> lw_id r \<noteq> leg_uuid i)
            (\<lambda>r. r\<lparr>lw_leg_number := lw_leg_number r + 1, lw_updated_at := now\<rparr>)
        else
          update_legs (\<lambda>r. lw_activity_id r = activity_uuid a \<and> old_pos <s lw_leg_number r \<and>
              lw_leg_number r \<le>s new_pos \<and> lw_id r \<noteq> leg_uuid i)
            (\<lambda>r. r\<lparr>lw_leg_number := lw_leg_number r - 1, lw_updated_at := now\<rparr>)))) (\<lambda>_.
      leg_query (query (update_legs (\<lambda>r. lw_id r = leg_uuid i)
        (\<lambda>r. r\<lparr>lw_leg_number := new_pos, lw_updated_at := now\<rparr>))))))"

definition pg_get_leg_summary :: "leg_id \<Rightarrow> (leg_tables, leg_summary option, recorded_activity_error) sql" where
  "pg_get_leg_summary i = bindq (leg_query (select (\<lambda>t.
      Option.bind (find (\<lambda>r. lw_id r = leg_uuid i) (lt_legs t)) (\<lambda>r.
      Option.bind (lw_recorded_track_id r) (lt_tracks t))))) (\<lambda>row.
    returnq (map_option (\<lambda>(distance, gain, loss, points).
      \<lparr>ls_distance_meters = (case distance of Some d \<Rightarrow> d | None \<Rightarrow> Fin 0), ls_elevation_gain_meters = gain,
       ls_elevation_loss_meters = loss, ls_point_count = (case points of Some n \<Rightarrow> n | None \<Rightarrow> 0),
       ls_duration_seconds = None\<rparr>) row))"

definition PgLegRepository :: "time \<Rightarrow> leg_tables db leg_repository" where
  "PgLegRepository now =
    \<lparr>lr_list = pg_list_legs, lr_find = pg_find_leg, lr_save = pg_save_leg, lr_update = pg_update_leg,
     lr_delete = pg_delete_leg, lr_next_number = pg_next_leg_number, lr_reorder = pg_reorder_legs now,
     lr_summary = pg_get_leg_summary\<rparr>"

end
