(* ===== verification/Api_Error.thy ===== *)
theory Api_Error
  imports Rust_String
begin

text \<open>
  HTTP problems, \<open>crates/api/src/error.rs\<close>: the error value of the handlers, its rendering as a problem
  document, and the mapping of the generic domain errors of \<open>crates/app/src/error.rs\<close>; and what the handlers
  share, the idempotency key header and the bearer token of \<open>crates/api/src/auth.rs\<close>.  Messages are of a
  type \<open>'m\<close>, since each group of handlers composes its own.  The \<open>details\<close> are never rendered and left
  out.
\<close>

section \<open>The error value\<close>

record 'm api_problem =
  ae_status :: nat
  ae_code :: string
  ae_message :: 'm
  problem_type :: "string option"
  ae_title :: "string option"
  ae_request_id :: "string option"

definition problem :: "nat \<Rightarrow> string \<Rightarrow> 'm \<Rightarrow> string \<Rightarrow> string \<Rightarrow> 'm api_problem" where
  "problem st code msg slug title =
    \<lparr>ae_status = st, ae_code = code, ae_message = msg, problem_type = Some slug,
     ae_title = Some title, ae_request_id = None\<rparr>"

definition with_request_id :: "string option \<Rightarrow> 'm api_problem \<Rightarrow> 'm api_problem" where
  "with_request_id i p = p\<lparr>ae_request_id := i\<rparr>"

definition api_unauthorized :: "'m \<Rightarrow> 'm api_problem" where
  "api_unauthorized msg = problem 401 ''UNAUTHORIZED'' msg ''/problems/unauthorized'' ''Unauthorized''"

section \<open>The response\<close>

record 'm problem_detail_body =
  pd_type :: string
  pd_title :: string
  pd_status :: nat
  pd_code :: string
  pd_detail :: 'm
  pd_request_id :: string

text \<open>The codes are ASCII literals, so \<open>to_lowercase\<close> is the ASCII one.\<close>

definition default_problem_type :: "string \<Rightarrow> string" where
  "default_problem_type code =
    ''/problems/'' @ map (\<lambda>c. if c = CHR ''_'' then CHR ''-'' else c) (map to_ascii_lower code)"

text \<open>The table of reason phrases, \<open>StatusCode::canonical_reason\<close>, is a parameter.\<close>

definition default_title :: "(nat \<Rightarrow> string option) \<Rightarrow> nat \<Rightarrow> string" where
  "default_title canonical_reason st =
    (case canonical_reason st of Some s \<Rightarrow> s | None \<Rightarrow> ''Error'')"

definition into_response ::
  "(nat \<Rightarrow> string option) \<Rightarrow> string \<Rightarrow> 'm api_problem \<Rightarrow> nat \<times> 'm problem_detail_body" where
  "into_response canonical_reason new_id p =
    (ae_status p,
     \<lparr>pd_type = (case problem_type p of Some t \<Rightarrow> t | None \<Rightarrow> default_problem_type (ae_code p)),
      pd_title = (case ae_title p of Some t \<Rightarrow> t | None \<Rightarrow> default_title canonical_reason (ae_status p)),
      pd_status = ae_status p, pd_code = ae_code p, pd_detail = ae_message p,
      pd_request_id = (case ae_request_id p of Some i \<Rightarrow> i | None \<Rightarrow> new_id)\<rparr>)"

section \<open>Domain errors\<close>

datatype domain_error =
    DomNotFound string
  | DomUnauthorized string
  | DomForbidden string
  | DomConflict string
  | DomValidationFailed string
  | DomInternal string

fun domain_error_to_api_error :: "domain_error \<Rightarrow> string api_problem" where
  "domain_error_to_api_error (DomNotFound m) = problem 404 ''NOT_FOUND'' m ''/problems/not-found'' ''Not Found''"
| "domain_error_to_api_error (DomUnauthorized m) =
    problem 401 ''UNAUTHORIZED'' m ''/problems/unauthorized'' ''Unauthorized''"
| "domain_error_to_api_error (DomForbidden m) = problem 403 ''FORBIDDEN'' m ''/problems/forbidden'' ''Forbidden''"
| "domain_error_to_api_error (DomConflict m) = problem 409 ''CONFLICT'' m ''/problems/conflict'' ''Conflict''"
| "domain_error_to_api_error (DomValidationFailed m) =
    problem 422 ''VALIDATION_FAILED'' m ''/problems/validation-failed'' ''Validation Failed''"
| "domain_error_to_api_error (DomInternal m) =
    problem 500 ''INTERNAL_ERROR'' ''an unexpected error occurred'' ''/problems/internal-error''
      ''Internal Server Error''"

section \<open>Headers\<close>

text \<open>
  The \<open>Idempotency-Key\<close> as \<open>HeaderValue::to_str\<close> gives it: \<open>None\<close> when it is absent or not visible
  ASCII.  \<open>msg\<close> makes the message of the handlers that read it.
\<close>

definition idempotency_problem :: "(string \<Rightarrow> 'm) \<Rightarrow> string \<Rightarrow> 'm api_problem" where
  "idempotency_problem msg m =
    problem 400 ''MISSING_IDEMPOTENCY_KEY'' (msg m) ''/problems/missing-idempotency-key''
      ''Missing Idempotency Key''"

definition idempotency_key_header :: "(string \<Rightarrow> 'm) \<Rightarrow> string option \<Rightarrow> (string, 'm api_problem) result" where
  "idempotency_key_header msg header =
    (case header of
       None \<Rightarrow> Err (idempotency_problem msg ''Idempotency-Key header is required'')
     | Some key \<Rightarrow>
         if trim key = [] then Err (idempotency_problem msg ''Idempotency-Key header must not be empty'')
         else Ok key)"

datatype auth_error = MissingToken | InvalidToken

definition authenticated_actor ::
  "(string \<Rightarrow> uuid option) \<Rightarrow> string option \<Rightarrow> (uuid, auth_error) result" where
  "authenticated_actor parse_uuid authorization =
    and_then (ok_or MissingToken authorization) (\<lambda>h.
    and_then (ok_or InvalidToken
      (if take 7 h = ''Bearer '' then Some (drop 7 h) else None)) (\<lambda>token.
    ok_or InvalidToken (parse_uuid token)))"

fun auth_error_problem :: "auth_error \<Rightarrow> string api_problem" where
  "auth_error_problem MissingToken = api_unauthorized ''missing authorization header''"
| "auth_error_problem InvalidToken = api_unauthorized ''invalid bearer token''"

end
