(* ===== verification/Activity_Api.thy ===== *)
theory Activity_Api
  imports Activity_Catalog Legs Api_Error
begin

text \<open>
  The activity and leg endpoints, \<open>crates/api/src/activities.rs\<close> and \<open>crates/api/src/legs.rs\<close> with their
  data transfer objects (\<open>activities_dto.rs\<close>, \<open>legs_dto.rs\<close>): the handlers over the repositories and the
  mapping of errors to HTTP problems.  Extraction and serialisation are axum's; a handler answers with the
  status and the body it would serialise.
\<close>

section \<open>Failures\<close>

text \<open>A request fails with a problem document, or unwinds with a panic.\<close>

datatype 'm api_failure = Problem "'m api_problem" | Unwound

abbreviation failure :: "nat \<Rightarrow> string \<Rightarrow> 'm \<Rightarrow> string \<Rightarrow> string \<Rightarrow> 'm api_failure" where
  "failure st code msg slug title \<equiv> Problem (problem st code msg slug title)"

fun activity_error_to_api_error :: "activity_catalog_error \<Rightarrow> string api_failure" where
  "activity_error_to_api_error activity_catalog_error.ActivityNotFound =
    failure 404 ''NOT_FOUND'' ''activity not found'' ''/problems/not-found'' ''Not Found''"
| "activity_error_to_api_error activity_catalog_error.Unauthorized =
    failure 404 ''NOT_FOUND'' ''activity not found'' ''/problems/not-found'' ''Not Found''"
| "activity_error_to_api_error (InvalidTitle m) =
    failure 422 ''VALIDATION_FAILED'' m ''/problems/validation-failed'' ''Validation Failed''"
| "activity_error_to_api_error VersionNotBelongsToActivity =
    failure 422 ''VERSION_NOT_BELONGS_TO_ACTIVITY'' ''version does not belong to this activity''
      ''/problems/validation-failed'' ''Validation Failed''"
| "activity_error_to_api_error (InvalidCursor m) =
    failure 400 ''INVALID_CURSOR'' m ''/problems/invalid-cursor'' ''Invalid Cursor''"
| "activity_error_to_api_error TitleSlicePanic = Unwound"
| "activity_error_to_api_error _ =
    failure 500 ''INTERNAL_ERROR'' ''a persistence error occurred'' ''/problems/internal-error''
      ''Internal Server Error''"

datatype leg_message = LegText string | LegReason ra_message | MaxLegsText u32 | DuplicateLegText u32

definition leg_not_found :: "leg_message api_failure" where
  "leg_not_found = failure 404 ''NOT_FOUND'' (LegText ''leg not found'') ''/problems/not-found'' ''Not Found''"

fun leg_error_to_api_error :: "recorded_activity_error \<Rightarrow> leg_message api_failure" where
  "leg_error_to_api_error (LegNotFound _) = leg_not_found"
| "leg_error_to_api_error (InvalidLegTitle m) =
    failure 422 ''VALIDATION_FAILED'' (LegReason m) ''/problems/validation-failed'' ''Validation Failed''"
| "leg_error_to_api_error (InvalidLegNumber _ reason) =
    failure 422 ''VALIDATION_FAILED'' (LegReason reason) ''/problems/validation-failed'' ''Validation Failed''"
| "leg_error_to_api_error (MaxLegsExceeded _ m) =
    failure 422 ''MAX_LEGS_EXCEEDED'' (MaxLegsText m) ''/problems/max-legs-exceeded'' ''Maximum Legs Exceeded''"
| "leg_error_to_api_error (DuplicateLegNumber n) =
    failure 409 ''DUPLICATE_LEG_NUMBER'' (DuplicateLegText n) ''/problems/duplicate-leg-number''
      ''Duplicate Leg Number''"
| "leg_error_to_api_error (Persistence _) =
    failure 500 ''INTERNAL_ERROR'' (LegText ''a persistence error occurred'') ''/problems/internal-error''
      ''Internal Server Error''"
| "leg_error_to_api_error _ =
    failure 500 ''INTERNAL_ERROR'' (LegText ''an unexpected error occurred'') ''/problems/internal-error''
      ''Internal Server Error''"

section \<open>Activities\<close>

record ('s, 'j) activity_app_state =
  aas_repo :: "('s, 'j) activity_repository"
  aas_leg_repo :: "'s leg_repository"
  aas_find_version :: "route_version_id \<Rightarrow> ('s, route_version option, route_versioning_error) step"
  aas_audit :: "'s audit_sink"

record list_activities_params =
  lap_cursor :: "string option"
  lap_page_size :: "u32 option"

record 'j activity_summary_response =
  asr_id :: uuid
  asr_title :: string
  asr_activity_type :: string
  asr_started_at :: "time option"
  asr_ended_at :: "time option"
  asr_recorded_summary :: "'j option"
  asr_corrected_summary :: "'j option"
  asr_created_at :: time
  asr_updated_at :: time

record pagination_meta =
  pm_cursor :: "string option"
  pm_has_more :: bool
  pm_page_size :: u32

record 'j activity_list_response =
  alr_items :: "'j activity_summary_response list"
  alr_pagination :: pagination_meta

text \<open>The JSON object of a leg's summary has the fields of the summary.\<close>

record activity_leg_summary =
  avl_id :: uuid
  avl_leg_number :: u32
  avl_title :: "string option"
  avl_date :: naive_date
  avl_recorded_summary :: "leg_summary option"

record activity_aggregated_stats =
  ags_total_distance :: f64
  ags_total_elevation_gain :: "f64 option"
  ags_total_days :: u32
  ags_total_legs :: u32

record 'j activity_detail_response =
  adr_id :: uuid
  adr_title :: string
  adr_activity_type :: string
  adr_started_at :: "time option"
  adr_ended_at :: "time option"
  adr_lifecycle_state :: string
  adr_recorded_summary :: "'j option"
  adr_corrected_summary :: "'j option"
  adr_current_route_version_id :: "uuid option"
  adr_legs :: "activity_leg_summary list option"
  adr_aggregated_stats :: "activity_aggregated_stats option"
  adr_created_at :: time
  adr_updated_at :: time

definition activity_summary :: "'j activity \<Rightarrow> 'j activity_summary_response" where
  "activity_summary a =
    \<lparr>asr_id = activity_uuid (ac_id a), asr_title = title_str (ac_title a),
     asr_activity_type = activity_type_to_string (ac_activity_type a), asr_started_at = ac_started_at a,
     asr_ended_at = ac_ended_at a, asr_recorded_summary = ac_recorded_summary a,
     asr_corrected_summary = ac_corrected_summary a, asr_created_at = ac_created_at a,
     asr_updated_at = ac_updated_at a\<rparr>"

definition get_activities ::
  "('s, 'j) activity_app_state \<Rightarrow> user_id \<Rightarrow> list_activities_params \<Rightarrow>
    ('s, nat \<times> 'j activity_list_response, string api_failure) step" where
  "get_activities st actor params =
    bindq (map_errq activity_error_to_api_error
      (list_activities actor (lap_cursor params) (lap_page_size params) (aas_repo st))) (\<lambda>page.
    let items = map activity_summary (pg_items page) in
    returnq (200, \<lparr>alr_items = items, alr_pagination =
      \<lparr>pm_cursor = pg_next_cursor page, pm_has_more = pg_has_more page,
       pm_page_size = of_nat (length items)\<rparr>\<rparr>))"

definition activity_detail ::
  "'j activity \<Rightarrow> activity_leg_summary list option \<Rightarrow> activity_aggregated_stats option \<Rightarrow>
    'j activity_detail_response" where
  "activity_detail a legs stats =
    \<lparr>adr_id = activity_uuid (ac_id a), adr_title = title_str (ac_title a),
     adr_activity_type = activity_type_to_string (ac_activity_type a), adr_started_at = ac_started_at a,
     adr_ended_at = ac_ended_at a, adr_lifecycle_state = lifecycle_state_to_string (ac_lifecycle_state a),
     adr_recorded_summary = ac_recorded_summary a, adr_corrected_summary = ac_corrected_summary a,
     adr_current_route_version_id = map_option version_uuid (ac_current_route_version_id a),
     adr_legs = legs, adr_aggregated_stats = stats, adr_created_at = ac_created_at a,
     adr_updated_at = ac_updated_at a\<rparr>"

text \<open>\<open>unwrap_or\<close> after an \<open>await\<close>: a failure becomes a default, the effects stay.\<close>

definition unwrap_orq :: "'a \<Rightarrow> ('s, 'a, 'e) step \<Rightarrow> ('s, 'a, 'f) step" where
  "unwrap_orq d m s = (case m s of (Ok x, s') \<Rightarrow> (Ok x, s') | (Err _, s') \<Rightarrow> (Ok d, s'))"

definition add_gain :: "f64 option \<Rightarrow> leg_summary option \<Rightarrow> f64 option" where
  "add_gain so_far s =
    (case Option.bind s ls_elevation_gain_meters of
       Some gain \<Rightarrow> Some (fadd (case so_far of Some t \<Rightarrow> t | None \<Rightarrow> Fin 0) gain)
     | None \<Rightarrow> so_far)"

text \<open>The loop over the legs: the entries so far, the distance and the gain.\<close>

fun summarise_legs ::
  "'s leg_repository \<Rightarrow> leg list \<Rightarrow> activity_leg_summary list \<Rightarrow> f64 \<Rightarrow> f64 option \<Rightarrow>
    ('s, activity_leg_summary list \<times> f64 \<times> f64 option, 'e) step" where
  "summarise_legs R [] acc distance gain = returnq (acc, distance, gain)"
| "summarise_legs R (l # ls) acc distance gain =
    bindq (unwrap_orq None (lr_summary R (lg_id l))) (\<lambda>s.
    summarise_legs R ls
      (acc @ [\<lparr>avl_id = leg_uuid (lg_id l), avl_leg_number = lg_leg_number l,
         avl_title = map_option leg_title_str (lg_title l), avl_date = lg_date l, avl_recorded_summary = s\<rparr>])
      (case s of Some x \<Rightarrow> fadd distance (ls_distance_meters x) | None \<Rightarrow> distance) (add_gain gain s))"

definition get_activity_detail ::
  "('s, 'j) activity_app_state \<Rightarrow> user_id \<Rightarrow> uuid \<Rightarrow>
    ('s, nat \<times> 'j activity_detail_response, string api_failure) step" where
  "get_activity_detail st actor i =
    bindq (map_errq activity_error_to_api_error (get_activity (ActivityId i) actor (aas_repo st))) (\<lambda>a.
    bindq (unwrap_orq [] (lr_list (aas_leg_repo st) (ac_id a))) (\<lambda>legs.
    if legs = [] then returnq (200, activity_detail a None None)
    else
      bindq (summarise_legs (aas_leg_repo st) legs [] (Fin 0) None) (\<lambda>(entries, distance, gain).
      returnq (200, activity_detail a (Some entries) (Some
        \<lparr>ags_total_distance = distance, ags_total_elevation_gain = gain,
         ags_total_days = of_nat (card (set (map lg_date legs))),
         ags_total_legs = of_nat (length legs)\<rparr>)))))"

definition patch_activity_title ::
  "time \<Rightarrow> ('s, 'j) activity_app_state \<Rightarrow> user_id \<Rightarrow> uuid \<Rightarrow> string \<Rightarrow>
    ('s, nat \<times> 'j activity_detail_response, string api_failure) step" where
  "patch_activity_title now st actor i title =
    bindq (map_errq activity_error_to_api_error
      (rename_activity now (ActivityId i) actor title (aas_repo st) (aas_audit st))) (\<lambda>a.
    returnq (200, activity_detail a None None))"

definition delete_activity_handler ::
  "time \<Rightarrow> ('s, 'j) activity_app_state \<Rightarrow> user_id \<Rightarrow> uuid \<Rightarrow> ('s, nat, string api_failure) step" where
  "delete_activity_handler now st actor i =
    bindq (map_errq activity_error_to_api_error
      (delete_activity now (ActivityId i) actor (aas_repo st) (aas_audit st))) (\<lambda>_. returnq 204)"

definition post_select_current_route_version ::
  "time \<Rightarrow> (corrected_statistics \<Rightarrow> 'j option) \<Rightarrow> ('s, 'j) activity_app_state \<Rightarrow> user_id \<Rightarrow> uuid \<Rightarrow>
    string option \<Rightarrow> uuid \<Rightarrow> ('s, nat \<times> 'j activity_detail_response, string api_failure) step" where
  "post_select_current_route_version now to_value st actor i header ver =
    bindq (of_result (map_err Problem (idempotency_key_header (\<lambda>m. m) header))) (\<lambda>_.
    bindq (map_errq activity_error_to_api_error
      (select_current_route_version now to_value (ActivityId i) actor (RouteVersionId ver) (aas_repo st)
        (aas_find_version st) (aas_audit st))) (\<lambda>a.
    returnq (200, activity_detail a None None)))"

section \<open>Legs\<close>

record ('s, 'j) leg_app_state =
  las_activity_repo :: "('s, 'j) activity_repository"
  las_leg_repo :: "'s leg_repository"

record leg_summary_response =
  lsr_id :: uuid
  lsr_leg_number :: u32
  lsr_title :: "string option"
  lsr_date :: naive_date
  lsr_recorded_summary :: "leg_summary option"
  lsr_created_at :: time
  lsr_updated_at :: time

record leg_detail_response =
  ldr_id :: uuid
  ldr_leg_number :: u32
  ldr_title :: "string option"
  ldr_date :: naive_date
  ldr_source_revision_id :: "uuid option"
  ldr_recorded_track_id :: "uuid option"
  ldr_recorded_summary :: "leg_summary option"
  ldr_created_at :: time
  ldr_updated_at :: time

text \<open>In an update an absent field is \<open>None\<close>; a title of \<open>null\<close> is \<open>Some None\<close>.\<close>

record create_leg_request =
  clr_title :: "string option"
  clr_date :: naive_date

record update_leg_request =
  ulr_title :: "string option option"
  ulr_date :: "naive_date option"
  ulr_leg_number :: "u32 option"

abbreviation leg_step :: "('s, 'a, recorded_activity_error) step \<Rightarrow> ('s, 'a, leg_message api_failure) step" where
  "leg_step m \<equiv> map_errq leg_error_to_api_error m"

definition activity_not_found :: "leg_message api_failure" where
  "activity_not_found =
    failure 404 ''NOT_FOUND'' (LegText ''activity not found'') ''/problems/not-found'' ''Not Found''"

definition verify_activity_ownership ::
  "uuid \<Rightarrow> user_id \<Rightarrow> ('s, 'j) activity_repository \<Rightarrow> ('s, activity_id, leg_message api_failure) step" where
  "verify_activity_ownership i actor R =
    bindq (map_errq (\<lambda>e. if e = TitleSlicePanic then Unwound else activity_not_found)
      (get_activity (ActivityId i) actor R)) (\<lambda>_. returnq (ActivityId i))"

definition leg_detail_response_of :: "leg \<Rightarrow> leg_summary option \<Rightarrow> leg_detail_response" where
  "leg_detail_response_of l s =
    \<lparr>ldr_id = leg_uuid (lg_id l), ldr_leg_number = lg_leg_number l,
     ldr_title = map_option leg_title_str (lg_title l), ldr_date = lg_date l,
     ldr_source_revision_id = map_option source_revision_uuid (lg_source_revision_id l),
     ldr_recorded_track_id = map_option track_uuid (lg_recorded_track_id l), ldr_recorded_summary = s,
     ldr_created_at = lg_created_at l, ldr_updated_at = lg_updated_at l\<rparr>"

definition post_add_leg ::
  "leg_id \<Rightarrow> time \<Rightarrow> ('s, 'j) leg_app_state \<Rightarrow> user_id \<Rightarrow> uuid \<Rightarrow> create_leg_request \<Rightarrow>
    ('s, nat \<times> leg_detail_response, leg_message api_failure) step" where
  "post_add_leg new_id now st actor i body =
    bindq (verify_activity_ownership i actor (las_activity_repo st)) (\<lambda>a.
    bindq (leg_step (add_leg new_id now a (clr_title body) (clr_date body) None None (las_leg_repo st))) (\<lambda>l.
    returnq (201, leg_detail_response_of l None)))"

definition leg_entry :: "leg \<Rightarrow> leg_summary option \<Rightarrow> leg_summary_response" where
  "leg_entry l s =
    \<lparr>lsr_id = leg_uuid (lg_id l), lsr_leg_number = lg_leg_number l,
     lsr_title = map_option leg_title_str (lg_title l), lsr_date = lg_date l, lsr_recorded_summary = s,
     lsr_created_at = lg_created_at l, lsr_updated_at = lg_updated_at l\<rparr>"

fun gather_legs ::
  "'s leg_repository \<Rightarrow> leg list \<Rightarrow> leg_summary_response list \<Rightarrow>
    ('s, leg_summary_response list, leg_message api_failure) step" where
  "gather_legs R [] items = returnq items"
| "gather_legs R (l # ls) items =
    bindq (leg_step (lr_summary R (lg_id l))) (\<lambda>s. gather_legs R ls (items @ [leg_entry l s]))"

definition get_legs ::
  "('s, 'j) leg_app_state \<Rightarrow> user_id \<Rightarrow> uuid \<Rightarrow>
    ('s, nat \<times> leg_summary_response list, leg_message api_failure) step" where
  "get_legs st actor i =
    bindq (verify_activity_ownership i actor (las_activity_repo st)) (\<lambda>a.
    bindq (leg_step (list_legs_for_activity a (las_leg_repo st))) (\<lambda>legs.
    bindq (gather_legs (las_leg_repo st) legs []) (\<lambda>items. returnq (200, items))))"

definition get_leg_detail_handler ::
  "('s, 'j) leg_app_state \<Rightarrow> user_id \<Rightarrow> uuid \<Rightarrow> uuid \<Rightarrow>
    ('s, nat \<times> leg_detail_response, leg_message api_failure) step" where
  "get_leg_detail_handler st actor i l =
    bindq (verify_activity_ownership i actor (las_activity_repo st)) (\<lambda>_.
    bindq (leg_step (get_leg_detail (LegId l) (las_leg_repo st))) (\<lambda>d.
    if activity_uuid (lg_activity_id (ld_leg d)) \<noteq> i then failq leg_not_found
    else returnq (200, leg_detail_response_of (ld_leg d) (ld_summary d))))"

text \<open>The check that \<open>patch_leg\<close> and \<open>delete_leg_handler\<close> make: the leg is one of the activity.\<close>

definition leg_of_activity ::
  "'s leg_repository \<Rightarrow> uuid \<Rightarrow> leg_id \<Rightarrow> ('s, leg, leg_message api_failure) step" where
  "leg_of_activity R i l =
    bindq (leg_step (lr_find R l)) (\<lambda>found.
    bindq (of_result (ok_or leg_not_found found)) (\<lambda>existing.
    if activity_uuid (lg_activity_id existing) \<noteq> i then failq leg_not_found else returnq existing))"

definition patch_leg ::
  "time \<Rightarrow> ('s, 'j) leg_app_state \<Rightarrow> user_id \<Rightarrow> uuid \<Rightarrow> uuid \<Rightarrow> update_leg_request \<Rightarrow>
    ('s, nat \<times> leg_detail_response, leg_message api_failure) step" where
  "patch_leg now st actor i l body =
    (let R = las_leg_repo st in
     bindq (verify_activity_ownership i actor (las_activity_repo st)) (\<lambda>_.
     bindq (leg_of_activity R i (LegId l)) (\<lambda>_.
     bindq (case ulr_title body of
         Some title \<Rightarrow> bindq (leg_step (rename_leg now (LegId l) title R)) (\<lambda>_. returnq ())
       | None \<Rightarrow> returnq ()) (\<lambda>_.
     bindq (case ulr_date body of
         Some date \<Rightarrow> bindq (leg_step (update_leg_date now (LegId l) date R)) (\<lambda>_. returnq ())
       | None \<Rightarrow> returnq ()) (\<lambda>_.
     bindq (case ulr_leg_number body of
         Some n \<Rightarrow> leg_step (reorder_leg (LegId l) n R)
       | None \<Rightarrow> returnq ()) (\<lambda>_.
     bindq (leg_step (get_leg_detail (LegId l) R)) (\<lambda>d.
     returnq (200, leg_detail_response_of (ld_leg d) (ld_summary d)))))))))"

definition delete_leg_handler ::
  "(nat \<Rightarrow> time) \<Rightarrow> ('s, 'j) leg_app_state \<Rightarrow> user_id \<Rightarrow> uuid \<Rightarrow> uuid \<Rightarrow>
    ('s, nat, leg_message api_failure) step" where
  "delete_leg_handler clock st actor i l =
    bindq (verify_activity_ownership i actor (las_activity_repo st)) (\<lambda>_.
    bindq (leg_of_activity (las_leg_repo st) i (LegId l)) (\<lambda>_.
    bindq (leg_step (remove_leg clock (LegId l) (las_leg_repo st))) (\<lambda>_. returnq 204)))"

end
