(* ===== verification/Catalog_Correctness.thy ===== *)
theory Catalog_Correctness
  imports Activity_Catalog
begin

text \<open>
  Correctness of the activity catalog: the cursors lead through the whole catalog, ownership and
  deletion are respected by every command and query, and titles.
\<close>

section \<open>The order of the pages\<close>

lemma after_cursor_key:
  "after_cursor (Some (cr_started_at x, cr_id x)) y \<longleftrightarrow> row_key x < row_key y"
  by (auto simp: row_key_def word_less_def split: option.splits)

lemma row_key_inject: "row_key x = row_key y \<Longrightarrow> cr_id x = cr_id y"
  by (auto simp: row_key_def word_uint_eq_iff split: option.splits)

lemma rows_strictly_sorted:
  assumes "distinct (map cr_id rows)"
  shows "sorted_wrt (\<lambda>x y. row_key x < row_key y) (sort_key row_key rows)"
proof -
  from assms have "distinct (map row_key rows)"
    by (auto simp: distinct_map intro!: inj_onI dest!: row_key_inject dest: inj_onD)
  then have "distinct (map row_key (sort_key row_key rows))" by (simp add: distinct_map)
  moreover have "sorted (map row_key (sort_key row_key rows))" by simp
  ultimately have "sorted_wrt (<) (map row_key (sort_key row_key rows))"
    by (simp add: strict_sorted_iff)
  then show ?thesis by (simp add: sorted_wrt_map)
qed

lemma select_page_first:
  "select_page owner None limit t = take limit (sort_key row_key (live_rows owner t))"
  by (simp add: select_page_def)

lemma select_page_after:
  assumes "distinct (map cr_id (live_rows owner t))"
    and "sort_key row_key (live_rows owner t) = pre @ x # rest"
  shows "select_page owner (Some (cr_started_at x, cr_id x)) limit t = take limit rest"
proof -
  note strict = rows_strictly_sorted [OF assms(1), unfolded assms(2)]
  have "sort_key row_key (filter (after_cursor (Some (cr_started_at x, cr_id x))) (live_rows owner t)) =
      filter (\<lambda>y. row_key x < row_key y) (pre @ x # rest)"
    unfolding after_cursor_key filter_sort [symmetric] assms(2) ..
  also have "\<dots> = rest"
    using strict by (auto simp: sorted_wrt_append filter_empty_conv intro!: filter_True dest: less_asym)
  finally show ?thesis by (simp add: select_page_def)
qed

section \<open>Following the cursors\<close>

text \<open>The cursor of a row is read back: what the code relies on of the JSON, UUID and timestamp texts.\<close>

definition cursor_codec :: "cursor_env \<Rightarrow> 'j catalog_row \<Rightarrow> bool" where
  "cursor_codec C r \<longleftrightarrow>
    (let p = \<lparr>cu_started_at = map_option (ce_to_rfc3339 C) (cr_started_at r), cu_id = uuid_to_string (cr_id r)\<rparr> in
     valid_utf8 (ce_to_json C p) \<and> ce_from_json C (ce_to_json C p) = Some p \<and>
     ce_parse_uuid C (uuid_to_string (cr_id r)) = Some (cr_id r) \<and>
     (case cr_started_at r of None \<Rightarrow> True | Some t \<Rightarrow> ce_parse_time C (ce_to_rfc3339 C t) = Some t))"

lemma base64_decode_encode:
  "base64_decode (base64_encode s) = (if valid_utf8 s then Ok s else Err ''invalid utf8'')"
  by (simp add: base64_decode_def base64_decode_bytes_encode)

lemma read_next_cursor:
  assumes "cursor_codec C r" and "row_to_activity r = Ok a"
  shows "read_cursor C (next_cursor C a) = Ok (cr_started_at r, cr_id r)"
  using assms row_to_activity_fields [OF assms(2)]
  by (auto simp: read_cursor_def next_cursor_def encode_cursor_def decode_cursor_def base64_decode_encode
      cursor_codec_def Let_def split: option.splits)

text \<open>A client that follows the cursors, for at most the given number of pages.\<close>

fun fetch_pages ::
  "nat \<Rightarrow> cursor_env \<Rightarrow> user_id \<Rightarrow> u32 option \<Rightarrow> string option \<Rightarrow> 'j catalog_tables db \<Rightarrow>
    'j activity list list option" where
  "fetch_pages 0 C owner n cursor db = None"
| "fetch_pages (Suc k) C owner n cursor db =
    (case list_activities owner cursor n (PgActivityRepository C 0) db of
       (Err _, _) \<Rightarrow> None
     | (Ok p, db') \<Rightarrow>
         (case pg_next_cursor p of
            None \<Rightarrow> Some [pg_items p]
          | Some c \<Rightarrow> map_option (Cons (pg_items p)) (fetch_pages k C owner n (Some c) db')))"

lemma clamp_page_size_bounds: "1 \<le> unat (clamp_page_size n)" "unat (clamp_page_size n) \<le> 100"
proof -
  have "1 \<le> clamp_page_size n" "clamp_page_size n \<le> 100"
    by (auto simp: clamp_page_size_def Let_def MAX_PAGE_SIZE_def min_def max_def)
  then show "1 \<le> unat (clamp_page_size n)" "unat (clamp_page_size n) \<le> 100"
    by (simp_all add: word_le_nat_alt)
qed

lemma collect_length: "collect f xs = Ok ys \<Longrightarrow> length ys = length xs"
  by (simp add: collect_Ok list_all2_lengthD)

lemma collect_Nil: "collect f xs = Ok [] \<longleftrightarrow> xs = []"
  by (cases xs) (auto simp: result_simps)

lemma collect_last: "collect f xs = Ok ys \<Longrightarrow> xs \<noteq> [] \<Longrightarrow> f (last xs) = Ok (last ys)"
  by (induction xs arbitrary: ys) (auto simp: result_simps collect_Nil)

lemma collect_append:
  "collect f (xs @ ys) = Ok zs \<longleftrightarrow> (\<exists>us vs. collect f xs = Ok us \<and> collect f ys = Ok vs \<and> zs = us @ vs)"
  by (induction xs arbitrary: zs) (auto simp: result_simps)

lemma collect_total: "\<forall>x\<in>set xs. \<exists>y. f x = Ok y \<Longrightarrow> \<exists>ys. collect f xs = Ok ys"
  by (induction xs) auto

text \<open>One page, with the rows that are left as a list.\<close>

lemma list_page:
  assumes "faults db = []" and "cursor = None \<and> k = None \<or> (\<exists>c j. cursor = Some c \<and> k = Some j \<and> read_cursor C c = Ok j)"
    and "\<And>m. select_page owner k m (tables db) = take m rest"
    and "\<forall>r\<in>set rest. \<exists>a. row_to_activity r = Ok a"
  obtains items where "collect row_to_activity (take (unat (clamp_page_size n)) rest) = Ok items"
    and "list_activities owner cursor n (PgActivityRepository C now) db =
      (Ok \<lparr>pg_items = items,
        pg_next_cursor = (if unat (clamp_page_size n) < length rest then Some (next_cursor C (last items)) else None),
        pg_has_more = (unat (clamp_page_size n) < length rest)\<rparr>, db)"
proof -
  let ?n = "unat (clamp_page_size n)"
  note b = clamp_page_size_bounds [of n]
  from collect_total [of "take ?n rest"] assms(4) obtain items where
    items: "collect row_to_activity (take ?n rest) = Ok items" by (meson in_set_takeD)
  have succ: "unat (clamp_page_size n + 1) = ?n + 1"
    using b by (subst unat_plus_simple [THEN iffD1]) (simp_all add: word_le_nat_alt unat_word_ariths)
  have len: "length (take (?n + 1) rest) \<le> 101" using b by simp
  then have "unat (of_nat (length (take (?n + 1) rest)) :: u32) = length (take (?n + 1) rest)"
    by (simp add: unat_of_nat)
  then have more: "clamp_page_size n < of_nat (length (take (?n + 1) rest)) \<longleftrightarrow> ?n < length rest"
    by (auto simp: word_less_nat_alt)
  have ne: "items = [] \<longleftrightarrow> rest = []" using collect_length [OF items] b(1) by (cases rest; cases items) auto
  have cur: "(case cursor of None \<Rightarrow> Ok None | Some s \<Rightarrow> and_then (read_cursor C s) (\<lambda>k. Ok (Some k))) = Ok k"
    using assms(2) by auto
  show thesis
    by (rule that [OF items])
      (use items succ more ne b cur in \<open>simp add: list_activities_def PgActivityRepository_def pg_act_list_def
        bindq_def map_errq_def select_faultless assms(1,3) Let_def min_def\<close>)
qed

lemma fetch_pages_rest:
  assumes "faults db = []" and "distinct (map cr_id (live_rows owner (tables db)))"
    and "\<forall>r\<in>set (live_rows owner (tables db)). cursor_codec C r \<and> (\<exists>a. row_to_activity r = Ok a)"
    and "sort_key row_key (live_rows owner (tables db)) = pre @ rest"
    and "cursor = None \<and> pre = [] \<or>
      (\<exists>c. cursor = Some c \<and> pre \<noteq> [] \<and> read_cursor C c = Ok (cr_started_at (last pre), cr_id (last pre)))"
    and "length rest \<le> k"
  shows "\<exists>pages. fetch_pages (Suc k) C owner n cursor db = Some pages \<and>
    collect row_to_activity rest = Ok (concat pages) \<and>
    (\<forall>p\<in>set (butlast pages). length p = unat (clamp_page_size n))"
  using assms(4-6)
proof (induction "length rest" arbitrary: pre rest cursor k rule: less_induct)
  case less
  let ?rows = "live_rows owner (tables db)" and ?n = "unat (clamp_page_size n)"
  have set_rest: "set rest \<subseteq> set ?rows"
    using less.prems(1) by (metis set_append set_sort sup_ge2)
  obtain key where key: "cursor = None \<and> key = None \<or>
      (\<exists>c j. cursor = Some c \<and> key = Some j \<and> read_cursor C c = Ok j)"
    and sel: "\<And>m. select_page owner key m (tables db) = take m rest"
  proof (cases "pre = []")
    case True
    with less.prems(1,2) that [of None] show thesis by (auto simp: select_page_first)
  next
    case False
    then have "sort_key row_key ?rows = butlast pre @ last pre # rest" using less.prems(1) by simp
    from select_page_after [OF assms(2) this] False less.prems(2)
      that [of "Some (cr_started_at (last pre), cr_id (last pre))"] show thesis by auto
  qed
  from list_page [OF assms(1) key sel, where n = n and now = 0] set_rest assms(3) obtain items where
    items: "collect row_to_activity (take ?n rest) = Ok items"
    and page: "list_activities owner cursor n (PgActivityRepository C 0) db =
      (Ok \<lparr>pg_items = items,
        pg_next_cursor = (if ?n < length rest then Some (next_cursor C (last items)) else None),
        pg_has_more = (?n < length rest)\<rparr>, db)" by blast
  show ?case
  proof (cases "?n < length rest")
    case False
    with page items show ?thesis by (intro exI [of _ "[items]"]) simp
  next
    case True
    let ?x = "last (take ?n rest)"
    have n: "1 \<le> ?n" by (rule clamp_page_size_bounds)
    then have ne: "take ?n rest \<noteq> []" using True by auto
    from collect_last [OF items ne] have x: "row_to_activity ?x = Ok (last items)" .
    have "?x \<in> set ?rows" using last_in_set [OF ne] set_rest by (meson in_set_takeD subsetD)
    with assms(3) read_next_cursor [OF _ x] have cur: "read_cursor C (next_cursor C (last items)) =
        Ok (cr_started_at ?x, cr_id ?x)" by blast
    have split: "sort_key row_key ?rows = (pre @ take ?n rest) @ drop ?n rest" using less.prems(1) by simp
    from True less.prems(3) obtain k' where k: "k = Suc k'" by (cases k) auto
    have "\<exists>pages. fetch_pages (Suc k') C owner n (Some (next_cursor C (last items))) db = Some pages \<and>
        collect row_to_activity (drop ?n rest) = Ok (concat pages) \<and>
        (\<forall>p\<in>set (butlast pages). length p = ?n)"
      by (rule less.hyps [OF _ split]) (use True n ne cur k less.prems(3) in auto)
    then obtain pages where pages: "fetch_pages k C owner n (Some (next_cursor C (last items))) db = Some pages"
      "collect row_to_activity (drop ?n rest) = Ok (concat pages)" "\<forall>p\<in>set (butlast pages). length p = ?n"
      unfolding k by blast
    have "collect row_to_activity rest = Ok (items @ concat pages)"
      using items pages(2) collect_append [of row_to_activity "take ?n rest" "drop ?n rest"] by auto
    moreover have "length items = ?n" using collect_length [OF items] True by simp
    ultimately show ?thesis
      using page pages True by (intro exI [of _ "items # pages"]) auto
  qed
qed

section \<open>Titles\<close>

lemma length_row_title: "row_title s = Ok t \<Longrightarrow> length (title_str t) \<le> 500"
proof -
  have "length (title_str t) \<le> 500" if "activity_title_new s = Ok t" for s
    using that by (auto simp: activity_title_new_def MAX_TITLE_LENGTH_def Let_def split: if_splits)
  then show "row_title s = Ok t \<Longrightarrow> length (title_str t) \<le> 500"
    by (auto simp: row_title_def split: result.splits activity_catalog_error.splits)
qed

lemma untitled: "activity_title_new ''Untitled'' = Ok (ActivityTitle ''Untitled'')"
proof -
  have "trim ''Untitled'' = ''Untitled''" by code_simp
  then show ?thesis by (simp add: activity_title_new_def MAX_TITLE_LENGTH_def)
qed

lemma activity_title_new_short:
  "length s \<le> 500 \<Longrightarrow> activity_title_new s =
    (if trim s = [] then Err (InvalidTitle ''title must not be empty'') else Ok (ActivityTitle (trim s)))"
  using length_trim_le [of s] by (simp add: activity_title_new_def MAX_TITLE_LENGTH_def Let_def)

lemma row_title_short: "length s \<le> 500 \<Longrightarrow> \<exists>t. row_title s = Ok t"
  by (simp add: row_title_def activity_title_new_short [of s] untitled)

section \<open>Deletion\<close>

lemma pg_act_viewE:
  assumes "pg_act_view db i = Some a"
  obtains r where "r \<in> set (ct_activities (tables db))" and "cr_id r = activity_uuid i"
    and "row_to_activity r = Ok a"
  using assms by (auto simp: pg_act_view_def ok_def dest!: find_Some_set split: bind_splits result.splits)

lemma pg_act_viewI:
  assumes "catalog_ok db" and "r \<in> set (ct_activities (tables db))" and "row_to_activity r = Ok a"
  shows "pg_act_view db (ActivityId (cr_id r)) = Some a"
  using find_by_key [of cr_id "ct_activities (tables db)" r] assms
  by (simp add: pg_act_view_def catalog_ok_def)

lemma deleted_not_live:
  assumes "catalog_ok db" and "pg_act_view db i = Some a" and "ac_lifecycle_state a = Deleted"
    and "r \<in> set (live_rows u (tables db))"
  shows "cr_id r \<noteq> activity_uuid i"
proof
  assume r: "cr_id r = activity_uuid i"
  from assms(2) obtain q where q: "q \<in> set (ct_activities (tables db))" "cr_id q = activity_uuid i"
    "row_to_activity q = Ok a" by (rule pg_act_viewE)
  from row_to_activity_fields [OF q(3)] assms(3) have "cr_lifecycle_state q = ''deleted''"
    by (auto simp: parse_lifecycle_state_def split: if_splits)
  moreover from assms(1,4) q r have "r = q"
    by (auto simp: live_rows_def catalog_ok_def distinct_map dest: inj_onD [of cr_id _ r q])
  ultimately show False using assms(4) by (simp add: live_rows_def)
qed

lemma delete_activity_deletes:
  assumes "catalog_ok db"
    and "delete_activity now i u (PgActivityRepository C t) pg_audit_record db = (Ok (), db1)"
  shows "catalog_ok db1 \<and> (\<exists>a. pg_act_view db1 i = Some a \<and> ac_lifecycle_state a = Deleted)"
proof -
  let ?R = "PgActivityRepository C t"
  from assms(2) obtain a db2 where load: "load_owned ?R i u db = (Ok a, db2)"
    and rest: "ac_lifecycle_state a = Deleted \<and> db1 = db2 \<or> (\<exists>db3. pg_act_update (delete_state now a) db2 = (Ok (), db3) \<and>
      db1 = snd (pg_audit_record (user_uuid u) ''activity.deleted'' ''activity'' (uuid_to_string (activity_uuid i)) db3))"
    by (auto simp: delete_activity_def bindq_Ok PgActivityRepository_def split: if_splits)
  note l = pga.load_owned_Ok [OF load assms(1)]
  show ?thesis
  proof (cases "ac_lifecycle_state a = Deleted \<and> db1 = db2")
    case True
    with l show ?thesis by auto
  next
    case False
    with rest obtain db3 where upd: "pg_act_update (delete_state now a) db2 = (Ok (), db3)"
      and db1: "db1 = snd (pg_audit_record (user_uuid u) ''activity.deleted'' ''activity''
        (uuid_to_string (activity_uuid i)) db3)" by blast
    have id: "ac_id (delete_state now a) = i" using l by (simp add: delete_state_def)
    from upd have rows: "ct_activities (tables db3) = map (\<lambda>r. if cr_id r = activity_uuid i
        then set_catalog_columns (delete_state now a) r else r) (ct_activities (tables db2))"
      by (auto simp: pg_act_update_def map_errq_Ok query_Ok update_catalog_row_def id split: if_splits)
    from l have "pg_act_view db2 i = Some a" by simp
    then obtain r where r: "r \<in> set (ct_activities (tables db2))" "cr_id r = activity_uuid i"
      "row_to_activity r = Ok a" by (rule pg_act_viewE)
    then have "length (title_str (ac_title a)) \<le> 500"
      using length_row_title by (auto simp: row_to_activity_def result_simps)
    then obtain title where "row_title (title_str (ac_title a)) = Ok title" using row_title_short by blast
    then obtain b where b: "row_to_activity (set_catalog_columns (delete_state now a) r) = Ok b"
      "ac_lifecycle_state b = Deleted"
      by (auto simp: row_to_activity_def set_catalog_columns_def catalog_row_of_def delete_state_def
          parse_lifecycle_state_def)
    have ok3: "catalog_ok db3" using pg_act_update_frame [OF upd] l by simp
    have "set_catalog_columns (delete_state now a) r \<in> set (ct_activities (tables db3))"
      unfolding rows using r(1,2) by force
    from pg_act_viewI [OF ok3 this b(1)] r(2) have "pg_act_view db3 i = Some b" by simp
    with b(2) ok3 db1 catalog_keeps [OF pg_audit_keeps prod.collapse [symmetric]] show ?thesis by metis
  qed
qed

lemma get_activity_hidden:
  assumes "catalog_ok db" and "pg_act_view db i = Some a" and "ac_owner_id a \<noteq> u \<or> ac_lifecycle_state a = Deleted"
  shows "\<nexists>x. fst (get_activity i u (PgActivityRepository C now) db) = Ok x"
proof
  assume "\<exists>x. fst (get_activity i u (PgActivityRepository C now) db) = Ok x"
  then obtain x db' where "get_activity i u (PgActivityRepository C now) db = (Ok x, db')" by (metis prod.collapse)
  then obtain m db1 where find: "act_find_by_id (PgActivityRepository C now) i db = (Ok (Some m), db1)"
    and m: "ac_owner_id m = u" "ac_lifecycle_state m \<noteq> Deleted"
    by (auto simp: get_activity_def bindq_Ok ok_or_def split: option.splits if_splits)
  from pga.find_Ok [OF find assms(1)] assms(2,3) m show False by auto
qed

lemma deleted_unreachable:
  assumes "catalog_ok db" and "pg_act_view db i = Some a" and "ac_lifecycle_state a = Deleted"
  shows "activity_uuid i \<notin> cr_id ` set (live_rows v (tables db)) \<and>
    (\<nexists>x. fst (get_activity i v (PgActivityRepository C now) db) = Ok x)"
proof
  show "activity_uuid i \<notin> cr_id ` set (live_rows v (tables db))"
    using deleted_not_live [OF assms] by (auto simp: eq_commute)
  show "\<nexists>x. fst (get_activity i v (PgActivityRepository C now) db) = Ok x"
    using get_activity_hidden [OF assms(1,2)] assms(3) by simp
qed

section \<open>Properties\<close>

text \<open>C30. A client that follows the cursors, with any page size it asks for, sees the whole catalog: after
  at most one page per activity and one more it has got exactly the owner's activities that are not
  deleted, each once, the latest start first and those without a start last; every page but the last
  is full.\<close>

theorem pages_enumerate_catalog:
  assumes "faults db = []" and "distinct (map cr_id (ct_activities (tables db)))"
    and "\<forall>r\<in>set (live_rows owner (tables db)). cursor_codec C r \<and> (\<exists>a. row_to_activity r = Ok a)"
  shows "\<exists>pages. fetch_pages (Suc (length (live_rows owner (tables db)))) C owner n None db = Some pages \<and>
    collect row_to_activity (sort_key row_key (live_rows owner (tables db))) = Ok (concat pages) \<and>
    (\<forall>p\<in>set (butlast pages). length p = unat (clamp_page_size n))"
proof -
  have "distinct (map cr_id (live_rows owner (tables db)))"
    using assms(2) by (simp add: live_rows_def distinct_map_filter)
  from fetch_pages_rest [OF assms(1) this assms(3), of "[]"] show ?thesis by simp
qed


text \<open>C33. A title is a text like any other: for every UTF-8 input \<open>ActivityTitle::new\<close> gives the trimmed
  input cut to 500 bytes, which is well-formed UTF-8, not empty and at most 500 bytes long; it refuses
  exactly the inputs of nothing but white space, and panics exactly when byte 500 of a longer input lies
  inside a character.\<close>

theorem activity_title_type:
  assumes "valid_utf8 value"
  shows "case activity_title_new value of
      Ok t \<Rightarrow> title_str t = take 500 (trim value) \<and> valid_utf8 (title_str t) \<and> title_str t \<noteq> [] \<and>
        length (title_str t) \<le> 500
    | Err e \<Rightarrow> if \<forall>c\<in>set (chars value). is_white c then e = InvalidTitle ''title must not be empty''
        else e = TitleSlicePanic \<and> 500 < length (trim value) \<and> \<not> is_char_boundary (trim value) 500"
  using valid_utf8_trim [OF assms] valid_utf8_take [OF valid_utf8_trim [OF assms], of 500]
  by (auto simp: activity_title_new_def MAX_TITLE_LENGTH_def Let_def trim_empty_iff [symmetric])

text \<open>A name of 333 characters of two bytes after a first letter: byte 500 is inside one of them.\<close>

theorem activity_title_type_witness:
  "valid_utf8 (CHR ''a'' # concat (replicate 333 [char_of (0xC3 :: nat), char_of (0xA9 :: nat)])) \<and>
    activity_title_new (CHR ''a'' # concat (replicate 333 [char_of (0xC3 :: nat), char_of (0xA9 :: nat)])) =
      Err TitleSlicePanic"
proof -
  let ?e = "[char_of (0xC3 :: nat), char_of (0xA9 :: nat)]"
  let ?s = "CHR ''a'' # concat (replicate 333 ?e)"
  have "valid_utf8 (concat (''a'' # replicate 333 ?e))"
    by (rule valid_utf8_concat) (auto simp: valid_utf8_def cont_def)
  then have valid: "valid_utf8 ?s" by simp
  have "chunked (?e # replicate n ?e)" for n by (induction n) (simp_all add: char_width_def)
  then have "chunked (replicate 333 ?e)" by (metis eval_nat_numeral(3) replicate_Suc)
  then have chunked: "chunked (''a'' # replicate 333 ?e)"
    by (cases "replicate 333 ?e") (simp_all add: char_width_def)
  have "chars ?s = ''a'' # replicate 333 ?e"
    using chars_concat [OF chunked] by (simp add: char_width_def)
  then have "\<forall>c\<in>set (chars ?s). \<not> is_white c" by (simp only:) (auto simp: is_white_def)
  then have trim: "trim ?s = ?s" by (rule trim_no_white)
  have nth: "concat (replicate n ?e) ! (2 * k + 1) = char_of (0xA9 :: nat)" if "k < n" for n k
    using that by (induction n arbitrary: k) (auto simp: nth_append less_Suc_eq_0_disj)
  from nth [of 249 333] have "?s ! 500 = char_of (0xA9 :: nat)" by simp
  moreover have "length (concat (replicate n ?e)) = 2 * n" for n by (induction n) simp_all
  ultimately have "activity_title_new ?s \<noteq> Ok t" for t
    by (simp add: trim activity_title_new_def MAX_TITLE_LENGTH_def is_char_boundary_def)
  then obtain e where e: "activity_title_new ?s = Err e" by (cases "activity_title_new ?s") auto
  have ne: "\<not> (\<forall>c\<in>set (chars ?s). is_white c)" unfolding trim_empty_iff [symmetric] trim by simp
  from activity_title_type [OF valid] have "e = TitleSlicePanic" unfolding e result.case if_not_P [OF ne] by blast
  with e valid show ?thesis by simp
qed

text \<open>Two activities of one hiker, one of them without a start time, and a cursor text that fits them.\<close>

definition sample_catalog_row :: "uuid \<Rightarrow> time option \<Rightarrow> string \<Rightarrow> unit catalog_row" where
  "sample_catalog_row i started state =
    \<lparr>cr_id = i, cr_owner_id = 7, cr_title = ''Ridge'', cr_activity_type = ''hike'', cr_lifecycle_state = state,
     cr_started_at = started, cr_ended_at = None, cr_recorded_summary_json = None,
     cr_corrected_summary_json = None, cr_current_route_version_id = None, cr_created_at = 0, cr_updated_at = 0\<rparr>"

definition sample_catalog :: "unit catalog_tables db" where
  "sample_catalog =
    \<lparr>tables = \<lparr>ct_activities = [sample_catalog_row 1 None ''active'', sample_catalog_row 2 (Some 5) ''active''],
       ct_version_ids = [], ct_users = [7], ct_audit = []\<rparr>, faults = []\<rparr>"

definition sample_cursor_env :: cursor_env where
  "sample_cursor_env =
    \<lparr>ce_to_json = (\<lambda>p. cu_id p @ (case cu_started_at p of None \<Rightarrow> [] | Some t \<Rightarrow> t)),
     ce_from_json = (\<lambda>s. Some
       \<lparr>cu_started_at = (if length s = 36 then None else Some (drop 36 s)), cu_id = take 36 s\<rparr>),
     ce_parse_uuid = (\<lambda>s. if s = uuid_to_string 1 then Some 1 else if s = uuid_to_string 2 then Some 2 else None),
     ce_parse_time = (\<lambda>s. if s = ''05Z'' then Some 5 else None), ce_to_rfc3339 = (\<lambda>_. ''05Z'')\<rparr>"

lemma row_title_ridge: "row_title ''Ridge'' = Ok (ActivityTitle ''Ridge'')"
proof -
  have "trim ''Ridge'' = ''Ridge''" by code_simp
  then show ?thesis by (simp add: row_title_def activity_title_new_short)
qed

lemma sample_row_activity: "\<exists>a. row_to_activity (sample_catalog_row i started state) = Ok a"
  by (simp add: row_to_activity_def sample_catalog_row_def row_title_ridge)

lemma sample_row_codec:
  "cursor_codec sample_cursor_env (sample_catalog_row 1 None state)"
  "cursor_codec sample_cursor_env (sample_catalog_row 2 (Some 5) state)"
  by (simp_all add: cursor_codec_def Let_def sample_cursor_env_def sample_catalog_row_def
      valid_utf8_ascii ascii_uuid_to_string)

theorem pages_enumerate_catalog_witness:
  "\<exists>pages. fetch_pages 3 sample_cursor_env (UserId 7) (Some 1) None sample_catalog = Some pages \<and>
    collect row_to_activity [sample_catalog_row 2 (Some 5) ''active'', sample_catalog_row 1 None ''active''] =
      Ok (concat pages) \<and>
    (\<forall>p\<in>set (butlast pages). length p = 1)"
proof -
  have live: "live_rows (UserId 7) (tables sample_catalog) =
      [sample_catalog_row 1 None ''active'', sample_catalog_row 2 (Some 5) ''active'']"
    by (simp add: live_rows_def sample_catalog_def sample_catalog_row_def)
  have sort: "sort_key row_key (live_rows (UserId 7) (tables sample_catalog)) =
      [sample_catalog_row 2 (Some 5) ''active'', sample_catalog_row 1 None ''active'']"
    unfolding live by (simp add: row_key_def sample_catalog_row_def)
  have one: "unat (clamp_page_size (Some 1)) = 1"
    by (simp add: clamp_page_size_def MAX_PAGE_SIZE_def)
  have d: "faults sample_catalog = []" "distinct (map cr_id (ct_activities (tables sample_catalog)))"
    by (simp_all add: sample_catalog_def sample_catalog_row_def)
  have "\<forall>r\<in>set (live_rows (UserId 7) (tables sample_catalog)).
      cursor_codec sample_cursor_env r \<and> (\<exists>a. row_to_activity r = Ok a)"
    using sample_row_codec sample_row_activity by (simp add: live)
  from pages_enumerate_catalog [OF d this, of "Some 1"] show ?thesis
    unfolding sort one by (simp add: live eval_nat_numeral)
qed

text \<open>C31. What somebody else owns, or has been deleted, is out of reach: whatever requests others send in
  whatever order to rename, delete or select a version, and with whatever outages, an activity is
  exactly as it was, and none of them can read it.\<close>

theorem catalog_out_of_reach:
  assumes "catalog_ok db" and "pg_act_view db i = Some a"
    and "\<forall>(u, c)\<in>set cs. u \<noteq> ac_owner_id a"
  shows "let db' = foldl (\<lambda>s (u, c). snd (run_catalog J (PgActivityRepository C now)
          (\<lambda>v. of_result (find_version v)) pg_audit_record u c s)) db cs in
    pg_act_view db' i = Some a \<and>
    (\<forall>(u, c)\<in>set cs. \<nexists>x. fst (get_activity i u (PgActivityRepository C now) db') = Ok x)"
proof -
  from assms(1,2) have i: "ac_id a = i" by (rule pga.view_id)
  have "\<forall>(u, c)\<in>set cs. ac_owner_id a \<noteq> u \<or> ac_lifecycle_state a = Deleted" using assms(3) by auto
  from pga.commands_untouched [OF this assms(1), of J C now find_version] assms(2) i get_activity_hidden assms(3)
  show ?thesis by (fastforce simp: Let_def)
qed

text \<open>C32. Deletion is final: once the owner has deleted an activity, no sequence of requests by anyone,
  the owner included, brings it back; it stays deleted, is in nobody's listing and nobody can read it.\<close>

theorem deletion_final:
  assumes "catalog_ok db"
    and "delete_activity t i u (PgActivityRepository C now) pg_audit_record db = (Ok (), db1)"
  shows "let db' = foldl (\<lambda>s (u, c). snd (run_catalog J (PgActivityRepository C now)
          (\<lambda>v. of_result (find_version v)) pg_audit_record u c s)) db1 cs in
    (\<exists>a. pg_act_view db' i = Some a \<and> ac_lifecycle_state a = Deleted) \<and>
    (\<forall>v. activity_uuid i \<notin> cr_id ` set (live_rows v (tables db')) \<and>
      (\<nexists>x. fst (get_activity i v (PgActivityRepository C now) db') = Ok x))"
proof -
  from delete_activity_deletes [OF assms] obtain a where ok: "catalog_ok db1"
    and a: "pg_act_view db1 i = Some a" "ac_lifecycle_state a = Deleted" by blast
  from ok a(1) have i: "ac_id a = i" by (rule pga.view_id)
  let ?db = "foldl (\<lambda>s (u, c). snd (run_catalog J (PgActivityRepository C now)
          (\<lambda>v. of_result (find_version v)) pg_audit_record u c s)) db1 cs"
  have "catalog_ok ?db \<and> pg_act_view ?db (ac_id a) = Some a"
    by (rule pga.commands_untouched) (use ok a i in auto)
  then have "catalog_ok ?db" "pg_act_view ?db i = Some a" by (simp_all add: i)
  with deleted_unreachable [of ?db i a] a(2) show ?thesis by (simp add: Let_def)
qed

lemma sample_catalog_view: "catalog_ok sample_catalog" "\<exists>a. pg_act_view sample_catalog (ActivityId 1) = Some a \<and> ac_owner_id a = UserId 7"
  by (auto simp: catalog_ok_def sample_catalog_def pg_act_view_def sample_catalog_row_def row_to_activity_def row_title_ridge)

theorem catalog_out_of_reach_witness:
  "\<forall>J C now V. \<exists>a. pg_act_view sample_catalog (ActivityId 1) = Some a \<and>
    pg_act_view (snd (run_catalog J (PgActivityRepository C now) (\<lambda>v. of_result (V v)) pg_audit_record
      (UserId 8) (Delete 3 (ActivityId 1)) sample_catalog)) (ActivityId 1) = Some a"
proof (intro allI)
  fix J C now V
  from sample_catalog_view(2) obtain a where a: "pg_act_view sample_catalog (ActivityId 1) = Some a"
    and owner: "ac_owner_id a = UserId 7" by blast
  from owner have "\<forall>(u, c)\<in>set [(UserId 8, Delete 3 (ActivityId 1))]. u \<noteq> ac_owner_id a" by simp
  from catalog_out_of_reach [OF sample_catalog_view(1) a this, of J C now V] a
  show "\<exists>a. pg_act_view sample_catalog (ActivityId 1) = Some a \<and>
    pg_act_view (snd (run_catalog J (PgActivityRepository C now) (\<lambda>v. of_result (V v)) pg_audit_record
      (UserId 8) (Delete 3 (ActivityId 1)) sample_catalog)) (ActivityId 1) = Some a" by (simp add: Let_def)
qed

theorem deletion_final_witness:
  "\<forall>J C now V. \<exists>db1.
    delete_activity 3 (ActivityId 1) (UserId 7) (PgActivityRepository C now) pg_audit_record sample_catalog = (Ok (), db1) \<and>
    (\<exists>a. pg_act_view (snd (run_catalog J (PgActivityRepository C now) (\<lambda>v. of_result (V v)) pg_audit_record
      (UserId 7) (Rename 4 (ActivityId 1) ''Back'') db1)) (ActivityId 1) = Some a \<and> ac_lifecycle_state a = Deleted)"
proof (intro allI)
  fix J C now V
  have "\<exists>db1. delete_activity 3 (ActivityId 1) (UserId 7) (PgActivityRepository C now) pg_audit_record sample_catalog = (Ok (), db1)"
    by (simp add: delete_activity_def load_owned_def PgActivityRepository_def pg_act_find_by_id_def pg_act_update_def
        bindq_def map_errq_def select_faultless query_faultless sample_catalog_def sample_catalog_row_def
        row_to_activity_def row_title_ridge parse_lifecycle_state_def update_catalog_row_def delete_state_def ignoreq_def)
  then obtain db1 where del:
    "delete_activity 3 (ActivityId 1) (UserId 7) (PgActivityRepository C now) pg_audit_record sample_catalog = (Ok (), db1)" ..
  from deletion_final [OF sample_catalog_view(1) del, of J V "[(UserId 7, Rename 4 (ActivityId 1) ''Back'')]"] del
  show "\<exists>db1.
    delete_activity 3 (ActivityId 1) (UserId 7) (PgActivityRepository C now) pg_audit_record sample_catalog = (Ok (), db1) \<and>
    (\<exists>a. pg_act_view (snd (run_catalog J (PgActivityRepository C now) (\<lambda>v. of_result (V v)) pg_audit_record
      (UserId 7) (Rename 4 (ActivityId 1) ''Back'') db1)) (ActivityId 1) = Some a \<and> ac_lifecycle_state a = Deleted)"
    by (auto simp: Let_def)
qed

end
