(* ===== verification/Leg_Correctness.thy ===== *)
theory Leg_Correctness
  imports Legs
begin

text \<open>
  Correctness of the legs: adding and removing keep an activity's legs numbered from one without gaps; and
  a move within the legs is refused by the table's unique constraint.
\<close>

section \<open>Numbered legs\<close>

text \<open>\<open>numbered t a is\<close>: the legs of activity \<open>a\<close> are \<open>is\<close>, in this order, with the numbers 1, 2, ...\<close>

definition slot :: "leg_tables \<Rightarrow> uuid \<Rightarrow> uuid \<Rightarrow> u32 \<Rightarrow> bool" where
  "slot t a i n \<longleftrightarrow> (\<exists>r\<in>set (lt_legs t). lw_id r = i \<and> lw_activity_id r = a \<and> lw_leg_number r = n)"

definition slots :: "leg_tables \<Rightarrow> uuid \<Rightarrow> (uuid \<times> u32) list \<Rightarrow> bool" where
  "slots t a xs \<longleftrightarrow> distinct (map fst xs) \<and> (\<forall>i n. slot t a i n \<longleftrightarrow> (i, n) \<in> set xs)"

definition numbers :: "nat \<Rightarrow> nat \<Rightarrow> u32 list" where
  "numbers k n = map of_nat [k..<k + n]"

definition numbered :: "leg_tables \<Rightarrow> uuid \<Rightarrow> uuid list \<Rightarrow> bool" where
  "numbered t a is \<longleftrightarrow> length is \<le> 30 \<and> slots t a (zip is (numbers 1 (length is)))"

definition legs_ok :: "leg_tables \<Rightarrow> bool" where
  "legs_ok t \<longleftrightarrow> distinct (map lw_id (lt_legs t)) \<and> (\<forall>r\<in>set (lt_legs t). leg_references r t = None)"

lemma length_numbers [simp]: "length (numbers k n) = n"
  by (simp add: numbers_def)

lemma numbers_Suc: "numbers k (Suc n) = of_nat k # numbers (Suc k) n"
  by (simp add: numbers_def upt_conv_Cons del: upt_Suc)

lemma slots_id: "slots t a xs \<Longrightarrow> (i, n) \<in> set xs \<Longrightarrow>
    \<exists>r\<in>set (lt_legs t). lw_id r = i \<and> lw_activity_id r = a \<and> lw_leg_number r = n"
  by (auto simp: slots_def slot_def)

lemma legs_ok_unique:
  "legs_ok t \<Longrightarrow> r \<in> set (lt_legs t) \<Longrightarrow> q \<in> set (lt_legs t) \<Longrightarrow> lw_id r = lw_id q \<Longrightarrow> r = q"
  by (auto simp: legs_ok_def distinct_map dest: inj_onD)

section \<open>Updating one row\<close>

lemma update_rows_other:
  "i \<notin> lw_id ` set rs \<Longrightarrow> update_rows (\<lambda>r. lw_id r = i) f before rs = Ok (before @ rs)"
  by (induction rs arbitrary: before) auto

lemma update_rows_one:
  assumes "distinct (map lw_id (before @ rs))" and "i \<notin> lw_id ` set before"
    and "\<And>r q. r \<in> set (before @ rs) \<Longrightarrow> lw_id r = i \<Longrightarrow> q \<in> set (before @ rs) \<Longrightarrow> lw_id q \<noteq> i \<Longrightarrow>
      \<not> same_slot (f r) q"
  shows "update_rows (\<lambda>r. lw_id r = i) f before rs =
    Ok (before @ map (\<lambda>r. if lw_id r = i then f r else r) rs)"
  using assms
proof (induction rs arbitrary: before)
  case (Cons r rs)
  show ?case
  proof (cases "lw_id r = i")
    case True
    with Cons.prems(1) have others: "i \<notin> lw_id ` set (before @ rs)" by auto
    then have "\<not> (\<exists>q\<in>set (before @ rs). same_slot (f r) q)"
      using Cons.prems(3) [of r] True by (metis image_eqI in_set_conv_decomp Un_iff set_append list.set_intros)
    moreover have "map (\<lambda>r. if lw_id r = i then f r else r) rs = rs"
      using others by (intro map_idI) auto
    moreover have "update_rows (\<lambda>r. lw_id r = i) f (before @ [f r]) rs = Ok ((before @ [f r]) @ rs)"
      using others by (intro update_rows_other) auto
    ultimately show ?thesis using True by simp
  next
    case False
    from Cons.IH [of "before @ [r]"] Cons.prems False show ?thesis by simp
  qed
qed simp

definition set_number :: "uuid \<Rightarrow> leg \<Rightarrow> leg_tables \<Rightarrow> leg_tables" where
  "set_number i l t = t\<lparr>lt_legs := map (\<lambda>r. if lw_id r = i then set_leg_columns l r else r) (lt_legs t)\<rparr>"

lemma lt_legs_set_number:
  "lt_legs (set_number i l t) = map (\<lambda>r. if lw_id r = i then set_leg_columns l r else r) (lt_legs t)"
  by (simp add: set_number_def)

lemma in_set_number: "p \<in> set (lt_legs t) \<Longrightarrow> lw_id p \<noteq> i \<Longrightarrow> p \<in> set (lt_legs (set_number i l t))"
  by (auto simp: lt_legs_set_number image_iff)

lemma leg_references_renumber:
  "leg_references (leg_row_of ((into_leg r)\<lparr>lg_leg_number := n, lg_updated_at := now\<rparr>)) t = leg_references r t"
  by (cases "lw_source_revision_id r"; cases "lw_recorded_track_id r")
    (simp_all add: leg_references_def leg_row_of_def into_leg_def)

lemma pg_update_leg_faultless:
  fixes now :: time and k :: u32
  assumes "faults db = []" and "legs_ok (tables db)" and "slots (tables db) a (xs @ (i, n) # ys)"
    and "k \<notin> snd ` set (xs @ ys)" and "r \<in> set (lt_legs (tables db))" and "lw_id r = i"
  defines "l \<equiv> (into_leg r)\<lparr>lg_leg_number := k, lg_updated_at := now\<rparr>"
  shows "pg_update_leg l db = (Ok (), db\<lparr>tables := set_number i l (tables db)\<rparr>)"
proof -
  let ?t = "tables db"
  from slots_id [OF assms(3), of i n] obtain r' where "r' \<in> set (lt_legs ?t)" "lw_id r' = i" "lw_activity_id r' = a"
    by auto
  with legs_ok_unique [OF assms(2,5)] assms(6) have a: "lw_activity_id r = a" by metis
  have id: "leg_uuid (lg_id l) = i" by (simp add: l_def into_leg_def assms(6))
  have "leg_references (leg_row_of l) ?t = None"
    using assms(2,5) by (simp add: l_def leg_references_renumber legs_ok_def)
  moreover have "update_rows (\<lambda>r. lw_id r = i) (set_leg_columns l) [] (lt_legs ?t) =
      Ok ([] @ map (\<lambda>r. if lw_id r = i then set_leg_columns l r else r) (lt_legs ?t))"
  proof (rule update_rows_one)
    show "distinct (map lw_id ([] @ lt_legs ?t))" using assms(2) by (simp add: legs_ok_def)
    fix s q assume s: "s \<in> set ([] @ lt_legs ?t)" "lw_id s = i"
      and q: "q \<in> set ([] @ lt_legs ?t)" "lw_id q \<noteq> i"
    from legs_ok_unique [OF assms(2)] s assms(5,6) have "s = r" by simp
    show "\<not> same_slot (set_leg_columns l s) q"
    proof
      assume "same_slot (set_leg_columns l s) q"
      then have "lw_activity_id q = a" "lw_leg_number q = k"
        using a \<open>s = r\<close> by (auto simp: same_slot_def set_leg_columns_def leg_row_of_def l_def)
      with q have "slot ?t a (lw_id q) k" by (auto simp: slot_def)
      with assms(3) q(2) have "(lw_id q, k) \<in> set (xs @ ys)" by (auto simp: slots_def)
      then have "k \<in> snd ` set (xs @ ys)" by force
      with assms(4) show False by blast
    qed
  qed simp
  ultimately show ?thesis
    using assms(1) id by (simp add: pg_update_leg_def map_errq_def query_faultless update_legs_def set_number_def)
qed

lemma set_number_ok:
  fixes now :: time and k :: u32
  assumes "legs_ok t" and "r \<in> set (lt_legs t)" and "lw_id r = i"
  defines "l \<equiv> (into_leg r)\<lparr>lg_leg_number := k, lg_updated_at := now\<rparr>"
  shows "legs_ok (set_number i l t)"
    and "slot (set_number i l t) b j m \<longleftrightarrow> (if j = i then b = lw_activity_id r \<and> m = k else slot t b j m)"
proof -
  let ?f = "\<lambda>r. if lw_id r = i then set_leg_columns l r else r"
  have ids: "lw_id (?f q) = lw_id q" "lw_activity_id (?f q) = lw_activity_id q" for q
    by (simp_all add: set_leg_columns_def)
  have uniq: "q = r" if "q \<in> set (lt_legs t)" "lw_id q = i" for q
    using legs_ok_unique [OF assms(1) that(1) assms(2)] that(2) assms(3) by simp
  have "map lw_id (map ?f (lt_legs t)) = map lw_id (lt_legs t)" using ids by simp
  moreover have refs: "leg_references q (set_number i l t) = leg_references q t" for q
    by (cases "lw_source_revision_id q"; cases "lw_recorded_track_id q") (simp_all add: leg_references_def set_number_def)
  moreover have ok: "leg_references (?f q) (set_number i l t) = None" if q: "q \<in> set (lt_legs t)" for q
  proof -
    have "leg_references (?f q) t = None"
    proof (cases "lw_id q = i")
      case True
      then have "q = r" using uniq q by blast
      have "leg_references (set_leg_columns l r) t = leg_references (leg_row_of l) t"
        by (simp add: leg_references_def set_leg_columns_def)
      then show ?thesis using True \<open>q = r\<close> assms(1,2) by (simp add: l_def leg_references_renumber legs_ok_def)
    next
      case False
      then show ?thesis using assms(1) q by (simp add: legs_ok_def)
    qed
    then show ?thesis by (simp only: refs)
  qed
  ultimately have "distinct (map lw_id (map ?f (lt_legs t)))" using assms(1) by (simp add: legs_ok_def del: map_map)
  moreover have "\<forall>q\<in>set (map ?f (lt_legs t)). leg_references q (set_number i l t) = None"
    unfolding set_map ball_simps using ok by blast
  ultimately show "legs_ok (set_number i l t)" by (simp add: legs_ok_def set_number_def)
  show "slot (set_number i l t) b j m \<longleftrightarrow> (if j = i then b = lw_activity_id r \<and> m = k else slot t b j m)"
  proof (cases "j = i")
    case True
    have "lw_leg_number (set_leg_columns l r) = k" by (simp add: set_leg_columns_def leg_row_of_def l_def)
    moreover have "slot (set_number i l t) b i m \<longleftrightarrow>
        (\<exists>q\<in>set (lt_legs t). lw_id q = i \<and> lw_activity_id (?f q) = b \<and> lw_leg_number (?f q) = m)"
      unfolding slot_def lt_legs_set_number set_map bex_simps
      by (simp only: ids)
    moreover have "(\<exists>q\<in>set (lt_legs t). lw_id q = i \<and> P q) \<longleftrightarrow> P r" for P
      using uniq assms(2,3) by blast
    ultimately show ?thesis using True assms(3) by (simp only: ids) auto
  next
    case False
    then show ?thesis by (auto simp: slot_def set_number_def set_leg_columns_def)
  qed
qed

section \<open>Compacting\<close>

lemma slots_set_number:
  fixes now :: time and k :: u32
  assumes "legs_ok t" and "r \<in> set (lt_legs t)" and "lw_id r = i" and "slots t a (xs @ (i, n) # ys)"
  shows "slots (set_number i ((into_leg r)\<lparr>lg_leg_number := k, lg_updated_at := now\<rparr>) t) a (xs @ (i, k) # ys)"
    and "b \<noteq> a \<Longrightarrow> slot (set_number i ((into_leg r)\<lparr>lg_leg_number := k, lg_updated_at := now\<rparr>) t) b j m
      \<longleftrightarrow> slot t b j m"
proof -
  obtain q where "q \<in> set (lt_legs t)" "lw_id q = i" "lw_activity_id q = a"
    using slots_id [OF assms(4), of i n] by auto
  with legs_ok_unique [OF assms(1,2)] assms(3) have a: "lw_activity_id r = a" by metis
  have fresh: "i \<notin> fst ` set (xs @ ys)" and dist: "distinct (map fst (xs @ (i, k) # ys))"
    using assms(4) by (auto simp: slots_def)
  note upd = set_number_ok(2) [OF assms(1-3), where k = k and now = now]
  show "slots (set_number i ((into_leg r)\<lparr>lg_leg_number := k, lg_updated_at := now\<rparr>) t) a (xs @ (i, k) # ys)"
    unfolding slots_def
  proof (intro conjI allI dist)
    fix j m
    show "slot (set_number i ((into_leg r)\<lparr>lg_leg_number := k, lg_updated_at := now\<rparr>) t) a j m \<longleftrightarrow>
        (j, m) \<in> set (xs @ (i, k) # ys)"
    proof (cases "j = i")
      case True
      from fresh have "(i, m) \<notin> set xs" "(i, m) \<notin> set ys" by force+
      with True a show ?thesis by (auto simp: upd)
    next
      case False
      from assms(4) have "slot t a j m \<longleftrightarrow> (j, m) \<in> set (xs @ (i, n) # ys)" by (simp add: slots_def)
      with False show ?thesis by (simp add: upd)
    qed
  qed
  show "slot (set_number i ((into_leg r)\<lparr>lg_leg_number := k, lg_updated_at := now\<rparr>) t) b j m \<longleftrightarrow> slot t b j m"
    if "b \<noteq> a"
  proof (cases "j = i")
    case True
    have "\<not> slot t b i m"
    proof
      assume "slot t b i m"
      then obtain q where "q \<in> set (lt_legs t)" "lw_id q = i" "lw_activity_id q = b" by (auto simp: slot_def)
      with legs_ok_unique [OF assms(1,2)] assms(3) a that show False by metis
    qed
    with True that a show ?thesis by (simp add: upd)
  qed (simp add: upd)
qed

abbreviation slot_of :: "leg \<Rightarrow> uuid \<times> u32" where
  "slot_of l \<equiv> (leg_uuid (lg_id l), lg_leg_number l)"

lemma numbers_snoc: "numbers k n @ [of_nat (k + n)] = numbers k (Suc n)"
  by (simp add: numbers_def)

lemma unat_numbers: "k + n \<le> 2 ^ 32 \<Longrightarrow> x \<in> set (numbers k n) \<Longrightarrow> k \<le> unat x \<and> unat x < k + n"
  by (auto simp: numbers_def unat_of_nat)

lemma zip_snoc_numbers:
  "zip (is @ [i]) (numbers 1 (length (is @ [i]))) = zip is (numbers 1 (length is)) @ [(i, of_nat (Suc (length is)))]"
proof -
  have "numbers 1 (length (is @ [i])) = numbers 1 (length is) @ [of_nat (Suc (length is))]"
    using numbers_snoc [of 1 "length is"] by simp
  then show ?thesis by simp
qed

lemma renumber_one:
  fixes l :: leg and now :: time
  assumes "faults db = []" and "legs_ok (tables db)"
    and "slots (tables db) a (zip is (numbers 1 (length is)) @ slot_of l # map slot_of ls)"
    and "r \<in> set (lt_legs (tables db))" and "l = into_leg r"
    and "sorted_wrt (<) (map (unat \<circ> lg_leg_number) (l # ls))" and "length is < unat (lg_leg_number l)"
    and "length is < 30" and "lg_leg_number l \<noteq> of_nat (Suc (length is))"
  shows "\<exists>l'. update_leg_number now (of_nat (Suc (length is))) l = Ok l' \<and>
    pg_update_leg l' db = (Ok (), db\<lparr>tables := set_number (leg_uuid (lg_id l)) l' (tables db)\<rparr>) \<and>
    l' = l\<lparr>lg_leg_number := of_nat (Suc (length is)), lg_updated_at := now\<rparr>"
proof -
  let ?k = "of_nat (Suc (length is)) :: u32"
  have k: "unat ?k = Suc (length is)" using assms(8) by (simp add: unat_of_nat del: of_nat_Suc)
  have "Suc (length is) < unat (lg_leg_number l)"
    using assms(7,9) k by (metis Suc_lessI word_unat_eq_iff)
  then have big: "Suc (length is) < unat x" if "x \<in> set (map lg_leg_number ls)" for x
    using assms(6) that by fastforce
  have "?k \<notin> snd ` set (zip is (numbers 1 (length is)) @ map slot_of ls)"
  proof
    assume "?k \<in> snd ` set (zip is (numbers 1 (length is)) @ map slot_of ls)"
    then have "?k \<in> set (numbers 1 (length is)) \<or> ?k \<in> set (map lg_leg_number ls)"
      by (auto dest: set_zip_rightD)
    with unat_numbers [of 1 "length is" ?k] big [of ?k] k assms(8) show False by auto
  qed
  from pg_update_leg_faultless [OF assms(1,2,3) this assms(4), of now] assms(5)
  have "pg_update_leg (l\<lparr>lg_leg_number := ?k, lg_updated_at := now\<rparr>) db =
      (Ok (), db\<lparr>tables := set_number (leg_uuid (lg_id l)) (l\<lparr>lg_leg_number := ?k, lg_updated_at := now\<rparr>) (tables db)\<rparr>)"
    by (simp add: into_leg_def)
  moreover have "update_leg_number now ?k l = Ok (l\<lparr>lg_leg_number := ?k, lg_updated_at := now\<rparr>)"
    using k assms(8) by (simp add: update_leg_number_def MAX_LEGS_PER_ACTIVITY_def word_less_nat_alt del: of_nat_Suc)
  ultimately show ?thesis by blast
qed

lemma renumber_legs_ok:
  assumes "faults db = []" and "legs_ok (tables db)"
    and "slots (tables db) a (zip is (numbers 1 (length is)) @ map slot_of ls)"
    and "\<forall>l\<in>set ls. \<exists>r\<in>set (lt_legs (tables db)). l = into_leg r"
    and "sorted_wrt (<) (map (unat \<circ> lg_leg_number) ls)"
    and "\<forall>l\<in>set ls. length is < unat (lg_leg_number l)" and "length is + length ls \<le> 30"
  shows "\<exists>t. renumber_legs clock (PgLegRepository now) (Suc (length is)) ls db = (Ok (), db\<lparr>tables := t\<rparr>) \<and>
    legs_ok t \<and> slots t a (zip (is @ map (leg_uuid \<circ> lg_id) ls) (numbers 1 (length is + length ls))) \<and>
    (\<forall>b j m. b \<noteq> a \<longrightarrow> slot t b j m = slot (tables db) b j m)"
  using assms
proof (induction ls arbitrary: db "is")
  case Nil
  then show ?case by (intro exI [of _ "tables db"]) simp
next
  case (Cons l ls)
  let ?i = "leg_uuid (lg_id l)" and ?k = "of_nat (Suc (length is)) :: u32"
  let ?t = "clock (Suc (length is))"
  from Cons.prems(4) obtain r where r: "r \<in> set (lt_legs (tables db))" "l = into_leg r" by auto
  have small: "length is < 30" using Cons.prems(7) by simp
  have below: "\<forall>q\<in>set ls. length (is @ [?i]) < unat (lg_leg_number q)"
    using Cons.prems(5,6) by fastforce
  have rest: "length (is @ [?i]) + length ls \<le> 30" "sorted_wrt (<) (map (unat \<circ> lg_leg_number) ls)"
    using Cons.prems(5,7) by (simp_all add: comp_def)
  have app: "(is @ [?i]) @ map (leg_uuid \<circ> lg_id) ls = is @ map (leg_uuid \<circ> lg_id) (l # ls)"
    and len: "length (is @ [?i]) + length ls = length is + length (l # ls)" by simp_all
  have here: "zip (is @ [?i]) (numbers 1 (length (is @ [?i]))) @ map slot_of ls =
      zip is (numbers 1 (length is)) @ (?i, ?k) # map slot_of ls"
    unfolding zip_snoc_numbers by simp
  show ?case
  proof (cases "lg_leg_number l = ?k")
    case True
    have "slots (tables db) a (zip (is @ [?i]) (numbers 1 (length (is @ [?i]))) @ map slot_of ls)"
      unfolding here using Cons.prems(3) True by simp
    from Cons.IH [OF Cons.prems(1,2) this _ rest(2) below rest(1)] Cons.prems(4)
    show ?thesis using True unfolding app len by (simp add: bindq_eval comp_def)
  next
    case False
    let ?l = "l\<lparr>lg_leg_number := ?k, lg_updated_at := ?t\<rparr>"
    let ?db = "db\<lparr>tables := set_number ?i ?l (tables db)\<rparr>"
    have "slots (tables db) a (zip is (numbers 1 (length is)) @ slot_of l # map slot_of ls)"
      using Cons.prems(3) by simp
    from renumber_one [OF Cons.prems(1,2) this r Cons.prems(5) _ small False, of ?t] Cons.prems(6)
    have step: "update_leg_number ?t ?k l = Ok ?l" "pg_update_leg ?l db = (Ok (), ?db)" by auto
    have ri: "lw_id r = ?i" using r(2) by (simp add: into_leg_def)
    note upd = slots_set_number [OF Cons.prems(2) r(1) ri, where xs = "zip is (numbers 1 (length is))"
        and n = "lg_leg_number l" and ys = "map slot_of ls" and a = a and k = ?k and now = ?t]
    have slots: "slots (tables ?db) a (zip (is @ [?i]) (numbers 1 (length (is @ [?i]))) @ map slot_of ls)"
      and other: "b \<noteq> a \<Longrightarrow> slot (tables ?db) b j m = slot (tables db) b j m" for b j m
      unfolding here using upd Cons.prems(3) r(2) by auto
    have ok: "legs_ok (tables ?db)"
      using set_number_ok(1) [OF Cons.prems(2) r(1) ri, where k = ?k and now = ?t] r(2) by simp
    have rows: "\<forall>q\<in>set ls. \<exists>r\<in>set (lt_legs (tables ?db)). q = into_leg r"
    proof
      fix q assume q: "q \<in> set ls"
      with Cons.prems(4) obtain p where p: "p \<in> set (lt_legs (tables db))" "q = into_leg p" by auto
      have "distinct (map fst (map slot_of (l # ls)))"
        using Cons.prems(3) unfolding slots_def map_append distinct_append by blast
      with q have "leg_uuid (lg_id q) \<noteq> ?i" by (auto simp: image_iff)
      with p have "lw_id p \<noteq> ?i" by (simp add: into_leg_def)
      with p(1) have "p \<in> set (lt_legs (tables ?db))" by (simp add: in_set_number)
      with p(2) show "\<exists>r\<in>set (lt_legs (tables ?db)). q = into_leg r" by blast
    qed
    from Cons.IH [OF _ ok slots rows rest(2) below rest(1)] Cons.prems(1) other
    obtain t where t: "renumber_legs clock (PgLegRepository now) (Suc (length (is @ [?i]))) ls ?db =
        (Ok (), ?db\<lparr>tables := t\<rparr>)" "legs_ok t"
      "slots t a (zip (is @ map (leg_uuid \<circ> lg_id) (l # ls)) (numbers 1 (length is + length (l # ls))))"
      "\<forall>b j m. b \<noteq> a \<longrightarrow> slot t b j m = slot (tables db) b j m"
      unfolding app len by auto
    have "renumber_legs clock (PgLegRepository now) (Suc (length is)) (l # ls) db =
        renumber_legs clock (PgLegRepository now) (Suc (length (is @ [?i]))) ls ?db"
      using False step by (simp add: bindq_def PgLegRepository_def del: of_nat_Suc)
    with t show ?thesis by (intro exI [of _ t]) (simp add: comp_def)
  qed
qed

section \<open>Removing a leg\<close>

lemma unat_numbers_eq: "k + n \<le> 2 ^ 32 \<Longrightarrow> map unat (numbers k n) = [k..<k + n]"
  unfolding numbers_def map_map by (intro map_idI) (simp add: unat_of_nat)

lemma numbered_unat:
  assumes "numbered t a is"
  shows "map (unat \<circ> snd) (zip is (numbers 1 (length is))) = [1..<1 + length is]"
proof -
  have "map (unat \<circ> snd) (zip is (numbers 1 (length is))) = map unat (map snd (zip is (numbers 1 (length is))))"
    by (simp only: map_map)
  also have "\<dots> = map unat (numbers 1 (length is))" by simp
  also have "\<dots> = [1..<1 + length is]" using assms by (intro unat_numbers_eq) (simp add: numbered_def)
  finally show ?thesis .
qed

lemma numbered_distinct: "numbered t a is \<Longrightarrow> distinct is"
  by (simp add: numbered_def slots_def)

lemma numbered_slots: "numbered t a is \<Longrightarrow> slots t a (zip is (numbers 1 (length is)))"
  by (simp add: numbered_def)

lemma numbered_leg:
  assumes "numbered t a is" and "i \<in> set is"
  obtains r where "r \<in> set (lt_legs t)" and "lw_id r = i" and "lw_activity_id r = a"
proof -
  from assms(2) obtain n where "(i, n) \<in> set (zip is (numbers 1 (length is)))"
    by (metis in_set_impl_in_set_zip1 length_numbers)
  from slots_id [OF numbered_slots [OF assms(1)] this] that show thesis by blast
qed

lemma find_row:
  assumes "legs_ok t" and "r \<in> set (lt_legs t)" and "lw_id r = i"
  shows "find (\<lambda>q. lw_id q = i) (lt_legs t) = Some r"
proof (cases "find (\<lambda>q. lw_id q = i) (lt_legs t)")
  case None
  with assms show ?thesis by (simp add: find_None_iff)
next
  case (Some q)
  then have "q \<in> set (lt_legs t)" "lw_id q = i" by (auto simp: find_Some_iff in_set_conv_nth)
  with legs_ok_unique [OF assms(1,2)] assms(3) Some show ?thesis by simp
qed

lemma pg_find_leg_faultless:
  assumes "faults db = []" and "legs_ok (tables db)" and "r \<in> set (lt_legs (tables db))" and "lw_id r = i"
  shows "pg_find_leg (LegId i) db = (Ok (Some (into_leg r)), db)"
  using assms find_row [OF assms(2-4)]
  by (simp add: pg_find_leg_def bindq_def map_errq_def select_faultless)

text \<open>The sorted legs of the remaining rows.\<close>

lemma distinct_map_sort: "distinct (map f (sort_key g xs)) = distinct (map f xs)"
  by (simp add: distinct_map)

lemma listed_slots:
  assumes "distinct (map lw_id (lt_legs t))" and "slots t a zs"
    and "sorted (map (unat \<circ> snd) zs)" and "distinct (map (unat \<circ> snd) zs)"
  defines "ls \<equiv> sort_key lg_leg_number (map into_leg (sort_key (\<lambda>r. sint (lw_leg_number r))
    (filter (\<lambda>r. lw_activity_id r = a) (lt_legs t))))"
  shows "map slot_of ls = zs"
proof (rule map_sorted_distinct_set_unique)
  have "set (map slot_of ls) = {(i, n). slot t a i n}"
    by (force simp: ls_def slot_def into_leg_def)
  then show "set (map slot_of ls) = set zs" using assms(2) by (auto simp: slots_def)
  then show inj: "inj_on (unat \<circ> snd) (set (map slot_of ls) \<union> set zs)"
    using assms(4) by (simp add: distinct_map)
  have "sorted (map lg_leg_number ls)" by (simp add: ls_def)
  then show "sorted (map (unat \<circ> snd) (map slot_of ls))"
    by (simp add: sorted_map comp_def word_le_nat_alt)
  have "distinct (map lw_id (filter (\<lambda>r. lw_activity_id r = a) (lt_legs t)))"
    using assms(1) by (rule distinct_map_filter)
  then have "distinct (map fst (map slot_of ls))"
    by (simp add: ls_def distinct_map_sort comp_def into_leg_def)
  then have "distinct (map slot_of ls)" unfolding distinct_map by blast
  then show "distinct (map (unat \<circ> snd) (map slot_of ls))"
    using inj by (simp add: distinct_map inj_on_Un del: map_map)
qed (use assms in auto)

lemma map_fst_filter: "map fst (filter (\<lambda>p. P (fst p)) zs) = filter P (map fst zs)"
  by (induction zs) auto

lemma remove_leg_numbered:
  assumes faultless: "faults db = []" and ok: "legs_ok (tables db)" and num: "numbered (tables db) a is"
    and i: "i \<in> set is"
  shows "\<exists>t. remove_leg clock (LegId i) (PgLegRepository now) db = (Ok (), db\<lparr>tables := t\<rparr>) \<and> legs_ok t \<and>
    numbered t a (remove1 i is) \<and> (\<forall>b j m. b \<noteq> a \<longrightarrow> slot t b j m = slot (tables db) b j m)"
proof -
  let ?t = "tables db"
  let ?t1 = "?t\<lparr>lt_legs := filter (\<lambda>r. lw_id r \<noteq> i) (lt_legs ?t)\<rparr>"
  let ?zs = "filter (\<lambda>p. fst p \<noteq> i) (zip is (numbers 1 (length is)))"
  let ?ls = "sort_key lg_leg_number (map into_leg (sort_key (\<lambda>r. sint (lw_leg_number r))
    (filter (\<lambda>r. lw_activity_id r = a) (lt_legs ?t1))))"
  obtain r where r: "r \<in> set (lt_legs ?t)" "lw_id r = i" "lw_activity_id r = a"
    using numbered_leg [OF num i] .
  have refs: "leg_references q ?t1 = leg_references q ?t" for q
    by (cases "lw_source_revision_id q"; cases "lw_recorded_track_id q") (simp_all add: leg_references_def)
  have ok1: "legs_ok ?t1" using ok by (simp add: legs_ok_def refs distinct_map_filter)
  have "slot ?t1 b j m \<longleftrightarrow> slot ?t b j m \<and> j \<noteq> i" for b j m by (auto simp: slot_def)
  then have slots: "slots ?t1 a ?zs"
    using numbered_slots [OF num] by (simp add: slots_def distinct_map_filter)
  have other: "slot ?t1 b j m = slot ?t b j m" if "b \<noteq> a" for b j m
  proof -
    have "lw_activity_id q = a" if "q \<in> set (lt_legs ?t)" "lw_id q = i" for q
      using legs_ok_unique [OF ok that(1) r(1)] that(2) r(2,3) by simp
    with that have "\<not> slot ?t b i m" by (force simp: slot_def)
    then show ?thesis by (cases "j = i") (auto simp: slot_def)
  qed
  have nums: "map (unat \<circ> snd) (zip is (numbers 1 (length is))) = [1..<1 + length is]"
    using num by (rule numbered_unat)
  have zs: "sorted (map (unat \<circ> snd) ?zs)" "distinct (map (unat \<circ> snd) ?zs)"
    using nums by (simp_all add: sorted_filter distinct_map_filter del: upt_Suc)
  have L: "map slot_of ?ls = ?zs"
    using ok1 slots zs by (intro listed_slots) (simp_all add: legs_ok_def)
  have ids: "map (leg_uuid \<circ> lg_id) ?ls = remove1 i is"
  proof -
    have "map (leg_uuid \<circ> lg_id) ?ls = map fst (map slot_of ?ls)" by simp
    also have "\<dots> = filter (\<lambda>j. j \<noteq> i) (map fst (zip is (numbers 1 (length is))))"
      unfolding L by (rule map_fst_filter)
    also have "\<dots> = remove1 i is"
      using numbered_distinct [OF num] by (auto simp: distinct_remove1_removeAll removeAll_filter_not_eq intro: filter_cong)
    finally show ?thesis .
  qed
  have len: "length ?ls = length (remove1 i is)" using arg_cong [OF ids, of length] by simp
  have numbers: "map (unat \<circ> lg_leg_number) ?ls = map (unat \<circ> snd) ?zs"
    using arg_cong [OF L, of "map (unat \<circ> snd)"] by (simp add: comp_def)
  have sorted: "sorted_wrt (<) (map (unat \<circ> lg_leg_number) ?ls)"
    unfolding numbers using zs by (simp add: strict_sorted_iff)
  have pos: "\<forall>l\<in>set ?ls. 0 < unat (lg_leg_number l)"
  proof
    fix l assume "l \<in> set ?ls"
    then have "unat (lg_leg_number l) \<in> set (map (unat \<circ> lg_leg_number) ?ls)" by force
    also have "\<dots> \<subseteq> set (map (unat \<circ> snd) (zip is (numbers 1 (length is))))" unfolding numbers by auto
    finally have "unat (lg_leg_number l) \<in> set [1..<1 + length is]" unfolding nums .
    then show "0 < unat (lg_leg_number l)" unfolding set_upt by auto
  qed
  have "length (remove1 i is) \<le> 30" using num by (auto simp: numbered_def length_remove1)
  with renumber_legs_ok [of "db\<lparr>tables := ?t1\<rparr>" a "[]" ?ls clock now] faultless ok1 slots L sorted pos len
  obtain t where t: "renumber_legs clock (PgLegRepository now) 1 ?ls (db\<lparr>tables := ?t1\<rparr>) = (Ok (), db\<lparr>tables := t\<rparr>)"
    "legs_ok t" "slots t a (zip (remove1 i is) (numbers 1 (length (remove1 i is))))"
    "\<forall>b j m. b \<noteq> a \<longrightarrow> slot t b j m = slot ?t1 b j m"
    unfolding ids by auto
  have "remove_leg clock (LegId i) (PgLegRepository now) db =
      renumber_legs clock (PgLegRepository now) 1 ?ls (db\<lparr>tables := ?t1\<rparr>)"
    using faultless r pg_find_leg_faultless [OF faultless ok r(1,2)]
    by (simp add: remove_leg_def load_leg_def PgLegRepository_def bindq_def pg_delete_leg_def pg_list_legs_def
        map_errq_def modify_faultless select_faultless into_leg_def)
  with t other \<open>length (remove1 i is) \<le> 30\<close> show ?thesis by (auto simp: numbered_def)
qed

section \<open>Adding a leg\<close>

lemma sint_small: "n \<le> 30 \<Longrightarrow> sint (of_nat n :: u32) = int n"
  by (simp add: signed_of_nat signed_take_bit_int_eq_self)

lemma max_number:
  assumes "numbered t a is"
  defines "ns \<equiv> map lw_leg_number (filter (\<lambda>r. lw_activity_id r = a) (lt_legs t))"
  shows "(if ns = [] then 0 else word_of_int (Max (sint ` set ns))) = (of_nat (length is) :: u32)"
proof -
  have n: "length is \<le> 30" using assms(1) by (simp add: numbered_def)
  have "set ns = snd ` {(i, n). slot t a i n}" by (force simp: ns_def slot_def)
  also have "{(i, n). slot t a i n} = set (zip is (numbers 1 (length is)))"
    using numbered_slots [OF assms(1)] by (auto simp: slots_def)
  also have "snd ` \<dots> = set (map snd (zip is (numbers 1 (length is))))" by (rule set_map [symmetric])
  finally have ns: "set ns = set (numbers 1 (length is))" by simp
  show ?thesis
  proof (cases "is = []")
    case True
    with ns have "ns = []" by (simp add: numbers_def)
    with True show ?thesis by simp
  next
    case False
    have "sint ` set ns = int ` {1..<1 + length is}"
      unfolding ns using n by (force simp: numbers_def image_image sint_small intro!: image_cong)
    moreover have "Max (int ` {1..<1 + length is}) = int (length is)"
      using False by (intro Max_eqI) (auto simp: Suc_le_eq intro!: imageI)
    ultimately have "Max (sint ` set ns) = int (length is)" by simp
    moreover have "ns \<noteq> []" using ns False by (auto simp: numbers_def Suc_le_eq)
    ultimately show ?thesis by simp
  qed
qed

lemma pg_next_leg_number_faultless:
  assumes "faults db = []" and "numbered (tables db) a is"
  shows "pg_next_leg_number (ActivityId a) db = (Ok (of_nat (length is) + 1), db)"
  using assms(1) max_number [OF assms(2)]
  by (simp add: pg_next_leg_number_def bindq_def map_errq_def select_faultless)

lemma add_leg_full:
  assumes "faults db = []" and "numbered (tables db) a is" and "length is = 30"
  shows "add_leg new_id now (ActivityId a) title date source track (PgLegRepository now') db =
    (Err (MaxLegsExceeded (ActivityId a) 30), db)"
  using pg_next_leg_number_faultless [OF assms(1,2)] assms(3)
  by (simp add: add_leg_def bindq_def PgLegRepository_def MAX_LEGS_PER_ACTIVITY_def)

definition references_exist :: "source_revision_id option \<Rightarrow> recorded_track_id option \<Rightarrow> leg_tables \<Rightarrow> bool" where
  "references_exist source track t \<longleftrightarrow>
    (case source of None \<Rightarrow> True | Some s \<Rightarrow> source_revision_uuid s \<in> set (lt_source_revisions t)) \<and>
    (case track of None \<Rightarrow> True | Some k \<Rightarrow> lt_tracks t (track_uuid k) \<noteq> None)"

lemma add_leg_numbered:
  fixes now :: time and date :: naive_date
  assumes faultless: "faults db = []" and ok: "legs_ok (tables db)" and num: "numbered (tables db) a is"
    and room: "length is < 30" and fresh: "i \<notin> lw_id ` set (lt_legs (tables db))"
    and act: "a \<in> set (lt_activities (tables db))" and refs: "references_exist source track (tables db)"
    and title: "optional_title title = Ok checked"
  defines "l \<equiv> \<lparr>lg_id = LegId i, lg_activity_id = ActivityId a, lg_leg_number = of_nat (Suc (length is)),
    lg_title = checked, lg_date = date, lg_source_revision_id = source, lg_recorded_track_id = track,
    lg_created_at = now, lg_updated_at = now\<rparr>"
  shows "\<exists>t. add_leg (LegId i) now (ActivityId a) title date source track (PgLegRepository now') db =
      (Ok l, db\<lparr>tables := t\<rparr>) \<and> legs_ok t \<and> numbered t a (is @ [i]) \<and>
    (\<forall>b j m. b \<noteq> a \<longrightarrow> slot t b j m = slot (tables db) b j m)"
proof -
  let ?t = "tables db" and ?k = "of_nat (Suc (length is)) :: u32"
  let ?t' = "?t\<lparr>lt_legs := lt_legs ?t @ [leg_row_of l]\<rparr>"
  have k: "unat ?k = Suc (length is)" using room by (simp add: unat_of_nat del: of_nat_Suc)
  have row: "lw_id (leg_row_of l) = i" "lw_activity_id (leg_row_of l) = a" "lw_leg_number (leg_row_of l) = ?k"
    by (simp_all add: leg_row_of_def l_def)
  have refs': "leg_references q ?t' = leg_references q ?t" for q
    by (cases "lw_source_revision_id q"; cases "lw_recorded_track_id q") (simp_all add: leg_references_def)
  have ref: "leg_references (leg_row_of l) ?t = None"
    using refs by (cases source; cases track) (simp_all add: leg_references_def leg_row_of_def l_def references_exist_def)
  have slot: "slot ?t' b j m \<longleftrightarrow> slot ?t b j m \<or> (b = a \<and> j = i \<and> m = ?k)" for b j m
    using row by (auto simp: slot_def)
  have "\<not> slot ?t a j ?k" for j
  proof
    assume "slot ?t a j ?k"
    then have "?k \<in> set (numbers 1 (length is))"
      using numbered_slots [OF num] by (auto simp: slots_def dest: set_zip_rightD)
    with unat_numbers [of 1 "length is" ?k] k room show False by simp
  qed
  then have "\<not> (\<exists>q\<in>set (lt_legs ?t). same_slot (leg_row_of l) q)"
    using row unfolding same_slot_def slot_def by metis
  with fresh act ref row have "insert_leg (leg_row_of l) ?t = (Ok (), ?t')" by (simp add: insert_leg_def)
  moreover have "leg_new (LegId i) now (ActivityId a) ?k checked date source track = Ok l"
    using k room by (simp add: leg_new_def l_def MAX_LEGS_PER_ACTIVITY_def word_less_nat_alt del: of_nat_Suc)
  moreover have "\<not> MAX_LEGS_PER_ACTIVITY < ?k"
    using k room by (simp add: MAX_LEGS_PER_ACTIVITY_def word_less_nat_alt del: of_nat_Suc)
  moreover have "pg_next_leg_number (ActivityId a) db = (Ok ?k, db)"
    using pg_next_leg_number_faultless [OF faultless num] by (simp add: add.commute)
  ultimately have run: "add_leg (LegId i) now (ActivityId a) title date source track (PgLegRepository now') db =
      (Ok l, db\<lparr>tables := ?t'\<rparr>)"
    using faultless title by (simp add: add_leg_def bindq_def PgLegRepository_def pg_save_leg_def map_errq_def
        query_faultless del: of_nat_Suc)
  have "legs_ok ?t'" using ok fresh row ref by (auto simp: legs_ok_def refs')
  moreover have "numbered ?t' a (is @ [i])"
  proof -
    have "i \<notin> set is" using fresh numbered_leg [OF num, of i] by force
    then have "slots ?t' a (zip is (numbers 1 (length is)) @ [(i, ?k)])"
      using numbered_slots [OF num] by (auto simp: slots_def slot)
    with room show ?thesis unfolding numbered_def zip_snoc_numbers by simp
  qed
  moreover have "\<forall>b j m. b \<noteq> a \<longrightarrow> slot ?t' b j m = slot ?t b j m" by (simp add: slot)
  ultimately show ?thesis using run by blast
qed

section \<open>Moving a leg\<close>

text \<open>A selected row that takes the slot of a row that is not selected violates the constraint.\<close>

lemma update_rows_collision:
  assumes "r \<in> set rs" and "sel r" and "q \<in> set (before @ rs)" and "\<not> sel q" and "same_slot (f r) q"
  shows "update_rows sel f before rs = Err (UniqueViolation ''legs_activity_id_leg_number_key'')"
  using assms
proof (induction rs arbitrary: before)
  case (Cons x rs)
  show ?case
  proof (cases "r = x")
    case True
    then have "\<exists>p\<in>set (before @ rs). same_slot (f x) p" using Cons.prems by auto
    with True Cons.prems(2) show ?thesis by simp
  next
    case False
    have "q \<in> set ((before @ [y]) @ rs)" if "sel x \<or> y = x" for y using Cons.prems(3,4) that by auto
    with Cons.IH [of "before @ [f x]"] Cons.IH [of "before @ [x]"] Cons.prems False show ?thesis by auto
  qed
qed simp

lemma numbered_nth:
  assumes "numbered t a is" and "p < length is"
  obtains r where "r \<in> set (lt_legs t)" and "lw_id r = is ! p" and "lw_activity_id r = a"
    and "lw_leg_number r = of_nat (Suc p)"
proof -
  have "zip is (numbers 1 (length is)) ! p = (is ! p, of_nat (Suc p))"
    using assms(2) by (simp add: numbers_def del: upt_Suc of_nat_Suc)
  then have "(is ! p, of_nat (Suc p)) \<in> set (zip is (numbers 1 (length is)))"
    using assms(2) by (metis length_numbers length_zip min.idem nth_mem)
  from slots_id [OF numbered_slots [OF assms(1)] this] that show thesis by blast
qed

lemma sless_small: "m \<le> 30 \<Longrightarrow> n \<le> 30 \<Longrightarrow> (of_nat m :: u32) <s of_nat n \<longleftrightarrow> m < n"
  by (simp add: word_sless_alt sint_small)

lemma sle_small: "m \<le> 30 \<Longrightarrow> n \<le> 30 \<Longrightarrow> (of_nat m :: u32) \<le>s of_nat n \<longleftrightarrow> m \<le> n"
  by (simp add: word_sle_eq sint_small)

section \<open>Properties\<close>

text \<open>C37. The legs of an activity are numbered 1, 2, ... without gaps, at most thirty, and adding and removing keep
  them so, when no statement fails: a new leg is stored under the next number, with the trimmed title; the thirty-first
  is refused and nothing changes; removing a leg closes its gap and keeps the order of the others.  The legs of every
  other activity keep their numbers.\<close>

theorem legs_stay_numbered:
  assumes "faults db = []" and "legs_ok (tables db)" and "numbered (tables db) a is"
  shows "(i \<in> set is \<longrightarrow>
      (\<exists>t. remove_leg clock (LegId i) (PgLegRepository now) db = (Ok (), db\<lparr>tables := t\<rparr>) \<and> legs_ok t \<and>
        numbered t a (remove1 i is) \<and> (\<forall>b j m. b \<noteq> a \<longrightarrow> slot t b j m = slot (tables db) b j m))) \<and>
    (length is < 30 \<and> i \<notin> lw_id ` set (lt_legs (tables db)) \<and> a \<in> set (lt_activities (tables db)) \<and>
        references_exist source track (tables db) \<and> optional_title title = Ok checked \<longrightarrow>
      (\<exists>t. add_leg (LegId i) now (ActivityId a) title date source track (PgLegRepository now) db =
          (Ok \<lparr>lg_id = LegId i, lg_activity_id = ActivityId a, lg_leg_number = of_nat (Suc (length is)),
             lg_title = checked, lg_date = date, lg_source_revision_id = source, lg_recorded_track_id = track,
             lg_created_at = now, lg_updated_at = now\<rparr>, db\<lparr>tables := t\<rparr>) \<and> legs_ok t \<and>
        numbered t a (is @ [i]) \<and> (\<forall>b j m. b \<noteq> a \<longrightarrow> slot t b j m = slot (tables db) b j m))) \<and>
    (length is = 30 \<longrightarrow>
      add_leg (LegId i) now (ActivityId a) title date source track (PgLegRepository now) db =
        (Err (MaxLegsExceeded (ActivityId a) 30), db))"
  using remove_leg_numbered [OF assms, of i clock now]
    add_leg_numbered [OF assms, of i source track title checked now date now] add_leg_full [OF assms(1,3)]
  by blast

definition example_leg :: "uuid \<Rightarrow> u32 \<Rightarrow> leg_row" where
  "example_leg i n = \<lparr>lw_id = i, lw_activity_id = 7, lw_leg_number = n, lw_title = None, lw_date = 0,
    lw_source_revision_id = None, lw_recorded_track_id = None, lw_created_at = 0, lw_updated_at = 0\<rparr>"

definition example_legs :: "leg_tables db" where
  "example_legs = \<lparr>tables = \<lparr>lt_legs = [example_leg 1 1, example_leg 2 2, example_leg 3 3],
     lt_activities = [7], lt_source_revisions = [], lt_tracks = (\<lambda>_. None)\<rparr>, faults = []\<rparr>"

lemma example_legs_ok:
  "faults example_legs = []" "legs_ok (tables example_legs)" "numbered (tables example_legs) 7 [1, 2, 3]"
  by (auto simp: example_legs_def example_leg_def legs_ok_def leg_references_def numbered_def slots_def slot_def
      numbers_def upt_rec)

theorem legs_stay_numbered_witness:
  "(\<exists>t. remove_leg (\<lambda>_. 1) (LegId 1) (PgLegRepository 1) example_legs = (Ok (), example_legs\<lparr>tables := t\<rparr>) \<and>
      numbered t 7 [2, 3]) \<and>
   (\<exists>t l. add_leg (LegId 4) 1 (ActivityId 7) None 0 None None (PgLegRepository 1) example_legs =
      (Ok l, example_legs\<lparr>tables := t\<rparr>) \<and> lg_leg_number l = 4 \<and> numbered t 7 [1, 2, 3, 4])"
proof -
  have new: "references_exist None None (tables example_legs)" "(4 :: uuid) \<notin> lw_id ` set (lt_legs (tables example_legs))"
    "7 \<in> set (lt_activities (tables example_legs))" "optional_title None = Ok None"
    by (simp_all add: references_exist_def example_legs_def example_leg_def optional_title_def)
  obtain t where "remove_leg (\<lambda>_. 1) (LegId 1) (PgLegRepository 1) example_legs = (Ok (), example_legs\<lparr>tables := t\<rparr>)"
    "numbered t 7 (remove1 1 [1, 2, 3])"
    using legs_stay_numbered [OF example_legs_ok, of 1 "\<lambda>_. 1" 1 None None None None 0] by auto
  moreover obtain t' where "add_leg (LegId 4) 1 (ActivityId 7) None 0 None None (PgLegRepository 1) example_legs =
      (Ok \<lparr>lg_id = LegId 4, lg_activity_id = ActivityId 7, lg_leg_number = of_nat (Suc (length [1 :: uuid, 2, 3])),
         lg_title = None, lg_date = 0, lg_source_revision_id = None, lg_recorded_track_id = None,
         lg_created_at = 1, lg_updated_at = 1\<rparr>, example_legs\<lparr>tables := t'\<rparr>)" "numbered t' 7 ([1, 2, 3] @ [4])"
    using legs_stay_numbered [OF example_legs_ok, of 4 "\<lambda>_. 1" 1 None None None None 0] new by auto
  ultimately show ?thesis by (intro conjI exI) auto
qed

text \<open>C38. Over the PostgreSQL repository no leg can be moved to another place among the numbered legs: the shift that
  makes room gives a neighbour the number the moved leg still holds, the unique constraint on the numbers refuses the
  statement, and nothing changes.\<close>

theorem reorder_refused:
  assumes "faults db = []" and "legs_ok (tables db)" and "numbered (tables db) a is"
    and "p < length is" and "1 \<le> q" and "q \<le> length is" and "q \<noteq> Suc p"
  shows "reorder_leg (LegId (is ! p)) (of_nat q) (PgLegRepository now) db =
    (Err (Persistence (RaDatabase (UniqueViolation ''legs_activity_id_leg_number_key''))), db)"
proof -
  let ?t = "tables db"
  have n: "length is \<le> 30" using assms(3) by (simp add: numbered_def)
  obtain r where r: "r \<in> set (lt_legs ?t)" "lw_id r = is ! p" "lw_activity_id r = a" "lw_leg_number r = of_nat (Suc p)"
    using numbered_nth [OF assms(3,4)] .
  define j where "j = (if q < Suc p then p - 1 else Suc p)"
  have j: "j < length is" "is ! j \<noteq> is ! p"
    using assms(4-7) numbered_distinct [OF assms(3)] by (auto simp: j_def nth_eq_iff_index_eq)
  obtain x where x: "x \<in> set (lt_legs ?t)" "lw_id x = is ! j" "lw_activity_id x = a" "lw_leg_number x = of_nat (Suc j)"
    using numbered_nth [OF assms(3) j(1)] .
  have found: "pg_find_leg (LegId (is ! p)) db = (Ok (Some (into_leg r)), db)"
    using pg_find_leg_faultless [OF assms(1,2) r(1,2)] .
  have q: "unat (of_nat q :: u32) = q" using n assms(6) by (simp add: unat_of_nat)
  have pos: "(of_nat (Suc p) :: u32) \<noteq> of_nat q"
  proof
    assume "(of_nat (Suc p) :: u32) = of_nat q"
    then have "unat (of_nat (Suc p) :: u32) = q" using q by simp
    then show False using n assms(4,7) by (simp add: unat_of_nat del: of_nat_Suc)
  qed
  note run = reorder_leg_def load_leg_def PgLegRepository_def bindq_def found pg_reorder_legs_def Let_def into_leg_def r pos
    map_errq_def query_faultless assms(1) update_legs_def
  have q': "\<not> (of_nat q :: u32) < 1" "\<not> MAX_LEGS_PER_ACTIVITY < (of_nat q :: u32)"
    using q n assms(5,6) by (simp_all add: MAX_LEGS_PER_ACTIVITY_def word_less_nat_alt)
  have lt: "(of_nat q :: u32) <s of_nat (Suc p) \<longleftrightarrow> q < Suc p" using n assms(4,6) by (intro sless_small) auto
  have up: "lw_leg_number x + 1 = of_nat (Suc p)" if "q < Suc p"
    using that x(4) assms(5,7) by (simp add: j_def)
  have down: "lw_leg_number x - 1 = of_nat (Suc p)" if "\<not> q < Suc p"
    using that x(4) by (simp add: j_def)
  show ?thesis
  proof (cases "q < Suc p")
    case True
    then have "update_rows (\<lambda>s. lw_activity_id s = a \<and> of_nat q \<le>s lw_leg_number s \<and>
        lw_leg_number s <s of_nat (Suc p) \<and> lw_id s \<noteq> is ! p)
        (\<lambda>s. s\<lparr>lw_leg_number := lw_leg_number s + 1, lw_updated_at := now\<rparr>) [] (lt_legs ?t) =
      Err (UniqueViolation ''legs_activity_id_leg_number_key'')"
      using x r j n assms(4-7) up
      by (intro update_rows_collision [OF x(1), where q = r]) (auto simp: j_def same_slot_def sle_small sless_small simp del: of_nat_Suc)
    then show ?thesis using True q' lt by (simp add: run del: of_nat_Suc)
  next
    case False
    then have "update_rows (\<lambda>s. lw_activity_id s = a \<and> of_nat (Suc p) <s lw_leg_number s \<and>
        lw_leg_number s \<le>s of_nat q \<and> lw_id s \<noteq> is ! p)
        (\<lambda>s. s\<lparr>lw_leg_number := lw_leg_number s - 1, lw_updated_at := now\<rparr>) [] (lt_legs ?t) =
      Err (UniqueViolation ''legs_activity_id_leg_number_key'')"
      using x r j n assms(4-7) down
      by (intro update_rows_collision [OF x(1), where q = r]) (auto simp: j_def same_slot_def sle_small sless_small simp del: of_nat_Suc)
    then show ?thesis using False q' lt by (simp add: run del: of_nat_Suc)
  qed
qed

theorem reorder_refused_witness:
  "reorder_leg (LegId ([1, 2, 3] ! 2)) (of_nat 1) (PgLegRepository 1) example_legs =
    (Err (Persistence (RaDatabase (UniqueViolation ''legs_activity_id_leg_number_key''))), example_legs)"
  by (rule reorder_refused [OF example_legs_ok]) simp_all

end
