(* ===== verification/Activity_Isolation.thy ===== *)
theory Activity_Isolation
  imports Activity_Api Catalog_Correctness Leg_Correctness
begin

text \<open>
  Isolation of the activity and leg endpoints over the PostgreSQL repositories: requests of other users leave
  the legs of an activity alone and learn nothing of them.
\<close>

section \<open>Requests\<close>

datatype leg_request =
    AddLeg leg_id time create_leg_request
  | ListLegs
  | GetLeg uuid
  | PatchLeg time uuid update_leg_request
  | DeleteLeg "nat \<Rightarrow> time" uuid

datatype api_request =
    ListActivities list_activities_params
  | GetActivity uuid
  | RenameActivity time uuid string
  | DeleteActivity time uuid
  | SelectVersion time uuid "string option" uuid
  | OfLegs uuid leg_request

text \<open>The answer reduced to the status or the failure.\<close>

definition status_only :: "('s, nat \<times> 'a, 'e) step \<Rightarrow> ('s, nat, 'e) step" where
  "status_only m = bindq m (\<lambda>(st, _). returnq st)"

fun run_leg_request ::
  "('s, 'j) leg_app_state \<Rightarrow> user_id \<Rightarrow> uuid \<Rightarrow> leg_request \<Rightarrow> ('s, nat, leg_message api_failure) step" where
  "run_leg_request st u a (AddLeg i now body) = status_only (post_add_leg i now st u a body)"
| "run_leg_request st u a ListLegs = status_only (get_legs st u a)"
| "run_leg_request st u a (GetLeg l) = status_only (get_leg_detail_handler st u a l)"
| "run_leg_request st u a (PatchLeg now l body) = status_only (patch_leg now st u a l body)"
| "run_leg_request st u a (DeleteLeg clock l) = delete_leg_handler clock st u a l"

definition leg_state :: "('s, 'j) activity_app_state \<Rightarrow> ('s, 'j) leg_app_state" where
  "leg_state st = \<lparr>las_activity_repo = aas_repo st, las_leg_repo = aas_leg_repo st\<rparr>"

fun request_effect ::
  "(corrected_statistics \<Rightarrow> 'j option) \<Rightarrow> ('s, 'j) activity_app_state \<Rightarrow> user_id \<Rightarrow> api_request \<Rightarrow> 's \<Rightarrow> 's" where
  "request_effect J st u (ListActivities params) s = snd (get_activities st u params s)"
| "request_effect J st u (GetActivity i) s = snd (get_activity_detail st u i s)"
| "request_effect J st u (RenameActivity now i title) s = snd (patch_activity_title now st u i title s)"
| "request_effect J st u (DeleteActivity now i) s = snd (delete_activity_handler now st u i s)"
| "request_effect J st u (SelectVersion now i header v) s =
    snd (post_select_current_route_version now J st u i header v s)"
| "request_effect J st u (OfLegs a q) s = snd (run_leg_request (leg_state st) u a q s)"

section \<open>The contract of the repositories\<close>

text \<open>
  \<open>K\<close> is what is to be kept of the tables, \<open>b\<close> the activity, \<open>ids\<close> the ids of its legs, and \<open>U\<close> users that
  do not own it.
\<close>

locale leg_guard =
  fixes st :: "('t db, 'j) activity_app_state"
    and K :: "'t \<Rightarrow> bool" and b :: uuid and ids :: "uuid set" and U :: "uuid set"
  assumes find_leg: "ensures K (lr_find (aas_leg_repo st) i)
      (\<lambda>m t. K t \<and> (\<forall>l. m = Some l \<longrightarrow> (activity_uuid (lg_activity_id l) = b \<longleftrightarrow> leg_uuid i \<in> ids) \<and> lg_id l = i)) K"
    and list_legs: "ensures K (lr_list (aas_leg_repo st) a)
      (\<lambda>ls t. K t \<and> (activity_uuid a \<noteq> b \<longrightarrow> (\<forall>l\<in>set ls. leg_uuid (lg_id l) \<notin> ids))) K"
    and save_leg: "activity_uuid (lg_activity_id l) \<noteq> b \<Longrightarrow> ensures K (lr_save (aas_leg_repo st) l) (\<lambda>_. K) K"
    and update_leg: "leg_uuid (lg_id l) \<notin> ids \<Longrightarrow> ensures K (lr_update (aas_leg_repo st) l) (\<lambda>_. K) K"
    and delete_leg: "leg_uuid i \<notin> ids \<Longrightarrow> ensures K (lr_delete (aas_leg_repo st) i) (\<lambda>_. K) K"
    and next_number: "ensures K (lr_next_number (aas_leg_repo st) a) (\<lambda>_. K) K"
    and reorder: "activity_uuid a \<noteq> b \<Longrightarrow> leg_uuid i \<notin> ids \<Longrightarrow>
      ensures K (lr_reorder (aas_leg_repo st) a i n) (\<lambda>_. K) K"
    and summary: "ensures K (lr_summary (aas_leg_repo st) i) (\<lambda>_. K) K"
    and find_activity: "ensures K (act_find_by_id (aas_repo st) a)
      (\<lambda>m t. K t \<and> (\<forall>x. m = Some x \<longrightarrow> activity_uuid a = b \<longrightarrow> user_uuid (ac_owner_id x) \<notin> U)) K"
    and list_activities: "ensures K (act_list (aas_repo st) u cursor n) (\<lambda>_. K) K"
    and update_activity: "ensures K (act_update (aas_repo st) x) (\<lambda>_. K) K"
    and find_version: "ensures K (aas_find_version st v) (\<lambda>_. K) K"
    and audit: "ensures K (aas_audit st actor action kind resource) (\<lambda>_. K) K"
begin

abbreviation kept :: "('t db, 'a, 'e) step \<Rightarrow> bool" where
  "kept m \<equiv> ensures K m (\<lambda>_. K) K"

lemma kept_bindq: "kept m \<Longrightarrow> (\<And>x. kept (k x)) \<Longrightarrow> kept (bindq m k)"
  by (rule ensures_bindq)

lemma kept_pure: "kept (returnq x)" "kept (failq e)" "kept (of_result r)"
  by (auto intro: ensures_rules)

lemma kept_known:
  assumes "ensures K m (\<lambda>x t. K t \<and> P x) K" and "\<And>x. P x \<Longrightarrow> kept (k x)"
  shows "kept (bindq m k)"
  by (rule ensures_bindq [OF assms(1)]) (auto intro: ensures_conj_pure assms(2))

lemma kept_finds: "kept (lr_find (aas_leg_repo st) i)" "kept (lr_list (aas_leg_repo st) a)"
  "kept (act_find_by_id (aas_repo st) c)"
  by (auto intro: ensures_weaken [OF find_leg] ensures_weaken [OF list_legs] ensures_weaken [OF find_activity])

lemma kept_ignoreq: "kept m \<Longrightarrow> kept (ignoreq m)"
  by (rule ensures_ignoreq) simp

lemma kept_unwrap_orq: "kept m \<Longrightarrow> kept (unwrap_orq d m)"
  unfolding ensures_def unwrap_orq_def by (auto split: prod.splits result.splits)

lemmas kept_rules = kept_bindq kept_pure kept_finds kept_ignoreq kept_unwrap_orq ensures_map_errq summary
  next_number list_activities update_activity find_version audit ensures_if

lemma load_leg_known:
  "ensures K (load_leg (aas_leg_repo st) i)
    (\<lambda>l t. K t \<and> (activity_uuid (lg_activity_id l) = b \<longleftrightarrow> leg_uuid i \<in> ids) \<and> lg_id l = i) K"
  unfolding load_leg_def
  by (rule ensures_bindq [OF find_leg], rule ensures_of_result) (auto simp: ok_or_def split: option.splits)

lemma kept_rename_leg: "leg_uuid i \<notin> ids \<Longrightarrow> kept (rename_leg now i title (aas_leg_repo st))"
  unfolding rename_leg_def Let_def
  by (intro kept_bindq kept_pure kept_known [OF load_leg_known] update_leg) (simp add: leg_rename_def)

lemma kept_update_leg_date: "leg_uuid i \<notin> ids \<Longrightarrow> kept (update_leg_date now i date (aas_leg_repo st))"
  unfolding update_leg_date_def Let_def
  by (intro kept_bindq kept_pure kept_known [OF load_leg_known] update_leg) (simp add: leg_update_date_def)

lemma kept_reorder_leg: "leg_uuid i \<notin> ids \<Longrightarrow> kept (reorder_leg i n (aas_leg_repo st))"
  unfolding reorder_leg_def by (intro ensures_if kept_pure kept_known [OF load_leg_known] reorder) auto

lemma kept_renumber_legs:
  "\<forall>l\<in>set ls. leg_uuid (lg_id l) \<notin> ids \<Longrightarrow> kept (renumber_legs clock (aas_leg_repo st) n ls)"
proof (induction ls arbitrary: n)
  case (Cons l ls)
  have "kept (bindq (of_result (update_leg_number now k l)) (lr_update (aas_leg_repo st)))" for now k
  proof (rule kept_known [of _ "\<lambda>l'. lg_id l' = lg_id l"])
    show "ensures K (of_result (update_leg_number now k l)) (\<lambda>l' t. K t \<and> lg_id l' = lg_id l) K"
      by (rule ensures_of_result) (auto simp: update_leg_number_def split: if_splits)
  qed (use Cons.prems in \<open>auto intro: update_leg\<close>)
  note one = this
  have rest: "kept (renumber_legs clock (aas_leg_repo st) k ls)" for k using Cons by simp
  show ?case
    unfolding renumber_legs.simps
    by (rule kept_bindq, rule ensures_if, rule one, rule kept_pure, rule rest)
qed (simp add: kept_pure)

lemma kept_remove_leg: "leg_uuid i \<notin> ids \<Longrightarrow> kept (remove_leg clock i (aas_leg_repo st))"
  unfolding remove_leg_def
  by (rule kept_known [OF load_leg_known], rule kept_bindq [OF delete_leg], simp, rule kept_known [OF list_legs],
      rule kept_renumber_legs) auto

lemma kept_add_leg:
  assumes "activity_uuid a \<noteq> b"
  shows "kept (add_leg i now a title date source track (aas_leg_repo st))"
proof -
  have "kept (bindq (of_result (leg_new i now a n t date source track)) (\<lambda>l.
      bindq (lr_save (aas_leg_repo st) l) (\<lambda>_. returnq l)))" for n t
  proof (rule kept_known [of _ "\<lambda>l. lg_activity_id l = a"])
    show "ensures K (of_result (leg_new i now a n t date source track)) (\<lambda>l s. K s \<and> lg_activity_id l = a) K"
      by (rule ensures_of_result) (auto simp: leg_new_def split: if_splits)
  qed (use assms in \<open>auto intro!: kept_bindq kept_pure save_leg\<close>)
  note store = this
  show ?thesis
    unfolding add_leg_def
    by (rule kept_bindq [OF next_number], rule ensures_if, rule kept_pure, rule kept_bindq [OF kept_pure(3)], rule store)
qed

lemma get_activity_known:
  assumes "user_uuid u \<in> U"
  shows "ensures K (get_activity (ActivityId i) u (aas_repo st)) (\<lambda>_ t. K t \<and> i \<noteq> b) K"
  unfolding get_activity_def
  by (rule ensures_bindq [OF find_activity], rule ensures_of_result)
    (use assms in \<open>auto simp: ok_or_def split: option.splits if_splits\<close>)

lemma verify_known:
  assumes "user_uuid u \<in> U"
  shows "ensures K (verify_activity_ownership i u (aas_repo st)) (\<lambda>a t. K t \<and> a = ActivityId i \<and> i \<noteq> b) K"
  unfolding verify_activity_ownership_def
  by (rule ensures_bindq [OF ensures_map_errq [OF get_activity_known [OF assms]]], rule ensures_returnq) simp

lemma leg_of_activity_known:
  "ensures K (leg_of_activity (aas_leg_repo st) i l) (\<lambda>_ t. K t \<and> (i \<noteq> b \<longrightarrow> leg_uuid l \<notin> ids)) K"
proof -
  have "ensures K (of_result (ok_or leg_not_found m))
      (\<lambda>x t. K t \<and> (activity_uuid (lg_activity_id x) = b \<longleftrightarrow> leg_uuid l \<in> ids)) K"
    if "\<forall>x. m = Some x \<longrightarrow> (activity_uuid (lg_activity_id x) = b \<longleftrightarrow> leg_uuid l \<in> ids) \<and> lg_id x = l" for m
    using that by (intro ensures_of_result) (auto simp: ok_or_def split: option.splits)
  then show ?thesis
    unfolding leg_of_activity_def
    by (intro ensures_bindq [OF ensures_map_errq [OF find_leg]] ensures_conj_pure) (auto intro!: ensures_bindq ensures_if ensures_returnq ensures_failq)
qed

lemma kept_gather_legs: "kept (gather_legs (aas_leg_repo st) ls items)"
  by (induction ls arbitrary: items) (simp_all add: kept_rules)

lemma kept_summarise_legs: "kept (summarise_legs (aas_leg_repo st) ls acc d g)"
  by (induction ls arbitrary: acc d g) (simp_all add: kept_rules)

lemma kept_get_leg_detail: "kept (get_leg_detail i (aas_leg_repo st))"
  unfolding get_leg_detail_def load_leg_def by (intro kept_rules)

lemma kept_status_only: "kept m \<Longrightarrow> kept (status_only m)"
  unfolding status_only_def by (rule kept_bindq) (auto intro: kept_pure)

lemma kept_leg_request:
  assumes "user_uuid u \<in> U"
  shows "kept (run_leg_request (leg_state st) u a q)"
proof (cases q)
  case (AddLeg i now body)
  then show ?thesis
    by (simp add: post_add_leg_def leg_state_def)
      (intro kept_status_only kept_known [OF verify_known [OF assms]] kept_bindq kept_pure ensures_map_errq kept_add_leg; simp)
next
  case ListLegs
  then show ?thesis
    by (simp add: get_legs_def leg_state_def list_legs_for_activity_def)
      (intro kept_status_only kept_known [OF verify_known [OF assms]] kept_rules kept_gather_legs)
next
  case (GetLeg l)
  then show ?thesis
    by (simp add: get_leg_detail_handler_def leg_state_def)
      (intro kept_status_only kept_known [OF verify_known [OF assms]] kept_rules kept_get_leg_detail)
next
  case (PatchLeg now l body)
  have "kept (bindq (case ulr_title body of
         Some title \<Rightarrow> bindq (leg_step (rename_leg now (LegId l) title (aas_leg_repo st))) (\<lambda>_. returnq ())
       | None \<Rightarrow> returnq ()) (\<lambda>_.
     bindq (case ulr_date body of
         Some date \<Rightarrow> bindq (leg_step (update_leg_date now (LegId l) date (aas_leg_repo st))) (\<lambda>_. returnq ())
       | None \<Rightarrow> returnq ()) (\<lambda>_.
     bindq (case ulr_leg_number body of
         Some n \<Rightarrow> leg_step (reorder_leg (LegId l) n (aas_leg_repo st))
       | None \<Rightarrow> returnq ()) (\<lambda>_.
     bindq (leg_step (get_leg_detail (LegId l) (aas_leg_repo st))) (\<lambda>d.
     returnq (200, leg_detail_response_of (ld_leg d) (ld_summary d)))))))"
    if "l \<notin> ids"
    using that
    by (cases "ulr_title body"; cases "ulr_date body"; cases "ulr_leg_number body"; simp only: option.case)
      (intro kept_bindq kept_pure ensures_map_errq kept_get_leg_detail kept_rename_leg kept_update_leg_date
        kept_reorder_leg; simp)+
  with PatchLeg show ?thesis
    by (simp add: patch_leg_def leg_state_def Let_def)
      (intro kept_status_only kept_known [OF verify_known [OF assms]] kept_known [OF leg_of_activity_known]; simp)
next
  case (DeleteLeg clock l)
  then show ?thesis
    by (simp add: delete_leg_handler_def leg_state_def)
      (intro kept_known [OF verify_known [OF assms]] kept_known [OF leg_of_activity_known] kept_bindq kept_pure
        ensures_map_errq kept_remove_leg; simp)
qed

lemma kept_load_owned: "kept (load_owned (aas_repo st) i u)"
  unfolding load_owned_def by (intro kept_rules)

lemma kept_effect:
  assumes "user_uuid u \<in> U" and "K (tables db)"
  shows "K (tables (request_effect J st u q db))"
proof -
  have run: "K (tables (snd (m db)))" if "kept m" for m
    using ensures_invariant [OF that prod.collapse [symmetric] assms(2)] .
  have detail: "kept (get_activity_detail st u i)" for i
    unfolding get_activity_detail_def get_activity_def
    by (intro kept_rules) (auto intro!: kept_rules kept_summarise_legs split: prod.splits)
  have cat: "kept (get_activities st u ps)" "kept (patch_activity_title now st u i title)"
    "kept (delete_activity_handler now st u i)" "kept (post_select_current_route_version now J st u i h v)" for now ps i title h v
    unfolding get_activities_def patch_activity_title_def delete_activity_handler_def post_select_current_route_version_def
      Activity_Catalog.list_activities_def rename_activity_def delete_activity_def select_current_route_version_def Let_def
    by (intro kept_rules kept_load_owned)+
  show ?thesis
    by (cases q) (simp_all add: run detail cat kept_leg_request [OF assms(1)])
qed

lemma kept_effects:
  assumes "\<forall>(u, q)\<in>set qs. user_uuid u \<in> U" and "K (tables db)"
  shows "K (tables (foldl (\<lambda>db (u, q). request_effect J st u q db) db qs))"
  using assms
proof (induction qs arbitrary: db)
  case (Cons x qs)
  then show ?case using kept_effect [of "fst x" db J "snd x"] by (cases x) simp
qed simp

end

section \<open>The PostgreSQL repositories\<close>

text \<open>Both repositories work on one database, whose tables are those of the legs and those of the catalog.\<close>

definition on_legs :: "(leg_tables, 'a, 'e) sql \<Rightarrow> (leg_tables \<times> 'c, 'a, 'e) sql" where
  "on_legs m db = (case m \<lparr>tables = fst (tables db), faults = faults db\<rparr> of
    (r, d) \<Rightarrow> (r, \<lparr>tables = (tables d, snd (tables db)), faults = faults d\<rparr>))"

definition on_catalog :: "('c, 'a, 'e) sql \<Rightarrow> (leg_tables \<times> 'c, 'a, 'e) sql" where
  "on_catalog m db = (case m \<lparr>tables = snd (tables db), faults = faults db\<rparr> of
    (r, d) \<Rightarrow> (r, \<lparr>tables = (fst (tables db), tables d), faults = faults d\<rparr>))"

definition pg_activity_state ::
  "cursor_env \<Rightarrow> time \<Rightarrow> (route_version_id \<Rightarrow> (route_version option, route_versioning_error) result) \<Rightarrow>
    ((leg_tables \<times> 'j catalog_tables) db, 'j) activity_app_state" where
  "pg_activity_state C now find_version =
    \<lparr>aas_repo = (let R = PgActivityRepository C now in
       \<lparr>act_list = (\<lambda>u c n. on_catalog (act_list R u c n)), act_find_by_id = (\<lambda>i. on_catalog (act_find_by_id R i)),
        act_save = (\<lambda>a. on_catalog (act_save R a)), act_update = (\<lambda>a. on_catalog (act_update R a)),
        act_delete = (\<lambda>i. on_catalog (act_delete R i))\<rparr>),
     aas_leg_repo = (let R = PgLegRepository now in
       \<lparr>lr_list = (\<lambda>a. on_legs (lr_list R a)), lr_find = (\<lambda>i. on_legs (lr_find R i)),
        lr_save = (\<lambda>l. on_legs (lr_save R l)), lr_update = (\<lambda>l. on_legs (lr_update R l)),
        lr_delete = (\<lambda>i. on_legs (lr_delete R i)), lr_next_number = (\<lambda>a. on_legs (lr_next_number R a)),
        lr_reorder = (\<lambda>a i n. on_legs (lr_reorder R a i n)), lr_summary = (\<lambda>i. on_legs (lr_summary R i))\<rparr>),
     aas_find_version = (\<lambda>v. of_result (find_version v)),
     aas_audit = (\<lambda>actor action kind i. on_catalog (pg_audit_record actor action kind i))\<rparr>"

lemma ensures_on_legs:
  "(\<And>c. ensures (\<lambda>t. P (t, c)) m (\<lambda>x t. Q x (t, c)) (\<lambda>t. E (t, c))) \<Longrightarrow> ensures P (on_legs m) Q E"
  unfolding ensures_def on_legs_def by (fastforce split: prod.splits)

lemma ensures_on_catalog:
  "(\<And>l. ensures (\<lambda>t. P (l, t)) m (\<lambda>x t. Q x (l, t)) (\<lambda>t. E (l, t))) \<Longrightarrow> ensures P (on_catalog m) Q E"
  unfolding ensures_def on_catalog_def by (fastforce split: prod.splits)

definition legs_of :: "uuid \<Rightarrow> leg_tables \<times> 'j catalog_tables \<Rightarrow> leg_row list" where
  "legs_of b t = filter (\<lambda>r. lw_activity_id r = b) (lt_legs (fst t))"

definition guarded ::
  "uuid \<Rightarrow> leg_row list \<Rightarrow> uuid set \<Rightarrow> leg_tables \<times> 'j catalog_tables \<Rightarrow> bool" where
  "guarded b L U t \<longleftrightarrow> distinct (map lw_id (lt_legs (fst t))) \<and> legs_of b t = L \<and>
    (\<forall>r\<in>set (ct_activities (snd t)). cr_id r = b \<longrightarrow> cr_owner_id r \<notin> U)"

lemma update_rows_Ok:
  "update_rows sel f before rs = Ok rows \<Longrightarrow> rows = before @ map (\<lambda>r. if sel r then f r else r) rs"
  by (induction rs arbitrary: before) (fastforce split: if_splits)+

lemma guarded_update_legs:
  assumes "update_legs sel f t = (r, t')" and "guarded b L U (t, c)"
    and "\<And>r. lw_id (f r) = lw_id r \<and> lw_activity_id (f r) = lw_activity_id r"
    and "\<And>r. r \<in> set (lt_legs t) \<Longrightarrow> sel r \<Longrightarrow> lw_activity_id r \<noteq> b"
  shows "guarded b L U (t', c)"
proof (cases "update_rows sel f [] (lt_legs t)")
  case (Ok rows)
  let ?f = "\<lambda>r. if sel r then f r else r"
  from Ok assms(1) have rows: "lt_legs t' = map ?f (lt_legs t)"
    by (auto simp: update_legs_def dest: update_rows_Ok)
  have "map lw_id (map ?f (lt_legs t)) = map lw_id (lt_legs t)" using assms(3) by simp
  moreover have "filter (\<lambda>r. lw_activity_id r = b) (map ?f rs) = filter (\<lambda>r. lw_activity_id r = b) rs"
    if "set rs \<subseteq> set (lt_legs t)" for rs
    using that assms(3,4) by (induction rs) auto
  ultimately show ?thesis using assms(2) by (simp add: guarded_def legs_of_def rows del: map_map)
next
  case (Err e)
  with assms(1,2) show ?thesis by (simp add: update_legs_def)
qed

lemma guarded_leg_ids:
  assumes "guarded b L U (t, c)" and "r \<in> set (lt_legs t)"
  shows "lw_activity_id r = b \<longleftrightarrow> lw_id r \<in> lw_id ` set L"
proof -
  have L: "set L = {q \<in> set (lt_legs t). lw_activity_id q = b}" using assms(1) by (auto simp: guarded_def legs_of_def)
  have "inj_on lw_id (set (lt_legs t))" using assms(1) by (simp add: guarded_def distinct_map)
  with L assms(2) show ?thesis by (auto dest: inj_onD)
qed

lemma foreign_row:
  "guarded b L U (t, c) \<Longrightarrow> r \<in> set (lt_legs t) \<Longrightarrow> lw_id r = i \<Longrightarrow> i \<notin> lw_id ` set L \<Longrightarrow> lw_activity_id r \<noteq> b"
  using guarded_leg_ids by blast

lemma select_leg_ensures:
  "(\<And>t. P t \<Longrightarrow> Q (f t) t) \<Longrightarrow> (\<And>t. P t \<Longrightarrow> E t) \<Longrightarrow> ensures P (map_errq g (select f)) Q E"
  by (intro ensures_map_errq ensures_select)

lemma pg_find_leg_guarded:
  "ensures (\<lambda>t. guarded b L U (t, c)) (pg_find_leg i) (\<lambda>m t. guarded b L U (t, c) \<and>
    (\<forall>l. m = Some l \<longrightarrow> (activity_uuid (lg_activity_id l) = b \<longleftrightarrow> leg_uuid i \<in> lw_id ` set L) \<and> lg_id l = i))
    (\<lambda>t. guarded b L U (t, c))"
proof -
  have "(activity_uuid (lg_activity_id (into_leg r)) = b \<longleftrightarrow> leg_uuid i \<in> lw_id ` set L) \<and> lg_id (into_leg r) = i"
    if "guarded b L U (t, c)" "find (\<lambda>r. lw_id r = leg_uuid i) (lt_legs t) = Some r" for t r
  proof -
    from that(2) have r: "r \<in> set (lt_legs t)" "lw_id r = leg_uuid i" by (auto simp: find_Some_iff)
    with guarded_leg_ids [OF that(1) r(1)] show ?thesis by (simp add: into_leg_def)
  qed
  then show ?thesis
    unfolding pg_find_leg_def
    by (intro ensures_bindq [where R = "\<lambda>m t. guarded b L U (t, c) \<and>
        m = find (\<lambda>r. lw_id r = leg_uuid i) (lt_legs t)"] select_leg_ensures ensures_returnq) auto
qed

lemma pg_list_legs_guarded:
  "ensures (\<lambda>t. guarded b L U (t, c)) (pg_list_legs a) (\<lambda>ls t. guarded b L U (t, c) \<and>
    (activity_uuid a \<noteq> b \<longrightarrow> (\<forall>l\<in>set ls. leg_uuid (lg_id l) \<notin> lw_id ` set L))) (\<lambda>t. guarded b L U (t, c))"
proof -
  define ids where "ids = lw_id ` set L"
  have "leg_uuid (lg_id (into_leg r)) \<notin> ids"
    if "guarded b L U (t, c)" "r \<in> set (lt_legs t)" "lw_activity_id r \<noteq> b" for t r
    using guarded_leg_ids [OF that(1,2)] that(3) by (simp add: into_leg_def ids_def)
  then show ?thesis
    unfolding pg_list_legs_def ids_def [symmetric]
    by (intro ensures_bindq [where R = "\<lambda>rows t. guarded b L U (t, c) \<and>
        set rows = {r \<in> set (lt_legs t). lw_activity_id r = activity_uuid a}"] select_leg_ensures ensures_returnq) auto
qed

lemma update_statement_guarded:
  assumes "\<And>r. lw_id (f r) = lw_id r \<and> lw_activity_id (f r) = lw_activity_id r"
    and "\<And>t r. guarded b L U (t, c) \<Longrightarrow> r \<in> set (lt_legs t) \<Longrightarrow> sel r \<Longrightarrow> lw_activity_id r \<noteq> b"
  shows "ensures (\<lambda>t. guarded b L U (t, c)) (query (update_legs sel f)) (\<lambda>_ t. guarded b L U (t, c))
    (\<lambda>t. guarded b L U (t, c))"
  using guarded_update_legs [OF _ _ assms(1), of sel] assms(2) by (intro ensures_query) blast+

lemma pg_update_leg_guarded:
  assumes "leg_uuid (lg_id l) \<notin> lw_id ` set L"
  shows "ensures (\<lambda>t. guarded b L U (t, c)) (pg_update_leg l) (\<lambda>_ t. guarded b L U (t, c)) (\<lambda>t. guarded b L U (t, c))"
  unfolding pg_update_leg_def
proof (intro ensures_map_errq ensures_query)
  fix t x t'
  assume g: "guarded b L U (t, c)" and "(if leg_uuid (lg_id l) \<in> lw_id ` set (lt_legs t) \<and>
      leg_references (leg_row_of l) t \<noteq> None
    then (Err (the (leg_references (leg_row_of l) t)), t)
    else update_legs (\<lambda>r. lw_id r = leg_uuid (lg_id l)) (set_leg_columns l) t) = (Ok x, t')"
  then have "update_legs (\<lambda>r. lw_id r = leg_uuid (lg_id l)) (set_leg_columns l) t = (Ok x, t')"
    by (simp split: if_splits)
  from guarded_update_legs [OF this g] show "guarded b L U (t', c)"
    using guarded_leg_ids [OF g] assms by (simp add: set_leg_columns_def)
qed

lemma pg_save_leg_guarded:
  "activity_uuid (lg_activity_id l) \<noteq> b \<Longrightarrow> ensures (\<lambda>t. guarded b L U (t, c)) (pg_save_leg l)
    (\<lambda>_ t. guarded b L U (t, c)) (\<lambda>t. guarded b L U (t, c))"
  unfolding pg_save_leg_def
  by (intro ensures_map_errq ensures_query)
    (auto simp: insert_leg_def guarded_def legs_of_def leg_row_of_def split: if_splits option.splits)

lemma pg_delete_leg_guarded:
  assumes "leg_uuid i \<notin> lw_id ` set L"
  shows "ensures (\<lambda>t. guarded b L U (t, c)) (pg_delete_leg i) (\<lambda>_ t. guarded b L U (t, c)) (\<lambda>t. guarded b L U (t, c))"
  unfolding pg_delete_leg_def
proof (intro ensures_map_errq ensures_modify)
  fix t assume g: "guarded b L U (t, c)"
  have "filter (\<lambda>r. lw_id r \<noteq> leg_uuid i \<and> lw_activity_id r = b) (lt_legs t) = legs_of b (t, c)"
    unfolding legs_of_def fst_conv
    using foreign_row [OF g _ _ assms] by (intro filter_cong [OF refl]) blast
  with g show "guarded b L U (t\<lparr>lt_legs := filter (\<lambda>r. lw_id r \<noteq> leg_uuid i) (lt_legs t)\<rparr>, c)"
    by (simp add: guarded_def legs_of_def distinct_map_filter conj_commute)
qed

lemma pg_reorder_legs_guarded:
  assumes "activity_uuid a \<noteq> b" and "leg_uuid i \<notin> lw_id ` set L"
  shows "ensures (\<lambda>t. guarded b L U (t, c)) (pg_reorder_legs now a i n) (\<lambda>_ t. guarded b L U (t, c))
    (\<lambda>t. guarded b L U (t, c))"
proof -
  note upd = update_statement_guarded [THEN ensures_map_errq]
  have last: "ensures (\<lambda>t. guarded b L U (t, c)) (leg_query (query (update_legs (\<lambda>r. lw_id r = leg_uuid i)
      (\<lambda>r. r\<lparr>lw_leg_number := n, lw_updated_at := now\<rparr>)))) (\<lambda>_ t. guarded b L U (t, c)) (\<lambda>t. guarded b L U (t, c))"
    using assms(2) by (intro upd) (simp, rule foreign_row)
  have shift: "ensures (\<lambda>t. guarded b L U (t, c)) (leg_query (query (update_legs
      (\<lambda>r. lw_activity_id r = activity_uuid a \<and> P r) (\<lambda>r. r\<lparr>lw_leg_number := g r, lw_updated_at := now\<rparr>))))
      (\<lambda>_ t. guarded b L U (t, c)) (\<lambda>t. guarded b L U (t, c))" for P g
    using assms(1) by (intro upd) auto
  have both: "ensures (\<lambda>t. guarded b L U (t, c)) (leg_query (query (if q then
        update_legs (\<lambda>r. lw_activity_id r = activity_uuid a \<and> P r) (\<lambda>r. r\<lparr>lw_leg_number := g r, lw_updated_at := now\<rparr>)
      else update_legs (\<lambda>r. lw_activity_id r = activity_uuid a \<and> P' r) (\<lambda>r. r\<lparr>lw_leg_number := g' r, lw_updated_at := now\<rparr>))))
      (\<lambda>_ t. guarded b L U (t, c)) (\<lambda>t. guarded b L U (t, c))" for q P P' g g'
    using shift by (cases q) simp_all
  have find: "ensures (\<lambda>t. guarded b L U (t, c)) (pg_find_leg i) (\<lambda>_ t. guarded b L U (t, c)) (\<lambda>t. guarded b L U (t, c))"
    by (rule ensures_weaken [OF pg_find_leg_guarded]) auto
  show ?thesis
    unfolding pg_reorder_legs_def Let_def
    by (rule ensures_bindq [OF find], rule ensures_bindq [where R = "\<lambda>_ t. guarded b L U (t, c)"],
        rule ensures_of_result, simp, simp, rule ensures_if, rule ensures_returnq, simp,
        rule ensures_bindq [OF both last])
qed

lemma guarded_same: "ensures P m (\<lambda>_. P) P" if "reads_only m"
  using keepsD [OF that] unfolding ensures_def by metis

lemma pg_act_find_guarded:
  "ensures (\<lambda>t. guarded b L U (l, t)) (pg_act_find_by_id a) (\<lambda>m t. guarded b L U (l, t) \<and>
    (\<forall>x. m = Some x \<longrightarrow> activity_uuid a = b \<longrightarrow> user_uuid (ac_owner_id x) \<notin> U)) (\<lambda>t. guarded b L U (l, t))"
proof -
  have "user_uuid (ac_owner_id x) \<notin> U"
    if "guarded b L U (l, t)" "find (\<lambda>r. cr_id r = activity_uuid a) (ct_activities t) = Some r"
      "row_to_activity r = Ok x" "activity_uuid a = b" for t r x
    using that row_to_activity_fields [OF that(3)] by (auto simp: guarded_def find_Some_iff)
  then show ?thesis
    unfolding pg_act_find_by_id_def
    by (intro ensures_bindq [where R = "\<lambda>m t. guarded b L U (l, t) \<and>
        find (\<lambda>r. cr_id r = activity_uuid a) (ct_activities t) = m"] ensures_map_errq ensures_select)
      (auto split: option.splits intro!: ensures_returnq ensures_bindq [where R = "\<lambda>x t. guarded b L U (l, t) \<and>
        (activity_uuid a = b \<longrightarrow> user_uuid (ac_owner_id x) \<notin> U)"] ensures_of_result)
qed

lemma pg_act_update_guarded:
  "ensures (\<lambda>t. guarded b L U (l, t)) (pg_act_update x) (\<lambda>_ t. guarded b L U (l, t)) (\<lambda>t. guarded b L U (l, t))"
  unfolding pg_act_update_def
  by (intro ensures_map_errq ensures_query)
    (auto simp: update_catalog_row_def guarded_def legs_of_def split: if_splits)

interpretation pgl: leg_guard "pg_activity_state C now find_version" "guarded b L U" b "lw_id ` set L" U
  for C :: cursor_env and now :: time
    and find_version :: "route_version_id \<Rightarrow> (route_version option, route_versioning_error) result"
    and b :: uuid and L :: "leg_row list" and U :: "uuid set"
proof
  have keep: "ensures (guarded b L U) (on_legs m) (\<lambda>_. guarded b L U) (guarded b L U)" if "reads_only m" for m
    using guarded_same [OF that] by (intro ensures_on_legs)
  show "ensures (guarded b L U) (lr_next_number (aas_leg_repo (pg_activity_state C now find_version)) a)
      (\<lambda>_. guarded b L U) (guarded b L U)" for a
    unfolding pg_activity_state_def PgLegRepository_def pg_next_leg_number_def Let_def by (simp, rule keep) auto
  show "ensures (guarded b L U) (lr_summary (aas_leg_repo (pg_activity_state C now find_version)) i)
      (\<lambda>_. guarded b L U) (guarded b L U)" for i
    unfolding pg_activity_state_def PgLegRepository_def pg_get_leg_summary_def Let_def by (simp, rule keep) auto
  show "ensures (guarded b L U) (act_list (aas_repo (pg_activity_state C now find_version)) u cursor n)
      (\<lambda>_. guarded b L U) (guarded b L U)" for u cursor n
  proof -
    have "reads_only (pg_act_list C u cursor n)" unfolding pg_act_list_def Let_def by auto
    from guarded_same [OF this] have "ensures (guarded b L U) (on_catalog (pg_act_list C u cursor n))
        (\<lambda>_. guarded b L U) (guarded b L U)" by (intro ensures_on_catalog)
    then show ?thesis by (simp add: pg_activity_state_def PgActivityRepository_def Let_def)
  qed
  show "ensures (guarded b L U) (aas_audit (pg_activity_state C now find_version) actor action kind resource)
      (\<lambda>_. guarded b L U) (guarded b L U)" for actor action kind resource
    unfolding pg_activity_state_def pg_audit_record_def
    by (auto intro!: ensures_on_catalog ensures_map_errq ensures_modify simp: guarded_def legs_of_def)
  show "ensures (guarded b L U) (aas_find_version (pg_activity_state C now find_version) v)
      (\<lambda>_. guarded b L U) (guarded b L U)" for v
    unfolding pg_activity_state_def by (auto intro: ensures_of_result)
qed (auto simp: pg_activity_state_def PgLegRepository_def PgActivityRepository_def Let_def
    intro!: ensures_on_legs ensures_on_catalog pg_find_leg_guarded pg_list_legs_guarded pg_save_leg_guarded
      pg_update_leg_guarded pg_delete_leg_guarded pg_reorder_legs_guarded pg_act_find_guarded pg_act_update_guarded)

section \<open>Answers\<close>

lemma row_owner: "row_to_activity r = Ok a \<Longrightarrow> user_uuid (ac_owner_id a) = cr_owner_id r"
  using row_to_activity_fields [of r a] by simp

lemma verify_refuses:
  assumes "\<forall>r\<in>set (ct_activities (snd (tables db))). cr_id r = b \<longrightarrow> cr_owner_id r \<noteq> user_uuid u"
  shows "\<exists>db' e. verify_activity_ownership b u (aas_repo (pg_activity_state C now find_version)) db = (Err e, db') \<and>
    (e = activity_not_found \<or> e = Unwound)"
proof -
  let ?R = "aas_repo (pg_activity_state C now find_version)"
  have "x \<noteq> Some a \<or> ac_owner_id a \<noteq> u" if "act_find_by_id ?R (ActivityId b) db = (Ok x, db')" for x a db'
    using that assms
    by (auto simp: pg_activity_state_def PgActivityRepository_def Let_def on_catalog_def pg_act_find_by_id_def bindq_Ok
        map_errq_Ok select_Ok find_Some_iff split: prod.splits option.splits) (metis nth_mem row_owner)
  then show ?thesis
    by (cases "act_find_by_id ?R (ActivityId b) db"; cases "fst (act_find_by_id ?R (ActivityId b) db)")
      (auto simp: verify_activity_ownership_def get_activity_def bindq_def map_errq_def ok_or_def split: option.splits)
qed

lemma bindq_refused: "m s = (Err e, s') \<Longrightarrow> bindq m k s = (Err e, s')"
  by (simp add: bindq_def)

lemma leg_request_refused:
  assumes "verify_activity_ownership b u (aas_repo st) s = (Err e, s')"
  shows "run_leg_request (leg_state st) u b q s = (Err e, s')"
  using assms
  by (cases q) (simp_all add: leg_state_def status_only_def post_add_leg_def get_legs_def get_leg_detail_handler_def
      patch_leg_def delete_leg_handler_def Let_def bindq_refused)


definition sample_world :: "(leg_tables \<times> unit catalog_tables) db" where
  "sample_world =
    \<lparr>tables = (\<lparr>lt_legs = [(example_leg 5 1)\<lparr>lw_activity_id := 1\<rparr>], lt_activities = [1], lt_source_revisions = [],
       lt_tracks = (\<lambda>_. None)\<rparr>, tables sample_catalog), faults = []\<rparr>"


end
