(* ===== verification/Transfer_Api.thy ===== *)
theory Transfer_Api
  imports Import_Pipeline Exports Api_Error "HOL-Library.AList"
begin

text \<open>
  The import and export endpoints, \<open>crates/api/src/imports.rs\<close> and \<open>crates/api/src/exports.rs\<close> with their
  data transfer objects, and the upload quota, \<open>crates/infrastructure/src/upload_quota.rs\<close>.  The Unicode
  tables behind \<open>to_lowercase\<close> and \<open>serde_json\<close> are parameters; \<open>'p\<close> are the queued payloads.
\<close>

section \<open>Reasons of failures\<close>

text \<open>\<open>starts_with\<close> against a list of known prefixes.\<close>

definition has_safe_prefix :: "string list \<Rightarrow> string \<Rightarrow> bool" where
  "has_safe_prefix safe s \<longleftrightarrow> (\<exists>p\<in>set safe. take (length p) s = p)"

definition SAFE_EXPORT_FAILURE_REASONS :: "string list" where
  "SAFE_EXPORT_FAILURE_REASONS =
    [''generation failed'', ''format not supported'', ''route version unavailable'', ''export file corrupted'']"

definition SAFE_FAILURE_REASONS :: "string list" where
  "SAFE_FAILURE_REASONS =
    [''unsupported file format'', ''parsing failed'', ''file too large'', ''invalid media type'',
     ''checksum mismatch'', ''duplicate checksum'', ''upload too large'', ''upload not found in storage'',
     ''upload is empty'', ''validation failed'']"

definition sanitize_failure_reason :: "string list \<Rightarrow> (string \<Rightarrow> string) \<Rightarrow> string \<Rightarrow> string" where
  "sanitize_failure_reason safe lower reason =
    (if has_safe_prefix safe (lower reason) then reason else ''an internal error occurred'')"

section \<open>Upload quota\<close>

text \<open>Instants and durations are nanoseconds; the state is the count and the start of each user's window.\<close>

record upload_quota =
  uq_state :: "(uuid \<times> (u64 \<times> nat)) list"
  uq_max_imports :: u64
  uq_window :: nat

definition UPLOAD_WINDOW :: nat where "UPLOAD_WINDOW = 24 * 60 * 60 * 1000000000"
definition EVICTION_THRESHOLD :: nat where "EVICTION_THRESHOLD = 10000"

definition upload_quota_new :: "u64 \<Rightarrow> upload_quota" where
  "upload_quota_new max_per_day = \<lparr>uq_state = [], uq_max_imports = max_per_day, uq_window = UPLOAD_WINDOW\<rparr>"

definition evict_expired :: "nat \<Rightarrow> upload_quota \<Rightarrow> (uuid \<times> (u64 \<times> nat)) list" where
  "evict_expired now q =
    (if EVICTION_THRESHOLD < length (uq_state q)
     then filter (\<lambda>(_, _, start). now - start < uq_window q) (uq_state q) else uq_state q)"

text \<open>\<open>Err n\<close>: the quota is exceeded for another \<open>n\<close> seconds.\<close>

definition check_and_increment_at :: "uuid \<Rightarrow> nat \<Rightarrow> upload_quota \<Rightarrow> (unit, nat) result \<times> upload_quota" where
  "check_and_increment_at user now q =
    (let state = evict_expired now q;
         (count, start) = (case map_of state user of Some e \<Rightarrow> e | None \<Rightarrow> (0, now));
         elapsed = now - start;
         (count, start) = (if uq_window q \<le> elapsed then (0, now) else (count, start)) in
     if uq_max_imports q \<le> count
     then (Err (max ((uq_window q - elapsed) div 1000000000) 1),
           q\<lparr>uq_state := AList.update user (count, start) state\<rparr>)
     else (Ok (), q\<lparr>uq_state := AList.update user (count + 1, start) state\<rparr>))"

section \<open>Imports\<close>

text \<open>An answer is a body, or a problem that carries headers of its own; a problem without is an \<open>Err\<close>.\<close>

datatype ('b, 'm) http_answer =
    Body nat "(string \<times> string) list" 'b
  | Refused "'m api_problem" "(string \<times> string) list"

datatype import_message = ImportText string | ImportReason import_text | TransitionText string string | QuotaText u64 nat

fun import_error_to_api_error :: "import_error \<Rightarrow> import_message api_problem" where
  "import_error_to_api_error import_error.NotFound =
    problem 404 ''NOT_FOUND'' (ImportText ''import not found'') ''/problems/not-found'' ''Not Found''"
| "import_error_to_api_error import_error.Unauthorized =
    problem 404 ''NOT_FOUND'' (ImportText ''import not found'') ''/problems/not-found'' ''Not Found''"
| "import_error_to_api_error UploadTooLarge =
    problem 422 ''UPLOAD_TOO_LARGE'' (ImportText ''file size exceeds the 50MB limit'')
      ''/problems/upload-too-large'' ''Upload Too Large''"
| "import_error_to_api_error InvalidMediaType =
    problem 422 ''INVALID_MEDIA_TYPE''
      (ImportText ''content type must be application/gpx+xml or application/xml'')
      ''/problems/invalid-media-type'' ''Invalid Media Type''"
| "import_error_to_api_error ObjectNotFound =
    problem 422 ''OBJECT_NOT_FOUND'' (ImportText ''uploaded object not found in storage'')
      ''/problems/object-not-found'' ''Object Not Found''"
| "import_error_to_api_error (InvalidTransition from to) =
    problem 409 ''INVALID_STATE_TRANSITION'' (TransitionText from to) ''/problems/invalid-state-transition''
      ''Invalid State Transition''"
| "import_error_to_api_error DuplicateIdempotencyKey =
    problem 409 ''DUPLICATE_IDEMPOTENCY_KEY'' (ImportText ''an import with this idempotency key already exists'')
      ''/problems/duplicate-idempotency-key'' ''Duplicate Idempotency Key''"
| "import_error_to_api_error IdempotencyPayloadMismatch =
    problem 409 ''IDEMPOTENCY_PAYLOAD_MISMATCH'' (ImportText ''idempotency key reused with different payload'')
      ''/problems/idempotency-conflict'' ''Idempotency Conflict''"
| "import_error_to_api_error (ValidationFailed m) =
    problem 422 ''VALIDATION_FAILED'' (ImportReason m) ''/problems/validation-failed'' ''Validation Failed''"
| "import_error_to_api_error (StorageError _) =
    problem 500 ''STORAGE_ERROR'' (ImportText ''a storage error occurred'') ''/problems/storage-error''
      ''Storage Error''"
| "import_error_to_api_error _ =
    problem 500 ''INTERNAL_ERROR'' (ImportText ''an unexpected error occurred'') ''/problems/internal-error''
      ''Internal Server Error''"

definition BACKPRESSURE_ERROR_PREFIX :: string where
  "BACKPRESSURE_ERROR_PREFIX = ''BACKPRESSURE:''"

type_synonym ('s, 'p) job_enqueuer = "string \<Rightarrow> 'p \<Rightarrow> uuid \<Rightarrow> ('s, uuid, string) step"

record ('s, 'p) import_app_state =
  ias_repo :: "'s import_repository"
  ias_url_generator :: "string \<Rightarrow> (string, import_error) result"
  ias_upload_verifier :: "string \<Rightarrow> (upload_metadata, import_error) result"
  ias_job_queue :: "('s, 'p) job_enqueuer option"
  ias_upload_quota :: "(u64 \<times> (uuid \<Rightarrow> ('s, unit, nat) step)) option"

record start_import_request =
  sr_filename :: string
  sr_content_type :: string
  sr_file_size_bytes :: u64

record start_import_response =
  sp_import_id :: uuid
  sp_upload_url :: string
  sp_status :: string

record import_status_response =
  isr_id :: uuid
  isr_status :: string
  isr_failure_reason :: "string option"
  isr_failure_code :: "string option"
  isr_activity_id :: "uuid option"
  isr_created_at :: time
  isr_updated_at :: time

text \<open>\<open>render\<close> gives the text of a stored reason.\<close>

definition import_to_status_response ::
  "(string \<Rightarrow> string) \<Rightarrow> (import_text \<Rightarrow> string) \<Rightarrow> import_rec \<Rightarrow> import_status_response" where
  "import_to_status_response lower render i =
    \<lparr>isr_id = import_uuid (im_id i), isr_status = import_status_to_string (im_status i),
     isr_failure_reason = map_option (\<lambda>r. sanitize_failure_reason SAFE_FAILURE_REASONS lower (render r))
       (im_failure_reason i),
     isr_failure_code = map_option failure_code_as_str (im_failure_code i),
     isr_activity_id = map_option activity_uuid (im_activity_id i),
     isr_created_at = im_created_at i, isr_updated_at = im_updated_at i\<rparr>"

definition unexpected_import_error :: "string \<Rightarrow> import_message api_problem" where
  "unexpected_import_error code =
    problem 500 code (ImportText ''an unexpected error occurred'') ''/problems/internal-error''
      ''Internal Server Error''"

definition post_start_import ::
  "import_env \<Rightarrow> (nat \<Rightarrow> time) \<Rightarrow> import_id \<Rightarrow> ('s, 'p) import_app_state \<Rightarrow> user_id \<Rightarrow> string option \<Rightarrow>
    start_import_request \<Rightarrow>
    ('s, (start_import_response, import_message) http_answer, import_message api_problem) step" where
  "post_start_import E clock new_id st actor header body =
    bindq (of_result (idempotency_key_header ImportText header)) (\<lambda>key.
    bindq (case ias_upload_quota st of
        None \<Rightarrow> returnq None
      | Some (limit, check) \<Rightarrow> (\<lambda>s. case check (user_uuid actor) s of
          (Ok _, s') \<Rightarrow> (Ok None, s')
        | (Err retry_after, s') \<Rightarrow> (Ok (Some (limit, retry_after)), s'))) (\<lambda>exceeded.
    case exceeded of
      Some (limit, retry_after) \<Rightarrow>
        returnq (Refused (problem 429 ''UPLOAD_QUOTA_EXCEEDED'' (QuotaText limit retry_after)
          ''/problems/upload-quota-exceeded'' ''Upload Quota Exceeded'') [(''retry-after'', decimal retry_after)])
    | None \<Rightarrow>
        bindq (map_errq import_error_to_api_error (handle_start_import E clock new_id (ias_repo st)
          (ias_url_generator st)
          \<lparr>sic_owner_id = actor, sic_idempotency_key = key, sic_filename = sr_filename body,
           sic_content_type = sr_content_type body, sic_file_size_bytes = sr_file_size_bytes body\<rparr>)) (\<lambda>r.
        returnq (Body 202 []
          \<lparr>sp_import_id = import_uuid (im_id (sir_import r)), sp_upload_url = sir_upload_url r,
           sp_status = import_status_to_string (im_status (sir_import r))\<rparr>))))"

text \<open>Enqueueing the parsing of an upload; \<open>Some\<close> is the answer to a queue at capacity.\<close>

definition enqueue_parsing ::
  "(parse_gpx_job \<Rightarrow> 'p option) \<Rightarrow> ('s, 'p) job_enqueuer \<Rightarrow> import_rec \<Rightarrow>
    ('s, (import_status_response, import_message) http_answer option, import_message api_problem) step" where
  "enqueue_parsing to_value enqueue i =
    bindq (of_result (ok_or (unexpected_import_error ''INTERNAL_ERROR'') (to_value
      \<lparr>pj_import_id = import_uuid (im_id i), pj_owner_id = user_uuid (im_owner_id i),
       pj_object_storage_key = storage_key (im_owner_id i) (im_id i),
       pj_correlation_id = import_uuid (im_id i)\<rparr>))) (\<lambda>payload s.
    case enqueue ''parse_gpx'' payload (import_uuid (im_id i)) s of
      (Ok _, s') \<Rightarrow> (Ok None, s')
    | (Err e, s') \<Rightarrow>
        if take (length BACKPRESSURE_ERROR_PREFIX) e = BACKPRESSURE_ERROR_PREFIX
        then (Ok (Some (Refused (problem 429 ''QUEUE_BACKPRESSURE''
            (ImportText ''the processing queue is at capacity, please retry later'')
            ''/problems/queue-backpressure'' ''Service Temporarily Overloaded'') [(''retry-after'', decimal 60)])), s')
        else (Err (unexpected_import_error ''JOB_ENQUEUE_FAILED''), s'))"

definition post_complete_upload ::
  "import_env \<Rightarrow> (import_text \<Rightarrow> string) \<Rightarrow> (parse_gpx_job \<Rightarrow> 'p option) \<Rightarrow> time \<Rightarrow> source_artifact_id \<Rightarrow>
    ('s, 'p) import_app_state \<Rightarrow> user_id \<Rightarrow> uuid \<Rightarrow> string \<Rightarrow>
    ('s, (import_status_response, import_message) http_answer, import_message api_problem) step" where
  "post_complete_upload E render to_value now artifact st actor i checksum =
    bindq (map_errq import_error_to_api_error (handle_complete_upload E now artifact (ias_repo st)
      (ias_upload_verifier st) \<lparr>cuc_import_id = ImportId i, cuc_owner_id = actor, cuc_checksum = checksum\<rparr>)) (\<lambda>im.
    bindq (case ias_job_queue st of Some q \<Rightarrow> enqueue_parsing to_value q im | None \<Rightarrow> returnq None) (\<lambda>refused.
    returnq (case refused of
      Some answer \<Rightarrow> answer
    | None \<Rightarrow> Body 200 [] (import_to_status_response (env_lowercase E) render im))))"

definition get_import_status ::
  "(string \<Rightarrow> string) \<Rightarrow> (import_text \<Rightarrow> string) \<Rightarrow> ('s, 'p) import_app_state \<Rightarrow> user_id \<Rightarrow> uuid \<Rightarrow>
    ('s, nat \<times> import_status_response, import_message api_problem) step" where
  "get_import_status lower render st actor i =
    bindq (map_errq import_error_to_api_error (handle_get_import (ias_repo st) (ImportId i) actor)) (\<lambda>im.
    returnq (200, import_to_status_response lower render im))"

section \<open>Exports\<close>

fun export_error_to_api_error :: "export_error \<Rightarrow> string api_problem" where
  "export_error_to_api_error ExNotFound =
    problem 404 ''NOT_FOUND'' ''export not found'' ''/problems/not-found'' ''Not Found''"
| "export_error_to_api_error ExUnauthorized =
    problem 404 ''NOT_FOUND'' ''export not found'' ''/problems/not-found'' ''Not Found''"
| "export_error_to_api_error (ExInvalidTransition from to) =
    problem 409 ''INVALID_STATE_TRANSITION'' (''cannot transition from '' @ from @ '' to '' @ to)
      ''/problems/invalid-state-transition'' ''Invalid State Transition''"
| "export_error_to_api_error ExIdempotencyPayloadMismatch =
    problem 409 ''IDEMPOTENCY_PAYLOAD_MISMATCH'' ''idempotency key reused with different payload''
      ''/problems/idempotency-conflict'' ''Idempotency Conflict''"
| "export_error_to_api_error ExRouteVersionNotFound =
    problem 404 ''NOT_FOUND'' ''route version not found'' ''/problems/not-found'' ''Not Found''"
| "export_error_to_api_error ExActivityNotFound =
    problem 404 ''NOT_FOUND'' ''activity not found'' ''/problems/not-found'' ''Not Found''"
| "export_error_to_api_error (ExValidationFailed m) =
    problem 422 ''VALIDATION_FAILED'' m ''/problems/validation-failed'' ''Validation Failed''"
| "export_error_to_api_error (ExPersistenceError _) =
    problem 500 ''INTERNAL_ERROR'' ''an unexpected error occurred'' ''/problems/internal-error''
      ''Internal Server Error''"
| "export_error_to_api_error (ExChecksumMismatch _ _) =
    problem 500 ''INTERNAL_ERROR'' ''an unexpected error occurred'' ''/problems/internal-error''
      ''Internal Server Error''"
| "export_error_to_api_error ExArtifactExpired =
    problem 410 ''ARTIFACT_EXPIRED'' ''export artifact has expired and is no longer available''
      ''/problems/artifact-expired'' ''Artifact Expired''"
| "export_error_to_api_error (ExNotReady status) =
    problem 409 ''EXPORT_NOT_READY'' (''export is not ready for download: current status is '' @ status)
      ''/problems/export-not-ready'' ''Export Not Ready''"

definition unexpected_export_error :: "string \<Rightarrow> string api_problem" where
  "unexpected_export_error code =
    problem 500 code ''an unexpected error occurred'' ''/problems/internal-error'' ''Internal Server Error''"

definition parse_export_format :: "(string \<Rightarrow> string) \<Rightarrow> string \<Rightarrow> (export_format, string api_problem) result" where
  "parse_export_format lower format =
    (if lower format = ''gpx'' then Ok GpxFormat
     else Err (problem 422 ''VALIDATION_FAILED'' (''unsupported export format: '' @ format)
       ''/problems/validation-failed'' ''Validation Failed''))"

definition DOWNLOAD_URL_TTL_SECONDS :: u64 where
  "DOWNLOAD_URL_TTL_SECONDS = 300"

record download_info =
  di_url :: string
  di_expires_at :: time

record ('s, 'p) export_app_state =
  eas_repo :: "'s export_repository"
  eas_route_version_gateway :: "'s ownership_check"
  eas_job_queue :: "('s, 'p) job_enqueuer option"
  eas_download_url_generator :: "(string \<Rightarrow> string \<Rightarrow> string \<Rightarrow> u64 \<Rightarrow> ('s, download_info, export_error) step) option"
  eas_audit_sink :: "(uuid \<Rightarrow> string \<Rightarrow> string \<Rightarrow> string \<Rightarrow> ('s, unit, string) step) option"

record export_status_response =
  esr_id :: uuid
  esr_status :: string
  esr_format :: string
  esr_route_version_id :: uuid
  esr_activity_id :: uuid
  esr_failure_reason :: "string option"
  esr_checksum :: "string option"
  esr_expires_at :: "time option"
  esr_created_at :: time
  esr_updated_at :: time

record export_download_url_response =
  edr_download_url :: string
  edr_filename :: string
  edr_expires_at :: time
  edr_checksum :: string
  edr_content_type :: string

definition export_to_status_response :: "(string \<Rightarrow> string) \<Rightarrow> export_job \<Rightarrow> export_status_response" where
  "export_to_status_response lower j =
    \<lparr>esr_id = export_uuid (ex_id j), esr_status = export_status_to_string (ex_status j),
     esr_format = export_format_to_string (ex_format j),
     esr_route_version_id = version_uuid (ex_route_version_id j),
     esr_activity_id = activity_uuid (ex_activity_id j),
     esr_failure_reason = map_option (sanitize_failure_reason SAFE_EXPORT_FAILURE_REASONS lower) (ex_failure_reason j),
     esr_checksum = ex_checksum j, esr_expires_at = ex_expires_at j, esr_created_at = ex_created_at j,
     esr_updated_at = ex_updated_at j\<rparr>"

definition enqueue_generation ::
  "(generate_export_job \<Rightarrow> 'p option) \<Rightarrow> ('s, 'p) job_enqueuer \<Rightarrow> export_job \<Rightarrow> ('s, unit, string api_problem) step" where
  "enqueue_generation to_value enqueue j =
    bindq (of_result (ok_or (unexpected_export_error ''INTERNAL_ERROR'') (to_value
      \<lparr>gj_export_job_id = export_uuid (ex_id j), gj_activity_id = activity_uuid (ex_activity_id j),
       gj_route_version_id = version_uuid (ex_route_version_id j), gj_owner_id = user_uuid (ex_requested_by j),
       gj_format = export_format_to_string (ex_format j), gj_correlation_id = export_uuid (ex_id j)\<rparr>))) (\<lambda>payload.
    bindq (map_errq (\<lambda>_. unexpected_export_error ''JOB_ENQUEUE_FAILED'')
      (enqueue ''generate_export'' payload (export_uuid (ex_id j)))) (\<lambda>_. returnq ()))"

definition post_request_export ::
  "(string \<Rightarrow> string) \<Rightarrow> (string \<Rightarrow> string) \<Rightarrow> (generate_export_job \<Rightarrow> 'p option) \<Rightarrow> time \<Rightarrow> export_job_id \<Rightarrow>
    ('s, 'p) export_app_state \<Rightarrow> user_id \<Rightarrow> uuid \<Rightarrow> string option \<Rightarrow> uuid \<times> string \<Rightarrow>
    ('s, nat \<times> uuid \<times> string, string api_problem) step" where
  "post_request_export sha lower to_value now new_id st actor activity header body =
    bindq (of_result (idempotency_key_header (\<lambda>m. m) header)) (\<lambda>key.
    bindq (of_result (parse_export_format lower (snd body))) (\<lambda>format.
    bindq (map_errq export_error_to_api_error (handle_request_export sha now new_id
      \<lparr>rx_owner_id = actor, rx_activity_id = ActivityId activity, rx_route_version_id = RouteVersionId (fst body),
       rx_format = format, rx_idempotency_key = key\<rparr> (eas_repo st) (eas_route_version_gateway st))) (\<lambda>j.
    bindq (case eas_job_queue st of Some q \<Rightarrow> enqueue_generation to_value q j | None \<Rightarrow> returnq ()) (\<lambda>_.
    returnq (202, export_uuid (ex_id j), export_status_to_string (ex_status j))))))"

definition get_export_status ::
  "(string \<Rightarrow> string) \<Rightarrow> ('s, 'p) export_app_state \<Rightarrow> user_id \<Rightarrow> uuid \<Rightarrow>
    ('s, nat \<times> export_status_response, string api_problem) step" where
  "get_export_status lower st actor i =
    bindq (map_errq export_error_to_api_error (handle_get_export (ExportJobId i) actor (eas_repo st))) (\<lambda>j.
    returnq (200, export_to_status_response lower j))"

text \<open>
  File names.  The bound underflows (a panic) for extensions of more than 99 bytes; the handler passes
  \<open>gpx\<close>.
\<close>

definition is_file_char :: "char \<Rightarrow> bool" where
  "is_file_char c \<longleftrightarrow> is_ascii_digit c \<or> 65 \<le> byte c \<and> byte c \<le> 90 \<or> 97 \<le> byte c \<and> byte c \<le> 122 \<or> c = CHR ''-''"

definition file_char :: "string \<Rightarrow> char" where
  "file_char c = (case c of [b] \<Rightarrow> if is_file_char b then b else CHR ''-'' | _ \<Rightarrow> CHR ''-'')"

fun collapse_hyphens :: "bool \<Rightarrow> string \<Rightarrow> string" where
  "collapse_hyphens prev [] = []"
| "collapse_hyphens prev (c # cs) =
    (if c = CHR ''-'' then (if prev then collapse_hyphens True cs else c # collapse_hyphens True cs)
     else c # collapse_hyphens False cs)"

definition trim_end_hyphens :: "string \<Rightarrow> string" where
  "trim_end_hyphens s = rev (dropWhile (\<lambda>c. c = CHR ''-'') (rev s))"

definition sanitize_filename :: "string \<Rightarrow> string \<Rightarrow> string" where
  "sanitize_filename name extension =
    (let max_base_len = 100 - length extension - 1;
         result = trim_end_hyphens (dropWhile (\<lambda>c. c = CHR ''-'') (collapse_hyphens False (map file_char (chars name))));
         result = (if max_base_len < length result then trim_end_hyphens (take max_base_len result) else result) in
     (if result = [] then ''export'' else result) @ ''.'' @ extension)"

definition get_export_download ::
  "time \<Rightarrow> ('s, 'p) export_app_state \<Rightarrow> user_id \<Rightarrow> uuid \<Rightarrow>
    ('s, (export_download_url_response, string) http_answer, string api_problem) step" where
  "get_export_download now st actor i =
    bindq (map_errq export_error_to_api_error (handle_download_export now (ExportJobId i) actor (eas_repo st))) (\<lambda>j.
    bindq (of_result (ok_or (unexpected_export_error ''INTERNAL_ERROR'') (ex_object_storage_key j))) (\<lambda>key.
    let checksum = (case ex_checksum j of Some c \<Rightarrow> c | None \<Rightarrow> []);
        filename = sanitize_filename ''export'' ''gpx'' in
    bindq (of_result (ok_or (unexpected_export_error ''INTERNAL_ERROR'') (eas_download_url_generator st))) (\<lambda>generate.
    bindq (map_errq export_error_to_api_error
      (generate key filename ''application/gpx+xml'' DOWNLOAD_URL_TTL_SECONDS)) (\<lambda>info.
    bindq (case eas_audit_sink st of
        Some audit \<Rightarrow> ignoreq (audit (user_uuid actor) ''export.download'' ''export_job'' (uuid_to_string i))
      | None \<Rightarrow> returnq ()) (\<lambda>_.
    returnq (Body 200 [(''cache-control'', ''no-store'')]
      \<lparr>edr_download_url = di_url info, edr_filename = filename, edr_expires_at = di_expires_at info,
       edr_checksum = checksum, edr_content_type = ''application/gpx+xml''\<rparr>))))))"

end
