(* ===== verification/Job_Queue.thy ===== *)
theory Job_Queue
  imports Transfer_Api Step_Logic
begin

text \<open>
  The job queue, \<open>crates/infrastructure/src/job_queue.rs\<close> over the table of
  \<open>migrations/20250101000002_create_job_queue.sql\<close> and its amendments; the worker that polls it,
  \<open>worker_runtime.rs\<close>; the guard of \<open>backpressure.rs\<close>; and the adapter \<open>PgJobEnqueuer\<close> of
  \<open>crates/api/src/main.rs\<close>.  Statements are atomic, so a poll never finds a row locked; rows that tie in
  the order of a poll are taken in the order of the table.  \<open>'p\<close> are the payloads.
\<close>

section \<open>The table\<close>

record 'p job_row =
  jr_id :: uuid
  jr_type :: string
  jr_payload :: 'p
  jr_status :: string
  jr_priority :: i32
  jr_max_retries :: i32
  jr_retry_count :: i32
  jr_error_message :: "string option"
  jr_scheduled_at :: time
  jr_started_at :: "time option"
  jr_completed_at :: "time option"
  jr_failed_at :: "time option"
  jr_created_at :: time
  jr_updated_at :: time
  jr_correlation_id :: "uuid option"
  jr_timeout_seconds :: i32

record 'p job =
  jb_id :: uuid
  jb_type :: string
  jb_payload :: 'p
  jb_status :: string
  jb_retry_count :: i32
  jb_max_retries :: i32
  jb_scheduled_at :: time
  jb_created_at :: time
  jb_correlation_id :: "uuid option"
  jb_timeout_seconds :: i32

type_synonym ('p, 'a) jobs_sql = "('p job_row list, 'a, db_error) sql"

definition job_active :: "'p job_row \<Rightarrow> bool" where
  "job_active r \<longleftrightarrow> jr_status r \<noteq> ''completed'' \<and> jr_status r \<noteq> ''cancelled'' \<and> jr_status r \<noteq> ''failed''"

text \<open>The partial unique index on the type and the correlation id of active jobs.\<close>

definition same_job :: "'p job_row \<Rightarrow> 'p job_row \<Rightarrow> bool" where
  "same_job r q \<longleftrightarrow> job_active r \<and> job_active q \<and> jr_correlation_id r \<noteq> None \<and>
    jr_type r = jr_type q \<and> jr_correlation_id r = jr_correlation_id q"

definition new_job :: "uuid \<Rightarrow> time \<Rightarrow> string \<Rightarrow> 'p \<Rightarrow> time \<Rightarrow> uuid option \<Rightarrow> 'p job_row" where
  "new_job i now kind payload scheduled correlation =
    \<lparr>jr_id = i, jr_type = kind, jr_payload = payload, jr_status = ''pending'', jr_priority = 0,
     jr_max_retries = 3, jr_retry_count = 0, jr_error_message = None, jr_scheduled_at = scheduled,
     jr_started_at = None, jr_completed_at = None, jr_failed_at = None, jr_created_at = now,
     jr_updated_at = now, jr_correlation_id = correlation, jr_timeout_seconds = 300\<rparr>"

definition insert_job :: "'p job_row \<Rightarrow> 'p job_row list \<Rightarrow> (unit, db_error) result \<times> 'p job_row list" where
  "insert_job r rows =
    (if jr_id r \<in> jr_id ` set rows then (Err (UniqueViolation ''jobs_pkey''), rows)
     else if \<exists>q\<in>set rows. same_job r q then (Err (UniqueViolation ''idx_jobs_idempotent_correlation''), rows)
     else (Ok (), rows @ [r]))"

text \<open>\<open>ON CONFLICT (job_type, correlation_id) ... DO NOTHING\<close>; the answer is the number of rows inserted.\<close>

definition insert_job_or_nothing ::
  "'p job_row \<Rightarrow> 'p job_row list \<Rightarrow> (nat, db_error) result \<times> 'p job_row list" where
  "insert_job_or_nothing r rows =
    (if jr_id r \<in> jr_id ` set rows then (Err (UniqueViolation ''jobs_pkey''), rows)
     else if \<exists>q\<in>set rows. same_job r q then (Ok 0, rows)
     else (Ok 1, rows @ [r]))"

section \<open>Enqueueing\<close>

definition enqueue :: "uuid \<Rightarrow> time \<Rightarrow> string \<Rightarrow> 'p \<Rightarrow> ('p, uuid) jobs_sql" where
  "enqueue new_id now kind payload =
    bindq (query (insert_job (new_job new_id now kind payload now None))) (\<lambda>_. returnq new_id)"

definition enqueue_with_correlation :: "uuid \<Rightarrow> time \<Rightarrow> string \<Rightarrow> 'p \<Rightarrow> uuid \<Rightarrow> ('p, uuid) jobs_sql" where
  "enqueue_with_correlation new_id now kind payload correlation =
    bindq (query (insert_job (new_job new_id now kind payload now (Some correlation)))) (\<lambda>_. returnq new_id)"

definition enqueue_scheduled :: "uuid \<Rightarrow> time \<Rightarrow> string \<Rightarrow> 'p \<Rightarrow> time \<Rightarrow> ('p, uuid) jobs_sql" where
  "enqueue_scheduled new_id now kind payload scheduled =
    bindq (query (insert_job (new_job new_id now kind payload scheduled None))) (\<lambda>_. returnq new_id)"

text \<open>\<open>other\<close> is what other clients do between the insertion and the look-up.\<close>

definition enqueue_idempotent ::
  "('p job_row list \<Rightarrow> 'p job_row list) \<Rightarrow> uuid \<Rightarrow> uuid \<Rightarrow> time \<Rightarrow> string \<Rightarrow> 'p \<Rightarrow> uuid \<Rightarrow> ('p, uuid) jobs_sql" where
  "enqueue_idempotent other new_id retry_id now kind payload correlation =
    bindq (query (insert_job_or_nothing (new_job new_id now kind payload now (Some correlation)))) (\<lambda>n.
    if n = 0 then
      bindq (query (\<lambda>rows. (Ok (find (\<lambda>r. jr_type r = kind \<and> jr_correlation_id r = Some correlation \<and> job_active r)
        (other rows)), other rows))) (\<lambda>existing.
      case existing of
        Some r \<Rightarrow> returnq (jr_id r)
      | None \<Rightarrow>
          bindq (query (insert_job_or_nothing (new_job retry_id now kind payload now (Some correlation)))) (\<lambda>_.
          returnq retry_id))
    else returnq new_id)"

section \<open>Working\<close>

definition job_of :: "'p job_row \<Rightarrow> 'p job" where
  "job_of r =
    \<lparr>jb_id = jr_id r, jb_type = jr_type r, jb_payload = jr_payload r, jb_status = jr_status r,
     jb_retry_count = jr_retry_count r, jb_max_retries = jr_max_retries r,
     jb_scheduled_at = jr_scheduled_at r, jb_created_at = jr_created_at r,
     jb_correlation_id = jr_correlation_id r, jb_timeout_seconds = jr_timeout_seconds r\<rparr>"

text \<open>\<open>ORDER BY priority DESC, scheduled_at ASC LIMIT 1\<close> among the jobs that are due.\<close>

definition due_jobs :: "time \<Rightarrow> 'p job_row list \<Rightarrow> 'p job_row list" where
  "due_jobs now rows =
    sort_key (\<lambda>r. - sint (jr_priority r)) (sort_key jr_scheduled_at
      (filter (\<lambda>r. jr_status r = ''pending'' \<and> jr_scheduled_at r \<le> now) rows))"

definition set_job :: "uuid \<Rightarrow> ('p job_row \<Rightarrow> 'p job_row) \<Rightarrow> 'p job_row list \<Rightarrow> 'p job_row list" where
  "set_job i f rows = map (\<lambda>r. if jr_id r = i then f r else r) rows"

definition start_job :: "time \<Rightarrow> 'p job_row \<Rightarrow> 'p job_row" where
  "start_job now r = r\<lparr>jr_status := ''running'', jr_started_at := Some now, jr_updated_at := now\<rparr>"

definition poll :: "time \<Rightarrow> ('p, 'p job option) jobs_sql" where
  "poll now = query (\<lambda>rows.
    case due_jobs now rows of
      [] \<Rightarrow> (Ok None, rows)
    | r # _ \<Rightarrow> (Ok (Some (job_of (start_job now r))), set_job (jr_id r) (start_job now) rows))"

definition complete_job :: "time \<Rightarrow> uuid \<Rightarrow> ('p, unit) jobs_sql" where
  "complete_job now i = modify (set_job i (\<lambda>r. r\<lparr>jr_status := ''completed'', jr_completed_at := Some now,
     jr_updated_at := now\<rparr>))"

definition cancel_job :: "time \<Rightarrow> uuid \<Rightarrow> ('p, unit) jobs_sql" where
  "cancel_job now i = modify (set_job i (\<lambda>r.
     if jr_status r = ''pending'' \<or> jr_status r = ''running''
     then r\<lparr>jr_status := ''cancelled'', jr_updated_at := now\<rparr> else r))"

text \<open>
  The two statements of \<open>timeout_stale_jobs\<close>.  \<open>retry_count + 1\<close> is an error of the statement when it
  leaves the range of INTEGER.
\<close>

definition stale :: "time \<Rightarrow> 'p job_row \<Rightarrow> bool" where
  "stale now r \<longleftrightarrow> jr_status r = ''running'' \<and>
    (case jr_started_at r of Some t \<Rightarrow> t + sint (jr_timeout_seconds r) * 1000000000 < now | None \<Rightarrow> False)"

definition retries_left :: "'p job_row \<Rightarrow> bool" where
  "retries_left r \<longleftrightarrow> sint (jr_retry_count r) + 1 < sint (jr_max_retries r)"

definition update_stale ::
  "time \<Rightarrow> ('p job_row \<Rightarrow> bool) \<Rightarrow> ('p job_row \<Rightarrow> 'p job_row) \<Rightarrow> ('p, nat) jobs_sql" where
  "update_stale now sel f = query (\<lambda>rows.
    if \<exists>r\<in>set rows. stale now r \<and> sint (jr_retry_count r) = 2147483647
    then (Err (TriggerException ''integer out of range''), rows)
    else (Ok (length (filter (\<lambda>r. stale now r \<and> sel r) rows)),
      map (\<lambda>r. if stale now r \<and> sel r then f r else r) rows))"

definition reset_stale_jobs :: "time \<Rightarrow> ('p, nat) jobs_sql" where
  "reset_stale_jobs now = update_stale now retries_left (\<lambda>r. r
    \<lparr>jr_status := ''pending'', jr_retry_count := jr_retry_count r + 1,
     jr_error_message := Some ''job timed out'', jr_updated_at := now\<rparr>)"

definition fail_stale_jobs :: "time \<Rightarrow> ('p, nat) jobs_sql" where
  "fail_stale_jobs now = update_stale now (\<lambda>r. \<not> retries_left r) (\<lambda>r. r
    \<lparr>jr_status := ''failed'', jr_retry_count := jr_retry_count r + 1,
     jr_error_message := Some ''job timed out (max retries exhausted)'', jr_failed_at := Some now,
     jr_updated_at := now\<rparr>)"

definition timeout_stale_jobs :: "time \<Rightarrow> ('p, nat) jobs_sql" where
  "timeout_stale_jobs now =
    bindq (reset_stale_jobs now) (\<lambda>n. bindq (fail_stale_jobs now) (\<lambda>m. returnq (n + m)))"

text \<open>\<open>fail\<close>: one statement reads the counts, another writes.\<close>

definition read_retries :: "uuid \<Rightarrow> ('p, i32 \<times> i32) jobs_sql" where
  "read_retries i = bindq (select (find (\<lambda>r. jr_id r = i))) (\<lambda>found.
    of_result (ok_or RowNotFound (map_option (\<lambda>r. (jr_retry_count r, jr_max_retries r)) found)))"

definition retry_row :: "time \<Rightarrow> i32 \<Rightarrow> string \<Rightarrow> 'p job_row \<Rightarrow> 'p job_row" where
  "retry_row now n msg r = r
    \<lparr>jr_status := ''pending'', jr_retry_count := n, jr_error_message := Some msg,
     jr_scheduled_at := now + 2 ^ unat n * 1000000000, jr_updated_at := now\<rparr>"

definition fail_row :: "time \<Rightarrow> i32 \<Rightarrow> string \<Rightarrow> 'p job_row \<Rightarrow> 'p job_row" where
  "fail_row now n msg r = r
    \<lparr>jr_status := ''failed'', jr_retry_count := n, jr_error_message := Some msg, jr_failed_at := Some now,
     jr_updated_at := now\<rparr>"

definition write_failure :: "time \<Rightarrow> uuid \<Rightarrow> string \<Rightarrow> i32 \<times> i32 \<Rightarrow> ('p, unit) jobs_sql" where
  "write_failure now i msg counts =
    (let n = fst counts + 1 in
     if n <s snd counts then
       query (\<lambda>rows.
         if \<exists>r\<in>set rows. \<exists>q\<in>set rows. jr_id r = i \<and> jr_id q \<noteq> i \<and> same_job (retry_row now n msg r) q
         then (Err (UniqueViolation ''idx_jobs_idempotent_correlation''), rows)
         else (Ok (), set_job i (retry_row now n msg) rows))
     else modify (set_job i (fail_row now n msg)))"

definition fail_job :: "time \<Rightarrow> uuid \<Rightarrow> string \<Rightarrow> ('p, unit) jobs_sql" where
  "fail_job now i msg = bindq (read_retries i) (write_failure now i msg)"

section \<open>The worker\<close>

definition effective_timeout :: "'p job \<Rightarrow> nat \<Rightarrow> nat" where
  "effective_timeout j default_seconds =
    (if 0 <s jb_timeout_seconds j then unat (jb_timeout_seconds j) else default_seconds)"

text \<open>What a registered handler did within the time limit.\<close>

datatype handler_outcome = HandlerOk | HandlerErr string | HandlerTimeout

text \<open>
  One job: poll, run the handler of the type, if there is one, and record the outcome; failures of the queue
  are logged and dropped.  \<open>handle\<close> is \<open>None\<close> for a type without a handler.
\<close>

definition dispatch_job :: "time \<Rightarrow> ('p job \<Rightarrow> handler_outcome option) \<Rightarrow> 'p job \<Rightarrow> ('p, unit) jobs_sql" where
  "dispatch_job now handle j = ignoreq (case handle j of
       Some HandlerOk \<Rightarrow> complete_job now (jb_id j)
     | Some (HandlerErr e) \<Rightarrow> fail_job now (jb_id j) e
     | Some HandlerTimeout \<Rightarrow> fail_job now (jb_id j) ''execution time limit exceeded''
     | None \<Rightarrow> fail_job now (jb_id j) (''no handler registered for job type: '' @ jb_type j))"

definition work_once :: "(nat \<Rightarrow> time) \<Rightarrow> ('p job \<Rightarrow> handler_outcome option) \<Rightarrow> ('p, unit) jobs_sql" where
  "work_once clock handle = ignoreq (bindq (poll (clock 0)) (\<lambda>found.
    case found of None \<Rightarrow> returnq () | Some j \<Rightarrow> dispatch_job (clock 1) handle j))"

section \<open>Backpressure and the adapter of the endpoints\<close>

record backpressure_config =
  bp_max_pending_jobs :: u64
  bp_suggested_retry_seconds :: u64

definition backpressure_check :: "backpressure_config \<Rightarrow> u64 \<Rightarrow> (unit, u64) result" where
  "backpressure_check config pending =
    (if bp_max_pending_jobs config \<le> pending then Err (bp_suggested_retry_seconds config) else Ok ())"

text \<open>\<open>show\<close> is the text of a database error.\<close>

definition pg_job_enqueuer ::
  "(db_error \<Rightarrow> string) \<Rightarrow> uuid \<Rightarrow> uuid \<Rightarrow> time \<Rightarrow> ('p job_row list db, 'p) job_enqueuer" where
  "pg_job_enqueuer show new_id retry_id now kind payload correlation =
    map_errq (\<lambda>e. ''failed to enqueue job: '' @ show e)
      (enqueue_idempotent (\<lambda>rows. rows) new_id retry_id now kind payload correlation)"

end
