(* ===== verification/Queue_Correctness.thy ===== *)
theory Queue_Correctness
  imports Job_Queue
begin

text \<open>
  Correctness of the job queue: over any history of statements a job is handed out a bounded number of times,
  again only after a failure or a time-out, and active jobs with a correlation id are unique.
\<close>

section \<open>Histories\<close>

text \<open>
  What clients and workers do; the two statements of a failure are taken together here
  (\<open>fail_race\<close>, at the end, separates them).
\<close>

datatype 'p queue_op =
    Enqueue uuid time string 'p time
  | EnqueueCorrelated uuid time string 'p uuid
  | EnqueueIdempotent uuid uuid time string 'p uuid
  | Poll time
  | Complete time uuid
  | Cancel time uuid
  | Fail time uuid string
  | Stale time

text \<open>The answer is the job handed out, if one was.\<close>

fun run_op :: "'p queue_op \<Rightarrow> ('p, uuid option) jobs_sql" where
  "run_op (Enqueue i now kind p at_time) = bindq (enqueue_scheduled i now kind p at_time) (\<lambda>_. returnq None)"
| "run_op (EnqueueCorrelated i now kind p c) = bindq (enqueue_with_correlation i now kind p c) (\<lambda>_. returnq None)"
| "run_op (EnqueueIdempotent i j now kind p c) =
    bindq (enqueue_idempotent (\<lambda>rows. rows) i j now kind p c) (\<lambda>_. returnq None)"
| "run_op (Poll now) = bindq (poll now) (\<lambda>j. returnq (map_option jb_id j))"
| "run_op (Complete now i) = bindq (complete_job now i) (\<lambda>_. returnq None)"
| "run_op (Cancel now i) = bindq (cancel_job now i) (\<lambda>_. returnq None)"
| "run_op (Fail now i msg) = bindq (fail_job now i msg) (\<lambda>_. returnq None)"
| "run_op (Stale now) = bindq (timeout_stale_jobs now) (\<lambda>_. returnq None)"

definition handed_out :: "(uuid option, db_error) result \<Rightarrow> uuid list" where
  "handed_out r = (case r of Ok (Some i) \<Rightarrow> [i] | _ \<Rightarrow> [])"

text \<open>The jobs handed out by a history, latest first, and the table it leaves.\<close>

fun run_ops :: "'p queue_op list \<Rightarrow> uuid list \<Rightarrow> 'p job_row list db \<Rightarrow> uuid list \<times> 'p job_row list db" where
  "run_ops [] started db = (started, db)"
| "run_ops (x # xs) started db = (case run_op x db of (r, db') \<Rightarrow> run_ops xs (handed_out r @ started) db')"

fun may_retry :: "uuid \<Rightarrow> 'p queue_op \<Rightarrow> bool" where
  "may_retry i (Fail _ j _) = (j = i)"
| "may_retry i (Stale _) = True"
| "may_retry i _ = False"

definition retries_of :: "uuid \<Rightarrow> 'p queue_op list \<Rightarrow> nat" where
  "retries_of i ops = length (filter (may_retry i) ops)"

section \<open>The invariant\<close>

text \<open>\<open>s\<close> starts, \<open>f\<close> failures and time-outs, \<open>k\<close> a bound of the retry count.\<close>

definition job_ok :: "nat \<Rightarrow> nat \<Rightarrow> nat \<Rightarrow> 'p job_row \<Rightarrow> bool" where
  "job_ok s f k r \<longleftrightarrow> jr_max_retries r = 3 \<and> 0 \<le> sint (jr_retry_count r) \<and> sint (jr_retry_count r) \<le> int k \<and>
    int s \<le> sint (jr_retry_count r) + 1 \<and> s \<le> 3 \<and> s \<le> Suc f \<and>
    (jr_status r = ''pending'' \<longrightarrow> int s \<le> sint (jr_retry_count r) \<and> sint (jr_retry_count r) < 3 \<and> s \<le> f)"

definition no_clash :: "'p job_row list \<Rightarrow> bool" where
  "no_clash rows \<longleftrightarrow> (\<forall>r\<in>set rows. \<forall>q\<in>set rows. same_job r q \<longrightarrow> jr_id r = jr_id q)"

definition queue_inv :: "uuid list \<Rightarrow> (uuid \<Rightarrow> nat) \<Rightarrow> nat \<Rightarrow> 'p job_row list \<Rightarrow> bool" where
  "queue_inv st F k rows \<longleftrightarrow> distinct (map jr_id rows) \<and> no_clash rows \<and>
    (\<forall>r\<in>set rows. job_ok (count_list st (jr_id r)) (F (jr_id r)) k r) \<and>
    (\<forall>i. i \<notin> jr_id ` set rows \<longrightarrow> count_list st i = 0)"

lemma job_ok_later: "job_ok s f k r \<Longrightarrow> f \<le> f' \<Longrightarrow> k \<le> k' \<Longrightarrow> job_ok s f' k' r"
  by (auto simp: job_ok_def)

lemma queue_inv_later: "queue_inv st F k rows \<Longrightarrow> (\<And>i. F i \<le> G i) \<Longrightarrow> k \<le> l \<Longrightarrow> queue_inv st G l rows"
  unfolding queue_inv_def by (auto intro: job_ok_later)

lemma queue_inv_unique:
  "queue_inv st F k rows \<Longrightarrow> r \<in> set rows \<Longrightarrow> q \<in> set rows \<Longrightarrow> jr_id r = jr_id q \<Longrightarrow> r = q"
  by (auto simp: queue_inv_def distinct_map dest: inj_onD)

lemma sint_Suc: "sint (w :: i32) < 2147483647 \<Longrightarrow> sint (w + 1) = sint w + 1"
  using sint_ge [of w] by (simp add: sint_word_ariths signed_take_bit_int_eq_self)

lemma same_job_sym: "same_job p q = same_job q p"
  unfolding same_job_def by metis

lemma queue_inv_insert:
  assumes "queue_inv st F k rows" and "jr_id r \<notin> jr_id ` set rows" and "\<not> (\<exists>q\<in>set rows. same_job r q)"
    and "jr_max_retries r = 3" and "jr_retry_count r = 0"
  shows "queue_inv st F k (rows @ [r])"
proof -
  have "count_list st (jr_id r) = 0" using assms(1,2) by (auto simp: queue_inv_def)
  then have "job_ok (count_list st (jr_id r)) (F (jr_id r)) k r" using assms(4,5) by (simp add: job_ok_def)
  moreover have "no_clash (rows @ [r])"
  proof -
    have "no_clash rows" using assms(1) by (simp add: queue_inv_def)
    with assms(3) same_job_sym [of r] show ?thesis
      unfolding no_clash_def by (metis Un_iff empty_iff insert_iff list.set set_append)
  qed
  moreover have "distinct (map jr_id (rows @ [r]))" using assms(1,2) by (simp add: queue_inv_def)
  moreover have "\<forall>q\<in>set rows. job_ok (count_list st (jr_id q)) (F (jr_id q)) k q"
    and "\<forall>i. i \<notin> jr_id ` set rows \<longrightarrow> count_list st i = 0"
    using assms(1) unfolding queue_inv_def by blast+
  ultimately show ?thesis unfolding queue_inv_def by simp
qed

text \<open>Rows rewritten in place.\<close>

lemma queue_inv_map:
  assumes "queue_inv st F k rows" and "\<And>r. jr_id (g r) = jr_id r"
    and "\<And>r. r \<in> set rows \<Longrightarrow> job_ok (count_list st' (jr_id r)) (G (jr_id r)) l (g r)"
    and "\<And>i. i \<notin> jr_id ` set rows \<Longrightarrow> count_list st' i = 0" and "no_clash (map g rows)"
  shows "queue_inv st' G l (map g rows)"
proof -
  have "map jr_id (map g rows) = map jr_id rows" using assms(2) by simp
  moreover have "jr_id ` set (map g rows) = jr_id ` set rows" using assms(2) by (simp add: image_image)
  ultimately show ?thesis
    unfolding queue_inv_def using assms by (auto simp: queue_inv_def simp del: map_map)
qed

text \<open>\<open>settles g r\<close>: \<open>g\<close> keeps the id, and what is active after it was active before, with the same key.\<close>

definition settles :: "('p job_row \<Rightarrow> 'p job_row) \<Rightarrow> 'p job_row \<Rightarrow> bool" where
  "settles g r \<longleftrightarrow> jr_id (g r) = jr_id r \<and> (job_active (g r) \<longrightarrow>
    job_active r \<and> jr_type (g r) = jr_type r \<and> jr_correlation_id (g r) = jr_correlation_id r)"

lemma no_clash_map:
  assumes "no_clash rows" and "\<And>r. r \<in> set rows \<Longrightarrow> settles g r"
  shows "no_clash (map g rows)"
  unfolding no_clash_def
proof (intro ballI impI)
  fix r q assume "r \<in> set (map g rows)" "q \<in> set (map g rows)" and same: "same_job r q"
  then obtain r' q' where rq: "r' \<in> set rows" "q' \<in> set rows" "r = g r'" "q = g q'" by auto
  with assms(2) have c: "settles g r'" "settles g q'" by auto
  with same rq have "same_job r' q'" unfolding same_job_def settles_def by metis
  with assms(1) rq c show "jr_id r = jr_id q" by (simp add: no_clash_def settles_def)
qed

lemma queue_inv_no_clash: "queue_inv st F k rows \<Longrightarrow> no_clash rows"
  by (simp add: queue_inv_def)

lemma queue_inv_absent: "queue_inv st F k rows \<Longrightarrow> i \<notin> jr_id ` set rows \<Longrightarrow> count_list st i = 0"
  by (simp add: queue_inv_def)

lemma queue_inv_job: "queue_inv st F k rows \<Longrightarrow> r \<in> set rows \<Longrightarrow> job_ok (count_list st (jr_id r)) (F (jr_id r)) k r"
  by (simp add: queue_inv_def)

lemma queue_inv_settled_map:
  assumes "queue_inv st F k rows" and "\<And>r. jr_id (g r) = jr_id r" and "\<And>r. r \<in> set rows \<Longrightarrow> settles g r"
    and "\<And>r. r \<in> set rows \<Longrightarrow> job_ok (count_list st (jr_id r)) (G (jr_id r)) l (g r)"
  shows "queue_inv st G l (map g rows)"
  using assms by (intro queue_inv_map no_clash_map queue_inv_no_clash) (auto dest: queue_inv_absent)

section \<open>The statements\<close>

lemma insert_job_inv:
  "ensures (queue_inv st F k) (query (insert_job (new_job i now kind p t c))) (\<lambda>_. queue_inv st F k) (queue_inv st F k)"
  by (intro ensures_query) (auto simp: insert_job_def split: if_splits intro!: queue_inv_insert simp: new_job_def)

lemma enqueue_scheduled_inv:
  "ensures (queue_inv st F k) (enqueue_scheduled i now kind p t) (\<lambda>_. queue_inv st F k) (queue_inv st F k)"
  unfolding enqueue_scheduled_def by (rule ensures_bindq [OF insert_job_inv]) (rule ensures_returnq)

lemma enqueue_with_correlation_inv:
  "ensures (queue_inv st F k) (enqueue_with_correlation i now kind p c) (\<lambda>_. queue_inv st F k) (queue_inv st F k)"
  unfolding enqueue_with_correlation_def by (rule ensures_bindq [OF insert_job_inv]) (rule ensures_returnq)

lemma insert_job_or_nothing_inv:
  "ensures (queue_inv st F k) (query (insert_job_or_nothing (new_job i now kind p t c))) (\<lambda>_. queue_inv st F k)
    (queue_inv st F k)"
  by (intro ensures_query) (auto simp: insert_job_or_nothing_def split: if_splits intro!: queue_inv_insert simp: new_job_def)

lemma enqueue_idempotent_inv:
  "ensures (queue_inv st F k) (enqueue_idempotent (\<lambda>rows. rows) i j now kind p c) (\<lambda>_. queue_inv st F k)
    (queue_inv st F k)"
  unfolding enqueue_idempotent_def
  by (intro ensures_bindq [OF insert_job_or_nothing_inv] ensures_if ensures_returnq
      ensures_bindq [where R = "\<lambda>_. queue_inv st F k"] ensures_query)
    (auto intro!: ensures_returnq ensures_bindq insert_job_or_nothing_inv split: option.splits)

lemma stopped_inv:
  assumes "queue_inv st F k rows" and "\<And>r. f r = r \<or> (jr_id (f r) = jr_id r \<and> jr_max_retries (f r) = jr_max_retries r \<and>
      jr_retry_count (f r) = jr_retry_count r \<and> jr_status (f r) \<noteq> ''pending'' \<and> \<not> job_active (f r))"
  shows "queue_inv st F k (set_job i f rows)"
proof -
  let ?g = "\<lambda>r. if jr_id r = i then f r else r"
  have g: "jr_id (?g r) = jr_id r" "settles ?g r" "job_ok s n k r \<Longrightarrow> job_ok s n k (?g r)" for s n r
    using assms(2) [of r] by (auto simp: settles_def job_ok_def)
  then show ?thesis
    unfolding set_job_def using assms(1) by (intro queue_inv_settled_map [OF assms(1)]) (blast dest: queue_inv_job)+
qed

lemma complete_job_inv: "ensures (queue_inv st F k) (complete_job now i) (\<lambda>_. queue_inv st F k) (queue_inv st F k)"
  unfolding complete_job_def by (intro ensures_modify stopped_inv) (auto simp: job_active_def)

lemma cancel_job_inv: "ensures (queue_inv st F k) (cancel_job now i) (\<lambda>_. queue_inv st F k) (queue_inv st F k)"
  unfolding cancel_job_def by (intro ensures_modify stopped_inv) (auto simp: job_active_def)

lemma due_jobs_head:
  assumes "due_jobs now rows = r # rs"
  shows "r \<in> set rows" and "jr_status r = ''pending''" and "jr_scheduled_at r \<le> now"
proof -
  have "set (due_jobs now rows) = {r \<in> set rows. jr_status r = ''pending'' \<and> jr_scheduled_at r \<le> now}"
    by (simp add: due_jobs_def)
  with assms show "r \<in> set rows" "jr_status r = ''pending''" "jr_scheduled_at r \<le> now" by auto
qed

lemma start_job_inv:
  assumes "queue_inv st F k rows" and "due_jobs now rows = r # rs"
  shows "queue_inv (jr_id r # st) F k (set_job (jr_id r) (start_job now) rows)"
proof -
  let ?g = "\<lambda>q. if jr_id q = jr_id r then start_job now q else q"
  note r = due_jobs_head [OF assms(2)]
  have same: "q = r" if "q \<in> set rows" "jr_id q = jr_id r" for q
    using queue_inv_unique [OF assms(1) that(1) r(1) that(2)] .
  have settles: "settles ?g q" if "q \<in> set rows" for q
    using same [OF that] r(2) by (auto simp: settles_def start_job_def job_active_def)
  have "job_ok (count_list (jr_id r # st) (jr_id q)) (F (jr_id q)) k (?g q)" if q: "q \<in> set rows" for q
    using queue_inv_job [OF assms(1) q] same [OF q] r(2) by (auto simp: job_ok_def start_job_def)
  moreover have "count_list (jr_id r # st) i = 0" if "i \<notin> jr_id ` set rows" for i
    using queue_inv_absent [OF assms(1) that] that r(1) by auto
  ultimately show ?thesis
    unfolding set_job_def
    by (intro queue_inv_map [OF assms(1)] no_clash_map [OF queue_inv_no_clash [OF assms(1)] settles])
      (auto simp: start_job_def)
qed

lemma poll_inv:
  "ensures (queue_inv st F k) (poll now) (\<lambda>m. queue_inv ((case m of Some j \<Rightarrow> [jb_id j] | None \<Rightarrow> []) @ st) F k)
    (queue_inv st F k)"
  unfolding poll_def
proof (intro ensures_query)
  fix t m t' assume q: "queue_inv st F k t"
    and "(case due_jobs now t of [] \<Rightarrow> (Ok None, t)
      | r # _ \<Rightarrow> (Ok (Some (job_of (start_job now r))), set_job (jr_id r) (start_job now) t)) = (Ok m, t')"
  then show "queue_inv ((case m of Some j \<Rightarrow> [jb_id j] | None \<Rightarrow> []) @ st) F k t'"
    using start_job_inv [OF q] by (auto simp: job_of_def start_job_def split: list.splits)
qed

lemma update_stale_inv:
  assumes "\<And>r s f l. job_ok s f l r \<Longrightarrow> jr_status r = ''running'' \<Longrightarrow> sel r \<Longrightarrow> sint (jr_retry_count r) < 2147483647 \<Longrightarrow>
      job_ok s (d + f) (Suc l) (g r)"
    and "\<And>r. jr_id (g r) = jr_id r \<and> jr_type (g r) = jr_type r \<and> jr_correlation_id (g r) = jr_correlation_id r"
  shows "ensures (queue_inv st F k) (update_stale now sel g) (\<lambda>_. queue_inv st (\<lambda>i. d + F i) (Suc k)) (queue_inv st F k)"
  unfolding update_stale_def
proof (intro ensures_query)
  fix t n t' assume q: "queue_inv st F k t"
    and run: "(if \<exists>r\<in>set t. stale now r \<and> sint (jr_retry_count r) = 2147483647
      then (Err (TriggerException ''integer out of range''), t)
      else (Ok (length (filter (\<lambda>r. stale now r \<and> sel r) t)), map (\<lambda>r. if stale now r \<and> sel r then g r else r) t)) =
      (Ok n, t')"
  let ?g = "\<lambda>r. if stale now r \<and> sel r then g r else r"
  from run have t': "t' = map ?g t" and range: "stale now r \<Longrightarrow> r \<in> set t \<Longrightarrow> sint (jr_retry_count r) \<noteq> 2147483647" for r
    by (auto split: if_splits)
  have top: "sint (jr_retry_count r) \<le> 2147483647" for r :: "'a job_row"
    using sint_less [of "jr_retry_count r"] by simp
  have "settles ?g r" for r using assms(2) [of r] by (auto simp: settles_def stale_def job_active_def)
  moreover have "job_ok (count_list st (jr_id r)) (d + F (jr_id r)) (Suc k) (?g r)" if r: "r \<in> set t" for r
  proof (cases "stale now r \<and> sel r")
    case True
    with assms(1) [OF queue_inv_job [OF q r]] range [OF _ r] top [of r] show ?thesis by (simp add: stale_def)
  next
    case False
    then have "?g r = r" by auto
    with job_ok_later [OF queue_inv_job [OF q r]] show ?thesis by simp
  qed
  ultimately show "queue_inv st (\<lambda>i. d + F i) (Suc k) t'"
    unfolding t' using assms(2) by (intro queue_inv_settled_map [OF q]) auto
qed simp

lemma timeout_stale_jobs_inv:
  "ensures (queue_inv st F k) (timeout_stale_jobs now) (\<lambda>_. queue_inv st (\<lambda>i. Suc (F i)) (Suc (Suc k)))
    (queue_inv st (\<lambda>i. Suc (F i)) (Suc (Suc k)))"
proof -
  have reset: "ensures (queue_inv st F k) (reset_stale_jobs now) (\<lambda>_. queue_inv st (\<lambda>i. 1 + F i) (Suc k)) (queue_inv st F k)"
    unfolding reset_stale_jobs_def
    by (rule update_stale_inv) (auto simp: job_ok_def sint_Suc retries_left_def)
  have finish: "ensures (queue_inv st (\<lambda>i. Suc (F i)) (Suc k)) (fail_stale_jobs now)
      (\<lambda>_. queue_inv st (\<lambda>i. 0 + Suc (F i)) (Suc (Suc k))) (queue_inv st (\<lambda>i. Suc (F i)) (Suc k))"
    unfolding fail_stale_jobs_def
    by (rule update_stale_inv) (auto simp: job_ok_def sint_Suc)
  show ?thesis
    unfolding timeout_stale_jobs_def
    by (intro ensures_bindq [where R = "\<lambda>_. queue_inv st (\<lambda>i. Suc (F i)) (Suc k)"]
        ensures_bindq [where R = "\<lambda>_. queue_inv st (\<lambda>i. Suc (F i)) (Suc (Suc k))"] ensures_returnq
        ensures_weaken [OF reset] ensures_weaken [OF finish])
      (auto elim: queue_inv_later)
qed

lemma fail_job_inv:
  assumes "int k < 2147483647"
  shows "ensures (queue_inv st F k) (fail_job now i msg) (\<lambda>_. queue_inv st (\<lambda>j. if j = i then Suc (F j) else F j) (Suc k))
    (queue_inv st (\<lambda>j. if j = i then Suc (F j) else F j) (Suc k))"
proof -
  let ?G = "\<lambda>j. if j = i then Suc (F j) else F j"
  let ?R = "\<lambda>c t. queue_inv st F k t \<and> (\<exists>r\<in>set t. jr_id r = i \<and> c = (jr_retry_count r, jr_max_retries r))"
  have read: "ensures (queue_inv st F k) (read_retries i) ?R (queue_inv st F k)"
    unfolding read_retries_def
    by (intro ensures_bindq [where R = "\<lambda>m t. queue_inv st F k t \<and> find (\<lambda>r. jr_id r = i) t = m"] ensures_select
        ensures_of_result)
      (auto simp: ok_or_def find_Some_iff split: option.splits)
  have later: "queue_inv st F k t \<Longrightarrow> queue_inv st ?G (Suc k) t" for t by (erule queue_inv_later) auto
  have row: "job_ok (count_list st (jr_id q)) (?G (jr_id q)) (Suc k) (if jr_id q = i then h q else q)"
    if inv: "queue_inv st F k t" and q: "q \<in> set t" and new: "jr_id q = i \<Longrightarrow> job_ok (count_list st i) (Suc (F i)) (Suc k) (h q)"
    for t q h
    using job_ok_later [OF queue_inv_job [OF inv q], of "?G (jr_id q)" "Suc k"] new by auto
  have writes: "ensures (?R c) (write_failure now i msg c) (\<lambda>_. queue_inv st ?G (Suc k)) (queue_inv st ?G (Suc k))" for c
  proof -
    let ?n = "fst c + 1"
    have n: "sint ?n = sint (fst c) + 1" "jr_retry_count r = fst c" "jr_max_retries r = snd c"
      if "?R c t" "r \<in> set t" "jr_id r = i" for t r
    proof -
      from that(1) obtain q where q: "q \<in> set t" "jr_id q = i" "c = (jr_retry_count q, jr_max_retries q)" by auto
      with that queue_inv_unique [of st F k t r q] have "r = q" by auto
      with q show c: "jr_retry_count r = fst c" "jr_max_retries r = snd c" by auto
      from that queue_inv_job [of st F k t r] assms c(1) have "sint (fst c) < 2147483647" by (simp add: job_ok_def)
      then show "sint ?n = sint (fst c) + 1" by (rule sint_Suc)
    qed
    have retried: "queue_inv st ?G (Suc k) (set_job i (retry_row now ?n msg) t)"
      if R: "?R c t" and lt: "?n <s snd c" and free: "\<not> (\<exists>r\<in>set t. \<exists>q\<in>set t. jr_id r = i \<and> jr_id q \<noteq> i \<and> same_job (retry_row now ?n msg r) q)" for t
    proof -
      let ?g = "\<lambda>r. if jr_id r = i then retry_row now ?n msg r else r"
      from R have inv: "queue_inv st F k t" by blast
      have "job_ok (count_list st i) (Suc (F i)) (Suc k) (retry_row now ?n msg q)" if "q \<in> set t" "jr_id q = i" for q
        using queue_inv_job [OF inv that(1)] n [OF R that] lt that(2) by (simp add: job_ok_def retry_row_def word_sless_alt)
      moreover have "no_clash (map ?g t)"
        unfolding no_clash_def
      proof (intro ballI impI)
        fix r q assume "r \<in> set (map ?g t)" "q \<in> set (map ?g t)" and same: "same_job r q"
        then obtain r' q' where rq: "r' \<in> set t" "q' \<in> set t" "r = ?g r'" "q = ?g q'" by auto
        have id: "jr_id (?g x) = jr_id x" for x by (simp add: retry_row_def)
        have apart: "\<not> same_job (retry_row now ?n msg x) y" if "x \<in> set t" "y \<in> set t" "jr_id x = i" "jr_id y \<noteq> i" for x y
          using free that by blast
        consider "jr_id r' = i \<and> jr_id q' = i" | "jr_id r' = i \<and> jr_id q' \<noteq> i" | "jr_id r' \<noteq> i \<and> jr_id q' = i"
          | "jr_id r' \<noteq> i \<and> jr_id q' \<noteq> i" by blast
        then show "jr_id r = jr_id q"
        proof cases
          case 1
          moreover have "jr_id r = jr_id r'" "jr_id q = jr_id q'" unfolding rq(3,4) by (rule id)+
          ultimately show ?thesis by simp
        next
          case 2
          with apart [OF rq(1,2)] same rq(3,4) show ?thesis by simp
        next
          case 3
          with apart [OF rq(2,1)] same rq(3,4) same_job_sym [of r q] show ?thesis by simp
        next
          case 4
          with queue_inv_no_clash [OF inv] rq same show ?thesis by (simp add: no_clash_def)
        qed
      qed
      ultimately show ?thesis
        unfolding set_job_def using row [OF inv]
        by (intro queue_inv_map [OF inv]) (auto simp: retry_row_def dest: queue_inv_absent [OF inv])
    qed
    have failed: "queue_inv st ?G (Suc k) (set_job i (fail_row now ?n msg) t)" if R: "?R c t" for t
    proof -
      from R have inv: "queue_inv st F k t" by blast
      have "job_ok (count_list st i) (Suc (F i)) (Suc k) (fail_row now ?n msg q)" if "q \<in> set t" "jr_id q = i" for q
        using queue_inv_job [OF inv that(1)] n [OF R that] that(2) by (simp add: job_ok_def fail_row_def)
      with row [OF inv] show ?thesis
        unfolding set_job_def by (intro queue_inv_settled_map [OF inv]) (auto simp: settles_def fail_row_def job_active_def)
    qed
    have "ensures (?R c) (query (\<lambda>rows.
         if \<exists>r\<in>set rows. \<exists>q\<in>set rows. jr_id r = i \<and> jr_id q \<noteq> i \<and> same_job (retry_row now ?n msg r) q
         then (Err (UniqueViolation ''idx_jobs_idempotent_correlation''), rows)
         else (Ok (), set_job i (retry_row now ?n msg) rows))) (\<lambda>_. queue_inv st ?G (Suc k)) (queue_inv st ?G (Suc k))"
      if lt: "?n <s snd c"
    proof (rule ensures_query)
      fix t and x :: unit and t'
      assume R: "?R c t" and "(if \<exists>r\<in>set t. \<exists>q\<in>set t. jr_id r = i \<and> jr_id q \<noteq> i \<and> same_job (retry_row now ?n msg r) q
         then (Err (UniqueViolation ''idx_jobs_idempotent_correlation''), t)
         else (Ok (), set_job i (retry_row now ?n msg) t)) = (Ok x, t')"
      then have "\<not> (\<exists>r\<in>set t. \<exists>q\<in>set t. jr_id r = i \<and> jr_id q \<noteq> i \<and> same_job (retry_row now ?n msg r) q)"
        and t': "t' = set_job i (retry_row now ?n msg) t" by (simp_all only: prod.inject result.distinct result.simps split: if_splits) simp_all
      from retried [OF R lt this(1)] show "queue_inv st ?G (Suc k) t'" unfolding t' .
    qed (use later in blast)
    moreover have "ensures (?R c) (modify (set_job i (fail_row now ?n msg))) (\<lambda>_. queue_inv st ?G (Suc k))
        (queue_inv st ?G (Suc k))"
      using failed later by (intro ensures_modify) blast+
    ultimately show ?thesis unfolding write_failure_def Let_def by (intro ensures_if)
  qed
  show ?thesis
    unfolding fail_job_def
    by (rule ensures_bindq [OF ensures_weaken [OF read] writes]) (auto intro: later)
qed

section \<open>Histories keep the invariant\<close>

abbreviation with_op :: "(uuid \<Rightarrow> nat) \<Rightarrow> 'p queue_op \<Rightarrow> uuid \<Rightarrow> nat" where
  "with_op F x i \<equiv> (if may_retry i x then Suc (F i) else F i)"

lemma run_op_inv:
  assumes "int k < 2147483647"
  shows "ensures (queue_inv st F k) (run_op x) (\<lambda>m. queue_inv (handed_out (Ok m) @ st) (with_op F x) (Suc (Suc k)))
    (queue_inv st (with_op F x) (Suc (Suc k)))"
proof -
  have later: "queue_inv s (with_op F x) (Suc (Suc k)) t" if "queue_inv s F k t" for s t
    using that by (rule queue_inv_later) auto
  have quiet: ?thesis if run: "run_op x = bindq m (\<lambda>_. returnq None)"
    and m: "ensures (queue_inv st F k) m (\<lambda>_. queue_inv st F k) (queue_inv st F k)" for m :: "('a, 'b) jobs_sql"
    unfolding run
    by (rule ensures_weaken [OF ensures_bindq [OF m, where k = "\<lambda>_. returnq None" and Q = "\<lambda>r t. r = None \<and> queue_inv st F k t"]])
      (auto intro: ensures_returnq later simp: handed_out_def)
  show ?thesis
  proof (cases x)
    case (Enqueue i now kind p t)
    show ?thesis by (rule quiet) (simp add: Enqueue, rule enqueue_scheduled_inv)
  next
    case (EnqueueCorrelated i now kind p c)
    show ?thesis by (rule quiet) (simp add: EnqueueCorrelated, rule enqueue_with_correlation_inv)
  next
    case (EnqueueIdempotent i j now kind p c)
    show ?thesis by (rule quiet) (simp add: EnqueueIdempotent, rule enqueue_idempotent_inv)
  next
    case (Poll now)
    have "ensures (queue_inv st F k) (bindq (poll now) (\<lambda>j. returnq (map_option jb_id j)))
        (\<lambda>m. queue_inv (handed_out (Ok m) @ st) F k) (queue_inv st F k)"
      by (rule ensures_bindq [OF poll_inv], rule ensures_returnq) (auto simp: handed_out_def split: option.splits)
    then have "ensures (queue_inv st F k) (bindq (poll now) (\<lambda>j. returnq (map_option jb_id j)))
        (\<lambda>m. queue_inv (handed_out (Ok m) @ st) (with_op F x) (Suc (Suc k))) (queue_inv st (with_op F x) (Suc (Suc k)))"
      by (rule ensures_weaken) (rule later | assumption)+
    with Poll show ?thesis by simp
  next
    case (Complete now i)
    show ?thesis by (rule quiet) (simp add: Complete, rule complete_job_inv)
  next
    case (Cancel now i)
    show ?thesis by (rule quiet) (simp add: Cancel, rule cancel_job_inv)
  next
    case (Fail now i msg)
    have grow: "queue_inv st (\<lambda>j. if j = i then Suc (F j) else F j) (Suc k) t \<Longrightarrow> queue_inv st (with_op F x) (Suc (Suc k)) t" for t
      using Fail by (elim queue_inv_later) auto
    have "ensures (queue_inv st F k) (bindq (fail_job now i msg) (\<lambda>_. returnq None))
        (\<lambda>r t. r = None \<and> queue_inv st (\<lambda>j. if j = i then Suc (F j) else F j) (Suc k) t)
        (queue_inv st (\<lambda>j. if j = i then Suc (F j) else F j) (Suc k))"
      by (rule ensures_bindq [OF fail_job_inv [OF assms]], rule ensures_returnq) simp
    then have "ensures (queue_inv st F k) (bindq (fail_job now i msg) (\<lambda>_. returnq None))
        (\<lambda>m. queue_inv (handed_out (Ok m) @ st) (with_op F x) (Suc (Suc k))) (queue_inv st (with_op F x) (Suc (Suc k)))"
      by (rule ensures_weaken) (auto simp: handed_out_def intro: grow)
    with Fail show ?thesis by simp
  next
    case (Stale now)
    have "ensures (queue_inv st F k) (bindq (timeout_stale_jobs now) (\<lambda>_. returnq None))
        (\<lambda>r t. r = None \<and> queue_inv st (\<lambda>i. Suc (F i)) (Suc (Suc k)) t) (queue_inv st (\<lambda>i. Suc (F i)) (Suc (Suc k)))"
      by (rule ensures_bindq [OF timeout_stale_jobs_inv], rule ensures_returnq) simp
    then have "ensures (queue_inv st F k) (bindq (timeout_stale_jobs now) (\<lambda>_. returnq None))
        (\<lambda>m. queue_inv (handed_out (Ok m) @ st) (with_op F x) (Suc (Suc k))) (queue_inv st (with_op F x) (Suc (Suc k)))"
      by (rule ensures_weaken) (auto simp: handed_out_def Stale)
    with Stale show ?thesis by simp
  qed
qed

lemma run_ops_inv:
  assumes "queue_inv st F k (tables db)" and "k + 2 * length ops < 2147483647"
  shows "queue_inv (fst (run_ops ops st db)) (\<lambda>i. F i + retries_of i ops) (k + 2 * length ops)
    (tables (snd (run_ops ops st db)))"
  using assms
proof (induction ops arbitrary: st F k db)
  case (Cons x ops)
  obtain r db' where run: "run_op x db = (r, db')" by fastforce
  from Cons.prems(2) have k: "int k < 2147483647" by simp
  have "queue_inv (handed_out r @ st) (with_op F x) (Suc (Suc k)) (tables db')"
  proof (cases r)
    case (Ok m)
    with ensures_Ok [OF run_op_inv [OF k] _ Cons.prems(1)] run show ?thesis by blast
  next
    case (Err e)
    with ensures_Err [OF run_op_inv [OF k] _ Cons.prems(1)] run show ?thesis by (simp add: handed_out_def)
  qed
  from Cons.IH [OF this] Cons.prems(2) have "queue_inv (fst (run_ops ops (handed_out r @ st) db'))
      (\<lambda>i. with_op F x i + retries_of i ops) (Suc (Suc k) + 2 * length ops) (tables (snd (run_ops ops (handed_out r @ st) db')))"
    by simp
  moreover have "(\<lambda>i. with_op F x i + retries_of i ops) = (\<lambda>i. F i + retries_of i (x # ops))"
    by (auto simp: retries_of_def)
  ultimately show ?case by (simp add: run)
qed (simp add: retries_of_def)

lemma queue_inv_starts:
  assumes "queue_inv st F k rows"
  shows "count_list st i \<le> 3 \<and> count_list st i \<le> Suc (F i)"
proof (cases "i \<in> jr_id ` set rows")
  case True
  then obtain r where "r \<in> set rows" "i = jr_id r" by blast
  with queue_inv_job [OF assms] show ?thesis by (auto simp: job_ok_def)
next
  case False
  with queue_inv_absent [OF assms] show ?thesis by simp
qed

lemma queue_inv_empty: "queue_inv [] (\<lambda>_. 0) 0 []"
  by (simp add: queue_inv_def no_clash_def)


lemmas queue_run_simps = enqueue_scheduled_def enqueue_idempotent_def insert_job_def insert_job_or_nothing_def new_job_def
  same_job_def job_active_def poll_def due_jobs_def job_of_def start_job_def set_job_def complete_job_def modify_def
  fail_job_def read_retries_def write_failure_def retry_row_def fail_row_def select_def query_def bindq_def returnq_def
  of_result_def ok_or_def ignoreq_def timeout_stale_jobs_def reset_stale_jobs_def fail_stale_jobs_def update_stale_def
  stale_def retries_left_def handed_out_def word_sless_alt

definition sample_history :: "unit queue_op list" where
  "sample_history = [EnqueueIdempotent 7 8 0 ''import.parse'' () 1, EnqueueIdempotent 9 10 0 ''import.parse'' () 1,
    Poll 1, Fail 2 7 ''io'', Poll 3000000000, Complete 3000000001 7, Poll 3000000002]"


text \<open>
  The bound rests on a failure being one step.  \<open>fail\<close> reads the counts and writes them in two statements, and
  the write does not look at the row again: when the job times out and is handed to another worker in between,
  the retry that the sweep counted is lost, and the job is handed out a fourth time.
\<close>

definition fail_race :: "(unit, uuid option list) jobs_sql" where
  "fail_race =
    bindq (run_op (Enqueue 7 0 ''import.parse'' () 0)) (\<lambda>_.
    bindq (run_op (Poll 1)) (\<lambda>a.
    bindq (read_retries 7) (\<lambda>counts.
    bindq (run_op (Stale 300000000002)) (\<lambda>_.
    bindq (run_op (Poll 300000000003)) (\<lambda>b.
    bindq (write_failure 300000000004 7 ''execution time limit exceeded'' counts) (\<lambda>_.
    bindq (run_op (Poll 302000000004)) (\<lambda>c.
    bindq (run_op (Fail 302000000005 7 ''io'')) (\<lambda>_.
    bindq (run_op (Poll 306000000005)) (\<lambda>d. returnq [a, b, c, d])))))))))"

lemma fail_race_starts: "fst (fail_race \<lparr>tables = [], faults = []\<rparr>) = Ok [Some 7, Some 7, Some 7, Some 7]"
  by (simp add: fail_race_def queue_run_simps)

end
