(* ===== verification/Draft_Api.thy ===== *)
theory Draft_Api
  imports Draft_Persistence Api_Error
begin

text \<open>
  The route editing endpoints, \<open>crates/api/src/route_editing.rs\<close> and
  \<open>crates/api/src/route_editing_dto.rs\<close>: decoding of requests, the handlers over the
  repository and the gateways, and the mapping of domain errors to HTTP problems.  The state
  behind the repository and the gateways is threaded through a handler; \<open>Uuid::parse_str\<close> is
  the parameter \<open>parse_str\<close>.
\<close>

section \<open>Problem details\<close>

text \<open>
  A message is a literal, the message of a domain error, or one of the formatted texts of the
  domain error it reports.
\<close>

datatype api_message = Text string | OfMessage re_message | OfError route_editing_error
  | InvalidCoordinateText route_editing_error | InvalidKeyText string

type_synonym api_error = "api_message api_problem"

fun route_editing_error_to_api_error :: "route_editing_error \<Rightarrow> api_error" where
  "route_editing_error_to_api_error DraftNotFound =
    problem 404 ''NOT_FOUND'' (Text ''route draft not found'') ''/problems/not-found'' ''Not Found''"
| "route_editing_error_to_api_error (RevisionConflict e a) =
    problem 409 ''ROUTE_DRAFT_REVISION_CONFLICT'' (OfError (RevisionConflict e a))
      ''/problems/stale-route-draft'' ''Route draft revision is stale''"
| "route_editing_error_to_api_error route_editing_error.DraftNotActive =
    problem 409 ''DRAFT_NOT_ACTIVE'' (Text ''draft is not in active state'')
      ''/problems/draft-not-active'' ''Draft Not Active''"
| "route_editing_error_to_api_error (InvalidOperation m) =
    problem 422 ''INVALID_OPERATION'' (OfMessage m) ''/problems/invalid-operation''
      ''Invalid Operation''"
| "route_editing_error_to_api_error (OperationFailed m) =
    problem 422 ''OPERATION_FAILED'' (OfMessage m) ''/problems/operation-failed''
      ''Operation Failed''"
| "route_editing_error_to_api_error (InsufficientPoints m a) =
    problem 422 ''INSUFFICIENT_POINTS'' (OfError (InsufficientPoints m a))
      ''/problems/insufficient-points'' ''Insufficient Points''"
| "route_editing_error_to_api_error (InvalidSegmentIndex i c) =
    problem 422 ''INVALID_SEGMENT_INDEX'' (OfError (InvalidSegmentIndex i c))
      ''/problems/invalid-segment-index'' ''Invalid Segment Index''"
| "route_editing_error_to_api_error (InvalidPointIndex i c) =
    problem 422 ''INVALID_POINT_INDEX'' (OfError (InvalidPointIndex i c))
      ''/problems/invalid-point-index'' ''Invalid Point Index''"
| "route_editing_error_to_api_error NothingToUndo =
    problem 422 ''NOTHING_TO_UNDO'' (Text ''nothing to undo'') ''/problems/nothing-to-undo''
      ''Nothing To Undo''"
| "route_editing_error_to_api_error NothingToRedo =
    problem 422 ''NOTHING_TO_REDO'' (Text ''nothing to redo'') ''/problems/nothing-to-redo''
      ''Nothing To Redo''"
| "route_editing_error_to_api_error (InvalidCoordinate m) =
    problem 422 ''INVALID_COORDINATE'' (OfMessage m) ''/problems/invalid-coordinate''
      ''Invalid Coordinate''"
| "route_editing_error_to_api_error ActivityNotFound =
    problem 404 ''NOT_FOUND'' (Text ''activity not found'') ''/problems/not-found'' ''Not Found''"
| "route_editing_error_to_api_error ActivityDeleted =
    problem 422 ''ACTIVITY_DELETED'' (Text ''activity is deleted'') ''/problems/activity-deleted''
      ''Activity Deleted''"
| "route_editing_error_to_api_error InvalidBaseRouteVersion =
    problem 422 ''INVALID_BASE_ROUTE_VERSION'' (Text ''invalid base route version'')
      ''/problems/invalid-base-route-version'' ''Invalid Base Route Version''"
| "route_editing_error_to_api_error (ReplacementTooLarge m a) =
    problem 422 ''REPLACEMENT_TOO_LARGE'' (OfError (ReplacementTooLarge m a))
      ''/problems/replacement-too-large'' ''Replacement Too Large''"
| "route_editing_error_to_api_error (EndpointContinuityViolation p e a) =
    problem 422 ''ENDPOINT_CONTINUITY_VIOLATION'' (OfError (EndpointContinuityViolation p e a))
      ''/problems/endpoint-continuity-violation'' ''Endpoint Continuity Violation''"

definition ownership_not_found_error :: api_error where
  "ownership_not_found_error =
    problem 404 ''NOT_FOUND'' (Text ''route draft not found'') ''/problems/not-found'' ''Not Found''"

text \<open>
  The header value as \<open>HeaderValue::to_str\<close> gives it: \<open>None\<close> when the header is absent or not
  visible ASCII.  In such a value the white space that \<open>trim\<close> removes is blanks and tabs.
\<close>

definition missing_idempotency_key :: "string \<Rightarrow> api_error" where
  "missing_idempotency_key msg =
    problem 400 ''MISSING_IDEMPOTENCY_KEY'' (Text msg) ''/problems/missing-idempotency-key''
      ''Missing Idempotency Key''"

definition extract_idempotency_key :: "string option \<Rightarrow> (string, api_error) result" where
  "extract_idempotency_key header =
    (case header of
       None \<Rightarrow> Err (missing_idempotency_key ''Idempotency-Key header is required'')
     | Some key \<Rightarrow>
         if \<forall>c\<in>set key. c = CHR '' '' \<or> c = CHR 0x09
         then Err (missing_idempotency_key ''Idempotency-Key header must not be empty'')
         else Ok key)"

definition extract_uuid_idempotency_key ::
  "(string \<Rightarrow> uuid option) \<Rightarrow> string option \<Rightarrow> (string, api_error) result" where
  "extract_uuid_idempotency_key parse_str header =
    and_then (extract_idempotency_key header) (\<lambda>key.
      if parse_str key = None
      then Err (problem 400 ''INVALID_IDEMPOTENCY_KEY'' (Text ''Idempotency-Key must be a valid UUID'')
              ''/problems/invalid-idempotency-key'' ''Invalid Idempotency Key'')
      else Ok key)"

section \<open>Data transfer objects\<close>

record route_point_dto =
  dto_latitude :: f64
  dto_longitude :: f64
  dto_elevation :: "f64 option"

record position_dto =
  pos_latitude :: f64
  pos_longitude :: f64

datatype operation_dto =
    MovePointDto nat nat position_dto
  | AddPointDto nat nat route_point_dto
  | DeletePointDto nat nat
  | DeleteSectionDto nat nat nat
  | ReplaceSectionDto nat nat nat "route_point_dto list"
  | SplitSegmentDto nat nat
  | JoinSegmentsDto nat nat

record create_route_draft_request =
  cr_geometry :: "route_point_dto list list"
  cr_base_route_version_id :: "uuid option"

record apply_operation_request =
  ar_operation :: operation_dto
  ar_expected_revision :: u64

definition point_to_domain :: "route_point_dto \<Rightarrow> (route_point, api_message) result" where
  "point_to_domain p =
    and_then (map_err InvalidCoordinateText (coordinate_new (dto_latitude p) (dto_longitude p)))
      (\<lambda>c. Ok \<lparr>coordinate = c, rp_elevation = map_option Elevation (dto_elevation p)\<rparr>)"

definition point_from_domain :: "route_point \<Rightarrow> route_point_dto" where
  "point_from_domain p =
    \<lparr>dto_latitude = latitude (coordinate p), dto_longitude = longitude (coordinate p),
     dto_elevation = map_option meters (rp_elevation p)\<rparr>"

definition geometry_to_domain :: "route_point_dto list list \<Rightarrow> (geometry, api_message) result" where
  "geometry_to_domain dto = collect (collect point_to_domain) dto"

definition geometry_to_dto :: "geometry \<Rightarrow> route_point_dto list list" where
  "geometry_to_dto g = map (map point_from_domain) g"

fun operation_to_domain :: "operation_dto \<Rightarrow> (route_operation, api_message) result" where
  "operation_to_domain (MovePointDto s p pos) =
    and_then (map_err OfError (coordinate_new (pos_latitude pos) (pos_longitude pos))) (\<lambda>c.
      Ok (MovePoint (SegmentIndex s) (PointIndex p) c))"
| "operation_to_domain (AddPointDto s p pt) =
    and_then (point_to_domain pt) (\<lambda>dp. Ok (AddPoint (SegmentIndex s) (PointIndex p) dp))"
| "operation_to_domain (DeletePointDto s p) = Ok (DeletePoint (SegmentIndex s) (PointIndex p))"
| "operation_to_domain (DeleteSectionDto s a b) =
    Ok (DeleteSection (SegmentIndex s) (PointIndex a) (PointIndex b))"
| "operation_to_domain (ReplaceSectionDto s a b r) =
    and_then (collect point_to_domain r) (\<lambda>ps.
      Ok (ReplaceSection (SegmentIndex s) (PointIndex a) (PointIndex b) ps))"
| "operation_to_domain (SplitSegmentDto s p) = Ok (SplitSegment (SegmentIndex s) (PointIndex p))"
| "operation_to_domain (JoinSegmentsDto s1 s2) =
    Ok (JoinSegments (SegmentIndex s1) (SegmentIndex s2))"

text \<open>The derived \<open>PartialEq\<close> of \<open>RouteOperation\<close>.\<close>

fun operation_eq :: "route_operation \<Rightarrow> route_operation \<Rightarrow> bool" where
  "operation_eq (MovePoint s p c) (MovePoint s' p' c') = (s = s' \<and> p = p' \<and> coordinate_eq c c')"
| "operation_eq (AddPoint s p c) (AddPoint s' p' c') = (s = s' \<and> p = p' \<and> route_point_eq c c')"
| "operation_eq (DeletePoint s p) (DeletePoint s' p') = (s = s' \<and> p = p')"
| "operation_eq (DeleteSection s a b) (DeleteSection s' a' b') = (s = s' \<and> a = a' \<and> b = b')"
| "operation_eq (ReplaceSection s a b r) (ReplaceSection s' a' b' r') =
    (s = s' \<and> a = a' \<and> b = b' \<and> list_all2 route_point_eq r r')"
| "operation_eq (SplitSegment s p) (SplitSegment s' p') = (s = s' \<and> p = p')"
| "operation_eq (JoinSegments s p) (JoinSegments s' p') = (s = s' \<and> p = p')"
| "operation_eq _ _ = False"

record route_draft_response =
  rr_id :: uuid
  rr_activity_id :: uuid
  rr_base_route_version_id :: "uuid option"
  rr_revision :: u64
  rr_state :: string
  rr_geometry :: "route_point_dto list list"
  rr_can_undo :: bool
  rr_can_redo :: bool
  rr_created_at :: time
  rr_updated_at :: time

record operation_result_response =
  res_draft_id :: uuid
  res_revision :: u64
  can_undo :: bool
  can_redo :: bool

definition draft_to_response :: "route_draft \<Rightarrow> route_draft_response" where
  "draft_to_response d =
    \<lparr>rr_id = draft_uuid (d_id d), rr_activity_id = activity_uuid (d_activity_id d),
     rr_base_route_version_id = base_route_version_id d, rr_revision = revision d,
     rr_state = (case d_state d of Active \<Rightarrow> ''active'' | Published \<Rightarrow> ''published''
                 | Discarded \<Rightarrow> ''discarded''),
     rr_geometry = geometry_to_dto (geometry d),
     rr_can_undo = (applied_operations d \<noteq> []), rr_can_redo = (undone_operations d \<noteq> []),
     rr_created_at = d_created_at d, rr_updated_at = d_updated_at d\<rparr>"

definition operation_result :: "route_draft \<Rightarrow> operation_result_response" where
  "operation_result d =
    \<lparr>res_draft_id = draft_uuid (d_id d), res_revision = revision d,
     can_undo = (applied_operations d \<noteq> []), can_redo = (undone_operations d \<noteq> [])\<rparr>"

definition parse_idempotency_key ::
  "(string \<Rightarrow> uuid option) \<Rightarrow> string \<Rightarrow> (operation_id, api_message) result" where
  "parse_idempotency_key parse_str key =
    map_err InvalidKeyText (ok_or key (map_option OperationId (parse_str key)))"

section \<open>Handlers\<close>

record 's route_editing_app_state =
  drafts_repo :: "'s draft_repository"
  activity_gateway :: "'s activity_gateway"
  route_version_gateway :: "'s route_version_gateway"

abbreviation api_step :: "('s, 'a, route_editing_error) step \<Rightarrow> ('s, 'a, api_error) step" where
  "api_step m \<equiv> map_errq route_editing_error_to_api_error m"

text \<open>The prefix the handlers share: load the draft, answer 404 when it is missing or foreign.\<close>

definition load_draft ::
  "'s draft_repository \<Rightarrow> route_draft_id \<Rightarrow> ('s, route_draft, api_error) step" where
  "load_draft R i =
    bindq (api_step (repo_find_by_id R i)) (\<lambda>found.
      of_result (ok_or (route_editing_error_to_api_error DraftNotFound) found))"

definition load_owned_draft ::
  "'s draft_repository \<Rightarrow> user_id \<Rightarrow> uuid \<Rightarrow> ('s, route_draft, api_error) step" where
  "load_owned_draft R actor draft_id =
    bindq (load_draft R (RouteDraftId draft_id)) (\<lambda>d.
      if d_owner_id d \<noteq> actor then failq ownership_not_found_error else returnq d)"

text \<open>A call of a draft method with its error mapped; the local draft is discarded on failure.\<close>

definition draft_call :: "draft_cmd \<Rightarrow> ('s, route_draft, api_error) step" where
  "draft_call c = of_result (case c of
      (Ok _, d) \<Rightarrow> Ok d | (Err e, _) \<Rightarrow> Err (route_editing_error_to_api_error e))"

definition store_draft ::
  "'s draft_repository \<Rightarrow> route_draft \<Rightarrow> ('s, operation_result_response, api_error) step" where
  "store_draft R d = bindq (api_step (repo_update R d)) (\<lambda>_. returnq (operation_result d))"

definition validation_failed :: "api_message \<Rightarrow> api_error" where
  "validation_failed msg =
    problem 422 ''VALIDATION_FAILED'' msg ''/problems/validation-failed'' ''Validation Failed''"

definition post_create_draft ::
  "'s route_editing_app_state \<Rightarrow> route_draft_id \<Rightarrow> time \<Rightarrow> user_id \<Rightarrow> uuid \<Rightarrow> string option \<Rightarrow>
    create_route_draft_request \<Rightarrow> ('s, route_draft_response, api_error) step" where
  "post_create_draft st new_id now actor activity headers body =
    bindq (of_result (extract_idempotency_key headers)) (\<lambda>_.
    bindq (of_result (map_err validation_failed (geometry_to_domain (cr_geometry body)))) (\<lambda>g.
    bindq (api_step (repo_find_active (drafts_repo st) (ActivityId activity) actor)) (\<lambda>existing.
      case existing of
        Some d \<Rightarrow>
          if cr_base_route_version_id body \<noteq> None \<and>
             cr_base_route_version_id body \<noteq> base_route_version_id d
          then failq (problem 409 ''IDEMPOTENCY_CONFLICT''
                 (Text ''existing draft has a different baseRouteVersionId'')
                 ''/problems/idempotency-conflict'' ''Idempotency Conflict'')
          else returnq (draft_to_response d)
      | None \<Rightarrow>
          bindq (api_step (validate_activity_for_draft (activity_gateway st)
                  (ActivityId activity) actor)) (\<lambda>_.
          bindq (case cr_base_route_version_id body of
                   Some v \<Rightarrow> api_step (validate_route_version_exists (route_version_gateway st) v
                               (ActivityId activity))
                 | None \<Rightarrow> returnq ()) (\<lambda>_.
          bindq (of_result (map_err route_editing_error_to_api_error
                  (create_from_geometry new_id now actor (ActivityId activity)
                    (cr_base_route_version_id body) g))) (\<lambda>d.
          bindq (api_step (repo_save (drafts_repo st) d)) (\<lambda>_.
            returnq (draft_to_response d))))))))"

definition get_draft ::
  "'s route_editing_app_state \<Rightarrow> user_id \<Rightarrow> uuid \<Rightarrow> ('s, route_draft_response, api_error) step" where
  "get_draft st actor draft_id =
    bindq (load_owned_draft (drafts_repo st) actor draft_id) (\<lambda>d. returnq (draft_to_response d))"

text \<open>
  The replay branch of \<open>post_apply_operation\<close>: the operation id is known to the repository.
\<close>

definition replay_operation ::
  "operation_id \<Rightarrow> operation_dto \<Rightarrow> route_draft \<Rightarrow>
    (operation_result_response, api_error) result" where
  "replay_operation oid dto d =
    (case find (\<lambda>e. oe_id e = oid) (applied_operations d) of
       Some entry \<Rightarrow>
         and_then (map_err (\<lambda>msg. \<lparr>ae_status = 422, ae_code = ''INVALID_OPERATION'',
             ae_message = msg, problem_type = None, ae_title = None, ae_request_id = None\<rparr>) (operation_to_domain dto))
           (\<lambda>incoming.
             if \<not> operation_eq (oe_operation entry) incoming
             then Err (problem 409 ''IDEMPOTENCY_PAYLOAD_MISMATCH''
                    (Text ''idempotency key reused with a different operation payload'')
                    ''/problems/idempotency-conflict'' ''Idempotency conflict'')
             else Ok \<lparr>res_draft_id = draft_uuid (d_id d),
                res_revision = of_nat (length (takeWhile (\<lambda>e. oe_id e \<noteq> oid)
                  (applied_operations d))) + 1,
                can_undo = True, can_redo = False\<rparr>)
     | None \<Rightarrow> Ok (operation_result d))"

definition post_apply_operation ::
  "(string \<Rightarrow> uuid option) \<Rightarrow> 's route_editing_app_state \<Rightarrow> time \<Rightarrow> user_id \<Rightarrow> uuid \<Rightarrow>
    string option \<Rightarrow> apply_operation_request \<Rightarrow>
    ('s, operation_result_response, api_error) step" where
  "post_apply_operation parse_str st now actor draft_id headers body =
    bindq (of_result (extract_idempotency_key headers)) (\<lambda>key.
    bindq (of_result (map_err (\<lambda>msg. problem 400 ''INVALID_IDEMPOTENCY_KEY'' msg
             ''/problems/invalid-idempotency-key'' ''Invalid Idempotency Key'')
             (parse_idempotency_key parse_str key))) (\<lambda>oid.
    bindq (api_step (repo_find_by_operation_id (drafts_repo st) oid)) (\<lambda>existing.
      case existing of
        Some existing_id \<Rightarrow>
          bindq (load_draft (drafts_repo st) existing_id) (\<lambda>d.
            of_result (replay_operation oid (ar_operation body) d))
      | None \<Rightarrow>
          bindq (load_owned_draft (drafts_repo st) actor draft_id) (\<lambda>d.
          bindq (of_result (map_err (\<lambda>msg. problem 422 ''INVALID_OPERATION'' msg
                   ''/problems/invalid-operation'' ''Invalid Operation'')
                   (operation_to_domain (ar_operation body)))) (\<lambda>operation.
          bindq (draft_call (apply_operation now d oid operation (ar_expected_revision body)))
            (\<lambda>d'. store_draft (drafts_repo st) d'))))))"

definition post_undo ::
  "'s route_editing_app_state \<Rightarrow> time \<Rightarrow> user_id \<Rightarrow> uuid \<Rightarrow> string option \<Rightarrow> u64 \<Rightarrow>
    ('s, operation_result_response, api_error) step" where
  "post_undo st now actor draft_id headers expected =
    bindq (of_result (extract_idempotency_key headers)) (\<lambda>_.
    bindq (load_owned_draft (drafts_repo st) actor draft_id) (\<lambda>d.
    bindq (draft_call (undo now d expected)) (\<lambda>d'. store_draft (drafts_repo st) d')))"

definition post_redo ::
  "'s route_editing_app_state \<Rightarrow> time \<Rightarrow> user_id \<Rightarrow> uuid \<Rightarrow> string option \<Rightarrow> u64 \<Rightarrow>
    ('s, operation_result_response, api_error) step" where
  "post_redo st now actor draft_id headers expected =
    bindq (of_result (extract_idempotency_key headers)) (\<lambda>_.
    bindq (load_owned_draft (drafts_repo st) actor draft_id) (\<lambda>d.
    bindq (draft_call (redo now d expected)) (\<lambda>d'. store_draft (drafts_repo st) d')))"

definition post_reset ::
  "'s route_editing_app_state \<Rightarrow> time \<Rightarrow> user_id \<Rightarrow> uuid \<Rightarrow> string option \<Rightarrow> u64 \<Rightarrow>
    ('s, operation_result_response, api_error) step" where
  "post_reset st now actor draft_id headers expected =
    bindq (of_result (extract_idempotency_key headers)) (\<lambda>_.
    bindq (load_owned_draft (drafts_repo st) actor draft_id) (\<lambda>d.
    bindq (of_result (ok_or (problem 422 ''NO_BASE_ROUTE_VERSION''
             (Text ''draft has no base route version to reset to'')
             ''/problems/no-base-route-version'' ''No Base Route Version'')
             (base_route_version_id d))) (\<lambda>v.
    bindq (api_step (get_route_version_geometry (route_version_gateway st) v (d_activity_id d)))
      (\<lambda>base.
    bindq (draft_call (reset now d expected base)) (\<lambda>d'. store_draft (drafts_repo st) d')))))"

definition delete_draft ::
  "'s route_editing_app_state \<Rightarrow> time \<Rightarrow> user_id \<Rightarrow> uuid \<Rightarrow> ('s, unit, api_error) step" where
  "delete_draft st now actor draft_id =
    bindq (load_owned_draft (drafts_repo st) actor draft_id) (\<lambda>d.
    bindq (draft_call (discard now d)) (\<lambda>d'. api_step (repo_update (drafts_repo st) d')))"

text \<open>The validation endpoint: preconditions become 4xx answers, geometry errors a report.\<close>

datatype validation_detail = Detail string | ErrorDetail publication_validation_error

record validation_error_dto =
  ve_code :: string
  ve_detail :: validation_detail

record validation_result_response =
  valid :: bool
  ve_errors :: "validation_error_dto list"

fun validation_dto :: "publication_validation_error \<Rightarrow> validation_error_dto" where
  "validation_dto NoSegments =
    \<lparr>ve_code = ''NO_SEGMENTS'', ve_detail = Detail ''geometry must contain at least 1 segment''\<rparr>"
| "validation_dto (InsufficientPointsInSegment s m a) =
    \<lparr>ve_code = ''INSUFFICIENT_POINTS_IN_SEGMENT'',
     ve_detail = ErrorDetail (InsufficientPointsInSegment s m a)\<rparr>"
| "validation_dto (InvalidCoordinateInSegment s p m) =
    \<lparr>ve_code = ''INVALID_COORDINATE_IN_SEGMENT'',
     ve_detail = ErrorDetail (InvalidCoordinateInSegment s p m)\<rparr>"
| "validation_dto NoBaseVersion =
    \<lparr>ve_code = ''NO_BASE_VERSION'', ve_detail = Detail ''draft has no base route version''\<rparr>"
| "validation_dto _ =
    \<lparr>ve_code = ''PRECONDITION_FAILED'', ve_detail = Detail ''unexpected precondition error''\<rparr>"

fun precondition_problem :: "publication_validation_error \<Rightarrow> api_error option" where
  "precondition_problem NotOwner = Some ownership_not_found_error"
| "precondition_problem DraftNotActive =
    Some (problem 409 ''DRAFT_NOT_ACTIVE'' (Text ''draft is not in active state'')
      ''/problems/draft-not-active'' ''Draft Not Active'')"
| "precondition_problem (RevisionMismatch e a) =
    Some (problem 409 ''ROUTE_DRAFT_REVISION_CONFLICT'' (OfError (RevisionConflict e a))
      ''/problems/stale-route-draft'' ''Route draft revision is stale'')"
| "precondition_problem _ = None"

definition post_validate_draft ::
  "'s route_editing_app_state \<Rightarrow> user_id \<Rightarrow> uuid \<Rightarrow> u64 \<Rightarrow>
    ('s, validation_result_response, api_error) step" where
  "post_validate_draft st actor draft_id expected =
    bindq (load_draft (drafts_repo st) (RouteDraftId draft_id)) (\<lambda>d.
      case validate_for_publication d expected actor of
        Ok _ \<Rightarrow> returnq \<lparr>valid = True, ve_errors = []\<rparr>
      | Err errors \<Rightarrow>
          (case List.map_filter precondition_problem errors of
             e # _ \<Rightarrow> failq e
           | [] \<Rightarrow> returnq \<lparr>valid = False, ve_errors = map validation_dto errors\<rparr>))"

section \<open>Requests\<close>

text \<open>A request of an authenticated user, and its answer without the body.\<close>

datatype draft_request =
    CreateDraft route_draft_id time uuid "string option" create_route_draft_request
  | GetDraft uuid
  | ApplyOperation time uuid "string option" apply_operation_request
  | Undo time uuid "string option" u64
  | Redo time uuid "string option" u64
  | Reset time uuid "string option" u64
  | DeleteDraft time uuid
  | ValidateDraft uuid u64

definition no_body :: "('s, 'a, 'e) step \<Rightarrow> ('s, unit, 'e) step" where
  "no_body m = bindq m (\<lambda>_. returnq ())"

fun handle ::
  "(string \<Rightarrow> uuid option) \<Rightarrow> 's route_editing_app_state \<Rightarrow> user_id \<Rightarrow> draft_request \<Rightarrow>
    ('s, unit, api_error) step" where
  "handle ps st u (CreateDraft i now a h b) = no_body (post_create_draft st i now u a h b)"
| "handle ps st u (GetDraft i) = no_body (get_draft st u i)"
| "handle ps st u (ApplyOperation now i h b) = no_body (post_apply_operation ps st now u i h b)"
| "handle ps st u (Undo now i h e) = no_body (post_undo st now u i h e)"
| "handle ps st u (Redo now i h e) = no_body (post_redo st now u i h e)"
| "handle ps st u (Reset now i h e) = no_body (post_reset st now u i h e)"
| "handle ps st u (DeleteDraft now i) = delete_draft st now u i"
| "handle ps st u (ValidateDraft i e) = no_body (post_validate_draft st u i e)"

fun handle_all ::
  "(string \<Rightarrow> uuid option) \<Rightarrow> 's route_editing_app_state \<Rightarrow> (user_id \<times> draft_request) list \<Rightarrow>
    's \<Rightarrow> 's" where
  "handle_all ps st [] s = s"
| "handle_all ps st ((u, q) # qs) s = handle_all ps st qs (snd (handle ps st u q s))"

section \<open>What the handlers guarantee over any store\<close>

text \<open>A change of the stored drafts by user \<open>u\<close>: none, or of one draft that is new or owned by \<open>u\<close>.\<close>

definition own_change ::
  "user_id \<Rightarrow> (route_draft_id \<Rightarrow> draft_head option) \<Rightarrow> (route_draft_id \<Rightarrow> draft_head option) \<Rightarrow> bool" where
  "own_change u v v' \<longleftrightarrow>
    v' = v \<or> (\<exists>i h'. (\<forall>h. v i = Some h \<longrightarrow> h_owner h = u) \<and> h_owner h' = u \<and> v' = v(i \<mapsto> h'))"

lemma own_change_refl [simp]: "own_change u v v"
  by (simp add: own_change_def)

lemma own_change_upd:
  "(\<And>h. v i = Some h \<Longrightarrow> h_owner h = u) \<Longrightarrow> h_owner h' = u \<Longrightarrow> own_change u v (v(i \<mapsto> h'))"
  unfolding own_change_def by blast

lemma own_change_other: "own_change u v v' \<Longrightarrow> v i = Some h \<Longrightarrow> h_owner h \<noteq> u \<Longrightarrow> v' i = Some h"
  by (auto simp: own_change_def)

locale draft_service = draft_store R inv view canon
  for R :: "'s draft_repository" and inv :: "'s \<Rightarrow> bool"
    and view :: "'s \<Rightarrow> route_draft_id \<Rightarrow> draft_head option" and canon :: "geometry \<Rightarrow> geometry" +
  fixes st :: "'s route_editing_app_state"
  assumes st_repo: "drafts_repo st = R"
    and activity_keeps: "validate_activity_for_draft (activity_gateway st) a u s = (r, s') \<Longrightarrow>
      inv s \<Longrightarrow> inv s' \<and> view s' = view s"
    and version_keeps: "validate_route_version_exists (route_version_gateway st) v a s = (r, s') \<Longrightarrow>
      inv s \<Longrightarrow> inv s' \<and> view s' = view s"
    and geometry_keeps: "get_route_version_geometry (route_version_gateway st) v a s = (q, s') \<Longrightarrow>
      inv s \<Longrightarrow> inv s' \<and> view s' = view s"
begin

definition own_step :: "user_id \<Rightarrow> ('s, 'a, 'e) step \<Rightarrow> bool" where
  "own_step u m \<longleftrightarrow>
    (\<forall>s r s'. m s = (r, s') \<longrightarrow> inv s \<longrightarrow> inv s' \<and> own_change u (view s) (view s'))"

definition read_step :: "('s, 'a, 'e) step \<Rightarrow> bool" where
  "read_step m \<longleftrightarrow> (\<forall>s r s'. m s = (r, s') \<longrightarrow> inv s \<longrightarrow> inv s' \<and> view s' = view s)"

lemma read_stepD: "read_step m \<Longrightarrow> m s = (r, s') \<Longrightarrow> inv s \<Longrightarrow> inv s' \<and> view s' = view s"
  by (auto simp: read_step_def)

lemma read_own: "read_step m \<Longrightarrow> own_step u m"
  by (auto simp: read_step_def own_step_def)

lemma read_of_result [intro]: "read_step (of_result x)"
  by (simp add: read_step_def)

lemma read_returnq [intro]: "read_step (returnq x)"
  by (simp add: read_step_def)

lemma read_failq [intro]: "read_step (failq x)"
  by (simp add: read_step_def)

lemma read_map_errq [intro]: "read_step m \<Longrightarrow> read_step (map_errq f m)"
  unfolding read_step_def map_errq_def by (auto split: prod.splits)

lemma read_bindq [intro]: "read_step m \<Longrightarrow> (\<And>x. read_step (k x)) \<Longrightarrow> read_step (bindq m k)"
  unfolding read_step_def bindq_def by (auto split: prod.splits result.splits)

lemma read_if [intro]: "read_step m \<Longrightarrow> read_step n \<Longrightarrow> read_step (if b then m else n)"
  by simp

lemma read_option [intro]:
  "read_step n \<Longrightarrow> (\<And>x. read_step (k x)) \<Longrightarrow> read_step (case y of None \<Rightarrow> n | Some x \<Rightarrow> k x)"
  by (cases y) auto

lemma read_repo [intro]:
  "read_step (repo_find_by_id R i)" "read_step (repo_find_active R a u)"
  "read_step (repo_find_by_operation_id R j)"
  using find_inv find_active_inv find_op_inv by (auto simp: read_step_def)

lemma own_map_errq: "own_step u m \<Longrightarrow> own_step u (map_errq f m)"
  unfolding own_step_def map_errq_def by (auto split: prod.splits)

lemma own_after_read:
  assumes "read_step m" and "\<And>x. own_step u (k x)"
  shows "own_step u (bindq m k)"
  unfolding own_step_def
proof (intro allI impI)
  fix s r s'
  assume run: "bindq m k s = (r, s')" and inv: "inv s"
  obtain q s1 where m: "m s = (q, s1)" by fastforce
  from read_stepD [OF assms(1) m inv] have s1: "inv s1" "view s1 = view s" by auto
  show "inv s' \<and> own_change u (view s) (view s')"
  proof (cases q)
    case (Ok x)
    with run m have "k x s1 = (r, s')" by (simp add: bindq_def)
    with assms(2) [of x] s1 show ?thesis unfolding own_step_def by metis
  next
    case (Err e)
    with run m s1 show ?thesis by (simp add: bindq_def)
  qed
qed

lemma own_option:
  "own_step u n \<Longrightarrow> (\<And>x. own_step u (k x)) \<Longrightarrow> own_step u (case y of None \<Rightarrow> n | Some x \<Rightarrow> k x)"
  by (cases y) auto

lemma own_no_body: "own_step u m \<Longrightarrow> own_step u (no_body m)"
  unfolding own_step_def no_body_def bindq_def by (auto split: prod.splits result.splits)

lemma load_read: "read_step (load_draft R i)" "read_step (load_owned_draft R u j)"
  unfolding load_owned_draft_def load_draft_def by blast+

lemma load_owned_Ok:
  assumes "load_owned_draft R u i s = (Ok d, s1)" and "inv s"
  shows "inv s1 \<and> view s1 = view s \<and> d_id d = RouteDraftId i \<and> d_owner_id d = u \<and>
    view s (RouteDraftId i) = Some (head_of d)"
proof -
  from assms(1) have "repo_find_by_id R (RouteDraftId i) s = (Ok (Some d), s1)" and "d_owner_id d = u"
    by (auto simp: load_owned_draft_def load_draft_def bindq_Ok map_errq_Ok result_simps
        split: if_splits)
  with find_Some find_inv assms(2) show ?thesis by blast
qed

text \<open>The common end of the editing handlers: store what the command made of the loaded draft.\<close>

lemma store_Ok:
  assumes "inv s" and "view s (d_id d) = Some (head_of d)" and "d_id d' = d_id d"
    and "store_draft R d' s = (Ok resp, s')"
  shows "revision d' = revision d + 1 \<and> res_revision resp = revision d + 1 \<and>
    view s' = (view s)(d_id d \<mapsto> (head_of d)\<lparr>h_revision := revision d + 1,
      h_geometry := canon (geometry d'), h_state := d_state d'\<rparr>)"
proof -
  from assms(4) have upd: "repo_update R d' s = (Ok (), s')" and resp: "resp = operation_result d'"
    by (auto simp: store_draft_def bindq_Ok map_errq_Ok)
  from update_Ok [OF upd assms(1)] assms(2,3) have rev: "revision d = revision d' - 1"
    and view: "view s' = (view s)(d_id d \<mapsto> (head_of d)\<lparr>h_revision := revision d',
      h_geometry := canon (geometry d'), h_state := d_state d'\<rparr>)" by auto
  from rev have "revision d' = revision d + 1" by simp
  with view resp show ?thesis by (simp add: operation_result_def)
qed

lemma own_update:
  assumes "inv s" and "view s (d_id d) = Some (head_of d)" and "d_id d' = d_id d"
    and "d_owner_id d = u" and "repo_update R d' s = (r, s')"
  shows "inv s' \<and> own_change u (view s) (view s')"
proof (cases r)
  case (Ok x)
  with assms update_Ok [of d' s s'] update_inv [of d' s r s'] show ?thesis
    by (auto intro!: own_change_upd)
next
  case (Err e)
  with assms update_Err [of d' s e s'] update_inv [of d' s r s'] show ?thesis by simp
qed

lemma own_store:
  assumes "inv s" and "view s (d_id d) = Some (head_of d)" and "d_id d' = d_id d"
    and "d_owner_id d = u" and "store_draft R d' s = (r, s')"
  shows "inv s' \<and> own_change u (view s) (view s')"
proof -
  from assms(5) obtain r' where "repo_update R d' s = (r', s')"
    by (auto simp: store_draft_def bindq_def map_errq_def split: prod.splits result.splits)
  from own_update [OF assms(1-4) this] show ?thesis .
qed

text \<open>
  A command on a loaded draft keeps its id; when it succeeds, the draft was active and at the
  expected revision.
\<close>

definition edits :: "u64 \<Rightarrow> draft_cmd \<Rightarrow> route_draft \<Rightarrow> bool" where
  "edits e c d \<longleftrightarrow> (\<forall>d'. c = (Ok (), d') \<longrightarrow>
     d_id d' = d_id d \<and> d_state d = Active \<and> d_state d' = Active \<and> e = revision d)"

lemma edits_commands:
  "edits e (apply_operation now d i p e) d" "edits e (undo now d e) d" "edits e (redo now d e) d"
  "edits e (reset now d e b) d"
  by (auto simp: edits_def command_Ok record_operation_def split: if_splits)

lemma edit_step_Ok:
  assumes "bindq (draft_call c) (\<lambda>d'. store_draft R d') s1 = (Ok resp, s')"
    and "inv s1" and "view s1 (d_id d) = Some (head_of d)" and "edits e c d"
  shows "\<exists>g. d_state d = Active \<and> revision d = e \<and> res_revision resp = e + 1 \<and>
    view s' = (view s1)(d_id d \<mapsto> (head_of d)\<lparr>h_revision := e + 1, h_geometry := g\<rparr>)"
proof -
  from assms(1) obtain d' where d': "c = (Ok (), d')" "store_draft R d' s1 = (Ok resp, s')"
    by (auto simp: bindq_Ok draft_call_def split: prod.splits result.splits)
  from assms(4) d'(1) have "d_id d' = d_id d" and st: "d_state d = Active" "d_state d' = Active"
    "e = revision d" by (auto simp: edits_def)
  from store_Ok [OF assms(2,3) this(1) d'(2)] st show ?thesis
    by (auto intro!: exI [of _ "canon (geometry d')"] simp: head_of_def)
qed

lemma edit_step_own:
  assumes "bindq (draft_call c) (\<lambda>d'. store_draft R d') s1 = (r, s')"
    and "inv s1" and "view s1 (d_id d) = Some (head_of d)" and "d_owner_id d = u" and "edits e c d"
  shows "inv s' \<and> own_change u (view s1) (view s')"
proof (cases "\<exists>d'. c = (Ok (), d')")
  case True
  then obtain d' where c: "c = (Ok (), d')" by blast
  with assms(1) have "store_draft R d' s1 = (r, s')" by (simp add: bindq_def draft_call_def)
  with own_store [OF assms(2,3) _ assms(4)] assms(5) c show ?thesis by (auto simp: edits_def)
next
  case False
  then obtain x d' where "c = (Err x, d')" by (metis (full_types) old.unit.exhaust result.exhaust surj_pair)
  with assms(1,2) show ?thesis by (auto simp: bindq_def draft_call_def)
qed

text \<open>Every handler changes at most a draft that is new or owned by the caller.\<close>

lemma own_editing:
  assumes "\<And>d s1. inv s1 \<Longrightarrow> view s1 (d_id d) = Some (head_of d) \<Longrightarrow> d_owner_id d = u \<Longrightarrow>
      \<forall>r s'. k d s1 = (r, s') \<longrightarrow> inv s' \<and> own_change u (view s1) (view s')"
  shows "own_step u (bindq (load_owned_draft R u i) k)"
  unfolding own_step_def
proof (intro allI impI)
  fix s r s'
  assume run: "bindq (load_owned_draft R u i) k s = (r, s')" and inv: "inv s"
  obtain q s1 where q: "load_owned_draft R u i s = (q, s1)" by fastforce
  show "inv s' \<and> own_change u (view s) (view s')"
  proof (cases q)
    case (Err e)
    with run q read_stepD [OF load_read(2) q inv] show ?thesis by (simp add: bindq_def)
  next
    case (Ok d)
    with load_owned_Ok [of u i s d s1] q inv have d: "inv s1" "view s1 = view s"
      "view s1 (d_id d) = Some (head_of d)" "d_owner_id d = u" by auto
    from run q Ok have "k d s1 = (r, s')" by (simp add: bindq_def)
    with assms [OF d(1,3,4)] d(2) show ?thesis by metis
  qed
qed

lemma own_undo: "own_step u (post_undo st now u i h e)"
  unfolding post_undo_def st_repo
  by (rule own_after_read [OF read_of_result], rule own_editing, intro allI impI,
      erule edit_step_own [OF _ _ _ _ edits_commands(2)])

lemma own_redo: "own_step u (post_redo st now u i h e)"
  unfolding post_redo_def st_repo
  by (rule own_after_read [OF read_of_result], rule own_editing, intro allI impI,
      erule edit_step_own [OF _ _ _ _ edits_commands(3)])

lemma own_delete: "own_step u (delete_draft st now u i)"
  unfolding delete_draft_def st_repo
proof (rule own_editing, intro allI impI)
  fix d s1 r s'
  assume d: "inv s1" "view s1 (d_id d) = Some (head_of d)" "d_owner_id d = u"
    and run: "bindq (draft_call (discard now d)) (\<lambda>d'. api_step (repo_update R d')) s1 = (r, s')"
  show "inv s' \<and> own_change u (view s1) (view s')"
  proof (cases "discard now d")
    case (Pair x d')
    show ?thesis
    proof (cases x)
      case (Ok y)
      with Pair have id: "d_id d' = d_id d" by (auto simp: discard_Ok)
      from Pair Ok run obtain r' where "repo_update R d' s1 = (r', s')"
        by (auto simp: bindq_def draft_call_def map_errq_def split: prod.splits)
      from own_update [OF d(1,2) id d(3) this] show ?thesis .
    next
      case (Err e)
      with Pair run d(1) show ?thesis by (auto simp: bindq_def draft_call_def)
    qed
  qed
qed

lemma own_reset: "own_step u (post_reset st now u i h e)"
  unfolding post_reset_def st_repo
proof (rule own_after_read [OF read_of_result], rule own_editing, intro allI impI)
  fix d s1 r s'
  assume d: "inv s1" "view s1 (d_id d) = Some (head_of d)" "d_owner_id d = u"
    and run: "bindq (of_result (ok_or (problem 422 ''NO_BASE_ROUTE_VERSION''
             (Text ''draft has no base route version to reset to'')
             ''/problems/no-base-route-version'' ''No Base Route Version'')
             (base_route_version_id d))) (\<lambda>v.
      bindq (api_step (get_route_version_geometry (route_version_gateway st) v (d_activity_id d)))
        (\<lambda>base. bindq (draft_call (reset now d e base)) (\<lambda>d'. store_draft R d'))) s1 = (r, s')"
  show "inv s' \<and> own_change u (view s1) (view s')"
  proof (cases "base_route_version_id d")
    case None
    with run d show ?thesis by (simp add: bindq_def)
  next
    case (Some v)
    obtain q s2 where q: "get_route_version_geometry (route_version_gateway st) v (d_activity_id d) s1
        = (q, s2)" by fastforce
    from geometry_keeps [OF q d(1)] have s2: "inv s2" "view s2 = view s1" by auto
    show ?thesis
    proof (cases q)
      case (Ok b)
      with run Some q have "bindq (draft_call (reset now d e b)) (\<lambda>d'. store_draft R d') s2 = (r, s')"
        by (simp add: bindq_def map_errq_def)
      from edit_step_own [OF this s2(1) _ d(3) edits_commands(4)] d(2) s2(2) show ?thesis by simp
    next
      case (Err x)
      with run Some q s2 show ?thesis by (simp add: bindq_def map_errq_def)
    qed
  qed
qed

lemma own_apply: "own_step u (post_apply_operation ps st now u i h b)"
  unfolding post_apply_operation_def st_repo
proof (rule own_after_read [OF read_of_result], rule own_after_read [OF read_of_result],
    rule own_after_read)
  show "read_step (api_step (repo_find_by_operation_id R oid))" for oid by blast
  fix oid existing
  show "own_step u (case existing of
      None \<Rightarrow> bindq (load_owned_draft R u i) (\<lambda>d.
        bindq (of_result (map_err (\<lambda>msg. problem 422 ''INVALID_OPERATION'' msg
                   ''/problems/invalid-operation'' ''Invalid Operation'')
                   (operation_to_domain (ar_operation b)))) (\<lambda>operation.
          bindq (draft_call (apply_operation now d oid operation (ar_expected_revision b)))
            (\<lambda>d'. store_draft R d')))
    | Some existing_id \<Rightarrow> bindq (load_draft R existing_id) (\<lambda>d.
        of_result (replay_operation oid (ar_operation b) d)))"
  proof (cases existing)
    case (Some j)
    then show ?thesis using read_bindq [OF load_read(1) read_of_result] by (auto intro: read_own)
  next
    case None
    have "own_step u (bindq (load_owned_draft R u i) (\<lambda>d.
        bindq (of_result (map_err (\<lambda>msg. problem 422 ''INVALID_OPERATION'' msg
                   ''/problems/invalid-operation'' ''Invalid Operation'')
                   (operation_to_domain (ar_operation b)))) (\<lambda>operation.
          bindq (draft_call (apply_operation now d oid operation (ar_expected_revision b)))
            (\<lambda>d'. store_draft R d'))))"
    proof (rule own_editing, intro allI impI)
      fix d s1 r s'
      assume d: "inv s1" "view s1 (d_id d) = Some (head_of d)" "d_owner_id d = u"
        and run: "bindq (of_result (map_err (\<lambda>msg. problem 422 ''INVALID_OPERATION'' msg
                   ''/problems/invalid-operation'' ''Invalid Operation'')
                   (operation_to_domain (ar_operation b)))) (\<lambda>operation.
          bindq (draft_call (apply_operation now d oid operation (ar_expected_revision b)))
            (\<lambda>d'. store_draft R d')) s1 = (r, s')"
      show "inv s' \<and> own_change u (view s1) (view s')"
      proof (cases "operation_to_domain (ar_operation b)")
        case (Ok p)
        with run have "bindq (draft_call (apply_operation now d oid p (ar_expected_revision b)))
            (\<lambda>d'. store_draft R d') s1 = (r, s')" by (simp add: bindq_def)
        from edit_step_own [OF this d edits_commands(1)] show ?thesis .
      next
        case (Err m)
        with run d show ?thesis by (simp add: bindq_def)
      qed
    qed
    with None show ?thesis by simp
  qed
qed

lemma own_save:
  assumes "d_owner_id d = u"
  shows "own_step u (repo_save R d)"
  unfolding own_step_def
proof (intro allI impI)
  fix s r s'
  assume run: "repo_save R d s = (r, s')" and inv: "inv s"
  show "inv s' \<and> own_change u (view s) (view s')"
  proof (cases r)
    case (Ok x)
    with run save_Ok [of d s s'] inv save_inv [OF run inv] assms show ?thesis
      by (auto intro!: own_change_upd)
  next
    case (Err e)
    with run inv save_Err [of d s e s'] save_inv [OF run inv] show ?thesis by simp
  qed
qed

lemma own_bind_return: "own_step u m \<Longrightarrow> own_step u (bindq m (\<lambda>_. returnq x))"
  unfolding own_step_def bindq_def by (auto split: prod.splits result.splits)

lemma own_create: "own_step u (post_create_draft st j now u a h b)"
proof -
  have save: "own_step u (bindq (of_result (map_err route_editing_error_to_api_error
      (create_from_geometry j now u (ActivityId a) (cr_base_route_version_id b) g))) (\<lambda>d.
        bindq (api_step (repo_save R d)) (\<lambda>_. returnq (draft_to_response d))))" for g
  proof (cases "create_from_geometry j now u (ActivityId a) (cr_base_route_version_id b) g")
    case (Ok d)
    then have "d_owner_id d = u" by (auto simp: create_from_geometry_def result_simps)
    from own_bind_return [OF own_map_errq [OF own_save [OF this]]] Ok show ?thesis
      by (simp add: own_step_def bindq_def)
  next
    case (Err e)
    then show ?thesis by (simp add: own_step_def bindq_def)
  qed
  have gates: "read_step (validate_activity_for_draft (activity_gateway st) (ActivityId a) u)"
    "read_step (validate_route_version_exists (route_version_gateway st) v (ActivityId a))" for v
    using activity_keeps version_keeps by (auto simp: read_step_def)
  have new: "own_step u (bindq (api_step (validate_activity_for_draft (activity_gateway st)
                  (ActivityId a) u)) (\<lambda>_.
          bindq (case cr_base_route_version_id b of
                   Some v \<Rightarrow> api_step (validate_route_version_exists (route_version_gateway st) v
                               (ActivityId a))
                 | None \<Rightarrow> returnq ()) (\<lambda>_.
          bindq (of_result (map_err route_editing_error_to_api_error
                  (create_from_geometry j now u (ActivityId a)
                    (cr_base_route_version_id b) g))) (\<lambda>d.
          bindq (api_step (repo_save R d)) (\<lambda>_. returnq (draft_to_response d))))))" for g
    by (rule own_after_read, blast intro: gates, rule own_after_read [OF _ save],
        blast intro: gates)
  show ?thesis
    unfolding post_create_draft_def st_repo
  proof (rule own_after_read [OF read_of_result], rule own_after_read [OF read_of_result],
      rule own_after_read)
    show "read_step (api_step (repo_find_active R (ActivityId a) u))" by blast
  qed (rule own_option, rule new, auto intro: read_own)
qed

lemma own_handle: "own_step u (handle ps st u q)"
proof (cases q)
  case (GetDraft i)
  have "read_step (get_draft st u i)"
    unfolding get_draft_def st_repo using load_read(2) by blast
  with GetDraft show ?thesis by (simp add: own_no_body read_own)
next
  case (ValidateDraft i e)
  have "read_step (post_validate_draft st u i e)"
    unfolding post_validate_draft_def st_repo
    by (rule read_bindq [OF load_read(1)]) (auto split: result.split list.split)
  with ValidateDraft show ?thesis by (simp add: own_no_body read_own)
qed (simp_all add: own_no_body own_create own_apply own_undo own_redo own_reset own_delete)

text \<open>Isolation: whatever other users send, in whatever order, a stored draft stays as it is.\<close>

lemma isolation:
  assumes "inv s" and "view s i = Some h" and "\<forall>(u, q)\<in>set qs. u \<noteq> h_owner h"
  shows "view (handle_all ps st qs s) i = Some h"
  using assms
proof (induction qs arbitrary: s)
  case (Cons uq qs)
  obtain u q where uq: "uq = (u, q)" by fastforce
  obtain r s1 where run: "handle ps st u q s = (r, s1)" by fastforce
  with own_handle Cons.prems(1) have "inv s1" "own_change u (view s) (view s1)"
    unfolding own_step_def by blast+
  moreover from Cons.prems(3) uq have "h_owner h \<noteq> u" by auto
  ultimately have "view s1 i = Some h" using own_change_other Cons.prems(2) by blast
  with \<open>inv s1\<close> Cons uq run show ?case by simp
qed simp

text \<open>A successful edit moves the stored draft from the expected revision to the next.\<close>

definition advanced :: "user_id \<Rightarrow> uuid \<Rightarrow> u64 \<Rightarrow> 's \<Rightarrow> 's \<Rightarrow> bool" where
  "advanced u i e s s' \<longleftrightarrow> (\<exists>h g. view s (RouteDraftId i) = Some h \<and> h_owner h = u \<and>
     h_state h = Active \<and> h_revision h = e \<and>
     view s' = (view s)(RouteDraftId i \<mapsto> h\<lparr>h_revision := e + 1, h_geometry := g\<rparr>))"

lemma load_edit_Ok:
  assumes "inv s" and "load_owned_draft R u i s = (Ok d, s1)" and "inv s2" and "view s2 = view s1"
    and "bindq (draft_call c) (\<lambda>d'. store_draft R d') s2 = (Ok resp, s')" and "edits e c d"
  shows "advanced u i e s s' \<and> res_revision resp = e + 1"
proof -
  from load_owned_Ok [OF assms(2,1)] have d: "view s1 = view s" "d_id d = RouteDraftId i"
    "d_owner_id d = u" "view s (RouteDraftId i) = Some (head_of d)" by auto
  with edit_step_Ok [OF assms(5,3) _ assms(6)] assms(4) show ?thesis
    unfolding advanced_def by fastforce
qed

lemma undo_advances:
  "post_undo st now u i h e s = (Ok resp, s') \<Longrightarrow> inv s \<Longrightarrow> advanced u i e s s' \<and> res_revision resp = e + 1"
  unfolding post_undo_def st_repo bindq_Ok [of "of_result _"] bindq_Ok [of "load_owned_draft _ _ _"]
  using load_edit_Ok [OF _ _ _ refl _ edits_commands(2)] load_owned_Ok by fastforce

lemma redo_advances:
  "post_redo st now u i h e s = (Ok resp, s') \<Longrightarrow> inv s \<Longrightarrow> advanced u i e s s' \<and> res_revision resp = e + 1"
  unfolding post_redo_def st_repo bindq_Ok [of "of_result _"] bindq_Ok [of "load_owned_draft _ _ _"]
  using load_edit_Ok [OF _ _ _ refl _ edits_commands(3)] load_owned_Ok by fastforce

lemma reset_advances:
  assumes "post_reset st now u i h e s = (Ok resp, s')" and "inv s"
  shows "advanced u i e s s' \<and> res_revision resp = e + 1"
proof -
  from assms(1) obtain d s1 v base s2 where load: "load_owned_draft R u i s = (Ok d, s1)"
    and geo: "get_route_version_geometry (route_version_gateway st) v (d_activity_id d) s1 = (Ok base, s2)"
    and edit: "bindq (draft_call (reset now d e base)) (\<lambda>d'. store_draft R d') s2 = (Ok resp, s')"
    unfolding post_reset_def st_repo by (auto simp: bindq_Ok [of "of_result _"]
        bindq_Ok [of "load_owned_draft _ _ _"] bindq_Ok [of "api_step _"] map_errq_Ok)
  from load_owned_Ok [OF load assms(2)] geometry_keeps [OF geo]
  have "inv s2" "view s2 = view s1" by auto
  from load_edit_Ok [OF assms(2) load this edit edits_commands(4)] show ?thesis .
qed

text \<open>Discarding keeps the revision, so the store refuses it: the endpoint cannot succeed.\<close>

lemma delete_never_succeeds:
  assumes "inv s" and "delete_draft st now u i s = (r, s')"
  shows "\<exists>e. r = Err e \<and> view s' = view s"
proof (cases "load_owned_draft R u i s")
  case (Pair q s1)
  from read_stepD [OF load_read(2) Pair assms(1)] have s1: "inv s1" "view s1 = view s" by auto
  show ?thesis
  proof (cases q)
    case (Err e)
    with assms(2) Pair s1 show ?thesis by (auto simp: delete_draft_def st_repo bindq_def)
  next
    case (Ok d)
    from load_owned_Ok [of u i s d s1] Ok Pair assms(1) s1
    have d: "view s1 (d_id d) = Some (head_of d)" by simp
    obtain x d' where c: "discard now d = (x, d')" by fastforce
    show ?thesis
    proof (cases x)
      case (Ok y)
      with c have d': "d_id d' = d_id d" "revision d' = revision d" by (auto simp: discard_Ok)
      obtain r' s2 where upd: "repo_update R d' s1 = (r', s2)" by fastforce
      from unbumped_update_refused [OF s1(1) _ _ this, of "head_of d"] d d'
      have "\<exists>e. r' = Err e \<and> view s2 = view s1" by simp
      with upd c Ok \<open>q = Ok d\<close> Pair assms(2) s1(2) show ?thesis
        by (auto simp: delete_draft_def st_repo bindq_def draft_call_def map_errq_def)
    next
      case (Err e)
      with c \<open>q = Ok d\<close> Pair assms(2) s1(2) show ?thesis
        by (auto simp: delete_draft_def st_repo bindq_def draft_call_def)
    qed
  qed
qed

lemma apply_advances:
  assumes "post_apply_operation ps st now u i h b s = (Ok resp, s')" and "inv s"
  shows "view s' = view s \<or> advanced u i (ar_expected_revision b) s s'"
proof -
  let ?load = "\<lambda>oid d. bindq (of_result (map_err (\<lambda>msg. problem 422 ''INVALID_OPERATION'' msg
                   ''/problems/invalid-operation'' ''Invalid Operation'')
                   (operation_to_domain (ar_operation b)))) (\<lambda>operation.
          bindq (draft_call (apply_operation now d oid operation (ar_expected_revision b)))
            (\<lambda>d'. store_draft R d'))"
  from assms(1) obtain oid existing s1 where
    found: "repo_find_by_operation_id R oid s = (Ok existing, s1)"
    and rest: "(case existing of Some j \<Rightarrow> bindq (load_draft R j) (\<lambda>d.
            of_result (replay_operation oid (ar_operation b) d))
      | None \<Rightarrow> bindq (load_owned_draft R u i) (?load oid)) s1 = (Ok resp, s')"
    unfolding post_apply_operation_def st_repo by (auto simp: bindq_Ok [of "of_result _"]
        bindq_Ok [of "api_step _"] map_errq_Ok)
  from read_stepD [OF read_repo(3) found assms(2)] have s1: "inv s1" "view s1 = view s" by auto
  show ?thesis
  proof (cases existing)
    case (Some j)
    from read_stepD [OF read_bindq [OF load_read(1) read_of_result] rest [unfolded Some option.case] s1(1)]
    show ?thesis using s1 by simp
  next
    case None
    with rest obtain d s2 p where load: "load_owned_draft R u i s1 = (Ok d, s2)"
      and edit: "bindq (draft_call (apply_operation now d oid p (ar_expected_revision b)))
            (\<lambda>d'. store_draft R d') s2 = (Ok resp, s')"
      by (auto simp: bindq_Ok [of "of_result _"] bindq_Ok [of "load_owned_draft _ _ _"])
    from load_owned_Ok [OF load s1(1)] have "inv s2" by simp
    from load_edit_Ok [OF s1(1) load this refl edit edits_commands(1)] s1(2) show ?thesis
      by (simp add: advanced_def)
  qed
qed

end

section \<open>The production service\<close>

definition pg_app_state :: "'j serde \<Rightarrow> 'j draft_tables db route_editing_app_state" where
  "pg_app_state J = \<lparr>drafts_repo = PgRouteDraftRepository J, activity_gateway = PgActivityGateway,
     route_version_gateway = PgRouteVersionGateway\<rparr>"

interpretation api: draft_service "PgRouteDraftRepository J" unique_drafts "pg_view J" "pg_canon J"
    "pg_app_state J"
  for J :: "'j serde"
  by unfold_locales
    (auto simp: pg_app_state_def PgActivityGateway_def PgRouteVersionGateway_def)

text \<open>The draft and the revision an editing request names.\<close>

fun edit_target :: "draft_request \<Rightarrow> (uuid \<times> u64) option" where
  "edit_target (ApplyOperation now i h b) = Some (i, ar_expected_revision b)"
| "edit_target (Undo now i h e) = Some (i, e)"
| "edit_target (Redo now i h e) = Some (i, e)"
| "edit_target (Reset now i h e) = Some (i, e)"
| "edit_target _ = None"

lemma point_to_domain_Ok:
  "point_to_domain p = Ok q \<longleftrightarrow> valid_point q \<and> point_from_domain q = p"
proof -
  have "map_option meters (map_option Elevation x) = x" for x by (cases x) auto
  moreover have "map_option Elevation (map_option meters x) = x" for x by (cases x) auto
  ultimately show ?thesis
    by (cases p; cases q)
      (auto simp: point_to_domain_def point_from_domain_def coordinate_new_def valid_point_def
        result_simps)
qed

section \<open>A sample request\<close>

definition sample_request :: draft_request where
  "sample_request = ApplyOperation 11 1 (Some ''k'')
     \<lparr>ar_operation = SplitSegmentDto 0 1, ar_expected_revision = 0\<rparr>"

lemma sample_load:
  "load_owned_draft (PgRouteDraftRepository sample_serde) (UserId 3) 1 sample_db =
    (Ok sample_draft, sample_db)"
  by (simp add: load_owned_draft_def load_draft_def bindq_def map_errq_def
      PgRouteDraftRepository_def sample_db_find) (simp add: sample_draft_def)

lemma sample_request_runs:
  "handle (\<lambda>_. Some 7) (pg_app_state sample_serde) (UserId 3) sample_request sample_db =
    (Ok (), snd (pg_update sample_serde sample_edited sample_db))"
proof -
  have "pg_find_by_operation_id (OperationId 7) sample_db = (Ok None, sample_db)"
    by (simp add: pg_find_by_operation_id_def bindq_def map_errq_def select_faultless sample_db_def)
  then show ?thesis
    using sample_edited_applied sample_load
    by (simp add: sample_request_def no_body_def post_apply_operation_def bindq_def map_errq_def
        extract_idempotency_key_def parse_idempotency_key_def pg_app_state_def
        PgRouteDraftRepository_def draft_call_def store_draft_def sample_split_def sample_update_ok)
qed

section \<open>Properties\<close>





text \<open>C11. The delete endpoint cannot succeed: the aggregate discards a draft without a new revision
  and the repository refuses to store a draft whose revision it already holds, so the request
  is answered with an error and the draft stays as it is.\<close>

theorem delete_draft_never_succeeds:
  assumes "unique_drafts db" and "delete_draft (pg_app_state J) now u i db = (r, db')"
  shows "\<exists>e. r = Err e \<and> pg_view J db' = pg_view J db"
  using assms by (rule api.delete_never_succeeds)

theorem delete_draft_never_succeeds_witness:
  "\<exists>e db'. delete_draft (pg_app_state sample_serde) 20 (UserId 3) 1 sample_db = (Err e, db')"
proof -
  obtain r db' where "delete_draft (pg_app_state sample_serde) 20 (UserId 3) 1 sample_db = (r, db')"
    by fastforce
  with delete_draft_never_succeeds [OF sample_db_unique this] show ?thesis by auto
qed

text \<open>Replay is not authorised: once an operation id is stored, applying it again gives every
  caller the same answer, the owner of the draft or not.\<close>

theorem replay_ignores_caller:
  assumes "extract_idempotency_key headers = Ok key" and "parse_str key = Some k"
    and "repo_find_by_operation_id (drafts_repo st) (OperationId k) s = (Ok (Some j), s1)"
  shows "post_apply_operation parse_str st now u i headers body s =
    post_apply_operation parse_str st now' u' i' headers body s"
  using assms by (simp add: post_apply_operation_def bindq_def map_errq_def parse_idempotency_key_def)

theorem replay_ignores_caller_witness:
  "post_apply_operation (\<lambda>_. Some 7) (pg_app_state sample_serde) 20 (UserId 3) 1 (Some ''k'')
      \<lparr>ar_operation = SplitSegmentDto 0 1, ar_expected_revision = 0\<rparr>
      (snd (pg_update sample_serde sample_edited sample_db)) =
    post_apply_operation (\<lambda>_. Some 7) (pg_app_state sample_serde) 20 (UserId 9) 1 (Some ''k'')
      \<lparr>ar_operation = SplitSegmentDto 0 1, ar_expected_revision = 0\<rparr>
      (snd (pg_update sample_serde sample_edited sample_db))"
  unfolding sample_update_ok snd_conv
  by (rule replay_ignores_caller [where k = 7 and j = "RouteDraftId 1" and key = "''k''"])
    (auto simp: extract_idempotency_key_def pg_app_state_def PgRouteDraftRepository_def
      pg_find_by_operation_id_def bindq_def map_errq_def select_faultless
      operation_row_of_def sample_edited_def record_operation_def sample_draft_def)

text \<open>C16. Decoding a geometry is the inverse of encoding it, on exactly the geometries whose
  coordinates are in range.\<close>

theorem geometry_dto_roundtrip:
  "geometry_to_domain dto = Ok g \<longleftrightarrow>
    geometry_to_dto g = dto \<and> (\<forall>s\<in>set g. \<forall>p\<in>set s. valid_point p)"
proof -
  have "collect point_to_domain ps = Ok qs \<longleftrightarrow>
      map point_from_domain qs = ps \<and> (\<forall>q\<in>set qs. valid_point q)" for ps qs
    by (rule collect_inverse) (auto simp: point_to_domain_Ok)
  then show ?thesis
    unfolding geometry_to_domain_def geometry_to_dto_def by (rule collect_inverse)
qed

theorem geometry_dto_roundtrip_witness:
  "geometry_to_domain (geometry_to_dto sample_geometry) = Ok sample_geometry"
  unfolding geometry_dto_roundtrip
  by (simp add: sample_geometry_def sample_point_def valid_point_def range_contains_def)

end
