(* ===== verification/Publication_Commit.thy ===== *)
theory Publication_Commit
  imports Import_Commit Draft_Api
begin

text \<open>
  Publication as the back end runs it: the interface of \<open>crates/app/src/route_versioning/commit.rs\<close>, its
  PostgreSQL transaction in \<open>crates/infrastructure/src/publication_commit.rs\<close>, and the endpoint
  \<open>post_publish_draft\<close> of \<open>crates/api/src/route_editing.rs\<close> with its error mapping.  The transaction
  reads a relation \<open>route_editing.route_drafts\<close> with a column \<open>geometry_json\<close>, which no migration
  creates; it is modelled as the statements describe it.
\<close>

section \<open>Requests, results and tables\<close>

record publication_commit_data =
  pcd_draft_id :: route_draft_id
  pcd_expected_revision :: u64
  pcd_actor_id :: user_id
  pcd_idempotency_key :: string
  pcd_edit_summary :: "string option"

record 'j publication_result =
  pcr_route_version_id :: route_version_id
  pcr_version_number :: i32
  pcr_draft_id :: route_draft_id
  pcr_corrected_statistics_json :: 'j

record 'j route_draft_row =
  rd_id :: uuid
  rd_owner_id :: uuid
  rd_activity_id :: uuid
  rd_state :: string
  rd_revision :: u64
  rd_geometry_json :: 'j
  rd_updated_at :: time

record 'j publication_tables =
  pt_route_drafts :: "'j route_draft_row list"
  pt_rows :: "'j import_tables"

text \<open>
  What is used of libraries beyond the \<open>json!\<close> objects: integers, the decoding of a geometry as
  \<open>Vec<Vec<GeometryPoint>>\<close> with the text of its error, the member \<open>_fingerprint\<close> of a payload when it is a
  string, the decoding of statistics, \<open>Uuid::parse_str\<close>, and \<open>DefaultHasher\<close> fed with the three members of a
  request.
\<close>

record 'j publication_serde =
  ps_json :: "'j import_serde"
  ps_int :: "int \<Rightarrow> 'j"
  ps_points :: "'j \<Rightarrow> ((f64 \<times> f64) list list, string) result"
  ps_fingerprint :: "'j \<Rightarrow> string option"
  ps_statistics :: "'j \<Rightarrow> corrected_statistics option"
  ps_parse_uuid :: "string \<Rightarrow> (uuid, string) result"
  ps_hash :: "uuid \<Rightarrow> u64 \<Rightarrow> string option \<Rightarrow> u64"

section \<open>Keys and fingerprints\<close>

definition hex16 :: "u64 \<Rightarrow> string" where
  "hex16 w = map (\<lambda>i. hex_digit (unat (take_bit 4 (drop_bit (4 * (15 - i)) w)))) [0..<16]"

definition compute_payload_fingerprint :: "'j publication_serde \<Rightarrow> publication_commit_data \<Rightarrow> string" where
  "compute_payload_fingerprint J d =
    hex16 (ps_hash J (draft_uuid (pcd_draft_id d)) (pcd_expected_revision d) (pcd_edit_summary d))"

text \<open>The bytes of a key that is no UUID, folded into sixteen.\<close>

definition fold_key :: "string \<Rightarrow> uuid" where
  "fold_key key =
    foldl (\<lambda>u b. or (push_bit 8 u) (ucast b)) 0
      (fold (\<lambda>(i, b) h. h[i mod 16 := xor (h ! (i mod 16)) b])
        (enumerate 0 (map (of_char :: char \<Rightarrow> 8 word) key)) (replicate 16 (0 :: 8 word)))"

definition correlation_of :: "'j publication_serde \<Rightarrow> string \<Rightarrow> uuid" where
  "correlation_of J key = (case ps_parse_uuid J key of Ok u \<Rightarrow> u | Err _ \<Rightarrow> fold_key key)"

section \<open>Geometry\<close>

definition pub_haversine :: "libm \<Rightarrow> f64 \<Rightarrow> f64 \<Rightarrow> f64 \<Rightarrow> f64 \<Rightarrow> f64" where
  "pub_haversine M lat1 lon1 lat2 lon2 =
    (let r = Fin 6371000; lat1_rad = to_radians lat1; lat2_rad = to_radians lat2;
         dlat = to_radians (fsub lat2 lat1); dlon = to_radians (fsub lon2 lon1);
         s1 = m_sin M (fdiv dlat (Fin 2)); s2 = m_sin M (fdiv dlon (Fin 2));
         h = fadd (fmul s1 s1) (fmul (fmul (m_cos M lat1_rad) (m_cos M lat2_rad)) (fmul s2 s2))
     in fmul (fmul (Fin 2) r) (m_asin M (m_sqrt M h)))"

definition pub_total_distance :: "libm \<Rightarrow> (f64 \<times> f64) list \<Rightarrow> f64" where
  "pub_total_distance M coords =
    (if length coords < 2 then Fin 0
     else foldl (\<lambda>d (p, q). fadd d (pub_haversine M (fst p) (snd p) (fst q) (snd q))) (Fin 0) (windows2 coords))"

definition bounding_box_json :: "'j publication_serde \<Rightarrow> (f64 \<times> f64) list \<Rightarrow> 'j" where
  "bounding_box_json J flat =
    (let num = json_number (ps_json J); obj = json_object (ps_json J);
         corner = (\<lambda>lat lon. obj [(''latitude'', num lat), (''longitude'', num lon)]);
         lats = map fst flat; lons = map snd flat
     in obj [(''south_west'', corner (foldl fmin f64_MAX lats) (foldl fmin f64_MAX lons)),
             (''north_east'', corner (foldl fmax f64_MIN lats) (foldl fmax f64_MIN lons))])"

definition corrected_statistics_json :: "libm \<Rightarrow> 'j publication_serde \<Rightarrow> (f64 \<times> f64) list \<Rightarrow> 'j" where
  "corrected_statistics_json M J flat = json_object (ps_json J)
     [(''distance_meters'', json_number (ps_json J) (pub_total_distance M flat)),
      (''point_count'', ps_int J (int (length flat))),
      (''calculation_version'', json_string (ps_json J) ''v1.0'')]"

section \<open>Statements\<close>

text \<open>\<open>ORDER BY version_number DESC LIMIT 1\<close>.\<close>

definition latest_version :: "uuid \<Rightarrow> 'j import_tables \<Rightarrow> 'j version_row option" where
  "latest_version activity t =
    (case sort_key (\<lambda>r. - sint (vr_version_number r)) (filter (\<lambda>r. vr_activity_id r = activity) (t_versions t)) of
       [] \<Rightarrow> None | r # _ \<Rightarrow> Some r)"

definition set_current_version ::
  "uuid \<Rightarrow> uuid \<Rightarrow> 'j \<Rightarrow> 'j import_tables \<Rightarrow> (unit, db_error) result \<times> 'j import_tables" where
  "set_current_version activity ver corrected t =
    (if activity \<in> act_id ` set (t_activities t) \<and> ver \<notin> vr_id ` set (t_versions t)
     then (Err (ForeignKeyViolation ''fk_activities_current_route_version''), t)
     else (Ok (), t\<lparr>t_activities := map (\<lambda>r. if act_id r = activity
        then r\<lparr>act_current_route_version_id := Some ver, act_corrected_summary_json := Some corrected\<rparr> else r)
        (t_activities t)\<rparr>))"

definition mark_draft_published :: "time \<Rightarrow> uuid \<Rightarrow> 'j route_draft_row list \<Rightarrow> 'j route_draft_row list" where
  "mark_draft_published now i rows =
    map (\<lambda>r. if rd_id r = i then r\<lparr>rd_state := ''published'', rd_updated_at := now\<rparr> else r) rows"

definition on_rows ::
  "('j import_tables \<Rightarrow> (unit, db_error) result \<times> 'j import_tables) \<Rightarrow>
    'j publication_tables \<Rightarrow> (unit, db_error) result \<times> 'j publication_tables" where
  "on_rows f t = (case f (pt_rows t) of (r, rows) \<Rightarrow> (r, t\<lparr>pt_rows := rows\<rparr>))"

definition publication_version ::
  "libm \<Rightarrow> 'j publication_serde \<Rightarrow> uuid \<Rightarrow> publication_commit_data \<Rightarrow> 'j route_draft_row \<Rightarrow>
    (f64 \<times> f64) list \<Rightarrow> 'j version_row \<Rightarrow> 'j version_row" where
  "publication_version M J new_id d draft flat latest =
    \<lparr>vr_id = new_id, vr_activity_id = rd_activity_id draft, vr_parent_version_id = Some (vr_id latest),
     vr_version_number = vr_version_number latest + 1, vr_geometry_json = rd_geometry_json draft,
     vr_bounding_box_json = bounding_box_json J flat,
     vr_corrected_statistics_json = corrected_statistics_json M J flat,
     vr_calculation_version = ''v1.0'', vr_edit_summary = pcd_edit_summary d,
     vr_created_by = user_uuid (pcd_actor_id d)\<rparr>"

definition publication_audit ::
  "'j publication_serde \<Rightarrow> publication_commit_data \<Rightarrow> 'j version_row \<Rightarrow> 'j audit_row" where
  "publication_audit J d v =
    \<lparr>au_actor_id = user_uuid (pcd_actor_id d), au_action = ''route_version.published'',
     au_resource_type = ''route_version'', au_resource_id = uuid_to_string (vr_id v),
     au_metadata = json_object (ps_json J)
       [(''draft_id'', json_string (ps_json J) (uuid_to_string (draft_uuid (pcd_draft_id d)))),
        (''activity_id'', json_string (ps_json J) (uuid_to_string (vr_activity_id v))),
        (''version_number'', ps_int J (sint (vr_version_number v)))]\<rparr>"

definition publication_event ::
  "'j publication_serde \<Rightarrow> uuid \<Rightarrow> publication_commit_data \<Rightarrow> 'j version_row \<Rightarrow> 'j outbox_row" where
  "publication_event J event_id d v =
    \<lparr>ob_id = event_id, ob_aggregate_type = ''route_version'', ob_aggregate_id = uuid_to_string (vr_id v),
     ob_event_type = ''RouteVersionPublished'',
     ob_payload = json_object (ps_json J)
       [(''route_version_id'', json_string (ps_json J) (uuid_to_string (vr_id v))),
        (''activity_id'', json_string (ps_json J) (uuid_to_string (vr_activity_id v))),
        (''draft_id'', json_string (ps_json J) (uuid_to_string (draft_uuid (pcd_draft_id d)))),
        (''version_number'', ps_int J (sint (vr_version_number v))),
        (''actor_id'', json_string (ps_json J) (uuid_to_string (user_uuid (pcd_actor_id d)))),
        (''_fingerprint'', json_string (ps_json J) (compute_payload_fingerprint J d))],
     ob_correlation_id = Some (correlation_of J (pcd_idempotency_key d))\<rparr>"

section \<open>The transaction\<close>

text \<open>How the body is left early: with a result, or refused; either way the transaction is rolled back.\<close>

datatype 'j publication_exit = Replayed "'j publication_result" | Refused route_versioning_error

type_synonym ('j, 'a) publication_sql = "('j publication_tables, 'a, 'j publication_exit) sql"

definition pub_db :: "string \<Rightarrow> ('j publication_tables, 'a, db_error) sql \<Rightarrow> ('j, 'a) publication_sql" where
  "pub_db what m = map_errq (\<lambda>e. Refused (route_versioning_error.PersistenceError (RvDatabaseText what e))) m"

definition refuse :: "route_versioning_error \<Rightarrow> ('j, 'a) publication_sql" where
  "refuse e = failq (Refused e)"

definition check_idempotency ::
  "'j publication_serde \<Rightarrow> publication_commit_data \<Rightarrow> ('j, unit) publication_sql" where
  "check_idempotency J d =
    bindq (pub_db ''failed to check idempotency'' (select (\<lambda>t. find (\<lambda>r. ob_aggregate_type r = ''route_version'' \<and>
        ob_correlation_id r = Some (correlation_of J (pcd_idempotency_key d))) (t_outbox (pt_rows t))))) (\<lambda>event.
    case event of
      None \<Rightarrow> returnq ()
    | Some r \<Rightarrow>
        if ps_fingerprint J (ob_payload r) \<notin> {None, Some (compute_payload_fingerprint J d)}
        then refuse route_versioning_error.IdempotencyConflict
        else bindq (of_result (map_err (\<lambda>e. Refused (route_versioning_error.PersistenceError (RvText
            (''invalid aggregate_id in outbox: '' @ e)))) (ps_parse_uuid J (ob_aggregate_id r)))) (\<lambda>i.
          bindq (pub_db ''failed to fetch existing version''
            (select (\<lambda>t. find (\<lambda>v. vr_id v = i) (t_versions (pt_rows t))))) (\<lambda>row.
          case row of
            None \<Rightarrow> returnq ()
          | Some v \<Rightarrow> failq (Replayed \<lparr>pcr_route_version_id = RouteVersionId i,
              pcr_version_number = vr_version_number v, pcr_draft_id = pcd_draft_id d,
              pcr_corrected_statistics_json = vr_corrected_statistics_json v\<rparr>))))"

definition lock_draft ::
  "publication_commit_data \<Rightarrow> ('j, 'j route_draft_row) publication_sql" where
  "lock_draft d =
    bindq (pub_db ''failed to load draft''
      (select (\<lambda>t. find (\<lambda>r. rd_id r = draft_uuid (pcd_draft_id d)) (pt_route_drafts t)))) (\<lambda>found.
    case found of
      None \<Rightarrow> refuse route_versioning_error.DraftNotFound
    | Some r \<Rightarrow>
        if rd_owner_id r \<noteq> user_uuid (pcd_actor_id d) then refuse route_versioning_error.NotAuthorized
        else if rd_state r \<noteq> ''active'' then refuse route_versioning_error.DraftNotActive
        else if rd_revision r \<noteq> pcd_expected_revision d
        then refuse (route_versioning_error.RevisionConflict (pcd_expected_revision d) (rd_revision r))
        else returnq r)"

definition flat_coords ::
  "'j publication_serde \<Rightarrow> 'j route_draft_row \<Rightarrow> ('j, (f64 \<times> f64) list) publication_sql" where
  "flat_coords J r =
    bindq (of_result (map_err (\<lambda>e. Refused (route_versioning_error.ValidationFailed [RvText (''failed to parse draft geometry: '' @ e)]))
      (ps_points J (rd_geometry_json r)))) (\<lambda>segments.
    if length (concat segments) < 2
    then refuse (route_versioning_error.ValidationFailed [RvText ''geometry must have at least 2 points''])
    else returnq (concat segments))"

definition publication_body ::
  "libm \<Rightarrow> 'j publication_serde \<Rightarrow> uuid \<Rightarrow> uuid \<Rightarrow> time \<Rightarrow> publication_commit_data \<Rightarrow>
    ('j, 'j publication_result) publication_sql" where
  "publication_body M J new_id event_id now d =
    bindq (check_idempotency J d) (\<lambda>_.
    bindq (lock_draft d) (\<lambda>draft.
    bindq (flat_coords J draft) (\<lambda>flat.
    bindq (pub_db ''failed to find latest version''
      (select (\<lambda>t. latest_version (rd_activity_id draft) (pt_rows t)))) (\<lambda>found.
    bindq (of_result (ok_or (Refused route_versioning_error.ActivityNotFound) found)) (\<lambda>latest.
    let v = publication_version M J new_id d draft flat latest; stats = corrected_statistics_json M J flat in
    bindq (pub_db ''failed to insert route version'' (query (on_rows (insert_version v)))) (\<lambda>_.
    bindq (pub_db ''failed to update activity current version''
      (query (on_rows (set_current_version (rd_activity_id draft) new_id stats)))) (\<lambda>_.
    bindq (pub_db ''failed to update draft state'' (modify (\<lambda>t.
      t\<lparr>pt_route_drafts := mark_draft_published now (draft_uuid (pcd_draft_id d)) (pt_route_drafts t)\<rparr>))) (\<lambda>_.
    bindq (pub_db ''failed to write audit event''
      (modify (\<lambda>t. t\<lparr>pt_rows := append_audit (publication_audit J d v) (pt_rows t)\<rparr>))) (\<lambda>_.
    bindq (pub_db ''failed to write outbox event''
      (query (on_rows (publish_outbox (publication_event J event_id d v))))) (\<lambda>_.
    returnq \<lparr>pcr_route_version_id = RouteVersionId new_id, pcr_version_number = vr_version_number v,
      pcr_draft_id = pcd_draft_id d, pcr_corrected_statistics_json = stats\<rparr>))))))))))"

type_synonym ('s, 'j) publication_committer =
  "publication_commit_data \<Rightarrow> ('s, 'j publication_result, route_versioning_error) step"

definition pg_commit_publication ::
  "libm \<Rightarrow> 'j publication_serde \<Rightarrow> uuid \<Rightarrow> uuid \<Rightarrow> time \<Rightarrow> ('j publication_tables db, 'j) publication_committer" where
  "pg_commit_publication M J new_id event_id now d db =
    (case transaction_with (\<lambda>e. Refused (route_versioning_error.PersistenceError (RvDatabaseText ''failed to begin transaction'' e)))
         (\<lambda>e. Refused (route_versioning_error.PersistenceError (RvDatabaseText ''failed to commit transaction'' e)))
         (publication_body M J new_id event_id now d) db of
       (Ok r, db') \<Rightarrow> (Ok r, db')
     | (Err (Replayed r), db') \<Rightarrow> (Ok r, db')
     | (Err (Refused e), db') \<Rightarrow> (Err e, db'))"

section \<open>The endpoint\<close>

datatype publication_message =
    OfApi api_message | VersioningText string | Joined "rv_message list" | InternalText rv_message
  | ConflictText u64 u64

fun route_versioning_error_to_api_error :: "route_versioning_error \<Rightarrow> publication_message api_problem" where
  "route_versioning_error_to_api_error route_versioning_error.DraftNotFound =
    problem 404 ''NOT_FOUND'' (VersioningText ''route draft not found'') ''/problems/not-found'' ''Not Found''"
| "route_versioning_error_to_api_error route_versioning_error.NotAuthorized =
    problem 404 ''NOT_FOUND'' (VersioningText ''route draft not found'') ''/problems/not-found'' ''Not Found''"
| "route_versioning_error_to_api_error (route_versioning_error.RevisionConflict e a) =
    problem 409 ''ROUTE_DRAFT_REVISION_CONFLICT'' (ConflictText e a) ''/problems/stale-route-draft''
      ''Route draft revision is stale''"
| "route_versioning_error_to_api_error route_versioning_error.DraftNotActive =
    problem 409 ''DRAFT_NOT_ACTIVE'' (VersioningText ''draft is not in active state'')
      ''/problems/draft-not-active'' ''Draft Not Active''"
| "route_versioning_error_to_api_error (route_versioning_error.ValidationFailed errors) =
    problem 422 ''VALIDATION_FAILED'' (Joined errors) ''/problems/validation-failed'' ''Validation Failed''"
| "route_versioning_error_to_api_error route_versioning_error.IdempotencyConflict =
    problem 409 ''IDEMPOTENCY_CONFLICT'' (VersioningText ''idempotency key reused with different parameters'')
      ''/problems/idempotency-conflict'' ''Idempotency Conflict''"
| "route_versioning_error_to_api_error route_versioning_error.ActivityNotFound =
    problem 404 ''NOT_FOUND'' (VersioningText ''activity not found'') ''/problems/not-found'' ''Not Found''"
| "route_versioning_error_to_api_error (route_versioning_error.PersistenceError m) =
    problem 500 ''INTERNAL_ERROR'' (InternalText m) ''/problems/internal-error'' ''Internal Server Error''"
| "route_versioning_error_to_api_error _ =
    problem 500 ''INTERNAL_ERROR'' (VersioningText ''unexpected error'') ''/problems/internal-error''
      ''Internal Server Error''"

definition map_problem :: "('m \<Rightarrow> 'n) \<Rightarrow> 'm api_problem \<Rightarrow> 'n api_problem" where
  "map_problem f p =
    \<lparr>ae_status = ae_status p, ae_code = ae_code p, ae_message = f (ae_message p),
     problem_type = problem_type p, ae_title = ae_title p, ae_request_id = ae_request_id p\<rparr>"

definition internal_problem :: "string \<Rightarrow> publication_message api_problem" where
  "internal_problem m =
    problem 500 ''INTERNAL_ERROR'' (VersioningText m) ''/problems/internal-error'' ''Internal Server Error''"

record publish_route_draft_request =
  prq_expected_revision :: u64
  prq_edit_summary :: "string option"

record corrected_statistics_dto =
  csd_distance_meters :: f64
  csd_point_count :: u32
  csd_calculation_version :: string

record publication_response =
  prs_route_version_id :: uuid
  prs_version_number :: i32
  prs_draft_id :: uuid
  prs_corrected_statistics :: corrected_statistics_dto

definition post_publish_draft ::
  "'j publication_serde \<Rightarrow> ('s, 'j) publication_committer option \<Rightarrow> user_id \<Rightarrow> uuid \<Rightarrow> string option \<Rightarrow>
    publish_route_draft_request \<Rightarrow> ('s, publication_response, publication_message api_problem) step" where
  "post_publish_draft J committer actor i header body =
    bindq (of_result (map_err (map_problem OfApi) (extract_uuid_idempotency_key
      (\<lambda>s. case ps_parse_uuid J s of Ok u \<Rightarrow> Some u | Err _ \<Rightarrow> None) header))) (\<lambda>key.
    bindq (of_result (ok_or (internal_problem ''publication service not configured'') committer)) (\<lambda>commit.
    bindq (map_errq route_versioning_error_to_api_error (commit
      \<lparr>pcd_draft_id = RouteDraftId i, pcd_expected_revision = prq_expected_revision body, pcd_actor_id = actor,
       pcd_idempotency_key = key, pcd_edit_summary = prq_edit_summary body\<rparr>)) (\<lambda>r.
    bindq (of_result (ok_or (internal_problem ''failed to read corrected statistics from publication result'')
      (ps_statistics J (pcr_corrected_statistics_json r)))) (\<lambda>stats.
    returnq \<lparr>prs_route_version_id = version_uuid (pcr_route_version_id r),
      prs_version_number = pcr_version_number r, prs_draft_id = draft_uuid (pcr_draft_id r),
      prs_corrected_statistics = \<lparr>csd_distance_meters = cs_distance_meters stats,
        csd_point_count = cs_point_count stats, csd_calculation_version = cs_calculation_version stats\<rparr>\<rparr>))))"

end
