(* ===== verification/Publication_Correctness.thy ===== *)
theory Publication_Correctness
  imports Publication_Commit
begin

text \<open>
  What the publication transaction guarantees: it stores the version that the domain computes, with everything
  that belongs to it, or changes nothing; repeating a request repeats its answer; a key reused for something
  else is refused; and it accepts drafts that the domain's validation rejects.
\<close>

section \<open>The geometry of the transaction and of the domain\<close>

abbreviation position_of :: "f64 \<times> f64 \<Rightarrow> position" where
  "position_of p \<equiv> \<lparr>pos_lat = fst p, pos_lng = snd p\<rparr>"

lemma pub_total_distance_eq: "pub_total_distance M flat = compute_total_distance M (map position_of flat)"
  by (simp add: pub_total_distance_def compute_total_distance_def windows2_map foldl_map_pairs pub_haversine_def
      corrected_haversine_def cong: if_cong)

definition box_value :: "'j publication_serde \<Rightarrow> bounding_box \<Rightarrow> 'j" where
  "box_value J b =
    (let corner = (\<lambda>p. json_object (ps_json J)
       [(''latitude'', json_number (ps_json J) (pos_lat p)), (''longitude'', json_number (ps_json J) (pos_lng p))])
     in json_object (ps_json J) [(''south_west'', corner (south_west b)), (''north_east'', corner (north_east b))])"

lemma bounding_box_json_eq:
  "flat \<noteq> [] \<Longrightarrow> \<exists>b. from_coordinates (map position_of flat) = Some b \<and> bounding_box_json J flat = box_value J b"
  by (simp add: from_coordinates_def extend_box_fold bounding_box_json_def box_value_def fold_min_def fold_max_def
      Let_def comp_def)

definition statistics_value :: "'j publication_serde \<Rightarrow> nat \<Rightarrow> corrected_statistics \<Rightarrow> 'j" where
  "statistics_value J n s = json_object (ps_json J)
     [(''distance_meters'', json_number (ps_json J) (cs_distance_meters s)), (''point_count'', ps_int J (int n)),
      (''calculation_version'', json_string (ps_json J) (cs_calculation_version s))]"

lemma corrected_statistics_json_eq:
  "corrected_statistics_json M J flat =
    statistics_value J (length flat) (calculate_from_geometry M (map position_of flat))"
  by (simp add: corrected_statistics_json_def statistics_value_def calculate_from_geometry_def pub_total_distance_eq
      CALCULATION_VERSION_def)

section \<open>What a request does\<close>

definition event_of :: "'j publication_serde \<Rightarrow> publication_commit_data \<Rightarrow> 'j publication_tables \<Rightarrow> 'j outbox_row option" where
  "event_of J d t = find (\<lambda>r. ob_aggregate_type r = ''route_version'' \<and>
     ob_correlation_id r = Some (correlation_of J (pcd_idempotency_key d))) (t_outbox (pt_rows t))"

definition dangling :: "'j publication_serde \<Rightarrow> 'j publication_tables \<Rightarrow> 'j outbox_row \<Rightarrow> bool" where
  "dangling J t ev \<longleftrightarrow>
    (case ps_parse_uuid J (ob_aggregate_id ev) of Ok i \<Rightarrow> i \<notin> vr_id ` set (t_versions (pt_rows t)) | Err _ \<Rightarrow> True)"

text \<open>A publication of the draft as the version after the latest one, by a key that no event with a version has.\<close>

definition stores_version ::
  "libm \<Rightarrow> 'j publication_serde \<Rightarrow> uuid \<Rightarrow> uuid \<Rightarrow> time \<Rightarrow> publication_commit_data \<Rightarrow> 'j publication_tables \<Rightarrow>
    'j publication_tables \<Rightarrow> 'j route_draft_row \<Rightarrow> position list \<Rightarrow> 'j version_row \<Rightarrow> 'j version_row \<Rightarrow> bool" where
  "stores_version M J new_id event_id now d t t' draft flat latest v \<longleftrightarrow> (let rows = pt_rows t in
     latest_version (rd_activity_id draft) rows = Some latest \<and> new_id \<notin> vr_id ` set (t_versions rows) \<and>
     vr_id v = new_id \<and> vr_activity_id v = rd_activity_id draft \<and> vr_parent_version_id v = Some (vr_id latest) \<and>
     vr_version_number v = vr_version_number latest + 1 \<and> vr_geometry_json v = rd_geometry_json draft \<and>
     Some (vr_bounding_box_json v) = map_option (box_value J) (from_coordinates flat) \<and>
     vr_corrected_statistics_json v = statistics_value J (length flat) (calculate_from_geometry M flat) \<and>
     vr_calculation_version v = CALCULATION_VERSION \<and> vr_edit_summary v = pcd_edit_summary d \<and>
     vr_created_by v = rd_owner_id draft \<and>
     t' = \<lparr>pt_route_drafts = mark_draft_published now (rd_id draft) (pt_route_drafts t),
       pt_rows = rows\<lparr>t_versions := t_versions rows @ [v],
         t_activities := map (\<lambda>a. if act_id a = rd_activity_id draft
           then a\<lparr>act_current_route_version_id := Some new_id,
                  act_corrected_summary_json := Some (vr_corrected_statistics_json v)\<rparr> else a) (t_activities rows),
         t_audit := t_audit rows @ [publication_audit J d v],
         t_outbox := t_outbox rows @ [publication_event J event_id d v]\<rparr>\<rparr>)"

definition publishes_draft ::
  "libm \<Rightarrow> 'j publication_serde \<Rightarrow> uuid \<Rightarrow> uuid \<Rightarrow> time \<Rightarrow> publication_commit_data \<Rightarrow>
    'j publication_tables \<Rightarrow> 'j publication_tables \<Rightarrow> 'j publication_result \<Rightarrow> bool" where
  "publishes_draft M J new_id event_id now d t t' r \<longleftrightarrow>
    (\<exists>draft segs latest v. draft \<in> set (pt_route_drafts t) \<and> rd_id draft = draft_uuid (pcd_draft_id d) \<and>
      rd_owner_id draft = user_uuid (pcd_actor_id d) \<and> rd_state draft = ''active'' \<and>
      rd_revision draft = pcd_expected_revision d \<and> ps_points J (rd_geometry_json draft) = Ok segs \<and>
      2 \<le> length (concat segs) \<and> pred_option (dangling J t) (event_of J d t) \<and>
      stores_version M J new_id event_id now d t t' draft (map position_of (concat segs)) latest v \<and>
      r = \<lparr>pcr_route_version_id = RouteVersionId new_id, pcr_version_number = vr_version_number v,
        pcr_draft_id = pcd_draft_id d, pcr_corrected_statistics_json = vr_corrected_statistics_json v\<rparr>)"

text \<open>The answer of a request that an event of its key recorded before.\<close>

definition replays :: "'j publication_serde \<Rightarrow> publication_commit_data \<Rightarrow> 'j publication_tables \<Rightarrow> 'j publication_result \<Rightarrow> bool" where
  "replays J d t r \<longleftrightarrow> (\<exists>ev i v. event_of J d t = Some ev \<and>
     ps_fingerprint J (ob_payload ev) \<in> {None, Some (compute_payload_fingerprint J d)} \<and>
     ps_parse_uuid J (ob_aggregate_id ev) = Ok i \<and> find (\<lambda>v. vr_id v = i) (t_versions (pt_rows t)) = Some v \<and>
     r = \<lparr>pcr_route_version_id = RouteVersionId i, pcr_version_number = vr_version_number v,
       pcr_draft_id = pcd_draft_id d, pcr_corrected_statistics_json = vr_corrected_statistics_json v\<rparr>)"

section \<open>The steps\<close>

lemma find_version_None: "find (\<lambda>v. vr_id v = i) vs = None \<longleftrightarrow> i \<notin> vr_id ` set vs"
  by (auto simp: find_None_iff)

lemma check_idempotency_Ok:
  assumes "check_idempotency J d db = (Ok x, db')"
  shows "tables db' = tables db" and "pred_option (dangling J (tables db)) (event_of J d (tables db))"
  using assms by (auto simp: check_idempotency_def bindq_Ok pub_db_def map_errq_Ok select_Ok refuse_def event_of_def
      dangling_def map_err_eq_Ok find_version_None split: option.splits if_splits)

lemma check_idempotency_Replayed:
  "check_idempotency J d db = (Err (Replayed r), db') \<Longrightarrow> replays J d (tables db) r"
  by (auto simp: check_idempotency_def bindq_Err pub_db_def map_errq_Ok map_errq_Err select_Ok refuse_def replays_def
      event_of_def map_err_def split: option.splits if_splits result.splits)

lemma lock_draft_Ok:
  assumes "lock_draft d db = (Ok r, db')"
  shows "tables db' = tables db" and "r \<in> set (pt_route_drafts (tables db))"
    and "rd_id r = draft_uuid (pcd_draft_id d)" and "rd_owner_id r = user_uuid (pcd_actor_id d)"
    and "rd_state r = ''active''" and "rd_revision r = pcd_expected_revision d"
  using assms by (auto simp: lock_draft_def bindq_Ok pub_db_def map_errq_Ok select_Ok refuse_def find_Some_iff
      split: option.splits if_splits)

lemma flat_coords_Ok:
  assumes "flat_coords J r db = (Ok flat, db')"
  obtains segs where "db' = db" and "ps_points J (rd_geometry_json r) = Ok segs" and "flat = concat segs"
    and "2 \<le> length (concat segs)"
  using assms by (auto simp: flat_coords_def bindq_Ok refuse_def map_err_eq_Ok split: if_splits)

lemma never_replayed [simp]:
  "lock_draft d db \<noteq> (Err (Replayed r), db')" "flat_coords J w db \<noteq> (Err (Replayed r), db')"
  "pub_db what m db \<noteq> (Err (Replayed r), db')"
  by (auto simp: lock_draft_def flat_coords_def bindq_Err pub_db_def map_errq_Err refuse_def map_err_def
      split: option.splits if_splits result.splits)

lemma body_Replayed:
  "publication_body M J new_id event_id now d db = (Err (Replayed r), db') \<Longrightarrow>
    check_idempotency J d db = (Err (Replayed r), db')"
  by (auto simp: publication_body_def bindq_Err Let_def ok_or_def split: option.splits)

lemma on_rows_Ok: "on_rows f t = (Ok x, t') \<longleftrightarrow> (\<exists>rows. f (pt_rows t) = (Ok x, rows) \<and> t' = t\<lparr>pt_rows := rows\<rparr>)"
  by (auto simp: on_rows_def split: prod.splits)

lemma body_publishes:
  assumes "publication_body M J new_id event_id now d db = (Ok r, db')"
  shows "publishes_draft M J new_id event_id now d (tables db) (tables db') r"
proof -
  from assms obtain db1 db2 draft flat db3 where
    check: "check_idempotency J d db = (Ok (), db1)" and lock: "lock_draft d db1 = (Ok draft, db2)"
    and flat: "flat_coords J draft db2 = (Ok flat, db3)"
    by (auto simp: publication_body_def bindq_Ok)
  from flat_coords_Ok [OF flat] obtain segs where segs: "db3 = db2" "ps_points J (rd_geometry_json draft) = Ok segs"
    "flat = concat segs" "2 \<le> length (concat segs)" .
  from check_idempotency_Ok [OF check] lock_draft_Ok [OF lock] segs(1)
  have t: "tables db3 = tables db" and draft: "draft \<in> set (pt_route_drafts (tables db))"
    "rd_id draft = draft_uuid (pcd_draft_id d)" "rd_owner_id draft = user_uuid (pcd_actor_id d)"
    "rd_state draft = ''active''" "rd_revision draft = pcd_expected_revision d"
    "pred_option (dangling J (tables db)) (event_of J d (tables db))" by simp_all
  have "concat segs \<noteq> []" using segs(4) by (metis list.size(3) not_numeral_le_zero)
  then obtain bb where bb: "from_coordinates (map position_of flat) = Some bb" "bounding_box_json J flat = box_value J bb"
    using bounding_box_json_eq segs(3) by blast
  let ?rows = "pt_rows (tables db)"
  from assms check lock flat t obtain latest rows1 rows2 rows3 where
    latest: "latest_version (rd_activity_id draft) ?rows = Some latest" and
    ins: "insert_version (publication_version M J new_id d draft flat latest) ?rows = (Ok (), rows1)" and
    act: "set_current_version (rd_activity_id draft) new_id (corrected_statistics_json M J flat) rows1 = (Ok (), rows2)" and
    out: "publish_outbox (publication_event J event_id d (publication_version M J new_id d draft flat latest))
      (append_audit (publication_audit J d (publication_version M J new_id d draft flat latest)) rows2) = (Ok (), rows3)" and
    t': "tables db' = \<lparr>pt_route_drafts = mark_draft_published now (draft_uuid (pcd_draft_id d)) (pt_route_drafts (tables db)),
      pt_rows = rows3\<rparr>" and
    r: "r = \<lparr>pcr_route_version_id = RouteVersionId new_id, pcr_version_number = vr_version_number latest + 1,
      pcr_draft_id = pcd_draft_id d, pcr_corrected_statistics_json = corrected_statistics_json M J flat\<rparr>"
    by (auto simp: publication_body_def bindq_Ok Let_def pub_db_def map_errq_Ok select_Ok query_Ok modify_Ok on_rows_Ok
        result_simps publication_version_def)
  let ?v = "publication_version M J new_id d draft flat latest"
  have "stores_version M J new_id event_id now d (tables db) (tables db') draft (map position_of flat) latest ?v"
    unfolding stores_version_def Let_def using bb draft(2,3) latest ins act out t'
    by (auto simp: publication_version_def insert_version_def set_current_version_def publish_outbox_def append_audit_def
        corrected_statistics_json_eq CALCULATION_VERSION_def split: if_splits)
  with segs draft r show ?thesis
    unfolding publishes_draft_def
    by (intro exI [of _ draft] exI [of _ segs] exI [of _ latest] exI [of _ ?v])
      (simp add: publication_version_def corrected_statistics_json_eq)
qed

section \<open>Atomicity\<close>

lemma transaction_fails:
  assumes "transaction_with f g body db = (Err e, db')"
  obtains e0 where "e = f e0" | e0 where "e = g e0" | db1 where "body (db\<lparr>faults := tl (faults db)\<rparr>) = (Err e, db1)"
  using assms by (auto simp: transaction_with_def bindq_Err map_errq_Err map_errq_Ok select_Ok split: prod.splits result.splits)

lemma commit_outcomes:
  "case pg_commit_publication M J new_id event_id now d db of
     (Ok r, db') \<Rightarrow> replays J d (tables db) r \<and> tables db' = tables db \<or>
       publishes_draft M J new_id event_id now d (tables db) (tables db') r
   | (Err _, db') \<Rightarrow> tables db' = tables db"
proof -
  let ?f = "\<lambda>e. Refused (PersistenceError (RvDatabaseText ''failed to begin transaction'' e))"
  let ?g = "\<lambda>e. Refused (PersistenceError (RvDatabaseText ''failed to commit transaction'' e))"
  obtain q db' where run: "transaction_with ?f ?g (publication_body M J new_id event_id now d) db = (q, db')" by fastforce
  show ?thesis
  proof (cases q)
    case (Ok r)
    from run [unfolded Ok] obtain db1 where "publication_body M J new_id event_id now d (db\<lparr>faults := tl (faults db)\<rparr>) = (Ok r, db1)"
      and "db' = db1\<lparr>faults := tl (faults db1)\<rparr>" unfolding transaction_Ok by blast
    with body_publishes [OF this(1)] run Ok show ?thesis by (simp add: pg_commit_publication_def)
  next
    case (Err x)
    then have t: "tables db' = tables db" using run transaction_Err by metis
    show ?thesis
    proof (cases x)
      case (Replayed r)
      from transaction_fails [OF run [unfolded Err]] Replayed obtain db1 where
        "publication_body M J new_id event_id now d (db\<lparr>faults := tl (faults db)\<rparr>) = (Err (Replayed r), db1)" by auto
      from check_idempotency_Replayed [OF body_Replayed [OF this]] run Err Replayed t show ?thesis
        by (simp add: pg_commit_publication_def)
    qed (use run Err t in \<open>simp add: pg_commit_publication_def\<close>)
  qed
qed

text \<open>C10. Publication is atomic: under any faults, a request that succeeds either repeats the answer recorded for its
  key and changes nothing, or it publishes the caller's own active draft of the expected revision: the version it
  stores follows the latest one, keeps the geometry of the draft and has the bounding box and the statistics that
  the domain computes, the activity points at it, the draft is published, and one audit entry and one event are
  written.  A request that fails changes nothing.\<close>

theorem publication_atomic:
  "case pg_commit_publication M J new_id event_id now d db of
     (Ok r, db') \<Rightarrow> replays J d (tables db) r \<and> tables db' = tables db \<or>
       publishes_draft M J new_id event_id now d (tables db) (tables db') r
   | (Err _, db') \<Rightarrow> tables db' = tables db"
  by (rule commit_outcomes)

section \<open>Repetition\<close>

text \<open>Every event of a version names a stored version and carries a fingerprint.\<close>

definition events_sound :: "'j publication_serde \<Rightarrow> 'j publication_tables \<Rightarrow> bool" where
  "events_sound J t \<longleftrightarrow> (\<forall>ev\<in>set (t_outbox (pt_rows t)). ob_aggregate_type ev = ''route_version'' \<longrightarrow>
     \<not> dangling J t ev \<and> ps_fingerprint J (ob_payload ev) \<noteq> None)"

text \<open>The last member of an object that \<open>json!\<close> builds is found under its name.\<close>

definition reads_fingerprint :: "'j publication_serde \<Rightarrow> bool" where
  "reads_fingerprint J \<longleftrightarrow> (\<forall>kvs s. ps_fingerprint J (json_object (ps_json J)
     (kvs @ [(''_fingerprint'', json_string (ps_json J) s)])) = Some s)"

lemma event_fingerprint:
  assumes "reads_fingerprint J"
  shows "ps_fingerprint J (ob_payload (publication_event J e d v)) = Some (compute_payload_fingerprint J d)"
proof -
  have "[a1, a2, a3, a4, a5, a6] = [a1, a2, a3, a4, a5] @ [a6]" for a1 a2 a3 a4 a5 a6 :: "string \<times> 'a" by simp
  with assms show ?thesis
    unfolding publication_event_def reads_fingerprint_def outbox_row.simps by metis
qed

definition recorded :: "'j publication_serde \<Rightarrow> publication_commit_data \<Rightarrow> 'j publication_tables \<Rightarrow> 'j publication_result \<Rightarrow> bool" where
  "recorded J d t r \<longleftrightarrow> replays J d t r \<and>
    (\<exists>ev. event_of J d t = Some ev \<and> ps_fingerprint J (ob_payload ev) = Some (compute_payload_fingerprint J d))"

lemma event_of_sound: "events_sound J t \<Longrightarrow> event_of J d t = Some ev \<Longrightarrow>
    \<not> dangling J t ev \<and> ps_fingerprint J (ob_payload ev) \<noteq> None"
  unfolding events_sound_def event_of_def find_Some_iff by (metis nth_mem)

lemma published_recorded:
  assumes "publishes_draft M J new_id event_id now d t t' r" and "events_sound J t" and "reads_fingerprint J"
    and "ps_parse_uuid J (uuid_to_string new_id) = Ok new_id"
  shows "recorded J d t' r" and "events_sound J t'"
proof -
  from assms(1) obtain draft flat latest v where stored: "stores_version M J new_id event_id now d t t' draft flat latest v"
    and r: "r = \<lparr>pcr_route_version_id = RouteVersionId new_id, pcr_version_number = vr_version_number v,
        pcr_draft_id = pcd_draft_id d, pcr_corrected_statistics_json = vr_corrected_statistics_json v\<rparr>"
    and old: "pred_option (dangling J t) (event_of J d t)"
    unfolding publishes_draft_def by blast
  from stored have new: "new_id \<notin> vr_id ` set (t_versions (pt_rows t))" "vr_id v = new_id"
    and t': "t_versions (pt_rows t') = t_versions (pt_rows t) @ [v]"
      "t_outbox (pt_rows t') = t_outbox (pt_rows t) @ [publication_event J event_id d v]"
    by (simp_all add: stores_version_def Let_def)
  from old event_of_sound [OF assms(2)] have "event_of J d t = None" by (cases "event_of J d t") auto
  then have ev: "event_of J d t' = Some (publication_event J event_id d v)"
    unfolding event_of_def t' find_append by (simp add: publication_event_def)
  have aggregate: "ob_aggregate_id (publication_event J event_id d v) = uuid_to_string new_id"
    by (simp add: publication_event_def new(2))
  have "find (\<lambda>v. vr_id v = new_id) (t_versions (pt_rows t)) = None" using new(1) by (simp add: find_version_None)
  then have "find (\<lambda>v. vr_id v = new_id) (t_versions (pt_rows t')) = Some v"
    unfolding t' find_append by (simp add: new(2))
  with ev aggregate assms(4) event_fingerprint [OF assms(3)] r show "recorded J d t' r"
    by (simp add: recorded_def replays_def)
  have "\<not> dangling J t' ev \<longleftrightarrow> (\<exists>i. ps_parse_uuid J (ob_aggregate_id ev) = Ok i \<and>
      (i \<in> vr_id ` set (t_versions (pt_rows t)) \<or> i = new_id))" for ev
    by (auto simp: dangling_def t' new(2) split: result.splits)
  moreover have "\<not> dangling J t ev \<longleftrightarrow> (\<exists>i. ps_parse_uuid J (ob_aggregate_id ev) = Ok i \<and>
      i \<in> vr_id ` set (t_versions (pt_rows t)))" for ev
    by (auto simp: dangling_def split: result.splits)
  ultimately show "events_sound J t'"
    using assms(2,4) aggregate event_fingerprint [OF assms(3)] unfolding events_sound_def t' by auto
qed

lemma replayed_recorded: "replays J d t r \<Longrightarrow> events_sound J t \<Longrightarrow> recorded J d t r"
  unfolding recorded_def replays_def by (auto dest: event_of_sound)

lemma commit_recorded:
  assumes "recorded J d t r" and "tables db = t" and "faults db = []"
  shows "pg_commit_publication M J i e now d db = (Ok r, db)"
proof -
  have "check_idempotency J d db = (Err (Replayed r), db)"
    using assms by (auto simp: recorded_def replays_def check_idempotency_def event_of_def bindq_def pub_db_def map_errq_def
        select_faultless)
  then have "publication_body M J i e now d db = (Err (Replayed r), db)" by (simp add: publication_body_def bindq_def)
  from transaction_faultless_Err [where body = "publication_body M J i e now d", OF assms(3) this] show ?thesis by (simp add: pg_commit_publication_def)
qed

lemma commit_conflict:
  assumes "recorded J d t r" and "tables db = t" and "faults db = []"
    and "correlation_of J (pcd_idempotency_key d') = correlation_of J (pcd_idempotency_key d)"
    and "compute_payload_fingerprint J d' \<noteq> compute_payload_fingerprint J d"
  shows "pg_commit_publication M J i e now d' db = (Err IdempotencyConflict, db)"
proof -
  have "check_idempotency J d' db = (Err (Refused IdempotencyConflict), db)"
    using assms by (auto simp: recorded_def replays_def check_idempotency_def event_of_def bindq_def pub_db_def map_errq_def
        select_faultless refuse_def)
  then have "publication_body M J i e now d' db = (Err (Refused IdempotencyConflict), db)"
    by (simp add: publication_body_def bindq_def)
  from transaction_faultless_Err [where body = "publication_body M J i e now d'", OF assms(3) this] show ?thesis by (simp add: pg_commit_publication_def)
qed

lemma commit_recorded_after:
  assumes "pg_commit_publication M J i e now d db = (Ok r, db1)" and "events_sound J (tables db)" and "reads_fingerprint J"
    and "ps_parse_uuid J (uuid_to_string i) = Ok i"
  shows "recorded J d (tables db1) r \<and> events_sound J (tables db1)"
proof -
  from commit_outcomes [where M = M and J = J and new_id = i and event_id = e and now = now and d = d and db = db] assms(1)
  consider "replays J d (tables db) r" "tables db1 = tables db"
    | "publishes_draft M J i e now d (tables db) (tables db1) r" by auto
  then show ?thesis
    by cases (use assms published_recorded replayed_recorded in auto)
qed

lemma recorded_other_actor: "recorded J d t r \<Longrightarrow> recorded J (d\<lparr>pcd_actor_id := u\<rparr>) t r"
  by (auto simp: recorded_def replays_def event_of_def compute_payload_fingerprint_def)

text \<open>C20. A publication request can be repeated: once it was answered, the same request, by whatever caller,
  with whatever ids and clock, is answered alike and changes nothing, and a request with the same key and another
  fingerprint is refused.\<close>

theorem publication_repeatable:
  assumes "pg_commit_publication M J i e now d db = (Ok r, db1)" and "faults db1 = []"
    and "events_sound J (tables db)" and "reads_fingerprint J" and "ps_parse_uuid J (uuid_to_string i) = Ok i"
  shows "pg_commit_publication M J i' e' now' (d\<lparr>pcd_actor_id := u\<rparr>) db1 = (Ok r, db1) \<and>
    (correlation_of J (pcd_idempotency_key d') = correlation_of J (pcd_idempotency_key d) \<and>
      compute_payload_fingerprint J d' \<noteq> compute_payload_fingerprint J d \<longrightarrow>
      pg_commit_publication M J i' e' now' d' db1 = (Err IdempotencyConflict, db1))"
proof -
  from commit_recorded_after [OF assms(1,3-5)] have "recorded J d (tables db1) r" by blast
  from commit_recorded [OF recorded_other_actor [OF this] refl assms(2)] commit_conflict [OF this refl assms(2)]
  show ?thesis by blast
qed

section \<open>An example\<close>

text \<open>JSON as strings: an object is its last member, which is all the examples read.\<close>

definition sample_publication_serde :: "string publication_serde" where
  "sample_publication_serde =
    \<lparr>ps_json = \<lparr>segments_to_value = (\<lambda>_. None), box_to_value = (\<lambda>_. None), positions_to_value = (\<lambda>_. None),
       recorded_to_value = (\<lambda>_. None), corrected_to_value = (\<lambda>_. None), json_string = (\<lambda>s. s),
       json_number = (\<lambda>_. ''0''), json_option = (\<lambda>_. ''null''), json_object = (\<lambda>kvs. snd (last kvs))\<rparr>,
     ps_int = (\<lambda>_. ''0''), ps_points = (\<lambda>_. Ok [[(Fin 46, Fin 7)], [(Fin 47, Fin 8)]]), ps_fingerprint = Some,
     ps_statistics = (\<lambda>_. None),
     ps_parse_uuid = (\<lambda>s. if s = uuid_to_string 9 then Ok 9 else Err ''invalid''),
     ps_hash = (\<lambda>_ _ s. if s = None then 0 else 1)\<rparr>"

definition sample_publication_db :: "string publication_tables db" where
  "sample_publication_db = \<lparr>tables =
     \<lparr>pt_route_drafts = [\<lparr>rd_id = 1, rd_owner_id = 7, rd_activity_id = 3, rd_state = ''active'', rd_revision = 4,
        rd_geometry_json = ''[]'', rd_updated_at = 0\<rparr>],
      pt_rows = \<lparr>t_imports = [], t_artifacts = [], t_revisions = [], t_tracks = [],
        t_activities = [\<lparr>act_id = 3, act_owner_id = 7, act_title = ''Ridge'', act_type = ''hike'', act_started_at = None,
          act_ended_at = None, act_current_route_version_id = Some 5, act_recorded_summary_json = None,
          act_corrected_summary_json = None\<rparr>],
        t_versions = [\<lparr>vr_id = 5, vr_activity_id = 3, vr_parent_version_id = None, vr_version_number = 1,
          vr_geometry_json = ''[]'', vr_bounding_box_json = ''{}'', vr_corrected_statistics_json = ''{}'',
          vr_calculation_version = ''v1.0'', vr_edit_summary = None, vr_created_by = 7\<rparr>],
        t_audit = [], t_outbox = [], t_users = [7]\<rparr>\<rparr>, faults = []\<rparr>"

definition sample_publication :: publication_commit_data where
  "sample_publication = \<lparr>pcd_draft_id = RouteDraftId 1, pcd_expected_revision = 4, pcd_actor_id = UserId 7,
     pcd_idempotency_key = ''k'', pcd_edit_summary = None\<rparr>"

lemma sample_publication_run:
  "\<exists>r db1. pg_commit_publication M sample_publication_serde 9 8 100 sample_publication sample_publication_db = (Ok r, db1) \<and>
    faults db1 = [] \<and> pcr_version_number r = 2"
  by (simp add: pg_commit_publication_def transaction_with_def publication_body_def check_idempotency_def lock_draft_def
      flat_coords_def pub_db_def refuse_def bindq_def map_errq_def select_faultless query_faultless modify_faultless
      sample_publication_db_def sample_publication_def sample_publication_serde_def latest_version_def ok_or_def Let_def
      on_rows_def insert_version_def set_current_version_def publish_outbox_def append_audit_def publication_version_def)

lemma sample_publication_sound:
  "events_sound sample_publication_serde (tables sample_publication_db)" "reads_fingerprint sample_publication_serde"
  "ps_parse_uuid sample_publication_serde (uuid_to_string 9) = Ok 9"
  by (simp_all add: events_sound_def sample_publication_db_def reads_fingerprint_def sample_publication_serde_def)

lemma hex16_distinct: "hex16 1 \<noteq> hex16 0"
proof -
  have "last (hex16 w) = hex_digit (unat (take_bit 4 w))" for w by (simp add: hex16_def last_map)
  from this [of 0] this [of 1] show ?thesis by (auto simp: hex_digit_def)
qed

theorem publication_repeatable_witness:
  "\<exists>r db1. pg_commit_publication sample_libm sample_publication_serde 9 8 100 sample_publication sample_publication_db =
      (Ok r, db1) \<and> pcr_version_number r = 2 \<and>
    pg_commit_publication sample_libm sample_publication_serde 11 12 200 (sample_publication\<lparr>pcd_actor_id := UserId 6\<rparr>) db1 =
      (Ok r, db1) \<and>
    pg_commit_publication sample_libm sample_publication_serde 11 12 200
      (sample_publication\<lparr>pcd_edit_summary := Some ''Shortcut''\<rparr>) db1 = (Err IdempotencyConflict, db1)"
proof -
  obtain r db1 where run: "pg_commit_publication sample_libm sample_publication_serde 9 8 100 sample_publication
      sample_publication_db = (Ok r, db1)" "faults db1 = []" "pcr_version_number r = 2"
    using sample_publication_run by blast
  have "compute_payload_fingerprint sample_publication_serde (sample_publication\<lparr>pcd_edit_summary := Some ''Shortcut''\<rparr>) \<noteq>
      compute_payload_fingerprint sample_publication_serde sample_publication"
    by (simp add: compute_payload_fingerprint_def sample_publication_serde_def sample_publication_def hex16_distinct)
  with publication_repeatable [OF run(1,2) sample_publication_sound, of 11 12 200 "UserId 6"
      "sample_publication\<lparr>pcd_edit_summary := Some ''Shortcut''\<rparr>"] run show ?thesis by auto
qed

text \<open>
  The transaction validates less than the domain: the draft just published has two segments of a single point each,
  for which \<open>validate_for_publication\<close> reports errors.
\<close>

lemma sample_geometry_invalid:
  "publication_errors (d\<lparr>geometry := map (map (\<lambda>p. \<lparr>coordinate = \<lparr>latitude = fst p, longitude = snd p\<rparr>, rp_elevation = None\<rparr>))
     [[(Fin 46, Fin 7)], [(Fin 47, Fin 8)]]\<rparr>) \<noteq> []"
  by (simp add: publication_errors_def segment_errors_def MIN_POINTS_PER_SEGMENT_def)

end
