(* ===== verification/Route_Reads.thy ===== *)
theory Route_Reads
  imports Activity_Api Gpx_Generator
begin

text \<open>
  What is read of routes: recorded routes (\<open>crates/app/src/recorded_activity/queries.rs\<close> and \<open>repository.rs\<close>,
  \<open>crates/infrastructure/src/recorded_route_persistence.rs\<close>, \<open>crates/api/src/recorded_route.rs\<close>) and route
  versions (\<open>crates/app/src/route_versioning/queries.rs\<close> and \<open>repository.rs\<close>,
  \<open>crates/platform/src/route_version_persistence.rs\<close>, \<open>crates/api/src/route_versioning.rs\<close>).  The platform
  crate is not a member of the workspace, but holds the only implementation of the repository of versions.  Its
  statements name columns that no migration creates; its table is modelled as the statements describe it.
\<close>

section \<open>Ownership\<close>

text \<open>A query fails with an error of its component, or with the panic of a title.\<close>

datatype 'e read_failure = ReadError 'e | ReadPanic

definition owned_activity ::
  "'e \<Rightarrow> (db_error \<Rightarrow> 'e) \<Rightarrow> activity_id \<Rightarrow> user_id \<Rightarrow> ('s, 'j) activity_repository \<Rightarrow>
    ('s, 'j activity, 'e read_failure) step" where
  "owned_activity missing persistence i owner R =
    bindq (map_errq (\<lambda>e. case e of
        TitleSlicePanic \<Rightarrow> ReadPanic
      | activity_catalog_error.PersistenceError m \<Rightarrow> ReadError (persistence m)
      | _ \<Rightarrow> ReadError missing) (act_find_by_id R i)) (\<lambda>found.
    of_result (ok_or (ReadError missing) (case found of
        Some a \<Rightarrow> if ac_owner_id a = owner \<and> ac_lifecycle_state a \<noteq> Deleted then Some a else None
      | None \<Rightarrow> None)))"

section \<open>Recorded routes\<close>

record route_statistics =
  ru_distance_meters :: f64
  ru_elevation_gain_meters :: "f64 option"
  ru_elevation_loss_meters :: "f64 option"
  ru_point_count :: u32
  ru_segment_count :: u32

record recorded_route_data =
  rdt_activity_id :: uuid
  rdt_segments :: "position list list"
  rdt_bounding_box :: bounding_box
  rdt_statistics :: route_statistics

record recorded_route_preview =
  rpv_activity_id :: uuid
  rpv_bounding_box :: bounding_box
  rpv_statistics :: route_statistics

record 's recorded_route_repository =
  rr_get_route :: "uuid \<Rightarrow> ('s, recorded_route_data option, recorded_activity_error) step"
  rr_get_preview :: "uuid \<Rightarrow> ('s, recorded_route_preview option, recorded_activity_error) step"

datatype recorded_route_result = RouteFull recorded_route_data | RoutePreview recorded_route_preview

definition get_recorded_route ::
  "uuid \<Rightarrow> user_id \<Rightarrow> bool \<Rightarrow> ('s, 'j) activity_repository \<Rightarrow> 's recorded_route_repository \<Rightarrow>
    ('s, recorded_route_result, recorded_activity_error read_failure) step" where
  "get_recorded_route i owner preview A R =
    bindq (owned_activity recorded_activity_error.NotFound (\<lambda>e. Persistence (RaDatabase e)) (ActivityId i) owner A) (\<lambda>a.
    if preview
    then bindq (map_errq ReadError (rr_get_preview R (activity_uuid (ac_id a)))) (\<lambda>p.
      of_result (ok_or (ReadError recorded_activity_error.NotFound) (map_option RoutePreview p)))
    else bindq (map_errq ReadError (rr_get_route R (activity_uuid (ac_id a)))) (\<lambda>r.
      of_result (ok_or (ReadError recorded_activity_error.NotFound) (map_option RouteFull r))))"

text \<open>\<open>serde_json::Value\<close>; a number is what \<open>as_f64\<close> gives, and the last of equal keys wins.\<close>

datatype json = JNull | JBool bool | JNumber f64 | JString string | JArray "json list" | JObject "(string \<times> json) list"

fun json_get :: "string \<Rightarrow> json \<Rightarrow> json option" where
  "json_get k (JObject kvs) = map_of (rev kvs) k"
| "json_get k _ = None"

fun as_array :: "json \<Rightarrow> json list option" where
  "as_array (JArray xs) = Some xs"
| "as_array _ = None"

fun as_f64 :: "json \<Rightarrow> f64 option" where
  "as_f64 (JNumber x) = Some x"
| "as_f64 _ = None"

definition keep_segment :: "position list \<Rightarrow> position list option" where
  "keep_segment coords = (if coords = [] then None else Some coords)"

definition point_of_object :: "json \<Rightarrow> position option" where
  "point_of_object p =
    Option.bind (json_get ''coordinate'' p) (\<lambda>c.
    Option.bind (Option.bind (json_get ''latitude'' c) as_f64) (\<lambda>lat.
    Option.bind (Option.bind (json_get ''longitude'' c) as_f64) (\<lambda>lng. ok (position_new lat lng))))"

definition point_of_pair :: "json \<Rightarrow> position option" where
  "point_of_pair p =
    Option.bind (as_array p) (\<lambda>arr.
    Option.bind (Option.bind (if arr = [] then None else Some (hd arr)) as_f64) (\<lambda>lng.
    Option.bind (Option.bind (if length arr < 2 then None else Some (arr ! 1)) as_f64) (\<lambda>lat. ok (position_new lat lng))))"

definition parse_geometry_legacy :: "json \<Rightarrow> position list list" where
  "parse_geometry_legacy v =
    (case Option.bind (json_get ''segments'' v) as_array of
       None \<Rightarrow> []
     | Some segs \<Rightarrow> List.map_filter (\<lambda>seg. Option.bind (as_array seg) (\<lambda>points.
         keep_segment (List.map_filter point_of_pair points))) segs)"

definition parse_geometry :: "json \<Rightarrow> position list list" where
  "parse_geometry v =
    (case as_array v of
       None \<Rightarrow> parse_geometry_legacy v
     | Some segs \<Rightarrow> List.map_filter (\<lambda>seg. Option.bind (Option.bind (json_get ''points'' seg) as_array) (\<lambda>points.
         keep_segment (List.map_filter point_of_object points))) segs)"

definition corner_of_object :: "json \<Rightarrow> position option" where
  "corner_of_object c =
    Option.bind (Option.bind (json_get ''latitude'' c) as_f64) (\<lambda>lat.
    Option.bind (Option.bind (json_get ''longitude'' c) as_f64) (\<lambda>lng. ok (position_new lat lng)))"

definition parse_bounding_box :: "json \<Rightarrow> bounding_box option" where
  "parse_bounding_box v =
    Option.bind (Option.bind (json_get ''south_west'' v) corner_of_object) (\<lambda>sw.
    Option.bind (Option.bind (json_get ''north_east'' v) corner_of_object) (\<lambda>ne.
    Some \<lparr>south_west = sw, north_east = ne\<rparr>))"

definition null_box :: bounding_box where
  "null_box = \<lparr>south_west = \<lparr>pos_lat = Fin 0, pos_lng = Fin 0\<rparr>, north_east = \<lparr>pos_lat = Fin 0, pos_lng = Fin 0\<rparr>\<rparr>"

text \<open>The track of the latest revision of an activity, with the rows of \<open>Import_Persistence\<close>.\<close>

definition latest_track :: "uuid \<Rightarrow> json import_tables \<Rightarrow> json track_row option" where
  "latest_track i t =
    (case sort_key (\<lambda>(tr, sr). - sint (rr_revision_number sr))
         (filter (\<lambda>(tr, sr). rr_id sr = tr_source_revision_id tr \<and> rr_activity_id sr = i)
           (List.product (t_tracks t) (t_revisions t))) of
       [] \<Rightarrow> None | (tr, _) # _ \<Rightarrow> Some tr)"

definition track_statistics :: "json track_row \<Rightarrow> route_statistics" where
  "track_statistics r =
    \<lparr>ru_distance_meters = tr_distance_meters r, ru_elevation_gain_meters = tr_elevation_gain_meters r,
     ru_elevation_loss_meters = tr_elevation_loss_meters r, ru_point_count = tr_point_count r,
     ru_segment_count = tr_segment_count r\<rparr>"

definition track_box :: "json track_row \<Rightarrow> bounding_box" where
  "track_box r = (case parse_bounding_box (tr_bounding_box_json r) of Some b \<Rightarrow> b | None \<Rightarrow> null_box)"

definition pg_get_recorded_route ::
  "uuid \<Rightarrow> (json import_tables, recorded_route_data option, recorded_activity_error) sql" where
  "pg_get_recorded_route i =
    bindq (map_errq (\<lambda>e. Persistence (RaDatabase e)) (select (latest_track i))) (\<lambda>row.
    returnq (map_option (\<lambda>r. \<lparr>rdt_activity_id = i, rdt_segments = parse_geometry (tr_geometry_json r),
      rdt_bounding_box = track_box r, rdt_statistics = track_statistics r\<rparr>) row))"

definition pg_get_recorded_route_preview ::
  "uuid \<Rightarrow> (json import_tables, recorded_route_preview option, recorded_activity_error) sql" where
  "pg_get_recorded_route_preview i =
    bindq (map_errq (\<lambda>e. Persistence (RaDatabase e)) (select (latest_track i))) (\<lambda>row.
    returnq (map_option (\<lambda>r. \<lparr>rpv_activity_id = i, rpv_bounding_box = track_box r,
      rpv_statistics = track_statistics r\<rparr>) row))"

definition PgRecordedRouteRepository :: "json import_tables db recorded_route_repository" where
  "PgRecordedRouteRepository = \<lparr>rr_get_route = pg_get_recorded_route, rr_get_preview = pg_get_recorded_route_preview\<rparr>"

section \<open>The endpoint of recorded routes\<close>

datatype read_message = ReadText string | RecordedText ra_message | VersionText rv_message

fun recorded_route_error_to_api_error :: "recorded_activity_error \<Rightarrow> read_message api_problem" where
  "recorded_route_error_to_api_error recorded_activity_error.NotFound =
    problem 404 ''NOT_FOUND'' (ReadText ''recorded route not found'') ''/problems/not-found'' ''Not Found''"
| "recorded_route_error_to_api_error (Persistence m) =
    problem 500 ''INTERNAL_ERROR'' (RecordedText m) ''/problems/internal-error'' ''Internal Server Error''"
| "recorded_route_error_to_api_error _ =
    problem 500 ''INTERNAL_ERROR'' (ReadText ''unexpected error'') ''/problems/internal-error'' ''Internal Server Error''"

definition read_failure_answer :: "('e \<Rightarrow> 'm api_problem) \<Rightarrow> 'e read_failure \<Rightarrow> 'm api_failure" where
  "read_failure_answer f e = (case e of ReadError x \<Rightarrow> Problem (f x) | ReadPanic \<Rightarrow> Unwound)"

record segment_properties =
  sgp_segment_index :: nat
  sgp_point_count :: nat

record geo_json_geometry =
  gjg_geometry_type :: string
  gjg_coordinates :: "(f64 \<times> f64) list"

record geo_json_feature =
  gjf_feature_type :: string
  gjf_geometry :: geo_json_geometry
  gjf_properties :: segment_properties

record recorded_route_response =
  rrp_geojson_type :: string
  rrp_bbox :: "f64 list"
  rrp_features :: "geo_json_feature list"
  rrp_properties :: route_statistics

record recorded_route_preview_response =
  rpp_bbox :: "f64 list"
  rpp_point_count :: u32
  rpp_segment_count :: u32
  rpp_distance_meters :: f64
  rpp_elevation_gain_meters :: "f64 option"
  rpp_elevation_loss_meters :: "f64 option"

datatype recorded_route_answer = FullRoute string recorded_route_response | PreviewRoute recorded_route_preview_response

definition geojson_bbox :: "bounding_box \<Rightarrow> f64 list" where
  "geojson_bbox b = [pos_lng (south_west b), pos_lat (south_west b), pos_lng (north_east b), pos_lat (north_east b)]"

definition line_string :: "position list \<Rightarrow> geo_json_geometry" where
  "line_string ps = \<lparr>gjg_geometry_type = ''LineString'', gjg_coordinates = map (\<lambda>c. (pos_lng c, pos_lat c)) ps\<rparr>"

definition get_recorded_route_handler ::
  "('s, 'j) activity_repository \<Rightarrow> 's recorded_route_repository \<Rightarrow> user_id \<Rightarrow> uuid \<Rightarrow> bool \<Rightarrow>
    ('s, recorded_route_answer, read_message api_failure) step" where
  "get_recorded_route_handler A R actor i preview =
    bindq (map_errq (read_failure_answer recorded_route_error_to_api_error)
      (get_recorded_route i actor preview A R)) (\<lambda>r.
    returnq (case r of
      RouteFull d \<Rightarrow> FullRoute ''application/geo+json''
        \<lparr>rrp_geojson_type = ''FeatureCollection'', rrp_bbox = geojson_bbox (rdt_bounding_box d),
         rrp_features = map (\<lambda>(n, seg). \<lparr>gjf_feature_type = ''Feature'', gjf_geometry = line_string seg,
           gjf_properties = \<lparr>sgp_segment_index = n, sgp_point_count = length seg\<rparr>\<rparr>) (enumerate 0 (rdt_segments d)),
         rrp_properties = rdt_statistics d\<rparr>
    | RoutePreview p \<Rightarrow> PreviewRoute
        \<lparr>rpp_bbox = geojson_bbox (rpv_bounding_box p), rpp_point_count = ru_point_count (rpv_statistics p),
         rpp_segment_count = ru_segment_count (rpv_statistics p),
         rpp_distance_meters = ru_distance_meters (rpv_statistics p),
         rpp_elevation_gain_meters = ru_elevation_gain_meters (rpv_statistics p),
         rpp_elevation_loss_meters = ru_elevation_loss_meters (rpv_statistics p)\<rparr>))"

section \<open>Queries of versions\<close>

record route_version_page =
  rvp_items :: "route_version list"
  rvp_next_cursor :: "string option"
  rvp_has_more :: bool

record 's route_version_queries = "'s route_version_repository" +
  ver_find_by_id :: "route_version_id \<Rightarrow> ('s, route_version option, route_versioning_error) step"
  ver_list_by_activity ::
    "activity_id \<Rightarrow> string option \<Rightarrow> u32 \<Rightarrow> ('s, route_version_page, route_versioning_error) step"

definition verify_version_ownership ::
  "activity_id \<Rightarrow> user_id \<Rightarrow> ('s, 'j) activity_repository \<Rightarrow> ('s, unit, route_versioning_error read_failure) step" where
  "verify_version_ownership i owner A =
    bindq (owned_activity route_versioning_error.NotFound (\<lambda>e. route_versioning_error.PersistenceError (RvDatabase e))
      i owner A) (\<lambda>_. returnq ())"

definition list_route_versions ::
  "activity_id \<Rightarrow> user_id \<Rightarrow> string option \<Rightarrow> u32 option \<Rightarrow> ('s, 'j) activity_repository \<Rightarrow> 's route_version_queries \<Rightarrow>
    ('s, route_version_page, route_versioning_error read_failure) step" where
  "list_route_versions i owner cursor page_size A V =
    bindq (verify_version_ownership i owner A) (\<lambda>_.
    map_errq ReadError (ver_list_by_activity V i cursor (clamp_page_size page_size)))"

definition get_route_version ::
  "route_version_id \<Rightarrow> user_id \<Rightarrow> ('s, 'j) activity_repository \<Rightarrow> 's route_version_queries \<Rightarrow>
    ('s, route_version, route_versioning_error read_failure) step" where
  "get_route_version i owner A V =
    bindq (map_errq ReadError (ver_find_by_id V i)) (\<lambda>found.
    bindq (of_result (ok_or (ReadError route_versioning_error.NotFound) found)) (\<lambda>v.
    bindq (verify_version_ownership (rv_activity_id v) owner A) (\<lambda>_. returnq v)))"

record route_version_geometry =
  rvg_geometry :: "position list"
  rvg_bounding_box :: bounding_box
  rvg_corrected_statistics :: corrected_statistics

definition get_route_version_geometry ::
  "route_version_id \<Rightarrow> user_id \<Rightarrow> ('s, 'j) activity_repository \<Rightarrow> 's route_version_queries \<Rightarrow>
    ('s, route_version_geometry, route_versioning_error read_failure) step" where
  "get_route_version_geometry i owner A V =
    bindq (map_errq ReadError (ver_find_by_id V i)) (\<lambda>found.
    bindq (of_result (ok_or (ReadError route_versioning_error.NotFound) found)) (\<lambda>v.
    bindq (verify_version_ownership (rv_activity_id v) owner A) (\<lambda>_.
    returnq \<lparr>rvg_geometry = rv_geometry v, rvg_bounding_box = rv_bounding_box v,
      rvg_corrected_statistics = rv_corrected_statistics v\<rparr>)))"

section \<open>The repository of versions\<close>

record 'j stored_version =
  sv_id :: uuid
  sv_activity_id :: uuid
  sv_parent_version_id :: "uuid option"
  sv_version_number :: i32
  sv_geometry :: 'j
  sv_bounding_box :: 'j
  sv_corrected_statistics :: 'j
  sv_calculation_version :: string
  sv_edit_summary :: "string option"
  sv_created_by :: uuid
  sv_created_at :: time
  sv_idempotency_key :: "string option"

text \<open>What is used of \<open>serde_json\<close>, with the text of its errors, and of the database's.\<close>

record 'j version_serde =
  vs_geometry_to :: "position list \<Rightarrow> ('j, string) result"
  vs_geometry_from :: "'j \<Rightarrow> (position list, string) result"
  vs_box_to :: "bounding_box \<Rightarrow> ('j, string) result"
  vs_box_from :: "'j \<Rightarrow> (bounding_box, string) result"
  vs_statistics_to :: "corrected_statistics \<Rightarrow> ('j, string) result"
  vs_statistics_from :: "'j \<Rightarrow> (corrected_statistics, string) result"

definition coded :: "string \<Rightarrow> ('a, string) result \<Rightarrow> ('a, route_versioning_error) result" where
  "coded what r = map_err (\<lambda>e. route_versioning_error.PersistenceError (RvText (what @ e))) r"

definition row_to_route_version :: "'j version_serde \<Rightarrow> 'j stored_version \<Rightarrow> (route_version, route_versioning_error) result" where
  "row_to_route_version J r =
    and_then (coded ''failed to deserialize geometry: '' (vs_geometry_from J (sv_geometry r))) (\<lambda>geo.
    and_then (coded ''failed to deserialize bounding_box: '' (vs_box_from J (sv_bounding_box r))) (\<lambda>bb.
    and_then (coded ''failed to deserialize corrected_statistics: ''
      (vs_statistics_from J (sv_corrected_statistics r))) (\<lambda>stats.
    Ok \<lparr>rv_id = RouteVersionId (sv_id r), rv_activity_id = ActivityId (sv_activity_id r),
        rv_parent_version_id = map_option RouteVersionId (sv_parent_version_id r),
        rv_version_number = sv_version_number r, rv_geometry = geo, rv_bounding_box = bb,
        rv_corrected_statistics = stats, rv_calculation_version = sv_calculation_version r,
        rv_edit_summary = sv_edit_summary r, rv_created_by = UserId (sv_created_by r),
        rv_created_at = sv_created_at r\<rparr>)))"

type_synonym ('j, 'a) version_sql = "('j stored_version list, 'a, route_versioning_error) sql"

definition version_db :: "string \<Rightarrow> ('s, 'a, db_error) sql \<Rightarrow> ('s, 'a, route_versioning_error) sql" where
  "version_db what m = map_errq (\<lambda>e. route_versioning_error.PersistenceError (RvDatabaseText what e)) m"

definition insert_stored_version ::
  "'j stored_version \<Rightarrow> 'j stored_version list \<Rightarrow> (unit, db_error) result \<times> 'j stored_version list" where
  "insert_stored_version r rows =
    (if sv_id r \<in> sv_id ` set rows then (Err (UniqueViolation ''route_versions_pkey''), rows)
     else if (sv_activity_id r, sv_version_number r) \<in> (\<lambda>q. (sv_activity_id q, sv_version_number q)) ` set rows
     then (Err (UniqueViolation ''route_versions_activity_id_version_number_key''), rows)
     else (Ok (), rows @ [r]))"

definition pg_ver_save :: "'j version_serde \<Rightarrow> route_version \<Rightarrow> ('j, unit) version_sql" where
  "pg_ver_save J v =
    bindq (of_result (coded ''failed to serialize geometry: '' (vs_geometry_to J (rv_geometry v)))) (\<lambda>geo.
    bindq (of_result (coded ''failed to serialize bounding_box: '' (vs_box_to J (rv_bounding_box v)))) (\<lambda>bb.
    bindq (of_result (coded ''failed to serialize corrected_statistics: ''
      (vs_statistics_to J (rv_corrected_statistics v)))) (\<lambda>stats.
    version_db ''failed to save route version'' (query (insert_stored_version
      \<lparr>sv_id = version_uuid (rv_id v), sv_activity_id = activity_uuid (rv_activity_id v),
       sv_parent_version_id = map_option version_uuid (rv_parent_version_id v),
       sv_version_number = rv_version_number v, sv_geometry = geo, sv_bounding_box = bb,
       sv_corrected_statistics = stats, sv_calculation_version = rv_calculation_version v,
       sv_edit_summary = rv_edit_summary v, sv_created_by = user_uuid (rv_created_by v),
       sv_created_at = rv_created_at v, sv_idempotency_key = None\<rparr>)))))"

definition fetch_version ::
  "'j version_serde \<Rightarrow> string \<Rightarrow> ('j stored_version list \<Rightarrow> 'j stored_version option) \<Rightarrow> ('j, route_version option) version_sql" where
  "fetch_version J what f =
    bindq (version_db what (select f)) (\<lambda>row.
    case row of None \<Rightarrow> returnq None | Some r \<Rightarrow> of_result (and_then (row_to_route_version J r) (\<lambda>v. Ok (Some v))))"

text \<open>\<open>WHERE activity_id = $1 ORDER BY version_number DESC\<close>.\<close>

definition newest_first :: "uuid \<Rightarrow> 'j stored_version list \<Rightarrow> 'j stored_version list" where
  "newest_first a rows = sort_key (\<lambda>r. - sint (sv_version_number r)) (filter (\<lambda>r. sv_activity_id r = a) rows)"

definition pg_ver_find_by_id :: "'j version_serde \<Rightarrow> route_version_id \<Rightarrow> ('j, route_version option) version_sql" where
  "pg_ver_find_by_id J i = fetch_version J ''failed to find route version'' (find (\<lambda>r. sv_id r = version_uuid i))"

definition pg_ver_find_latest :: "'j version_serde \<Rightarrow> activity_id \<Rightarrow> ('j, route_version option) version_sql" where
  "pg_ver_find_latest J a = fetch_version J ''failed to find latest route version''
     (\<lambda>rows. case newest_first (activity_uuid a) rows of [] \<Rightarrow> None | r # _ \<Rightarrow> Some r)"

definition pg_ver_find_by_idempotency_key :: "'j version_serde \<Rightarrow> string \<Rightarrow> ('j, route_version option) version_sql" where
  "pg_ver_find_by_idempotency_key J key = fetch_version J ''failed to find route version by idempotency key''
     (find (\<lambda>r. sv_idempotency_key r = Some key))"

text \<open>\<open>str::parse::<i32>\<close> and \<open>i32::to_string\<close>.\<close>

definition parse_i32 :: "string \<Rightarrow> i32 option" where
  "parse_i32 s =
    (let (neg, ds) = (case s of c # cs \<Rightarrow> if c = CHR ''-'' then (True, cs) else if c = CHR ''+'' then (False, cs) else (False, s)
         | [] \<Rightarrow> (False, []));
         n = (if neg then - int (digits_value ds) else int (digits_value ds))
     in if ds \<noteq> [] \<and> list_all is_ascii_digit ds \<and> - (2 ^ 31) \<le> n \<and> n < 2 ^ 31 then Some (word_of_int n) else None)"

definition i32_to_string :: "i32 \<Rightarrow> string" where
  "i32_to_string w = (if sint w < 0 then CHR ''-'' # decimal (nat (- sint w)) else decimal (nat (sint w)))"

definition pg_ver_list_by_activity ::
  "'j version_serde \<Rightarrow> activity_id \<Rightarrow> string option \<Rightarrow> u32 \<Rightarrow> ('j, route_version_page) version_sql" where
  "pg_ver_list_by_activity J a cursor page_size =
    bindq (of_result (case cursor of
        None \<Rightarrow> Ok None
      | Some c \<Rightarrow> (case parse_i32 c of
          Some n \<Rightarrow> Ok (Some n)
        | None \<Rightarrow> Err (route_versioning_error.PersistenceError (RvText ''invalid cursor format''))))) (\<lambda>after.
    bindq (version_db ''failed to list route versions'' (select (\<lambda>rows. take (unat (page_size + 1))
        (filter (\<lambda>r. case after of Some n \<Rightarrow> sv_version_number r <s n | None \<Rightarrow> True)
          (newest_first (activity_uuid a) rows))))) (\<lambda>rows.
    let has_more = (page_size < of_nat (length rows)) in
    bindq (of_result (collect (row_to_route_version J) (take (unat page_size) rows))) (\<lambda>items.
    returnq \<lparr>rvp_items = items,
      rvp_next_cursor = (if has_more \<and> items \<noteq> [] then Some (i32_to_string (rv_version_number (last items))) else None),
      rvp_has_more = has_more\<rparr>)))"

definition PgRouteVersionRepository :: "'j version_serde \<Rightarrow> 'j stored_version list db route_version_queries" where
  "PgRouteVersionRepository J =
    \<lparr>ver_save = pg_ver_save J, ver_find_latest = pg_ver_find_latest J,
     ver_find_by_idempotency_key = pg_ver_find_by_idempotency_key J, ver_find_by_id = pg_ver_find_by_id J,
     ver_list_by_activity = pg_ver_list_by_activity J\<rparr>"

section \<open>The endpoints of versions\<close>

fun versioning_error_to_api_error :: "route_versioning_error \<Rightarrow> read_message api_problem" where
  "versioning_error_to_api_error route_versioning_error.NotFound =
    problem 404 ''NOT_FOUND'' (ReadText ''route version not found'') ''/problems/not-found'' ''Not Found''"
| "versioning_error_to_api_error route_versioning_error.NotAuthorized =
    problem 404 ''NOT_FOUND'' (ReadText ''route version not found'') ''/problems/not-found'' ''Not Found''"
| "versioning_error_to_api_error (route_versioning_error.PersistenceError m) =
    problem 500 ''INTERNAL_ERROR'' (VersionText m) ''/problems/internal-error'' ''Internal Server Error''"
| "versioning_error_to_api_error _ =
    problem 500 ''INTERNAL_ERROR'' (ReadText ''unexpected error'') ''/problems/internal-error'' ''Internal Server Error''"

record 'j route_version_response =
  rvr_id :: uuid
  rvr_activity_id :: uuid
  rvr_parent_version_id :: "uuid option"
  rvr_version_number :: i32
  rvr_edit_summary :: "string option"
  rvr_corrected_statistics :: 'j
  rvr_calculation_version :: string
  rvr_created_by :: uuid
  rvr_created_at :: time

record 'j route_version_list_response =
  rvl_items :: "'j route_version_response list"
  rvl_cursor :: "string option"
  rvl_has_more :: bool
  rvl_page_size :: u32

text \<open>\<open>to_value\<close> is \<open>serde_json::to_value(...).unwrap_or_default()\<close>.\<close>

definition route_version_response_of :: "(corrected_statistics \<Rightarrow> 'j) \<Rightarrow> route_version \<Rightarrow> 'j route_version_response" where
  "route_version_response_of to_value v =
    \<lparr>rvr_id = version_uuid (rv_id v), rvr_activity_id = activity_uuid (rv_activity_id v),
     rvr_parent_version_id = map_option version_uuid (rv_parent_version_id v),
     rvr_version_number = rv_version_number v, rvr_edit_summary = rv_edit_summary v,
     rvr_corrected_statistics = to_value (rv_corrected_statistics v),
     rvr_calculation_version = rv_calculation_version v, rvr_created_by = user_uuid (rv_created_by v),
     rvr_created_at = rv_created_at v\<rparr>"

definition get_route_versions_list ::
  "(corrected_statistics \<Rightarrow> 'j) \<Rightarrow> ('s, 'k) activity_repository \<Rightarrow> 's route_version_queries \<Rightarrow> user_id \<Rightarrow> uuid \<Rightarrow>
    string option \<Rightarrow> u32 option \<Rightarrow> ('s, 'j route_version_list_response, read_message api_failure) step" where
  "get_route_versions_list to_value A V actor i cursor page_size =
    bindq (map_errq (read_failure_answer versioning_error_to_api_error)
      (list_route_versions (ActivityId i) actor cursor page_size A V)) (\<lambda>page.
    returnq \<lparr>rvl_items = map (route_version_response_of to_value) (rvp_items page), rvl_cursor = rvp_next_cursor page,
      rvl_has_more = rvp_has_more page, rvl_page_size = clamp_page_size page_size\<rparr>)"

definition get_route_version_detail ::
  "(corrected_statistics \<Rightarrow> 'j) \<Rightarrow> ('s, 'k) activity_repository \<Rightarrow> 's route_version_queries \<Rightarrow> user_id \<Rightarrow> uuid \<Rightarrow>
    ('s, 'j route_version_response, read_message api_failure) step" where
  "get_route_version_detail to_value A V actor i =
    bindq (map_errq (read_failure_answer versioning_error_to_api_error)
      (get_route_version (RouteVersionId i) actor A V)) (\<lambda>v. returnq (route_version_response_of to_value v))"

record route_version_geometry_response =
  rgr_geojson_type :: string
  rgr_bbox :: "f64 list"
  rgr_geometry :: geo_json_geometry
  rgr_point_count :: nat
  rgr_distance_meters :: "f64 option"

definition get_route_version_geometry_handler ::
  "('s, 'k) activity_repository \<Rightarrow> 's route_version_queries \<Rightarrow> user_id \<Rightarrow> uuid \<Rightarrow>
    ('s, string \<times> route_version_geometry_response, read_message api_failure) step" where
  "get_route_version_geometry_handler A V actor i =
    bindq (map_errq (read_failure_answer versioning_error_to_api_error)
      (get_route_version_geometry (RouteVersionId i) actor A V)) (\<lambda>g.
    returnq (''application/geo+json'',
      \<lparr>rgr_geojson_type = ''FeatureCollection'', rgr_bbox = geojson_bbox (rvg_bounding_box g),
       rgr_geometry = line_string (rvg_geometry g), rgr_point_count = length (rvg_geometry g),
       rgr_distance_meters = Some (cs_distance_meters (rvg_corrected_statistics g))\<rparr>))"

end
