(* ===== verification/Route_Reads_Correctness.thy ===== *)
theory Route_Reads_Correctness
  imports Route_Reads Catalog_Correctness
begin

text \<open>
  Correctness of the read side of routes: the cursors lead through all versions of an activity, only the owner of
  a live activity reads its routes, and a recorded route is read back as it was imported.
\<close>

section \<open>Cursors of versions\<close>

lemma parse_i32_to_string: "parse_i32 (i32_to_string w) = Some w"
proof -
  have range: "- (2 ^ 31) \<le> sint w" "sint w < 2 ^ 31" using sint_ge [of w] sint_lt [of w] by simp_all
  show ?thesis
  proof (cases "sint w < 0")
    case True
    with range show ?thesis
      by (simp add: parse_i32_def i32_to_string_def decimal_digits digits_value_decimal)
  next
    case False
    obtain c cs where d: "decimal (nat (sint w)) = c # cs" using decimal_digits(2) by (metis neq_Nil_conv)
    with decimal_digits(1) [of "nat (sint w)"] have "c \<noteq> CHR ''-''" "c \<noteq> CHR ''+''" by (auto simp: is_ascii_digit_def)
    with False range d decimal_digits [of "nat (sint w)"] digits_value_decimal [of "nat (sint w)"] show ?thesis
      by (simp add: parse_i32_def i32_to_string_def)
  qed
qed

lemma newest_first_sorted:
  assumes "distinct (map sv_version_number (filter (\<lambda>r. sv_activity_id r = a) rows))"
  shows "sorted_wrt (\<lambda>x y. sint (sv_version_number y) < sint (sv_version_number x)) (newest_first a rows)"
proof -
  let ?rows = "filter (\<lambda>r. sv_activity_id r = a) rows" and ?k = "\<lambda>r. - sint (sv_version_number r)"
  have "inj_on sv_version_number (set ?rows)" "distinct ?rows" using assms by (simp_all only: distinct_map)
  then have "inj_on ?k (set ?rows)" unfolding inj_on_def by (metis neg_equal_iff_equal signed_word_eqI)
  with \<open>distinct ?rows\<close> have "distinct (map ?k (sort_key ?k ?rows))" by (simp add: distinct_map)
  moreover have "sorted (map ?k (sort_key ?k ?rows))" by simp
  ultimately have "sorted_wrt (<) (map ?k (sort_key ?k ?rows))" by (simp add: strict_sorted_iff)
  then show ?thesis by (simp add: newest_first_def sorted_wrt_map)
qed

lemma versions_after:
  assumes "distinct (map sv_version_number (filter (\<lambda>r. sv_activity_id r = a) rows))"
    and "newest_first a rows = pre @ x # rest"
  shows "filter (\<lambda>r. sv_version_number r <s sv_version_number x) (newest_first a rows) = rest"
  using newest_first_sorted [OF assms(1), unfolded assms(2)] unfolding assms(2) word_sless_alt
  by (auto simp: sorted_wrt_append filter_empty_conv intro!: filter_True dest: less_asym)

lemma row_version_number: "row_to_route_version J r = Ok v \<Longrightarrow> rv_version_number v = sv_version_number r"
  by (auto simp: row_to_route_version_def result_simps)

section \<open>Following them\<close>

fun fetch_version_pages ::
  "nat \<Rightarrow> 'j version_serde \<Rightarrow> ('j stored_version list db, 'k) activity_repository \<Rightarrow> user_id \<Rightarrow> activity_id \<Rightarrow>
    u32 option \<Rightarrow> string option \<Rightarrow> 'j stored_version list db \<Rightarrow> route_version list list option" where
  "fetch_version_pages 0 J A owner a n cursor db = None"
| "fetch_version_pages (Suc k) J A owner a n cursor db =
    (case list_route_versions a owner cursor n A (PgRouteVersionRepository J) db of
       (Err _, _) \<Rightarrow> None
     | (Ok p, db') \<Rightarrow>
         (case rvp_next_cursor p of
            None \<Rightarrow> Some [rvp_items p]
          | Some c \<Rightarrow> map_option (Cons (rvp_items p)) (fetch_version_pages k J A owner a n (Some c) db')))"

definition shows_activity :: "('s, 'k) activity_repository \<Rightarrow> user_id \<Rightarrow> activity_id \<Rightarrow> 's \<Rightarrow> bool" where
  "shows_activity A owner a s \<longleftrightarrow> (\<exists>x. act_find_by_id A a s = (Ok (Some x), s) \<and> ac_owner_id x = owner \<and>
     ac_lifecycle_state x \<noteq> Deleted)"

lemma shows_verified: "shows_activity A owner a s \<Longrightarrow> verify_version_ownership a owner A s = (Ok (), s)"
  by (auto simp: shows_activity_def verify_version_ownership_def owned_activity_def bindq_def map_errq_def)

lemma version_page:
  assumes "faults db = []" and "shows_activity A owner a db"
    and "cursor = None \<and> after = None \<or> (\<exists>c j. cursor = Some c \<and> after = Some j \<and> parse_i32 c = Some j)"
    and "filter (\<lambda>r. case after of Some n \<Rightarrow> sv_version_number r <s n | None \<Rightarrow> True)
      (newest_first (activity_uuid a) (tables db)) = rest"
    and "\<forall>r\<in>set rest. \<exists>v. row_to_route_version J r = Ok v"
  obtains items where "collect (row_to_route_version J) (take (unat (clamp_page_size n)) rest) = Ok items"
    and "list_route_versions a owner cursor n A (PgRouteVersionRepository J) db =
      (Ok \<lparr>rvp_items = items,
        rvp_next_cursor = (if unat (clamp_page_size n) < length rest
          then Some (i32_to_string (sv_version_number (last (take (unat (clamp_page_size n)) rest)))) else None),
        rvp_has_more = (unat (clamp_page_size n) < length rest)\<rparr>, db)"
proof -
  let ?n = "clamp_page_size n"
  note n = clamp_page_size_bounds [of n]
  obtain items where items: "collect (row_to_route_version J) (take (unat ?n) rest) = Ok items"
    using collect_total [of "take (unat ?n) rest" "row_to_route_version J"] assms(5) by (meson in_set_takeD)
  have Suc: "unat (?n + 1) = Suc (unat ?n)" using n(2) by (simp add: unat_word_ariths)
  have more: "?n < of_nat (length (take (Suc (unat ?n)) rest)) \<longleftrightarrow> unat ?n < length rest"
    using n(2) by (simp add: word_less_nat_alt unat_of_nat min_def)
  have after: "(case cursor of None \<Rightarrow> Ok None
      | Some c \<Rightarrow> (case parse_i32 c of Some n \<Rightarrow> Ok (Some n)
        | None \<Rightarrow> Err (route_versioning_error.PersistenceError (RvText ''invalid cursor format'')))) = Ok after"
    using assms(3) by auto
  have number: "rv_version_number (last items) = sv_version_number (last (take (unat ?n) rest))"
    if "unat ?n < length rest"
  proof -
    have "take (unat ?n) rest \<noteq> []" using that n(1) by auto
    from collect_last [OF items this] show ?thesis by (rule row_version_number)
  qed
  have ne: "unat ?n < length rest \<Longrightarrow> items \<noteq> []" using items n(1) by (auto simp: collect_Nil)
  have "ver_list_by_activity (PgRouteVersionRepository J) a cursor ?n db =
      (Ok \<lparr>rvp_items = items, rvp_next_cursor = (if unat ?n < length rest
          then Some (i32_to_string (sv_version_number (last (take (unat ?n) rest)))) else None),
        rvp_has_more = (unat ?n < length rest)\<rparr>, db)"
    using items number ne
    by (simp add: PgRouteVersionRepository_def pg_ver_list_by_activity_def after bindq_def version_db_def map_errq_def
        select_faultless assms(1,4) Suc more Let_def min_def del: length_take)
  with shows_verified [OF assms(2)] that [OF items] show thesis
    by (simp add: list_route_versions_def bindq_def map_errq_def)
qed

lemma fetch_version_pages_rest:
  assumes "faults db = []" and "shows_activity A owner a db"
    and "distinct (map sv_version_number (filter (\<lambda>r. sv_activity_id r = activity_uuid a) (tables db)))"
    and "\<forall>r\<in>set (tables db). \<exists>v. row_to_route_version J r = Ok v"
    and "newest_first (activity_uuid a) (tables db) = pre @ rest"
    and "cursor = None \<and> pre = [] \<or> pre \<noteq> [] \<and> cursor = Some (i32_to_string (sv_version_number (last pre)))"
    and "length rest \<le> k"
  shows "\<exists>pages. fetch_version_pages (Suc k) J A owner a n cursor db = Some pages \<and>
    collect (row_to_route_version J) rest = Ok (concat pages) \<and>
    (\<forall>p\<in>set (butlast pages). length p = unat (clamp_page_size n))"
  using assms(5-7)
proof (induction "length rest" arbitrary: pre rest cursor k rule: less_induct)
  case less
  let ?rows = "newest_first (activity_uuid a) (tables db)" and ?n = "unat (clamp_page_size n)"
  have set_rest: "set rest \<subseteq> set (tables db)"
  proof -
    have "set rest \<subseteq> set ?rows" using less.prems(1) by simp
    then show ?thesis by (auto simp: newest_first_def)
  qed
  obtain after where after: "cursor = None \<and> after = None \<or>
      (\<exists>c j. cursor = Some c \<and> after = Some j \<and> parse_i32 c = Some j)"
    and sel: "filter (\<lambda>r. case after of Some n \<Rightarrow> sv_version_number r <s n | None \<Rightarrow> True) ?rows = rest"
  proof (cases "pre = []")
    case True
    with less.prems(1,2) that [of None] show thesis by simp
  next
    case False
    then have "?rows = butlast pre @ last pre # rest" using less.prems(1) by simp
    from versions_after [OF assms(3) this] False less.prems(2) parse_i32_to_string
      that [of "Some (sv_version_number (last pre))"] show thesis by auto
  qed
  from version_page [OF assms(1,2) after sel, where n = n and J = J] set_rest assms(4) obtain items where
    items: "collect (row_to_route_version J) (take ?n rest) = Ok items"
    and page: "list_route_versions a owner cursor n A (PgRouteVersionRepository J) db =
      (Ok \<lparr>rvp_items = items, rvp_next_cursor = (if ?n < length rest
          then Some (i32_to_string (sv_version_number (last (take ?n rest)))) else None),
        rvp_has_more = (?n < length rest)\<rparr>, db)" by blast
  show ?case
  proof (cases "?n < length rest")
    case False
    with page items show ?thesis by (intro exI [of _ "[items]"]) simp
  next
    case True
    let ?c = "i32_to_string (sv_version_number (last (take ?n rest)))"
    have n: "1 \<le> ?n" by (rule clamp_page_size_bounds)
    then have ne: "take ?n rest \<noteq> []" using True by auto
    have split: "?rows = (pre @ take ?n rest) @ drop ?n rest" using less.prems(1) by simp
    from True less.prems(3) obtain k' where k: "k = Suc k'" by (cases k) auto
    have "\<exists>pages. fetch_version_pages (Suc k') J A owner a n (Some ?c) db = Some pages \<and>
        collect (row_to_route_version J) (drop ?n rest) = Ok (concat pages) \<and>
        (\<forall>p\<in>set (butlast pages). length p = ?n)"
      by (rule less.hyps [OF _ split]) (use True n ne k less.prems(3) in auto)
    then obtain pages where pages: "fetch_version_pages k J A owner a n (Some ?c) db = Some pages"
      "collect (row_to_route_version J) (drop ?n rest) = Ok (concat pages)" "\<forall>p\<in>set (butlast pages). length p = ?n"
      unfolding k by blast
    have "collect (row_to_route_version J) rest = Ok (items @ concat pages)"
      using items pages(2) collect_append [of "row_to_route_version J" "take ?n rest" "drop ?n rest"] by auto
    moreover have "length items = ?n" using collect_length [OF items] True by simp
    ultimately show ?thesis
      using page pages True by (intro exI [of _ "items # pages"]) auto
  qed
qed

text \<open>C5. A client of the owner that follows the cursors, with any page size it asks for, sees every version of a live
  activity exactly once, the newest first, after at most one page per version and one more; every page but the last
  is full.\<close>

theorem version_pages_enumerate:
  assumes "faults db = []" and "shows_activity A owner a db"
    and "distinct (map sv_version_number (filter (\<lambda>r. sv_activity_id r = activity_uuid a) (tables db)))"
    and "\<forall>r\<in>set (tables db). \<exists>v. row_to_route_version J r = Ok v"
  shows "\<exists>pages. fetch_version_pages (Suc (length (tables db))) J A owner a n None db = Some pages \<and>
    collect (row_to_route_version J) (newest_first (activity_uuid a) (tables db)) = Ok (concat pages) \<and>
    (\<forall>p\<in>set (butlast pages). length p = unat (clamp_page_size n))"
  by (rule fetch_version_pages_rest [OF assms, of "[]"]) (simp_all add: newest_first_def)

definition sample_version_serde :: "unit version_serde" where
  "sample_version_serde = \<lparr>vs_geometry_to = (\<lambda>_. Ok ()), vs_geometry_from = (\<lambda>_. Ok []), vs_box_to = (\<lambda>_. Ok ()),
     vs_box_from = (\<lambda>_. Ok null_box), vs_statistics_to = (\<lambda>_. Ok ()),
     vs_statistics_from = (\<lambda>_. Ok \<lparr>cs_distance_meters = Fin 0, cs_point_count = 0, cs_calculation_version = ''v1.0''\<rparr>)\<rparr>"

definition sample_stored_version :: "uuid \<Rightarrow> i32 \<Rightarrow> unit stored_version" where
  "sample_stored_version i n = \<lparr>sv_id = i, sv_activity_id = 3, sv_parent_version_id = None, sv_version_number = n,
     sv_geometry = (), sv_bounding_box = (), sv_corrected_statistics = (), sv_calculation_version = ''v1.0'',
     sv_edit_summary = None, sv_created_by = 7, sv_created_at = 0, sv_idempotency_key = None\<rparr>"

definition sample_stored_versions :: "unit stored_version list db" where
  "sample_stored_versions =
    \<lparr>tables = [sample_stored_version 11 1, sample_stored_version 12 2, sample_stored_version 13 3], faults = []\<rparr>"

definition sample_activity_repository :: "('s, unit) activity_repository" where
  "sample_activity_repository =
    \<lparr>act_list = (\<lambda>_ _ _. failq ActivityNotFound),
     act_find_by_id = (\<lambda>i. returnq (Some \<lparr>ac_id = i, ac_owner_id = UserId 7, ac_title = ActivityTitle ''Ridge'',
       ac_activity_type = Hike, ac_lifecycle_state = lifecycle_state.Active, ac_started_at = None, ac_ended_at = None,
       ac_recorded_summary = None, ac_corrected_summary = None, ac_current_route_version_id = None,
       ac_created_at = 0, ac_updated_at = 0\<rparr>)),
     act_save = (\<lambda>_. returnq ()), act_update = (\<lambda>_. returnq ()), act_delete = (\<lambda>_. returnq ())\<rparr>"

theorem version_pages_enumerate_witness:
  "\<exists>pages. fetch_version_pages 4 sample_version_serde sample_activity_repository (UserId 7) (ActivityId 3) (Some 2) None
      sample_stored_versions = Some pages \<and>
    collect (row_to_route_version sample_version_serde)
      [sample_stored_version 13 3, sample_stored_version 12 2, sample_stored_version 11 1] = Ok (concat pages)"
proof -
  have newest: "newest_first (activity_uuid (ActivityId 3)) (tables sample_stored_versions) =
      [sample_stored_version 13 3, sample_stored_version 12 2, sample_stored_version 11 1]"
    by (simp add: newest_first_def sample_stored_versions_def sample_stored_version_def)
  have "faults sample_stored_versions = []"
    "shows_activity sample_activity_repository (UserId 7) (ActivityId 3) sample_stored_versions"
    "distinct (map sv_version_number (filter (\<lambda>r. sv_activity_id r = activity_uuid (ActivityId 3)) (tables sample_stored_versions)))"
    "\<forall>r\<in>set (tables sample_stored_versions). \<exists>v. row_to_route_version sample_version_serde r = Ok v"
    by (simp_all add: shows_activity_def sample_activity_repository_def sample_stored_versions_def sample_stored_version_def
        row_to_route_version_def coded_def sample_version_serde_def)
  from version_pages_enumerate [OF this, of "Some 2"] show ?thesis
    unfolding newest by (auto simp: sample_stored_versions_def eval_nat_numeral)
qed

section \<open>Who reads\<close>

lemma owned_activity_Ok:
  "owned_activity missing p i owner A s = (Ok a, s') \<Longrightarrow>
    act_find_by_id A i s = (Ok (Some a), s') \<and> ac_owner_id a = owner \<and> ac_lifecycle_state a \<noteq> Deleted"
  by (auto simp: owned_activity_def bindq_Ok map_errq_Ok ok_or_def split: option.splits if_splits)

lemma route_reads_owned:
  "get_recorded_route i owner preview A R s = (Ok r, s') \<Longrightarrow>
    \<exists>a s1. act_find_by_id A (ActivityId i) s = (Ok (Some a), s1) \<and> ac_owner_id a = owner \<and> ac_lifecycle_state a \<noteq> Deleted"
  "get_route_version v owner A V s = (Ok x, s') \<Longrightarrow>
    \<exists>a s1 s2. act_find_by_id A (rv_activity_id x) s1 = (Ok (Some a), s2) \<and> ac_owner_id a = owner \<and>
      ac_lifecycle_state a \<noteq> Deleted"
  by (fastforce simp: get_recorded_route_def get_route_version_def verify_version_ownership_def bindq_Ok
      dest: owned_activity_Ok)+

section \<open>Recorded routes as imported\<close>

text \<open>What \<open>serde\<close> derives for the segments of a track; \<open>stamp\<close> renders the time stamps.\<close>

definition track_point_json :: "(time \<Rightarrow> string) \<Rightarrow> track_point \<Rightarrow> json" where
  "track_point_json stamp p = JObject
    [(''coordinate'', JObject [(''latitude'', JNumber (pos_lat (tp_coordinate p))), (''longitude'', JNumber (pos_lng (tp_coordinate p)))]),
     (''elevation'', case tp_elevation p of Some e \<Rightarrow> JNumber (ra_meters e) | None \<Rightarrow> JNull),
     (''timestamp'', case tp_timestamp p of Some t \<Rightarrow> JString (stamp t) | None \<Rightarrow> JNull)]"

definition segments_json :: "(time \<Rightarrow> string) \<Rightarrow> track_segment list \<Rightarrow> json" where
  "segments_json stamp segs =
    JArray (map (\<lambda>seg. JObject [(''points'', JArray (map (track_point_json stamp) (ts_points seg)))]) segs)"

lemma point_of_track_point:
  "valid_position (tp_coordinate p) \<Longrightarrow> point_of_object (track_point_json stamp p) = Some (tp_coordinate p)"
  by (simp add: point_of_object_def track_point_json_def position_new_def valid_position_def)

lemma map_filter_Some: "\<forall>x\<in>set xs. f (g x) = Some (h x) \<Longrightarrow> List.map_filter f (map g xs) = map h xs"
  by (induction xs) (simp_all add: List.map_filter_simps)

lemma recorded_route_roundtrip:
  assumes "\<forall>seg\<in>set segs. ts_points seg \<noteq> [] \<and> (\<forall>p\<in>set (ts_points seg). valid_position (tp_coordinate p))"
  shows "parse_geometry (segments_json stamp segs) = map (\<lambda>seg. map tp_coordinate (ts_points seg)) segs"
proof -
  have "List.map_filter point_of_object (map (track_point_json stamp) (ts_points seg)) = map tp_coordinate (ts_points seg)"
    "map tp_coordinate (ts_points seg) \<noteq> []" if "seg \<in> set segs" for seg
    using assms that by (auto intro!: map_filter_Some point_of_track_point)
  then show ?thesis
    unfolding parse_geometry_def segments_json_def as_array.simps option.case
    by (intro map_filter_Some ballI) (simp add: keep_segment_def)
qed

end
