(* ===== verification/Outbox.thy ===== *)
theory Outbox
  imports Step_Logic Gpx_Generator
begin

text \<open>
  The transactional outbox, \<open>crates/infrastructure/src/outbox.rs\<close> over \<open>platform.outbox\<close>: polling,
  the marks, and the dispatcher.  What the handlers did is a log beside the table, the latest delivery first; a
  batch gives an event to at most one handler, so what a handler answers is a function of the event.  Statements are atomic, so a poll never finds a row locked; rows of equal time
  stamps are taken in the order of the table.  \<open>'j\<close> are the payloads.
\<close>

section \<open>The table\<close>

record 'j outbox_entry =
  ox_id :: uuid
  ox_aggregate_type :: string
  ox_aggregate_id :: string
  ox_event_type :: string
  ox_payload :: 'j
  ox_created_at :: time
  ox_processed_at :: "time option"
  ox_failed_at :: "time option"
  ox_error_message :: "string option"
  ox_retry_count :: i32
  ox_correlation_id :: "uuid option"

record 'j outbox_event =
  ov_id :: uuid
  ov_aggregate_type :: string
  ov_aggregate_id :: string
  ov_event_type :: string
  ov_payload :: 'j
  ov_created_at :: time
  ov_retry_count :: i32
  ov_correlation_id :: "uuid option"

type_synonym ('j, 'a) outbox_sql = "('j outbox_entry list \<times> uuid list, 'a, db_error) sql"

definition event_of_entry :: "'j outbox_entry \<Rightarrow> 'j outbox_event" where
  "event_of_entry r =
    \<lparr>ov_id = ox_id r, ov_aggregate_type = ox_aggregate_type r, ov_aggregate_id = ox_aggregate_id r,
     ov_event_type = ox_event_type r, ov_payload = ox_payload r, ov_created_at = ox_created_at r,
     ov_retry_count = ox_retry_count r, ov_correlation_id = ox_correlation_id r\<rparr>"

definition outbox_publish ::
  "uuid \<Rightarrow> time \<Rightarrow> string \<Rightarrow> string \<Rightarrow> string \<Rightarrow> 'j \<Rightarrow> uuid option \<Rightarrow> ('j, uuid) outbox_sql" where
  "outbox_publish new_id now kind aggregate event payload correlation =
    bindq (query (\<lambda>(rows, log).
      if new_id \<in> ox_id ` set rows then (Err (UniqueViolation ''outbox_pkey''), (rows, log))
      else (Ok (), (rows @ [\<lparr>ox_id = new_id, ox_aggregate_type = kind, ox_aggregate_id = aggregate,
        ox_event_type = event, ox_payload = payload, ox_created_at = now, ox_processed_at = None, ox_failed_at = None,
        ox_error_message = None, ox_retry_count = 0, ox_correlation_id = correlation\<rparr>], log)))) (\<lambda>_.
    returnq new_id)"

definition unprocessed :: "'j outbox_entry \<Rightarrow> bool" where
  "unprocessed r \<longleftrightarrow> ox_processed_at r = None \<and> ox_failed_at r = None"

definition poll_unprocessed :: "nat \<Rightarrow> ('j, 'j outbox_event list) outbox_sql" where
  "poll_unprocessed batch_size = select (\<lambda>(rows, _).
    map event_of_entry (sort_key ox_created_at (take batch_size (sort_key ox_created_at (filter unprocessed rows)))))"

definition set_entry :: "uuid \<Rightarrow> ('j outbox_entry \<Rightarrow> 'j outbox_entry) \<Rightarrow> 'j outbox_entry list \<Rightarrow> 'j outbox_entry list" where
  "set_entry i f rows = map (\<lambda>r. if ox_id r = i then f r else r) rows"

definition mark_processed :: "time \<Rightarrow> uuid \<Rightarrow> ('j, unit) outbox_sql" where
  "mark_processed now i = modify (\<lambda>(rows, log). (set_entry i (\<lambda>r. r\<lparr>ox_processed_at := Some now\<rparr>) rows, log))"

definition is_processed :: "uuid \<Rightarrow> ('j, bool) outbox_sql" where
  "is_processed i = select (\<lambda>(rows, _). case find (\<lambda>r. ox_id r = i) rows of
     Some r \<Rightarrow> ox_processed_at r \<noteq> None | None \<Rightarrow> False)"

definition fail_entry :: "time \<Rightarrow> i32 \<Rightarrow> i32 \<Rightarrow> string \<Rightarrow> 'j outbox_entry \<Rightarrow> 'j outbox_entry" where
  "fail_entry now max_retries n msg r =
    (if max_retries \<le>s n then r\<lparr>ox_failed_at := Some now, ox_error_message := Some msg, ox_retry_count := n\<rparr>
     else r\<lparr>ox_error_message := Some msg, ox_retry_count := n\<rparr>)"

definition mark_event_failed :: "time \<Rightarrow> uuid \<Rightarrow> string \<Rightarrow> i32 \<Rightarrow> ('j, unit) outbox_sql" where
  "mark_event_failed now i msg max_retries =
    bindq (select (\<lambda>(rows, _). find (\<lambda>r. ox_id r = i) rows)) (\<lambda>found.
    bindq (of_result (ok_or RowNotFound found)) (\<lambda>r.
    modify (\<lambda>(rows, log). (set_entry i (fail_entry now max_retries (ox_retry_count r + 1) msg) rows, log))))"

section \<open>The dispatcher\<close>

text \<open>The groups of \<open>process_batch\<close>: by aggregate id, in the order of their first events.\<close>

fun add_to_group ::
  "'j outbox_event \<Rightarrow> (string \<times> 'j outbox_event list) list \<Rightarrow> (string \<times> 'j outbox_event list) list" where
  "add_to_group e [] = [(ov_aggregate_id e, [e])]"
| "add_to_group e ((a, es) # gs) =
    (if a = ov_aggregate_id e then (a, es @ [e]) # gs else (a, es) # add_to_group e gs)"

definition aggregate_groups :: "'j outbox_event list \<Rightarrow> (string \<times> 'j outbox_event list) list" where
  "aggregate_groups es = fold add_to_group es []"

definition processing_order :: "'j outbox_event list \<Rightarrow> 'j outbox_event list" where
  "processing_order es = concat (map (\<lambda>(_, g). sort_key ov_created_at g) (aggregate_groups es))"

definition run_handler ::
  "('j outbox_event \<Rightarrow> (unit, string) result option) \<Rightarrow> 'j outbox_event \<Rightarrow> ('j, (unit, string) result option) outbox_sql" where
  "run_handler handle e db =
    (case handle e of
       None \<Rightarrow> (Ok None, db)
     | Some r \<Rightarrow> (Ok (Some r), db\<lparr>tables := (fst (tables db), ov_id e # snd (tables db))\<rparr>))"

definition dispatch_event ::
  "('j outbox_event \<Rightarrow> time) \<Rightarrow> ('j outbox_event \<Rightarrow> (unit, string) result option) \<Rightarrow> i32 \<Rightarrow> 'j outbox_event \<Rightarrow>
    ('j, nat) outbox_sql" where
  "dispatch_event clock handle max_retries e =
    bindq (is_processed (ov_id e)) (\<lambda>skip.
    if skip then returnq 0
    else bindq (run_handler handle e) (\<lambda>outcome. case outcome of
        Some (Ok _) \<Rightarrow> bindq (mark_processed (clock e) (ov_id e)) (\<lambda>_. returnq 1)
      | Some (Err m) \<Rightarrow> bindq (mark_event_failed (clock e) (ov_id e) m max_retries) (\<lambda>_. returnq 0)
      | None \<Rightarrow> bindq (mark_event_failed (clock e) (ov_id e)
          (''no handler registered for event type: '' @ ov_event_type e) max_retries) (\<lambda>_. returnq 0)))"

fun dispatch_events ::
  "('j outbox_event \<Rightarrow> time) \<Rightarrow> ('j outbox_event \<Rightarrow> (unit, string) result option) \<Rightarrow> i32 \<Rightarrow> nat \<Rightarrow>
    'j outbox_event list \<Rightarrow> ('j, nat) outbox_sql" where
  "dispatch_events clock handle max_retries n [] = returnq n"
| "dispatch_events clock handle max_retries n (e # es) =
    bindq (dispatch_event clock handle max_retries e) (\<lambda>k. dispatch_events clock handle max_retries (n + k) es)"

type_synonym 'j event_handler = "string \<times> ('j outbox_event \<Rightarrow> (unit, string) result)"

definition register_handler :: "'j event_handler \<Rightarrow> 'j event_handler list \<Rightarrow> 'j event_handler list" where
  "register_handler h handlers = handlers @ [h]"

definition handler_of :: "'j event_handler list \<Rightarrow> 'j outbox_event \<Rightarrow> (unit, string) result option" where
  "handler_of handlers e = map_option (\<lambda>h. snd h e) (find (\<lambda>h. fst h = ov_event_type e) handlers)"

definition process_batch ::
  "('j outbox_event \<Rightarrow> time) \<Rightarrow> 'j event_handler list \<Rightarrow> i32 \<Rightarrow> nat \<Rightarrow> ('j, nat) outbox_sql" where
  "process_batch clock handlers max_retries batch_size =
    bindq (poll_unprocessed batch_size) (\<lambda>events.
      dispatch_events clock (handler_of handlers) max_retries 0 (processing_order events))"

section \<open>The order of a batch\<close>

definition grouped :: "(string \<times> 'j outbox_event list) list \<Rightarrow> bool" where
  "grouped gs \<longleftrightarrow> distinct (map fst gs) \<and> (\<forall>g\<in>set gs. \<forall>x\<in>set (snd g). ov_aggregate_id x = fst g)"

lemma add_to_group_keys: "fst ` set (add_to_group e gs) = insert (ov_aggregate_id e) (fst ` set gs)"
  by (induction e gs rule: add_to_group.induct) auto

lemma add_to_group_events:
  "set (concat (map snd (add_to_group e gs))) = insert e (set (concat (map snd gs)))"
  "distinct (map ov_id (concat (map snd (add_to_group e gs)))) \<longleftrightarrow> distinct (map ov_id (e # concat (map snd gs)))"
  by (induction e gs rule: add_to_group.induct) auto

lemma add_to_group_grouped: "grouped gs \<Longrightarrow> grouped (add_to_group e gs)"
proof (induction e gs rule: add_to_group.induct)
  case (2 e a es gs)
  show ?case
  proof (cases "a = ov_aggregate_id e")
    case False
    with 2 have "grouped (add_to_group e gs)" by (simp add: grouped_def)
    moreover have "a \<notin> fst ` set (add_to_group e gs)"
      using 2(2) False by (auto simp: add_to_group_keys grouped_def)
    ultimately show ?thesis using 2(2) False by (auto simp: grouped_def)
  qed (use 2(2) in \<open>auto simp: grouped_def\<close>)
qed (simp add: grouped_def)

lemma fold_add_to_group:
  "grouped gs \<Longrightarrow> grouped (fold add_to_group es gs) \<and>
    set (concat (map snd (fold add_to_group es gs))) = set es \<union> set (concat (map snd gs)) \<and>
    (distinct (map ov_id (concat (map snd (fold add_to_group es gs)))) \<longleftrightarrow> distinct (map ov_id (es @ concat (map snd gs))))"
proof (induction es arbitrary: gs)
  case (Cons e es)
  let ?a = "concat (map snd (add_to_group e gs))" and ?b = "concat (map snd gs)"
  have step: "set ?a = insert e (set ?b)" "distinct (map ov_id ?a) \<longleftrightarrow> distinct (map ov_id (e # ?b))"
    by (rule add_to_group_events)+
  have "distinct (map ov_id (es @ ?a)) \<longleftrightarrow> distinct (map ov_id ((e # es) @ ?b))"
    using step(2) unfolding map_append distinct_append set_map step(1) by auto
  moreover have "set es \<union> set ?a = set (e # es) \<union> set ?b" unfolding step(1) by auto
  ultimately show ?case
    using Cons.IH [OF add_to_group_grouped [OF Cons.prems, of e]] by (simp only: fold_simps simp_thms)
qed simp

lemma aggregate_groups_ok:
  "grouped (aggregate_groups es)"
  "set (concat (map snd (aggregate_groups es))) = set es"
  "distinct (map ov_id (concat (map snd (aggregate_groups es)))) \<longleftrightarrow> distinct (map ov_id es)"
  using fold_add_to_group [of "[]" es] by (simp_all add: aggregate_groups_def grouped_def)

definition sort_group :: "string \<times> 'j outbox_event list \<Rightarrow> 'j outbox_event list" where
  "sort_group g = sort_key ov_created_at (snd g)"

lemma sort_groups: "processing_order es = concat (map sort_group (aggregate_groups es))"
  by (simp add: processing_order_def sort_group_def [abs_def] split_def)

lemma sort_group_events:
  "set (sort_group g) = set (snd g)" "distinct (map ov_id (sort_group g)) \<longleftrightarrow> distinct (map ov_id (snd g))"
  by (simp_all add: sort_group_def distinct_map)

lemma sort_groups_set: "set (concat (map sort_group gs)) = set (concat (map snd gs))"
  by (simp add: sort_group_events)

lemma sort_groups_distinct:
  "distinct (map ov_id (concat (map sort_group gs))) \<longleftrightarrow> distinct (map ov_id (concat (map snd gs)))"
proof (induction gs)
  case (Cons g gs)
  show ?case
    unfolding list.map concat.simps map_append distinct_append set_map sort_groups_set sort_group_events Cons ..
qed simp

lemma processing_order_events:
  "set (processing_order es) = set es" "distinct (map ov_id (processing_order es)) \<longleftrightarrow> distinct (map ov_id es)"
  unfolding sort_groups sort_groups_set sort_groups_distinct by (rule aggregate_groups_ok)+

lemma sort_groups_sorted:
  "grouped gs \<Longrightarrow> (a \<notin> fst ` set gs \<longrightarrow> filter (\<lambda>e. ov_aggregate_id e = a) (concat (map sort_group gs)) = []) \<and>
    sorted (map ov_created_at (filter (\<lambda>e. ov_aggregate_id e = a) (concat (map sort_group gs))))"
proof (induction gs)
  case (Cons g gs)
  from Cons.prems have gs: "grouped gs" "fst g \<notin> fst ` set gs" "\<forall>x\<in>set (sort_group g). ov_aggregate_id x = fst g"
    by (auto simp: grouped_def sort_group_events)
  have "filter (\<lambda>e. ov_aggregate_id e = a) (sort_group g) = (if a = fst g then sort_group g else [])"
    using gs(3) by (auto simp: filter_empty_conv intro!: filter_True)
  with Cons.IH [OF gs(1)] gs(2) show ?case by (auto simp: sort_group_def)
qed simp

lemma processing_order_sorted:
  "sorted (map ov_created_at (filter (\<lambda>e. ov_aggregate_id e = a) (processing_order es)))"
  unfolding sort_groups using sort_groups_sorted [OF aggregate_groups_ok(1)] by blast

section \<open>What a batch does\<close>

definition handled :: "('j outbox_event \<Rightarrow> (unit, string) result option) \<Rightarrow> 'j outbox_event \<Rightarrow> bool" where
  "handled handle e \<longleftrightarrow> handle e \<noteq> None"

definition succeeds :: "('j outbox_event \<Rightarrow> (unit, string) result option) \<Rightarrow> 'j outbox_event \<Rightarrow> bool" where
  "succeeds handle e \<longleftrightarrow> handle e = Some (Ok ())"

definition settle ::
  "('j outbox_event \<Rightarrow> time) \<Rightarrow> ('j outbox_event \<Rightarrow> (unit, string) result option) \<Rightarrow> i32 \<Rightarrow>
    'j outbox_entry \<Rightarrow> 'j outbox_entry" where
  "settle clock handle max_retries r =
    (let e = event_of_entry r; failed = fail_entry (clock e) max_retries (ox_retry_count r + 1) in
     case handle e of
       Some (Ok _) \<Rightarrow> r\<lparr>ox_processed_at := Some (clock e)\<rparr>
     | Some (Err m) \<Rightarrow> failed m r
     | None \<Rightarrow> failed (''no handler registered for event type: '' @ ov_event_type e) r)"

definition settle_rows where
  "settle_rows clock handle max_retries ids rows =
    map (\<lambda>r. if ox_id r \<in> ids then settle clock handle max_retries r else r) rows"

lemma settle_id: "ox_id (settle clock handle max_retries r) = ox_id r"
  by (simp add: settle_def fail_entry_def Let_def split: option.split result.split)

lemma find_by_id: "distinct (map ox_id rows) \<Longrightarrow> r \<in> set rows \<Longrightarrow> find (\<lambda>q. ox_id q = ox_id r) rows = Some r"
  by (induction rows) auto

lemma set_entry_settle:
  assumes "distinct (map ox_id rows)" and "r \<in> set rows" and "f r = settle clock handle max_retries r"
  shows "set_entry (ox_id r) f rows = settle_rows clock handle max_retries {ox_id r} rows"
proof -
  have "q = r" if "q \<in> set rows" "ox_id q = ox_id r" for q
    using assms(1,2) that by (auto simp: distinct_map dest: inj_onD)
  with assms(3) show ?thesis by (auto simp: set_entry_def settle_rows_def)
qed

lemma mark_event_failed_run:
  assumes "tables db = (rows, calls)" and "distinct (map ox_id rows)" and "r \<in> set rows"
  obtains e db1 where "mark_event_failed now (ox_id r) m max_retries db = (Err e, db1)" "tables db1 = (rows, calls)"
  | db1 where "mark_event_failed now (ox_id r) m max_retries db = (Ok (), db1)"
      "tables db1 = (set_entry (ox_id r) (fail_entry now max_retries (ox_retry_count r + 1) m) rows, calls)"
proof (cases rule: select_cases [of "\<lambda>(rows, _). find (\<lambda>q. ox_id q = ox_id r) rows" db])
  case (1 e db1)
  then show thesis using that(1) assms(1) by (simp add: mark_event_failed_def bindq_def)
next
  case (2 db1)
  note found = find_by_id [OF assms(2,3)]
  let ?f = "\<lambda>(rows, log). (set_entry (ox_id r) (fail_entry now max_retries (ox_retry_count r + 1) m) rows, log)"
  have "mark_event_failed now (ox_id r) m max_retries db = modify ?f db1"
    using 2 assms(1) found by (simp add: mark_event_failed_def bindq_def ok_or_def)
  then show thesis using that 2 assms(1) by (cases rule: modify_cases [of ?f db1]) auto
qed

abbreviation called where
  "called handle r \<equiv> (if handled handle (event_of_entry r) then [ox_id r] else [])"

lemma dispatch_event_run:
  assumes "tables db = (rows, calls)" and "distinct (map ox_id rows)" and "r \<in> set rows" and "unprocessed r"
  obtains e db1 where "dispatch_event clock handle max_retries (event_of_entry r) db = (Err e, db1)"
      "tables db1 = (rows, calls) \<or> tables db1 = (rows, called handle r @ calls)"
  | db1 where "dispatch_event clock handle max_retries (event_of_entry r) db =
        (Ok (if succeeds handle (event_of_entry r) then 1 else 0), db1)"
      "tables db1 = (settle_rows clock handle max_retries {ox_id r} rows, called handle r @ calls)"
proof -
  let ?e = "event_of_entry r"
  have id: "ov_id ?e = ox_id r" by (simp add: event_of_entry_def)
  note found = find_by_id [OF assms(2,3)]
  note settles = set_entry_settle [OF assms(2,3), of _ clock handle max_retries]
  note defs = dispatch_event_def is_processed_def id bindq_def run_handler_def handled_def succeeds_def
  show thesis
  proof (cases rule: select_cases [of "\<lambda>(rows, _). case find (\<lambda>q. ox_id q = ox_id r) rows of
      Some q \<Rightarrow> ox_processed_at q \<noteq> None | None \<Rightarrow> False" db])
    case (1 e db1)
    then show thesis using that(1) assms(1) by (simp add: defs)
  next
    case (2 db1)
    then have skip: "is_processed (ox_id r) db = (Ok False, db1)" and db1: "tables db1 = (rows, calls)"
      using found assms(1,4) by (simp_all add: is_processed_def unprocessed_def)
    let ?db2 = "db1\<lparr>tables := (rows, ox_id r # calls)\<rparr>"
    show thesis
    proof (cases "handle ?e")
      case None
      let ?m = "''no handler registered for event type: '' @ ov_event_type ?e"
      have s: "set_entry (ox_id r) (fail_entry (clock ?e) max_retries (ox_retry_count r + 1) ?m) rows =
          settle_rows clock handle max_retries {ox_id r} rows"
        by (rule settles) (simp add: settle_def None Let_def)
      show thesis
        by (cases rule: mark_event_failed_run [OF db1 assms(2,3), of "clock ?e" ?m max_retries])
          (use that None skip s in \<open>simp_all add: dispatch_event_def bindq_def id run_handler_def handled_def succeeds_def\<close>)
    next
      case (Some x)
      show thesis
      proof (cases x)
        case (Ok u)
        let ?f = "\<lambda>(rows, log). (set_entry (ox_id r) (\<lambda>q. q\<lparr>ox_processed_at := Some (clock ?e)\<rparr>) rows, log)"
        have s: "set_entry (ox_id r) (\<lambda>q. q\<lparr>ox_processed_at := Some (clock ?e)\<rparr>) rows =
            settle_rows clock handle max_retries {ox_id r} rows"
          by (rule settles) (simp add: settle_def Some Ok Let_def)
        show thesis
          by (cases rule: modify_cases [of ?f ?db2])
            (use that Some Ok skip s db1 in \<open>simp_all add: dispatch_event_def bindq_def id run_handler_def handled_def
              succeeds_def mark_processed_def\<close>)
      next
        case (Err m)
        have s: "set_entry (ox_id r) (fail_entry (clock ?e) max_retries (ox_retry_count r + 1) m) rows =
            settle_rows clock handle max_retries {ox_id r} rows"
          by (rule settles) (simp add: settle_def Some Err Let_def)
        have db2: "tables ?db2 = (rows, ox_id r # calls)" by simp
        show thesis
          by (cases rule: mark_event_failed_run [OF db2 assms(2,3), of "clock ?e" m max_retries])
            (use that Some Err skip s db1 in \<open>simp_all add: dispatch_event_def bindq_def id run_handler_def handled_def
              succeeds_def\<close>)
      qed
    qed
  qed
qed

lemma settle_rows_ids: "map ox_id (settle_rows clock handle max_retries I rows) = map ox_id rows"
  by (simp add: settle_rows_def settle_id)

lemma settle_rows_twice:
  "I \<inter> J = {} \<Longrightarrow> settle_rows clock handle max_retries J (settle_rows clock handle max_retries I rows) =
    settle_rows clock handle max_retries (I \<union> J) rows"
  by (auto simp: settle_rows_def settle_id)

lemma settle_rows_other: "r \<in> set rows \<Longrightarrow> ox_id r \<notin> I \<Longrightarrow> r \<in> set (settle_rows clock handle max_retries I rows)"
  by (auto simp: settle_rows_def image_iff intro!: bexI [of _ r])

lemma dispatch_events_run:
  assumes "tables db = (rows, calls)" and "distinct (map ox_id rows)" and "distinct (map ov_id es)"
    and "\<forall>e\<in>set es. \<exists>r\<in>set rows. unprocessed r \<and> e = event_of_entry r"
    and "dispatch_events clock handle max_retries n es db = (x, db')"
  shows "\<exists>k m. k \<le> m \<and> m \<le> Suc k \<and> m \<le> length es \<and>
    tables db' = (settle_rows clock handle max_retries (ov_id ` set (take k es)) rows,
      rev (map ov_id (filter (handled handle) (take m es))) @ calls) \<and>
    (\<forall>v. x = Ok v \<longrightarrow> k = length es \<and> v = n + length (filter (succeeds handle) es))"
  using assms
proof (induction es arbitrary: n db rows calls)
  case Nil
  then show ?case by (auto simp: settle_rows_def)
next
  case (Cons e es)
  from Cons.prems(4) obtain r where r: "r \<in> set rows" "unprocessed r" "e = event_of_entry r" by auto
  then have id: "ov_id e = ox_id r" by (simp add: event_of_entry_def)
  show ?case
  proof (cases rule: dispatch_event_run [OF Cons.prems(1,2) r(1,2), of clock handle max_retries])
    case (1 err db1)
    with Cons.prems(5) r(3) have x: "x = Err err" "db' = db1" by (auto simp: bindq_def)
    show ?thesis
    proof (cases "tables db1 = (rows, calls)")
      case True
      with x show ?thesis by (intro exI [of _ 0]) (simp add: settle_rows_def)
    next
      case False
      with x 1(2) id r(3) show ?thesis by (intro exI [of _ 0] exI [of _ 1]) (auto simp: settle_rows_def)
    qed
  next
    case (2 db1)
    let ?rows = "settle_rows clock handle max_retries {ox_id r} rows"
    and ?n = "n + (if succeeds handle e then 1 else 0)"
    have run: "dispatch_events clock handle max_retries ?n es db1 = (x, db')"
      using 2(1) Cons.prems(5) r(3) by (simp add: bindq_def)
    have ids: "distinct (map ox_id ?rows)" using Cons.prems(2) by (simp add: settle_rows_ids)
    have rest: "\<forall>e'\<in>set es. \<exists>q\<in>set ?rows. unprocessed q \<and> e' = event_of_entry q"
    proof
      fix e' assume e': "e' \<in> set es"
      with Cons.prems(4) obtain q where q: "q \<in> set rows" "unprocessed q" "e' = event_of_entry q" by auto
      from e' Cons.prems(3) id have "ov_id e' \<noteq> ox_id r" by (auto simp: image_iff)
      with q have "q \<in> set ?rows" by (intro settle_rows_other) (auto simp: event_of_entry_def)
      with q show "\<exists>q\<in>set ?rows. unprocessed q \<and> e' = event_of_entry q" by blast
    qed
    from Cons.prems(3) have "distinct (map ov_id es)" by simp
    from Cons.IH [OF 2(2) ids this rest run] obtain k m where km: "k \<le> m" "m \<le> Suc k" "m \<le> length es"
      "tables db' = (settle_rows clock handle max_retries (ov_id ` set (take k es)) ?rows,
        rev (map ov_id (filter (handled handle) (take m es))) @ called handle r @ calls)"
      "\<forall>v. x = Ok v \<longrightarrow> k = length es \<and> v = ?n + length (filter (succeeds handle) es)" by blast
    have "{ox_id r} \<inter> ov_id ` set (take k es) = {}"
      using Cons.prems(3) id by (auto simp: image_iff dest: in_set_takeD)
    with km id r(3) show ?thesis
      by (intro exI [of _ "Suc k"] exI [of _ "Suc m"]) (auto simp: settle_rows_twice)
  qed
qed

text \<open>The events a batch takes: the oldest \<open>batch_size\<close> pending ones.\<close>

definition batch_rows :: "nat \<Rightarrow> 'j outbox_entry list \<Rightarrow> 'j outbox_entry list" where
  "batch_rows batch_size rows = take batch_size (sort_key ox_created_at (filter unprocessed rows))"

lemma batch_rows_ids: "distinct (map ox_id rows) \<Longrightarrow> distinct (map ox_id (batch_rows batch_size rows))"
  unfolding batch_rows_def take_map [symmetric]
  by (intro distinct_take) (simp add: distinct_map inj_on_def)

lemma batch_rows_pending: "r \<in> set (batch_rows batch_size rows) \<Longrightarrow> r \<in> set rows \<and> unprocessed r"
  by (auto simp: batch_rows_def dest!: in_set_takeD)

lemma process_batch_run:
  assumes "tables db = (rows, calls)" and "distinct (map ox_id rows)"
    and "process_batch clock handlers max_retries batch_size db = (x, db')"
  obtains es k m where "set es = event_of_entry ` set (batch_rows batch_size rows)" and "distinct (map ov_id es)"
    and "\<And>a. sorted (map ov_created_at (filter (\<lambda>e. ov_aggregate_id e = a) es))"
    and "k \<le> m" and "m \<le> Suc k" and "m \<le> length es"
    and "tables db' = (settle_rows clock (handler_of handlers) max_retries (ov_id ` set (take k es)) rows,
      rev (map ov_id (filter (handled (handler_of handlers)) (take m es))) @ calls)"
    and "\<And>v. x = Ok v \<Longrightarrow> k = length es \<and> v = length (filter (succeeds (handler_of handlers)) es)"
proof -
  let ?p = "map event_of_entry (sort_key ox_created_at (batch_rows batch_size rows))"
  let ?es = "processing_order ?p"
  have ids: "map ov_id ?p = map ox_id (sort_key ox_created_at (batch_rows batch_size rows))"
    by (simp add: event_of_entry_def)
  have "distinct (map ov_id ?p)"
    unfolding ids using batch_rows_ids [OF assms(2), of batch_size] by (simp add: distinct_map)
  then have es: "set ?es = event_of_entry ` set (batch_rows batch_size rows)" "distinct (map ov_id ?es)"
    by (simp_all add: processing_order_events)
  have pending: "\<forall>e\<in>set ?es. \<exists>r\<in>set rows. unprocessed r \<and> e = event_of_entry r"
    unfolding es(1) by (auto dest: batch_rows_pending)
  show thesis
  proof (cases rule: select_cases [of "\<lambda>(rows, _ :: uuid list). map event_of_entry
      (sort_key ox_created_at (take batch_size (sort_key ox_created_at (filter unprocessed rows))))" db])
    case (1 e db1)
    with assms(1,3) have "x = Err e" "tables db' = (rows, calls)"
      by (auto simp: process_batch_def poll_unprocessed_def bindq_def)
    with es processing_order_sorted [of _ ?p] show thesis
      by (intro that [of ?es 0 0]) (auto simp: settle_rows_def)
  next
    case (2 db1)
    with assms(1,3) have run: "dispatch_events clock (handler_of handlers) max_retries 0 ?es db1 = (x, db')" "tables db1 = (rows, calls)"
      by (auto simp: process_batch_def poll_unprocessed_def bindq_def batch_rows_def)
    from dispatch_events_run [OF run(2) assms(2) es(2) pending run(1)] es processing_order_sorted [of _ ?p] that [of ?es]
    show thesis by auto
  qed
qed

section \<open>Delivery\<close>

text \<open>C13. Let the ids of the rows be distinct, and let any statement of a batch fail.  The batch works through a list
of exactly the oldest \<open>batch_size\<close> pending events, each once, those of one aggregate in the order of their creation.
It settles the first \<open>k\<close> of them and leaves every other row as it was; the handlers were called for the first \<open>m\<close>,
in that order, where \<open>m\<close> exceeds \<open>k\<close> by at most one, the event whose mark failed and which will be delivered
again.  To settle an event is to mark it processed when its handler succeeded, and otherwise to count a retry and give
up at the limit.  A batch that ends without an error has settled the whole list and counts the handlers that
succeeded.\<close>

theorem outbox_delivers:
  assumes "tables db = (rows, calls)" and "distinct (map ox_id rows)"
    and "process_batch clock handlers max_retries batch_size db = (x, db')"
  shows "\<exists>es k m. set es = event_of_entry ` set (batch_rows batch_size rows) \<and> distinct (map ov_id es) \<and>
    (\<forall>a. sorted (map ov_created_at (filter (\<lambda>e. ov_aggregate_id e = a) es))) \<and>
    m \<in> {k, Suc k} \<and> m \<le> length es \<and>
    tables db' = (settle_rows clock (handler_of handlers) max_retries (ov_id ` set (take k es)) rows,
      rev (map ov_id (filter (handled (handler_of handlers)) (take m es))) @ calls) \<and>
    (case x of Ok n \<Rightarrow> k = length es \<and> n = length (filter (succeeds (handler_of handlers)) es) | Err _ \<Rightarrow> True)"
proof (rule process_batch_run [OF assms])
  fix es k m
  assume "set es = event_of_entry ` set (batch_rows batch_size rows)" and "distinct (map ov_id es)"
    and "\<And>a. sorted (map ov_created_at (filter (\<lambda>e. ov_aggregate_id e = a) es))"
    and "k \<le> m" and "m \<le> Suc k" and "m \<le> length es"
    and "tables db' = (settle_rows clock (handler_of handlers) max_retries (ov_id ` set (take k es)) rows,
      rev (map ov_id (filter (handled (handler_of handlers)) (take m es))) @ calls)"
    and "\<And>v. x = Ok v \<Longrightarrow> k = length es \<and> v = length (filter (succeeds (handler_of handlers)) es)"
  then show ?thesis by (intro exI [of _ es] exI [of _ k] exI [of _ m]) (auto split: result.split)
qed

definition sample_outbox :: "unit outbox_entry list" where
  "sample_outbox = map (\<lambda>(i, event, t). \<lparr>ox_id = i, ox_aggregate_type = ''activity'', ox_aggregate_id = ''a'',
    ox_event_type = event, ox_payload = (), ox_created_at = t, ox_processed_at = None, ox_failed_at = None,
    ox_error_message = None, ox_retry_count = 2, ox_correlation_id = None\<rparr>)
    [(1, ''known'', 20), (2, ''unknown'', 10)]"

definition sample_handlers :: "unit event_handler list" where
  "sample_handlers = register_handler (''known'', \<lambda>_. Ok ()) []"

lemma sample_batch:
  "\<exists>db'. process_batch (\<lambda>_. 30) sample_handlers 3 10 \<lparr>tables = (sample_outbox, []), faults = []\<rparr> = (Ok 1, db') \<and>
    map ox_processed_at (fst (tables db')) = [Some 30, None] \<and>
    map ox_failed_at (fst (tables db')) = [None, Some 30] \<and> snd (tables db') = [1]"
  by (simp add: process_batch_def poll_unprocessed_def bindq_def select_faultless modify_faultless sample_outbox_def
    unprocessed_def event_of_entry_def processing_order_def aggregate_groups_def dispatch_event_def is_processed_def
    sample_handlers_def register_handler_def handler_of_def run_handler_def mark_processed_def mark_event_failed_def set_entry_def fail_entry_def ok_or_def
    word_sle_eq)

theorem outbox_delivers_witness:
  "\<exists>(db' :: (unit outbox_entry list \<times> uuid list) db) es. snd (tables db') = [1] \<and> length es = 2 \<and>
    sorted (map ov_created_at (filter (\<lambda>e. ov_aggregate_id e = ''a'') es)) \<and>
    tables db' = (settle_rows (\<lambda>_. 30) (handler_of sample_handlers) 3 (ov_id ` set es) sample_outbox,
      rev (map ov_id (filter (handled (handler_of sample_handlers)) es)))"
proof -
  let ?db = "\<lparr>tables = (sample_outbox, []), faults = []\<rparr>"
  obtain db' where run: "process_batch (\<lambda>_. 30) sample_handlers 3 10 ?db = (Ok 1, db')" "snd (tables db') = [1]"
    using sample_batch by blast
  have "distinct (map ox_id sample_outbox)" by (simp add: sample_outbox_def)
  from outbox_delivers [OF _ this run(1)] obtain es k m where
    es: "set es = event_of_entry ` set (batch_rows 10 sample_outbox)" "distinct (map ov_id es)"
      "\<forall>a. sorted (map ov_created_at (filter (\<lambda>e. ov_aggregate_id e = a) es))" "m \<in> {k, Suc k}" "m \<le> length es"
      "tables db' = (settle_rows (\<lambda>_. 30) (handler_of sample_handlers) 3 (ov_id ` set (take k es)) sample_outbox,
        rev (map ov_id (filter (handled (handler_of sample_handlers)) (take m es))) @ [])" "k = length es"
    by auto
  have "ov_id ` set es = {1, 2}"
    unfolding es(1) by (auto simp: batch_rows_def sample_outbox_def unprocessed_def event_of_entry_def)
  then have "length es = 2" using distinct_card [OF es(2)] by simp
  with es run(2) show ?thesis by (intro exI [of _ db'] exI [of _ es]) auto
qed

end
