(* ===== verification/Authentication.thy ===== *)
theory Authentication
  imports Step_Logic Api_Error Gpx_Generator
begin

text \<open>
  Authentication: sessions (\<open>crates/infrastructure/src/session.rs\<close>), users (\<open>user_persistence.rs\<close>), the store of
  login states (\<open>oidc_state_store.rs\<close>), the extractor \<open>AuthSession\<close> (\<open>auth_middleware.rs\<close>) and the handlers of
  \<open>crates/api/src/auth_handlers.rs\<close>.  The OIDC provider is the interface of \<open>crates/app/src/identity.rs\<close>, its
  answers are arguments; so are SHA-256, the UUID parser, random identifiers and the clocks: \<open>Instant\<close> of the state
  store, \<open>Utc::now()\<close> of the process and \<open>now()\<close> of the database, in nanoseconds.
\<close>

section \<open>Strings and headers\<close>

definition hex_encode :: "string \<Rightarrow> string" where
  "hex_encode bytes = concat (map (\<lambda>c. [hex_digit (byte c div 16), hex_digit (byte c mod 16)]) bytes)"

definition strip_prefix :: "string \<Rightarrow> string \<Rightarrow> string option" where
  "strip_prefix p s = (if take (length p) s = p then Some (drop (length p) s) else None)"

fun split_char :: "char \<Rightarrow> string \<Rightarrow> string list" where
  "split_char c [] = [[]]"
| "split_char c (x # xs) =
    (if x = c then [] # split_char c xs
     else (case split_char c xs of w # ws \<Rightarrow> (x # w) # ws | [] \<Rightarrow> [[x]]))"

fun find_map :: "('a \<Rightarrow> 'b option) \<Rightarrow> 'a list \<Rightarrow> 'b option" where
  "find_map f [] = None"
| "find_map f (x # xs) = (case f x of Some y \<Rightarrow> Some y | None \<Rightarrow> find_map f xs)"

definition SESSION_COOKIE_NAME :: string where
  "SESSION_COOKIE_NAME = ''haiker_sid''"

text \<open>Headers as \<open>HeaderValue::to_str\<close> gives them: \<open>None\<close> when absent or not visible ASCII.\<close>

definition extract_cookie_value :: "string \<Rightarrow> string option \<Rightarrow> string option" where
  "extract_cookie_value name header =
    Option.bind header (\<lambda>h. find_map (\<lambda>c. Option.bind (strip_prefix name (trim c)) (strip_prefix ''='')) (split_char CHR '';'' h))"

definition extract_session_cookie :: "string option \<Rightarrow> string option" where
  "extract_session_cookie header = extract_cookie_value SESSION_COOKIE_NAME header"

section \<open>Sessions and users\<close>

record user_row =
  usr_id :: uuid
  usr_external_id :: string
  usr_email :: "string option"
  usr_display_name :: "string option"
  usr_created_at :: time
  usr_updated_at :: time

record session_row =
  ses_id :: uuid
  ses_user_id :: uuid
  ses_token_hash :: string
  ses_csrf_token :: string
  ses_expires_at :: time
  ses_created_at :: time
  ses_revoked_at :: "time option"

record identity_tables =
  idt_users :: "user_row list"
  idt_sessions :: "session_row list"

type_synonym 'a identity_sql = "(identity_tables, 'a, db_error) sql"

record session_info =
  si_user_id :: uuid
  si_csrf_token :: string
  si_session_id :: uuid

definition hash_token :: "(string \<Rightarrow> string) \<Rightarrow> string \<Rightarrow> string" where
  "hash_token sha256 token = hex_encode (sha256 token)"

text \<open>What a request generates or reads from its surroundings.\<close>

record call_values =
  cv_instant :: time
  cv_utc :: time
  cv_now :: time
  cv_user_id :: uuid
  cv_session_id :: uuid
  cv_raw :: uuid
  cv_csrf :: uuid

definition create_session ::
  "(string \<Rightarrow> string) \<Rightarrow> call_values \<Rightarrow> uuid \<Rightarrow> nat \<Rightarrow> (string \<times> string) identity_sql" where
  "create_session sha256 v user seconds =
    (let raw_token = uuid_to_string (cv_raw v); csrf_token = uuid_to_string (cv_csrf v);
       r = \<lparr>ses_id = cv_session_id v, ses_user_id = user, ses_token_hash = hash_token sha256 raw_token,
         ses_csrf_token = csrf_token, ses_expires_at = cv_utc v + int seconds * 1000000000,
         ses_created_at = cv_now v, ses_revoked_at = None\<rparr> in
     bindq (query (\<lambda>t.
       if ses_id r \<in> ses_id ` set (idt_sessions t) then (Err (UniqueViolation ''sessions_pkey''), t)
       else if ses_token_hash r \<in> ses_token_hash ` set (idt_sessions t)
       then (Err (UniqueViolation ''idx_sessions_token_hash''), t)
       else if user \<notin> usr_id ` set (idt_users t) then (Err (ForeignKeyViolation ''sessions_user_id_fkey''), t)
       else (Ok (), t\<lparr>idt_sessions := idt_sessions t @ [r]\<rparr>))) (\<lambda>_.
     returnq (raw_token, csrf_token)))"

definition usable :: "time \<Rightarrow> string \<Rightarrow> session_row \<Rightarrow> bool" where
  "usable now token_hash r \<longleftrightarrow>
    ses_token_hash r = token_hash \<and> now < ses_expires_at r \<and> ses_revoked_at r = None"

definition session_info_of :: "session_row \<Rightarrow> session_info" where
  "session_info_of r = \<lparr>si_user_id = ses_user_id r, si_csrf_token = ses_csrf_token r, si_session_id = ses_id r\<rparr>"

definition validate_session :: "(string \<Rightarrow> string) \<Rightarrow> time \<Rightarrow> string \<Rightarrow> session_info option identity_sql" where
  "validate_session sha256 now raw_token =
    (let token_hash = hash_token sha256 raw_token in
     select (\<lambda>t. map_option session_info_of (find (usable now token_hash) (idt_sessions t))))"

definition revoke_where :: "(session_row \<Rightarrow> bool) \<Rightarrow> time \<Rightarrow> identity_tables \<Rightarrow> identity_tables" where
  "revoke_where sel now t = t\<lparr>idt_sessions :=
    map (\<lambda>r. if sel r \<and> ses_revoked_at r = None then r\<lparr>ses_revoked_at := Some now\<rparr> else r) (idt_sessions t)\<rparr>"

definition revoke_session :: "time \<Rightarrow> uuid \<Rightarrow> unit identity_sql" where
  "revoke_session now i = modify (revoke_where (\<lambda>r. ses_id r = i) now)"

definition revoke_all_user_sessions :: "time \<Rightarrow> uuid \<Rightarrow> unit identity_sql" where
  "revoke_all_user_sessions now user = modify (revoke_where (\<lambda>r. ses_user_id r = user) now)"

definition cleanup_expired :: "time \<Rightarrow> nat identity_sql" where
  "cleanup_expired now = query (\<lambda>t.
    (Ok (length (filter (\<lambda>r. ses_expires_at r \<le> now) (idt_sessions t))),
     t\<lparr>idt_sessions := filter (\<lambda>r. \<not> ses_expires_at r \<le> now) (idt_sessions t)\<rparr>))"

datatype authentication_error =
    AuthInvalidSession
  | AuthMissingCredentials
  | AuthExpired
  | AuthProviderError string
  | AuthInvalidState
  | AuthCodeExchangeFailed string
  | AuthPersistenceError db_error

record oidc_claims =
  oc_subject :: string
  oc_email :: "string option"
  oc_name :: "string option"

definition coalesce :: "'a option \<Rightarrow> 'a option \<Rightarrow> 'a option" where
  "coalesce x y = (case x of Some _ \<Rightarrow> x | None \<Rightarrow> y)"

definition upsert_user ::
  "call_values \<Rightarrow> string \<Rightarrow> string option \<Rightarrow> string option \<Rightarrow> identity_tables \<Rightarrow>
    (uuid, db_error) result \<times> identity_tables" where
  "upsert_user v external_id email name t =
    (case find (\<lambda>u. usr_external_id u = external_id) (idt_users t) of
       Some u \<Rightarrow> (Ok (usr_id u), t\<lparr>idt_users := map (\<lambda>u. if usr_external_id u = external_id
           then u\<lparr>usr_email := coalesce email (usr_email u),
             usr_display_name := coalesce name (usr_display_name u), usr_updated_at := cv_now v\<rparr> else u) (idt_users t)\<rparr>)
     | None \<Rightarrow>
         if cv_user_id v \<in> usr_id ` set (idt_users t) then (Err (UniqueViolation ''users_pkey''), t)
         else (Ok (cv_user_id v), t\<lparr>idt_users := idt_users t @ [\<lparr>usr_id = cv_user_id v, usr_external_id = external_id,
           usr_email = email, usr_display_name = name, usr_created_at = cv_now v, usr_updated_at = cv_now v\<rparr>]\<rparr>))"

definition find_or_create_by_external_id ::
  "call_values \<Rightarrow> string \<Rightarrow> string option \<Rightarrow> string option \<Rightarrow> (identity_tables, uuid, authentication_error) sql" where
  "find_or_create_by_external_id v external_id email name =
    map_errq AuthPersistenceError (query (upsert_user v external_id email name))"

section \<open>Login states\<close>

record state_entry =
  ste_nonce :: string
  ste_code_verifier :: string
  ste_expires_at :: time

type_synonym state_store = "string \<rightharpoonup> state_entry"

definition DEFAULT_TTL :: time where
  "DEFAULT_TTL = 600 * 1000000000"

definition store_state :: "time \<Rightarrow> string \<Rightarrow> string \<Rightarrow> string \<Rightarrow> state_store \<Rightarrow> state_store" where
  "store_state now st nonce code_verifier m =
    (\<lambda>k. case m k of Some e \<Rightarrow> if now < ste_expires_at e then Some e else None | None \<Rightarrow> None)
      (st \<mapsto> \<lparr>ste_nonce = nonce, ste_code_verifier = code_verifier, ste_expires_at = now + DEFAULT_TTL\<rparr>)"

definition consume_state :: "time \<Rightarrow> string \<Rightarrow> state_store \<Rightarrow> (string \<times> string) option \<times> state_store" where
  "consume_state now st m =
    (case m st of
       None \<Rightarrow> (None, m)
     | Some e \<Rightarrow> (if now < ste_expires_at e then Some (ste_nonce e, ste_code_verifier e) else None, m(st := None)))"

section \<open>The extractor\<close>

datatype http_method = GET | HEAD | POST | PUT | PATCH | DELETE | OPTIONS | Other_Method string

record auth_request =
  rq_method :: http_method
  rq_authorization :: "string option"
  rq_cookie :: "string option"
  rq_csrf :: "string option"

definition is_state_changing_method :: "http_method \<Rightarrow> bool" where
  "is_state_changing_method m \<longleftrightarrow> m = POST \<or> m = PUT \<or> m = PATCH \<or> m = DELETE"

text \<open>The environment variable is read once; here it is an argument.\<close>

definition is_dev_auth_enabled :: "string option \<Rightarrow> bool" where
  "is_dev_auth_enabled env = (case env of Some v \<Rightarrow> v = ''true'' \<or> v = ''1'' | None \<Rightarrow> False)"

definition try_dev_bearer_auth :: "(string \<Rightarrow> uuid option) \<Rightarrow> auth_request \<Rightarrow> user_id option" where
  "try_dev_bearer_auth parse_uuid rq =
    Option.bind (rq_authorization rq) (\<lambda>h. Option.bind (strip_prefix ''Bearer '' h) (\<lambda>token.
      map_option UserId (parse_uuid token)))"

datatype auth_session_error = MissingCredentials | InvalidSession | CsrfMismatch

definition auth_session ::
  "(string \<Rightarrow> string) \<Rightarrow> (string \<Rightarrow> uuid option) \<Rightarrow> string option \<Rightarrow> time \<Rightarrow> auth_request \<Rightarrow>
    (identity_tables, user_id, auth_session_error) sql" where
  "auth_session sha256 parse_uuid env now rq =
    (case if is_dev_auth_enabled env then try_dev_bearer_auth parse_uuid rq else None of
       Some actor \<Rightarrow> returnq actor
     | None \<Rightarrow>
         bindq (of_result (ok_or MissingCredentials (extract_cookie_value SESSION_COOKIE_NAME (rq_cookie rq)))) (\<lambda>raw_token.
         bindq (map_errq (\<lambda>_. InvalidSession) (validate_session sha256 now raw_token)) (\<lambda>found.
         bindq (of_result (ok_or InvalidSession found)) (\<lambda>info.
         bindq (if is_state_changing_method (rq_method rq)
           then bindq (of_result (ok_or CsrfMismatch (rq_csrf rq))) (\<lambda>csrf.
             if csrf \<noteq> si_csrf_token info then failq CsrfMismatch else returnq ())
           else returnq ()) (\<lambda>_.
         returnq (UserId (si_user_id info)))))))"

fun auth_session_error_response :: "string \<Rightarrow> auth_session_error \<Rightarrow> nat \<times> string problem_detail_body" where
  "auth_session_error_response request_id MissingCredentials = (401,
    \<lparr>pd_type = ''/problems/unauthorized'', pd_title = ''Unauthorized'', pd_status = 401, pd_code = ''UNAUTHORIZED'',
     pd_detail = ''missing session credentials'', pd_request_id = request_id\<rparr>)"
| "auth_session_error_response request_id InvalidSession = (401,
    \<lparr>pd_type = ''/problems/unauthorized'', pd_title = ''Unauthorized'', pd_status = 401, pd_code = ''UNAUTHORIZED'',
     pd_detail = ''invalid or expired session'', pd_request_id = request_id\<rparr>)"
| "auth_session_error_response request_id CsrfMismatch = (403,
    \<lparr>pd_type = ''/problems/csrf-mismatch'', pd_title = ''CSRF Mismatch'', pd_status = 403, pd_code = ''CSRF_MISMATCH'',
     pd_detail = ''CSRF token missing or invalid'', pd_request_id = request_id\<rparr>)"

section \<open>The handlers\<close>

datatype auth_body =
    NoBody
  | ProblemDoc string string nat "string option" string
  | CsrfDoc string string
  | LoginResponse string
  | CallbackResponse string string
  | MeDoc string string

record auth_answer =
  an_status :: nat
  an_set_cookie :: "string option"
  an_body :: auth_body

definition answer_with :: "nat \<Rightarrow> auth_body \<Rightarrow> auth_answer" where
  "answer_with st b = \<lparr>an_status = st, an_set_cookie = None, an_body = b\<rparr>"

definition problem_answer :: "nat \<Rightarrow> string \<Rightarrow> string \<Rightarrow> string \<Rightarrow> auth_answer" where
  "problem_answer st slug title detail = answer_with st (ProblemDoc slug title st None detail)"

abbreviation refuse_401 :: "string \<Rightarrow> auth_answer" where
  "refuse_401 detail \<equiv> problem_answer 401 ''/problems/unauthorized'' ''Unauthorized'' detail"

abbreviation refuse_500 :: "string \<Rightarrow> auth_answer" where
  "refuse_500 detail \<equiv> problem_answer 500 ''/problems/internal-error'' ''Internal Server Error'' detail"

definition not_configured :: auth_answer where
  "not_configured =
    problem_answer 503 ''/problems/service-unavailable'' ''Service Unavailable'' ''OIDC provider not configured''"

text \<open>The shared state: the login states in memory and the database.\<close>

record auth_state =
  as_states :: state_store
  as_db :: "identity_tables db"

definition on_identity :: "(identity_tables, 'a, 'e) sql \<Rightarrow> (auth_state, 'a, 'e) step" where
  "on_identity m s = (case m (as_db s) of (r, db) \<Rightarrow> (r, s\<lparr>as_db := db\<rparr>))"

text \<open>Handlers return early with an answer, written as an error of the step.\<close>

definition answered :: "(auth_state, auth_answer, auth_answer) step \<Rightarrow> auth_state \<Rightarrow> auth_answer \<times> auth_state" where
  "answered m s = (case m s of (Ok a, s') \<Rightarrow> (a, s') | (Err a, s') \<Rightarrow> (a, s'))"

definition post_login ::
  "(string \<times> string \<times> string \<times> string, authentication_error) result option \<Rightarrow> call_values \<Rightarrow>
    auth_state \<Rightarrow> auth_answer \<times> auth_state" where
  "post_login provider v s =
    (case provider of
       None \<Rightarrow> (not_configured, s)
     | Some (Err _) \<Rightarrow> (refuse_500 ''Failed to generate authorization URL'', s)
     | Some (Ok (url, csrf_state, nonce, code_verifier)) \<Rightarrow>
         (answer_with 200 (LoginResponse url),
          s\<lparr>as_states := store_state (cv_instant v) csrf_state nonce code_verifier (as_states s)\<rparr>))"

record callback_params =
  cp_code :: "string option"
  cp_state :: "string option"
  cp_error :: "string option"
  cp_error_description :: "string option"

definition SESSION_DURATION :: nat where
  "SESSION_DURATION = 7 * 24 * 3600"

definition secure_flag :: "bool \<Rightarrow> string" where
  "secure_flag cookie_secure = (if cookie_secure then ''; Secure'' else [])"

definition session_cookie :: "bool \<Rightarrow> string \<Rightarrow> string" where
  "session_cookie cookie_secure raw_token =
    SESSION_COOKIE_NAME @ ''='' @ raw_token @ ''; HttpOnly'' @ secure_flag cookie_secure @
    ''; SameSite=Lax; Path=/; Max-Age='' @ decimal SESSION_DURATION"

definition consume_step :: "time \<Rightarrow> string \<Rightarrow> (auth_state, string \<times> string, auth_answer) step" where
  "consume_step now st s = (case consume_state now st (as_states s) of
     (found, m) \<Rightarrow> (ok_or (refuse_401 ''Invalid or expired state parameter'') found, s\<lparr>as_states := m\<rparr>))"

definition get_callback ::
  "(string \<Rightarrow> string) \<Rightarrow> bool \<Rightarrow> (string \<Rightarrow> string \<Rightarrow> string \<Rightarrow> (oidc_claims, authentication_error) result) option \<Rightarrow>
    call_values \<Rightarrow> callback_params \<Rightarrow> auth_state \<Rightarrow> auth_answer \<times> auth_state" where
  "get_callback sha256 cookie_secure provider v params = answered (
    bindq (case cp_error params of
        Some _ \<Rightarrow> failq (refuse_401 (''Authentication failed: '' @
          (case cp_error_description params of Some d \<Rightarrow> d | None \<Rightarrow> ''unknown error'')))
      | None \<Rightarrow> returnq ()) (\<lambda>_.
    bindq (of_result (ok_or not_configured provider)) (\<lambda>exchange_code.
    bindq (of_result (ok_or (problem_answer 400 ''/problems/bad-request'' ''Bad Request'' ''Missing authorization code'')
      (cp_code params))) (\<lambda>code.
    bindq (of_result (ok_or (refuse_401 ''Missing state parameter'') (cp_state params))) (\<lambda>callback_state.
    bindq (consume_step (cv_instant v) callback_state) (\<lambda>(nonce, code_verifier).
    bindq (of_result (map_err (\<lambda>_. refuse_401 ''Failed to exchange authorization code'')
      (exchange_code code nonce code_verifier))) (\<lambda>claims.
    bindq (map_errq (\<lambda>_. refuse_500 ''Failed to create user account'')
      (on_identity (find_or_create_by_external_id v (oc_subject claims) (oc_email claims) (oc_name claims)))) (\<lambda>user.
    bindq (map_errq (\<lambda>_. refuse_500 ''Failed to create session'')
      (on_identity (create_session sha256 v user SESSION_DURATION))) (\<lambda>(raw_token, csrf_token).
    returnq \<lparr>an_status = 200, an_set_cookie = Some (session_cookie cookie_secure raw_token),
      an_body = CallbackResponse csrf_token (uuid_to_string user)\<rparr>)))))))))"

definition clear_cookie :: "bool \<Rightarrow> string" where
  "clear_cookie cookie_secure =
    SESSION_COOKIE_NAME @ ''=; HttpOnly'' @ secure_flag cookie_secure @ ''; SameSite=Lax; Path=/; Max-Age=0''"

definition post_logout ::
  "(string \<Rightarrow> string) \<Rightarrow> bool \<Rightarrow> call_values \<Rightarrow> auth_request \<Rightarrow> auth_state \<Rightarrow> auth_answer \<times> auth_state" where
  "post_logout sha256 cookie_secure v rq =
    (case extract_session_cookie (rq_cookie rq) of
       None \<Rightarrow> (\<lambda>s. (answer_with 204 NoBody, s))
     | Some raw_token \<Rightarrow> (\<lambda>s.
         let cleared = \<lparr>an_status = 204, an_set_cookie = Some (clear_cookie cookie_secure), an_body = NoBody\<rparr> in
         (case on_identity (validate_session sha256 (cv_now v) raw_token) s of
            (Ok (Some info), s1) \<Rightarrow>
              if rq_csrf rq = Some (si_csrf_token info)
              then (cleared, snd (on_identity (revoke_session (cv_now v) (si_session_id info)) s1))
              else (answer_with 403 (CsrfDoc ''CSRF_MISMATCH'' ''CSRF token missing or invalid''), s1)
          | (_, s1) \<Rightarrow> (cleared, s1))))"

definition get_me ::
  "(string \<Rightarrow> string) \<Rightarrow> call_values \<Rightarrow> auth_request \<Rightarrow> auth_state \<Rightarrow> auth_answer \<times> auth_state" where
  "get_me sha256 v rq s =
    (let unauthorized = (\<lambda>detail. answer_with 401
       (ProblemDoc ''/problems/unauthorized'' ''Unauthorized'' 401 (Some ''UNAUTHORIZED'') detail)) in
     case extract_session_cookie (rq_cookie rq) of
       None \<Rightarrow> (unauthorized ''missing session credentials'', s)
     | Some raw_token \<Rightarrow>
         (case on_identity (validate_session sha256 (cv_now v) raw_token) s of
            (Ok (Some info), s1) \<Rightarrow>
              (answer_with 200 (MeDoc (uuid_to_string (si_user_id info)) (si_csrf_token info)), s1)
          | (_, s1) \<Rightarrow> (unauthorized ''invalid or expired session'', s1)))"

end
