(* ===== verification/Authentication_Correctness.thy ===== *)
theory Authentication_Correctness
  imports Authentication
begin

text \<open>
  Correctness of the authentication: only a login through the provider gives a session, a login state is used once
  and in time, and a session lasts until it is revoked or expires.
\<close>

section \<open>Histories\<close>

datatype auth_op =
    LoginReq "(string \<times> string \<times> string \<times> string, authentication_error) result option" call_values
  | CallbackReq bool "(string \<Rightarrow> string \<Rightarrow> string \<Rightarrow> (oidc_claims, authentication_error) result) option"
      call_values callback_params
  | LogoutReq bool call_values auth_request
  | MeReq call_values auth_request
  | RevokeAll time uuid
  | CleanupRound time

fun auth_step :: "(string \<Rightarrow> string) \<Rightarrow> auth_op \<Rightarrow> auth_state \<Rightarrow> auth_state" where
  "auth_step sha (LoginReq provider v) s = snd (post_login provider v s)"
| "auth_step sha (CallbackReq secure provider v params) s = snd (get_callback sha secure provider v params s)"
| "auth_step sha (LogoutReq secure v rq) s = snd (post_logout sha secure v rq s)"
| "auth_step sha (MeReq v rq) s = snd (get_me sha v rq s)"
| "auth_step sha (RevokeAll now user) s = snd (on_identity (revoke_all_user_sessions now user) s)"
| "auth_step sha (CleanupRound now) s = snd (on_identity (cleanup_expired now) s)"

fun auth_run :: "(string \<Rightarrow> string) \<Rightarrow> auth_op list \<Rightarrow> auth_state \<Rightarrow> auth_state" where
  "auth_run sha [] s = s"
| "auth_run sha (x # xs) s = auth_run sha xs (auth_step sha x s)"

definition sessions_of :: "auth_state \<Rightarrow> session_row list" where
  "sessions_of s = idt_sessions (tables (as_db s))"

definition users_of :: "auth_state \<Rightarrow> user_row list" where
  "users_of s = idt_users (tables (as_db s))"

text \<open>The code exchange of a request: the state it presents with the nonce and the verifier that are stored for it.\<close>

fun presented :: "auth_op \<Rightarrow> string option" where
  "presented (CallbackReq _ provider _ params) =
    (if cp_error params = None \<and> provider \<noteq> None \<and> cp_code params \<noteq> None then cp_state params else None)"
| "presented _ = None"

fun instant_of :: "auth_op \<Rightarrow> time" where
  "instant_of (LoginReq _ v) = cv_instant v"
| "instant_of (CallbackReq _ _ v _) = cv_instant v"
| "instant_of _ = 0"

definition exchange_of :: "auth_op \<Rightarrow> auth_state \<Rightarrow> (string \<times> string \<times> string) option" where
  "exchange_of x s = Option.bind (presented x) (\<lambda>st. Option.bind (as_states s st) (\<lambda>e.
    if instant_of x < ste_expires_at e then Some (st, ste_nonce e, ste_code_verifier e) else None))"

text \<open>\<open>grants sha x s r\<close>: \<open>x\<close>, in state \<open>s\<close>, is a login that the provider vouched for, and \<open>r\<close> is its session.\<close>

fun grants :: "(string \<Rightarrow> string) \<Rightarrow> auth_op \<Rightarrow> auth_state \<Rightarrow> session_row \<Rightarrow> bool" where
  "grants sha (CallbackReq secure provider v params) s r =
    (\<exists>exchange_code code st nonce verifier claims. provider = Some exchange_code \<and> cp_code params = Some code \<and>
      exchange_of (CallbackReq secure provider v params) s = Some (st, nonce, verifier) \<and>
      exchange_code code nonce verifier = Ok claims \<and>
      (\<exists>w\<in>set (users_of (auth_step sha (CallbackReq secure provider v params) s)).
        usr_external_id w = oc_subject claims \<and> usr_id w = ses_user_id r) \<and>
      ses_token_hash r = hash_token sha (uuid_to_string (cv_raw v)) \<and>
      ses_csrf_token r = uuid_to_string (cv_csrf v) \<and>
      ses_expires_at r = cv_utc v + 7 * 24 * 3600 * 1000000000)"
| "grants sha _ s r = False"

section \<open>One request\<close>

lemma on_identity_simps:
  "as_states (snd (on_identity m s)) = as_states s"
  "as_db (snd (on_identity m s)) = snd (m (as_db s))"
  "fst (on_identity m s) = fst (m (as_db s))"
  by (simp_all add: on_identity_def split: prod.split)

lemma on_identity_eq: "on_identity m s = (r, s') \<longleftrightarrow> (\<exists>db. m (as_db s) = (r, db) \<and> s' = s\<lparr>as_db := db\<rparr>)"
  by (auto simp: on_identity_def split: prod.splits)

lemma validate_tables: "validate_session sha now tk db = (r, db') \<Longrightarrow> tables db' = tables db"
  unfolding validate_session_def Let_def by (metis select_tables snd_conv)

lemma query_cases:
  obtains e db1 where "query f db = (Err e, db1)" "tables db1 = tables db"
  | x t db1 where "query f db = (Ok x, db1)" "f (tables db) = (Ok x, t)" "tables db1 = t"
proof (cases "query f db")
  case (Pair r d)
  with that show thesis by (cases r) (auto dest: query_Err simp: query_Ok)
qed

lemma upsert_user_Ok:
  assumes "upsert_user v e m n t = (Ok u, t')"
  shows "idt_sessions t' = idt_sessions t" and "\<exists>w\<in>set (idt_users t'). usr_external_id w = e \<and> usr_id w = u"
proof -
  show "idt_sessions t' = idt_sessions t"
    using assms by (auto simp: upsert_user_def split: option.splits if_splits)
  show "\<exists>w\<in>set (idt_users t'). usr_external_id w = e \<and> usr_id w = u"
  proof (cases "find (\<lambda>u. usr_external_id u = e) (idt_users t)")
    case None
    with assms show ?thesis by (auto simp: upsert_user_def split: if_splits)
  next
    case (Some w)
    then have "w \<in> set (idt_users t)" "usr_external_id w = e" by (auto simp: find_Some_iff)
    let ?f = "\<lambda>u. if usr_external_id u = e
           then u\<lparr>usr_email := coalesce m (usr_email u), usr_display_name := coalesce n (usr_display_name u),
             usr_updated_at := cv_now v\<rparr> else u"
    have "?f w \<in> set (idt_users t')" "u = usr_id w"
      using Some assms \<open>w \<in> set (idt_users t)\<close> by (auto simp: upsert_user_def)
    then show ?thesis using \<open>usr_external_id w = e\<close> by (intro bexI [of _ "?f w"]) simp_all
  qed
qed

lemma answered_bindq:
  "answered (bindq m k) s = (case m s of (Ok x, s') \<Rightarrow> answered (k x) s' | (Err a, s') \<Rightarrow> (a, s'))"
proof (cases "m s")
  case (Pair r s')
  then show ?thesis by (cases r) (simp_all add: answered_def bindq_def)
qed

lemma answered_simps: "answered (returnq a) s = (a, s)" "answered (failq a) s = (a, s)"
  by (simp_all add: answered_def)

text \<open>What a callback does once its state has been consumed.\<close>

definition callback_tail where
  "callback_tail sha256 cookie_secure v exchange_code code = (\<lambda>(nonce, code_verifier).
    bindq (of_result (map_err (\<lambda>_. refuse_401 ''Failed to exchange authorization code'')
      (exchange_code code nonce code_verifier))) (\<lambda>claims.
    bindq (map_errq (\<lambda>_. refuse_500 ''Failed to create user account'')
      (on_identity (find_or_create_by_external_id v (oc_subject claims) (oc_email claims) (oc_name claims)))) (\<lambda>user.
    bindq (map_errq (\<lambda>_. refuse_500 ''Failed to create session'')
      (on_identity (create_session sha256 v user SESSION_DURATION))) (\<lambda>(raw_token, csrf_token).
    returnq \<lparr>an_status = 200, an_set_cookie = Some (session_cookie cookie_secure raw_token),
      an_body = CallbackResponse csrf_token (uuid_to_string user)\<rparr>))))"

lemma get_callback_refused:
  assumes "presented (CallbackReq secure provider v params) = None"
  shows "snd (get_callback sha secure provider v params s) = s"
    and "an_status (fst (get_callback sha secure provider v params s)) \<noteq> 200"
proof -
  have "\<exists>a. an_status a \<noteq> 200 \<and> get_callback sha secure provider v params s = (a, s)"
  proof (cases "cp_error params")
    case (Some e)
    then show ?thesis
      by (simp add: get_callback_def answered_bindq answered_simps problem_answer_def answer_with_def)
  next
    case None
    note start = this
    show ?thesis
    proof (cases provider)
      case None
      with start show ?thesis
        by (simp add: get_callback_def answered_bindq answered_simps not_configured_def problem_answer_def answer_with_def)
    next
      case (Some p)
      with start assms show ?thesis
        by (cases "cp_code params")
          (simp_all add: get_callback_def answered_bindq answered_simps problem_answer_def answer_with_def)
    qed
  qed
  then show "snd (get_callback sha secure provider v params s) = s"
    "an_status (fst (get_callback sha secure provider v params s)) \<noteq> 200" by auto
qed

lemma get_callback_presented:
  assumes "presented (CallbackReq secure provider v params) = Some st"
  shows "get_callback sha secure provider v params s =
    (case exchange_of (CallbackReq secure provider v params) s of
       None \<Rightarrow> (refuse_401 ''Invalid or expired state parameter'', s\<lparr>as_states := (as_states s)(st := None)\<rparr>)
     | Some (_, n, c) \<Rightarrow> answered (callback_tail sha secure v (the provider) (the (cp_code params)) (n, c))
         (s\<lparr>as_states := (as_states s)(st := None)\<rparr>))"
proof -
  obtain p code where start: "cp_error params = None" "provider = Some p" "cp_code params = Some code"
    "cp_state params = Some st"
    using assms by (auto split: if_splits)
  then have "get_callback sha secure provider v params s =
      answered (bindq (consume_step (cv_instant v) st) (callback_tail sha secure v p code)) s"
    by (simp add: get_callback_def answered_bindq callback_tail_def)
  moreover have "as_states s st = None \<Longrightarrow> s\<lparr>as_states := (as_states s)(st := None)\<rparr> = s"
    by (simp add: fun_upd_idem)
  ultimately show ?thesis
    using start assms
    by (cases "as_states s st") (simp_all add: answered_bindq consume_step_def consume_state_def exchange_of_def)
qed

lemma callback_tail_cases:
  assumes "answered (callback_tail sha secure v ex code (n, c)) s = (a, s')"
  obtains "as_states s' = as_states s" and "sessions_of s' = sessions_of s" and "an_status a \<noteq> 200"
  | claims r where "as_states s' = as_states s" and "sessions_of s' = sessions_of s @ [r]"
    and "ex code n c = Ok claims"
    and "\<exists>w\<in>set (users_of s'). usr_external_id w = oc_subject claims \<and> usr_id w = ses_user_id r"
    and "ses_id r \<notin> ses_id ` set (sessions_of s)" and "ses_token_hash r \<notin> ses_token_hash ` set (sessions_of s)"
    and "r = \<lparr>ses_id = cv_session_id v, ses_user_id = ses_user_id r,
      ses_token_hash = hash_token sha (uuid_to_string (cv_raw v)), ses_csrf_token = uuid_to_string (cv_csrf v),
      ses_expires_at = cv_utc v + 7 * 24 * 3600 * 1000000000, ses_created_at = cv_now v, ses_revoked_at = None\<rparr>"
    and "a = \<lparr>an_status = 200, an_set_cookie = Some (session_cookie secure (uuid_to_string (cv_raw v))),
      an_body = CallbackResponse (uuid_to_string (cv_csrf v)) (uuid_to_string (ses_user_id r))\<rparr>"
proof (cases "ex code n c")
  case (Err e)
  with assms that(1) show thesis
    by (auto simp: callback_tail_def answered_bindq problem_answer_def answer_with_def)
next
  case (Ok claims)
  let ?up = "upsert_user v (oc_subject claims) (oc_email claims) (oc_name claims)"
  show thesis
  proof (cases rule: query_cases [of ?up "as_db s"])
    case (1 e db1)
    with Ok assms that(1) show thesis
      by (auto simp: callback_tail_def answered_bindq map_errq_def on_identity_def find_or_create_by_external_id_def
        sessions_of_def problem_answer_def answer_with_def)
  next
    case (2 u t1 db1)
    note up = upsert_user_Ok [OF 2(2)]
    define r where "r = \<lparr>ses_id = cv_session_id v, ses_user_id = u,
      ses_token_hash = hash_token sha (uuid_to_string (cv_raw v)), ses_csrf_token = uuid_to_string (cv_csrf v),
      ses_expires_at = cv_utc v + int SESSION_DURATION * 1000000000, ses_created_at = cv_now v, ses_revoked_at = None\<rparr>"
    let ?ins = "\<lambda>t. if ses_id r \<in> ses_id ` set (idt_sessions t) then (Err (UniqueViolation ''sessions_pkey''), t)
       else if ses_token_hash r \<in> ses_token_hash ` set (idt_sessions t)
       then (Err (UniqueViolation ''idx_sessions_token_hash''), t)
       else if u \<notin> usr_id ` set (idt_users t) then (Err (ForeignKeyViolation ''sessions_user_id_fkey''), t)
       else (Ok (), t\<lparr>idt_sessions := idt_sessions t @ [r]\<rparr>)"
    have create: "create_session sha v u SESSION_DURATION =
        bindq (query ?ins) (\<lambda>_. returnq (uuid_to_string (cv_raw v), uuid_to_string (cv_csrf v)))"
      by (simp only: create_session_def r_def Let_def)
    have step: "answered (callback_tail sha secure v ex code (n, c)) s =
        (case create_session sha v u SESSION_DURATION db1 of
           (Ok (raw, csrf), db2) \<Rightarrow> (\<lparr>an_status = 200, an_set_cookie = Some (session_cookie secure raw),
             an_body = CallbackResponse csrf (uuid_to_string u)\<rparr>, s\<lparr>as_db := db2\<rparr>)
         | (Err e, db2) \<Rightarrow> (refuse_500 ''Failed to create session'', s\<lparr>as_db := db2\<rparr>))"
      using Ok 2(1)
      by (simp add: callback_tail_def answered_bindq map_errq_def on_identity_def find_or_create_by_external_id_def
        answered_simps split: prod.split result.split)
    show thesis
    proof (cases rule: query_cases [of ?ins db1])
      case (1 e db2)
      then have "sessions_of s' = sessions_of s" "as_states s' = as_states s" "an_status a \<noteq> 200"
        using assms step up(1) 2(3) by (auto simp: create bindq_def sessions_of_def problem_answer_def answer_with_def)
      with that(1) show thesis by blast
    next
      case ins: (2 x t2 db2)
      then have t2: "t2 = t1\<lparr>idt_sessions := idt_sessions t1 @ [r]\<rparr>" "ses_id r \<notin> ses_id ` set (idt_sessions t1)"
        "ses_token_hash r \<notin> ses_token_hash ` set (idt_sessions t1)"
        using 2(3) by (auto split: if_splits)
      have s': "s' = s\<lparr>as_db := db2\<rparr>" and a: "a = \<lparr>an_status = 200,
          an_set_cookie = Some (session_cookie secure (uuid_to_string (cv_raw v))),
          an_body = CallbackResponse (uuid_to_string (cv_csrf v)) (uuid_to_string u)\<rparr>"
        using assms step ins(1) by (auto simp: create bindq_def)
      have "ses_user_id r = u" by (simp add: r_def)
      with Ok up t2 ins(3) s' a show thesis
        by (intro that(2) [of r claims]) (auto simp: sessions_of_def users_of_def r_def SESSION_DURATION_def)
    qed
  qed
qed

section \<open>Sessions under one request\<close>

abbreviation revoke_rows :: "(session_row \<Rightarrow> bool) \<Rightarrow> time \<Rightarrow> session_row list \<Rightarrow> session_row list" where
  "revoke_rows sel now rows \<equiv>
    map (\<lambda>r. if sel r \<and> ses_revoked_at r = None then r\<lparr>ses_revoked_at := Some now\<rparr> else r) rows"

lemma revoke_sessions:
  obtains "sessions_of (snd (on_identity (modify (revoke_where sel now)) s)) = sessions_of s"
  | "sessions_of (snd (on_identity (modify (revoke_where sel now)) s)) = revoke_rows sel now (sessions_of s)"
  by (cases rule: modify_cases [of "revoke_where sel now" "as_db s"])
    (use that in \<open>auto simp: on_identity_simps sessions_of_def revoke_where_def\<close>)

lemma validate_cases:
  obtains e s1 where "on_identity (validate_session sha now tk) s = (Err e, s1)" "sessions_of s1 = sessions_of s"
  | s1 where "on_identity (validate_session sha now tk) s =
      (Ok (map_option session_info_of (find (usable now (hash_token sha tk)) (sessions_of s))), s1)"
      "sessions_of s1 = sessions_of s"
proof (cases rule: select_cases [of "\<lambda>t. map_option session_info_of (find (usable now (hash_token sha tk)) (idt_sessions t))"
    "as_db s"])
  case (1 e db1)
  then show thesis using that(1) by (auto simp: on_identity_def validate_session_def sessions_of_def)
next
  case (2 db1)
  then show thesis using that(2) by (auto simp: on_identity_def validate_session_def sessions_of_def)
qed

lemma logout_sessions:
  obtains "sessions_of (snd (post_logout sha secure v rq s)) = sessions_of s"
  | tk r where "extract_session_cookie (rq_cookie rq) = Some tk" and "r \<in> set (sessions_of s)"
    and "usable (cv_now v) (hash_token sha tk) r" and "rq_csrf rq = Some (ses_csrf_token r)"
    and "sessions_of (snd (post_logout sha secure v rq s)) = revoke_rows (\<lambda>q. ses_id q = ses_id r) (cv_now v) (sessions_of s)"
proof (cases "extract_session_cookie (rq_cookie rq)")
  case None
  with that(1) show thesis by (simp add: post_logout_def)
next
  case (Some tk)
  show thesis
  proof (cases rule: validate_cases [of sha "cv_now v" tk s])
    case (1 e s1)
    with Some that(1) show thesis by (simp add: post_logout_def Let_def)
  next
    case (2 s1)
    show thesis
    proof (cases "find (usable (cv_now v) (hash_token sha tk)) (sessions_of s)")
      case None
      with Some 2 that(1) show thesis by (simp add: post_logout_def Let_def)
    next
      case (Some r)
      then have r: "r \<in> set (sessions_of s)" "usable (cv_now v) (hash_token sha tk) r" by (auto simp: find_Some_iff)
      show thesis
      proof (cases "rq_csrf rq = Some (ses_csrf_token r)")
        case False
        with \<open>extract_session_cookie _ = _\<close> Some 2 that(1) show thesis
          by (simp add: post_logout_def Let_def session_info_of_def)
      next
        case True
        then have out: "sessions_of (snd (post_logout sha secure v rq s)) =
            sessions_of (snd (on_identity (modify (revoke_where (\<lambda>q. ses_id q = ses_id r) (cv_now v))) s1))"
          using \<open>extract_session_cookie _ = _\<close> Some 2
          by (simp add: post_logout_def Let_def session_info_of_def revoke_session_def)
        show thesis
          by (cases rule: revoke_sessions [of "\<lambda>q. ses_id q = ses_id r" "cv_now v" s1])
            (use that \<open>extract_session_cookie _ = _\<close> True r out 2(2) in auto)
      qed
    qed
  qed
qed

lemma callback_sessions:
  obtains "sessions_of (snd (get_callback sha secure provider v params s)) = sessions_of s"
    and "an_status (fst (get_callback sha secure provider v params s)) \<noteq> 200"
  | r where "grants sha (CallbackReq secure provider v params) s r"
    and "sessions_of (snd (get_callback sha secure provider v params s)) = sessions_of s @ [r]"
    and "ses_id r \<notin> ses_id ` set (sessions_of s)" and "ses_token_hash r \<notin> ses_token_hash ` set (sessions_of s)"
    and "ses_revoked_at r = None"
    and "an_body (fst (get_callback sha secure provider v params s)) =
      CallbackResponse (uuid_to_string (cv_csrf v)) (uuid_to_string (ses_user_id r))"
proof -
  let ?x = "CallbackReq secure provider v params"
  show thesis
  proof (cases "presented ?x")
    case None
    with that(1) get_callback_refused [OF None] show thesis by simp
  next
    case (Some st)
    then obtain p code where start: "provider = Some p" "cp_code params = Some code"
      by (auto split: if_splits)
    let ?s = "s\<lparr>as_states := (as_states s)(st := None)\<rparr>"
    note eq = get_callback_presented [OF Some, of sha s]
    have same: "sessions_of ?s = sessions_of s" by (simp add: sessions_of_def)
    show thesis
    proof (cases "exchange_of ?x s")
      case None
      with that(1) eq show thesis by (simp add: same problem_answer_def answer_with_def)
    next
      case ex: (Some y)
      then obtain n c where y: "exchange_of ?x s = Some (st, n, c)"
        using Some by (auto simp: exchange_of_def bind_eq_Some_conv split: if_splits)
      obtain a s' where run: "answered (callback_tail sha secure v p code (n, c)) ?s = (a, s')" by fastforce
      with eq y start have out: "get_callback sha secure provider v params s = (a, s')" by simp
      from run show thesis
      proof (cases rule: callback_tail_cases)
        case 1
        with that(1) out same show thesis by simp
      next
        case (2 claims r)
        from 2(7) have fields: "ses_token_hash r = hash_token sha (uuid_to_string (cv_raw v))"
          "ses_csrf_token r = uuid_to_string (cv_csrf v)"
          "ses_expires_at r = cv_utc v + 7 * 24 * 3600 * 1000000000" "ses_revoked_at r = None"
          by (metis session_row.select_convs)+
        have "grants sha ?x s r"
          unfolding grants.simps using start y 2(3,4) out fields by auto
        with that(2) [of r] 2 out same fields show thesis by simp
      qed
    qed
  qed
qed

text \<open>How one request changes the sessions.\<close>

lemma auth_step_sessions:
  obtains "sessions_of (auth_step sha x s) = sessions_of s"
  | r where "grants sha x s r" and "sessions_of (auth_step sha x s) = sessions_of s @ [r]"
    and "ses_id r \<notin> ses_id ` set (sessions_of s)" and "ses_token_hash r \<notin> ses_token_hash ` set (sessions_of s)"
  | secure v rq tk r where "x = LogoutReq secure v rq" and "extract_session_cookie (rq_cookie rq) = Some tk"
    and "r \<in> set (sessions_of s)" and "ses_token_hash r = hash_token sha tk" and "rq_csrf rq = Some (ses_csrf_token r)"
    and "sessions_of (auth_step sha x s) = revoke_rows (\<lambda>q. ses_id q = ses_id r) (cv_now v) (sessions_of s)"
  | now user where "x = RevokeAll now user"
    and "sessions_of (auth_step sha x s) = revoke_rows (\<lambda>q. ses_user_id q = user) now (sessions_of s)"
  | now where "x = CleanupRound now"
    and "sessions_of (auth_step sha x s) = filter (\<lambda>r. \<not> ses_expires_at r \<le> now) (sessions_of s)"
proof (cases x)
  case (LoginReq provider v)
  then show thesis
    using that(1) by (auto simp: post_login_def sessions_of_def split: option.splits result.splits prod.splits)
next
  case (CallbackReq secure provider v params)
  then show thesis
    by (cases rule: callback_sessions [of sha secure provider v params s]) (use that(1,2) in auto)
next
  case (LogoutReq secure v rq)
  then show thesis
    by (cases rule: logout_sessions [of sha secure v rq s]) (use that(1,3) in \<open>auto simp: usable_def\<close>)
next
  case (MeReq v rq)
  have "sessions_of (snd (get_me sha v rq s)) = sessions_of s"
  proof (cases "extract_session_cookie (rq_cookie rq)")
    case (Some tk)
    then show ?thesis
      by (cases rule: validate_cases [of sha "cv_now v" tk s])
        (auto simp: get_me_def Let_def split: option.split)
  qed (simp add: get_me_def)
  with MeReq that(1) show thesis by simp
next
  case (RevokeAll now user)
  then show thesis
    by (cases rule: revoke_sessions [of "\<lambda>q. ses_user_id q = user" now s])
      (use that(1,4) in \<open>auto simp: revoke_all_user_sessions_def\<close>)
next
  case (CleanupRound now)
  let ?q = "\<lambda>t. (Ok (length (filter (\<lambda>r. ses_expires_at r \<le> now) (idt_sessions t))),
     t\<lparr>idt_sessions := filter (\<lambda>r. \<not> ses_expires_at r \<le> now) (idt_sessions t)\<rparr>)"
  show thesis
    by (cases rule: query_cases [of ?q "as_db s"])
      (use CleanupRound that(1,5) in \<open>auto simp: on_identity_simps cleanup_expired_def sessions_of_def\<close>)
qed

section \<open>Where sessions come from\<close>

lemma session_origin:
  assumes "r \<in> set (sessions_of (auth_run sha ops s))" and "ses_revoked_at r = None"
  shows "r \<in> set (sessions_of s) \<or> (\<exists>pre x post. ops = pre @ x # post \<and> grants sha x (auth_run sha pre s) r)"
  using assms
proof (induction ops arbitrary: s)
  case (Cons x ops)
  from Cons.IH [of "auth_step sha x s"] Cons.prems
  consider (old) "r \<in> set (sessions_of (auth_step sha x s))"
    | (later) pre y post where "ops = pre @ y # post" "grants sha y (auth_run sha pre (auth_step sha x s)) r" by auto
  then show ?case
  proof cases
    case old
    then consider "r \<in> set (sessions_of s)" | "grants sha x s r"
      by (cases rule: auth_step_sessions [of sha x s]) (use Cons.prems(2) in \<open>auto split: if_splits\<close>)
    then show ?thesis by (metis append_Nil auth_run.simps(1))
  next
    case later
    then have "x # ops = (x # pre) @ y # post" "grants sha y (auth_run sha (x # pre) s) r" by simp_all
    then show ?thesis by blast
  qed
qed simp

lemma auth_session_Ok:
  assumes "auth_session sha parse_uuid env now rq db = (Ok u, db')" and "\<not> is_dev_auth_enabled env"
  shows "\<exists>tk r. extract_cookie_value SESSION_COOKIE_NAME (rq_cookie rq) = Some tk \<and> r \<in> set (idt_sessions (tables db)) \<and>
    usable now (hash_token sha tk) r \<and> u = UserId (ses_user_id r) \<and>
    (if is_state_changing_method (rq_method rq) then rq_csrf rq = Some (ses_csrf_token r) else True)"
proof -
  let ?found = "\<lambda>tk. find (usable now (hash_token sha tk)) (idt_sessions (tables db))"
  from assms obtain tk r where "extract_cookie_value SESSION_COOKIE_NAME (rq_cookie rq) = Some tk"
    "?found tk = Some r" "u = UserId (ses_user_id r)"
    "if is_state_changing_method (rq_method rq) then rq_csrf rq = Some (ses_csrf_token r) else True"
    by (auto simp: auth_session_def bindq_Ok map_errq_Ok validate_session_def Let_def select_Ok ok_or_eq_Ok
      session_info_of_def split: if_splits)
  then show ?thesis by (intro exI [of _ tk] exI [of _ r]) (auto simp: find_Some_iff)
qed

lemma authenticated_origin:
  assumes "auth_session sha parse_uuid env now rq (as_db (auth_run sha ops s)) = (Ok u, db')"
    and "\<not> is_dev_auth_enabled env"
  shows "\<exists>tk r. extract_cookie_value SESSION_COOKIE_NAME (rq_cookie rq) = Some tk \<and>
    usable now (hash_token sha tk) r \<and> u = UserId (ses_user_id r) \<and>
    (if is_state_changing_method (rq_method rq) then rq_csrf rq = Some (ses_csrf_token r) else True) \<and>
    (r \<in> set (sessions_of s) \<or> (\<exists>pre x post. ops = pre @ x # post \<and> grants sha x (auth_run sha pre s) r))"
proof -
  from auth_session_Ok [OF assms] obtain tk r where tk: "extract_cookie_value SESSION_COOKIE_NAME (rq_cookie rq) = Some tk"
    and r: "r \<in> set (sessions_of (auth_run sha ops s))" "usable now (hash_token sha tk) r" "u = UserId (ses_user_id r)"
      "if is_state_changing_method (rq_method rq) then rq_csrf rq = Some (ses_csrf_token r) else True"
    by (auto simp: sessions_of_def)
  moreover from r(2) have "ses_revoked_at r = None" by (simp add: usable_def)
  ultimately show ?thesis using session_origin by blast
qed

section \<open>How long sessions last\<close>

fun spares :: "(string \<Rightarrow> string) \<Rightarrow> session_row \<Rightarrow> auth_op \<Rightarrow> bool" where
  "spares sha r (LogoutReq _ _ rq) =
    (\<not> (map_option (hash_token sha) (extract_session_cookie (rq_cookie rq)) = Some (ses_token_hash r) \<and>
      rq_csrf rq = Some (ses_csrf_token r)))"
| "spares sha r (RevokeAll _ user) = (user \<noteq> ses_user_id r)"
| "spares sha r (CleanupRound now) = (now < ses_expires_at r)"
| "spares sha r _ = True"

definition well_keyed :: "session_row list \<Rightarrow> bool" where
  "well_keyed rows \<longleftrightarrow> distinct (map ses_id rows) \<and> distinct (map ses_token_hash rows)"

lemma well_keyed_unique:
  "well_keyed rows \<Longrightarrow> q \<in> set rows \<Longrightarrow> r \<in> set rows \<Longrightarrow> ses_id q = ses_id r \<or> ses_token_hash q = ses_token_hash r \<Longrightarrow> q = r"
  by (auto simp: well_keyed_def distinct_map dest: inj_onD)

lemma well_keyed_revoke: "well_keyed rows \<Longrightarrow> well_keyed (revoke_rows sel now rows)"
proof -
  have "map ses_id (revoke_rows sel now rows) = map ses_id rows"
    "map ses_token_hash (revoke_rows sel now rows) = map ses_token_hash rows" by simp_all
  then show "well_keyed rows \<Longrightarrow> well_keyed (revoke_rows sel now rows)" by (simp only: well_keyed_def)
qed

lemma revoke_rows_other: "r \<in> set rows \<Longrightarrow> \<not> sel r \<Longrightarrow> r \<in> set (revoke_rows sel now rows)"
  by (auto simp: image_iff intro!: bexI [of _ r])

lemma session_kept_step:
  assumes "well_keyed (sessions_of s)" and "r \<in> set (sessions_of s)" and "spares sha r x"
  shows "well_keyed (sessions_of (auth_step sha x s)) \<and> r \<in> set (sessions_of (auth_step sha x s))"
proof (cases rule: auth_step_sessions [of sha x s])
  case (2 q)
  with assms(1,2) show ?thesis by (simp add: well_keyed_def)
next
  case (3 secure v rq tk q)
  have "ses_id r \<noteq> ses_id q"
  proof
    assume "ses_id r = ses_id q"
    with well_keyed_unique [OF assms(1) assms(2) 3(3)] have "r = q" by simp
    with 3 assms(3) show False by simp
  qed
  with 3(6) well_keyed_revoke [OF assms(1)] revoke_rows_other [OF assms(2), of "\<lambda>p. ses_id p = ses_id q"]
  show ?thesis by (simp only: simp_thms)
next
  case (4 now user)
  with well_keyed_revoke [OF assms(1)] revoke_rows_other [OF assms(2), of "\<lambda>p. ses_user_id p = user"] assms(3)
  show ?thesis by (simp only: simp_thms spares.simps not_sym)
next
  case (5 now)
  with assms show ?thesis by (auto simp: well_keyed_def distinct_map_filter)
qed (use assms in simp)

lemma session_kept:
  "well_keyed (sessions_of s) \<Longrightarrow> r \<in> set (sessions_of s) \<Longrightarrow> list_all (spares sha r) ops \<Longrightarrow>
    well_keyed (sessions_of (auth_run sha ops s)) \<and> r \<in> set (sessions_of (auth_run sha ops s))"
proof (induction ops arbitrary: s)
  case (Cons x ops)
  with session_kept_step [of s r sha x] show ?case by simp
qed simp

lemma find_usable:
  assumes "well_keyed rows" and "r \<in> set rows" and "usable now h r"
  shows "find (usable now h) rows = Some r"
proof (cases "find (usable now h) rows")
  case None
  with assms show ?thesis by (auto simp: find_None_iff)
next
  case (Some q)
  then have "q \<in> set rows" "usable now h q" by (auto simp: find_Some_iff)
  with well_keyed_unique [OF assms(1) this(1) assms(2)] assms(3) Some show ?thesis by (simp add: usable_def)
qed

lemma authenticates:
  assumes "well_keyed (idt_sessions (tables db))" and "r \<in> set (idt_sessions (tables db))"
    and "usable now (hash_token sha tk) r" and "\<not> is_dev_auth_enabled env" and "faults db = []"
    and "extract_cookie_value SESSION_COOKIE_NAME (rq_cookie rq) = Some tk" and "rq_csrf rq = Some (ses_csrf_token r)"
  shows "fst (auth_session sha parse_uuid env now rq db) = Ok (UserId (ses_user_id r))"
  using assms find_usable [OF assms(1-3)]
  by (simp add: auth_session_def bindq_def map_errq_def validate_session_def Let_def select_faultless session_info_of_def)

text \<open>The session that a callback which answers 200 creates.\<close>

definition session_of_callback :: "(string \<Rightarrow> string) \<Rightarrow> call_values \<Rightarrow> uuid \<Rightarrow> session_row" where
  "session_of_callback sha v user =
    \<lparr>ses_id = cv_session_id v, ses_user_id = user, ses_token_hash = hash_token sha (uuid_to_string (cv_raw v)),
     ses_csrf_token = uuid_to_string (cv_csrf v), ses_expires_at = cv_utc v + 7 * 24 * 3600 * 1000000000,
     ses_created_at = cv_now v, ses_revoked_at = None\<rparr>"

lemma session_lasting:
  assumes keyed: "distinct (map ses_id (sessions_of s))" "distinct (map ses_token_hash (sessions_of s))"
    and call: "get_callback sha secure provider v params s = (a, s1)" "an_status a = 200"
      "an_body a = CallbackResponse csrf (uuid_to_string user)"
    and ops: "list_all (spares sha (session_of_callback sha v user)) ops"
    and now: "now < cv_utc v + 7 * 24 * 3600 * 1000000000"
    and request: "extract_cookie_value SESSION_COOKIE_NAME (rq_cookie rq) = Some (uuid_to_string (cv_raw v))"
      "rq_csrf rq = Some csrf"
    and env: "\<not> is_dev_auth_enabled env" "faults (as_db (auth_run sha ops s1)) = []"
  shows "fst (auth_session sha parse_uuid env now rq (as_db (auth_run sha ops s1))) = Ok (UserId user)"
proof (cases rule: callback_sessions [of sha secure provider v params s])
  case 1
  with call show ?thesis by simp
next
  case (2 r)
  from 2(1) have r: "ses_token_hash r = hash_token sha (uuid_to_string (cv_raw v))"
    "ses_csrf_token r = uuid_to_string (cv_csrf v)" "ses_expires_at r = cv_utc v + 7 * 24 * 3600 * 1000000000" by auto
  from 2(6) call have user: "csrf = uuid_to_string (cv_csrf v)" "ses_user_id r = user" by simp_all
  have "spares sha r x = spares sha (session_of_callback sha v user) x" for x
    by (cases x) (simp_all add: r user session_of_callback_def)
  then have spared: "list_all (spares sha r) ops" using ops by (simp add: list_all_iff)
  have "well_keyed (sessions_of s1)" "r \<in> set (sessions_of s1)"
    using keyed 2 call(1) by (simp_all add: well_keyed_def)
  from session_kept [OF this spared] have kept: "well_keyed (sessions_of (auth_run sha ops s1))"
    "r \<in> set (sessions_of (auth_run sha ops s1))" by simp_all
  have "usable now (hash_token sha (uuid_to_string (cv_raw v))) r" using r 2(5) now by (simp add: usable_def)
  from authenticates [OF _ _ this env request(1)] kept request(2) user r show ?thesis
    by (simp add: sessions_of_def)
qed

section \<open>Login states\<close>

lemma auth_run_append: "auth_run sha (xs @ ys) s = auth_run sha ys (auth_run sha xs s)"
  by (induction xs arbitrary: s) simp_all

fun touches :: "string \<Rightarrow> auth_op \<Rightarrow> bool" where
  "touches st (LoginReq (Some (Ok (_, st', _, _))) _) = (st' = st)"
| "touches st x = (presented x = Some st)"

lemma validate_states: "as_states (snd (on_identity m s)) = as_states s" for m :: "('a identity_sql)"
  by (simp add: on_identity_simps)

lemma other_states:
  "as_states (snd (post_logout sha secure v rq s)) = as_states s"
  "as_states (snd (get_me sha v rq s)) = as_states s"
proof -
  have "as_states s1 = as_states s" if "on_identity m s = (x, s1)" for m :: "'z identity_sql" and x s1
    using validate_states [of m s] that by simp
  then show "as_states (snd (post_logout sha secure v rq s)) = as_states s"
    by (auto simp: post_logout_def Let_def validate_states split: option.split prod.split result.split)
  have "as_states s1 = as_states s" if "on_identity m s = (x, s1)" for m :: "'z identity_sql" and x s1
    using validate_states [of m s] that by simp
  then show "as_states (snd (get_me sha v rq s)) = as_states s"
    by (auto simp: get_me_def Let_def split: option.split prod.split result.split)
qed

lemma callback_tail_states: "as_states (snd (answered (callback_tail sha secure v p c (n, k)) t)) = as_states t"
proof -
  obtain a t' where run: "answered (callback_tail sha secure v p c (n, k)) t = (a, t')" by fastforce
  then have "as_states t' = as_states t" by (cases rule: callback_tail_cases)
  with run show ?thesis by simp
qed

lemma callback_states:
  "as_states (snd (get_callback sha secure provider v params s)) =
    (case presented (CallbackReq secure provider v params) of None \<Rightarrow> as_states s | Some st \<Rightarrow> (as_states s)(st := None))"
proof (cases "presented (CallbackReq secure provider v params)")
  case None
  then show ?thesis using get_callback_refused by simp
next
  case (Some st)
  then show ?thesis
    by (simp add: get_callback_presented [OF Some] callback_tail_states del: presented.simps split: option.split)
qed

text \<open>A request that does not touch a state leaves its entry, or drops it when it has expired.\<close>

lemma auth_step_entry:
  assumes "as_states (auth_step sha x s) st = Some e"
  shows "as_states s st = Some e \<and> \<not> touches st x \<or>
    (\<exists>url v. x = LoginReq (Some (Ok (url, st, ste_nonce e, ste_code_verifier e))) v \<and>
      ste_expires_at e = cv_instant v + DEFAULT_TTL)"
proof (cases x)
  case (LoginReq provider v)
  show ?thesis
  proof (cases "\<exists>url st' n c. provider = Some (Ok (url, st', n, c))")
    case True
    then obtain url st' n c where p: "provider = Some (Ok (url, st', n, c))" by blast
    with assms LoginReq show ?thesis
      by (auto simp: post_login_def store_state_def split: if_splits option.splits)
  next
    case False
    then consider "provider = None" | a where "provider = Some (Err a)"
      by (metis option.exhaust result.exhaust surj_pair)
    then show ?thesis using assms LoginReq by cases (simp_all add: post_login_def)
  qed
next
  case (CallbackReq secure provider v params)
  with assms show ?thesis by (auto simp: callback_states split: option.splits if_splits)
qed (use assms in \<open>simp_all add: other_states validate_states\<close>)

lemma state_origin:
  assumes "as_states (auth_run sha ops s) st = Some e" and "as_states s = Map.empty"
  shows "\<exists>p1 url v p2. ops = p1 @ LoginReq (Some (Ok (url, st, ste_nonce e, ste_code_verifier e))) v # p2 \<and>
    ste_expires_at e = cv_instant v + DEFAULT_TTL \<and> list_all (\<lambda>q. \<not> touches st q) p2"
  using assms(1)
proof (induction ops rule: rev_induct)
  case Nil
  with assms(2) show ?case by simp
next
  case (snoc x ops)
  from snoc.prems have "as_states (auth_step sha x (auth_run sha ops s)) st = Some e" by (simp add: auth_run_append)
  from auth_step_entry [OF this] show ?case
  proof
    assume old: "as_states (auth_run sha ops s) st = Some e \<and> \<not> touches st x"
    with snoc.IH obtain p1 url v p2 where
      "ops = p1 @ LoginReq (Some (Ok (url, st, ste_nonce e, ste_code_verifier e))) v # p2"
      "ste_expires_at e = cv_instant v + DEFAULT_TTL" "list_all (\<lambda>q. \<not> touches st q) p2" by blast
    with old show ?case
      by (intro exI [of _ p1] exI [of _ url] exI [of _ v] exI [of _ "p2 @ [x]"]) simp
  next
    assume "\<exists>url v. x = LoginReq (Some (Ok (url, st, ste_nonce e, ste_code_verifier e))) v \<and>
      ste_expires_at e = cv_instant v + DEFAULT_TTL"
    then show ?case by (metis append_Nil2 list.pred_inject(1))
  qed
qed

lemma login_origin:
  assumes "as_states s = Map.empty" and "get_callback sha secure provider v params (auth_run sha pre s) = (a, s1)"
    and "an_status a = 200"
  shows "\<exists>exchange_code code st nonce verifier claims user p1 url w p2.
    provider = Some exchange_code \<and> cp_code params = Some code \<and> cp_state params = Some st \<and>
    pre = p1 @ LoginReq (Some (Ok (url, st, nonce, verifier))) w # p2 \<and> list_all (\<lambda>q. \<not> touches st q) p2 \<and>
    cv_instant v < cv_instant w + DEFAULT_TTL \<and> exchange_code code nonce verifier = Ok claims \<and>
    user \<in> set (users_of s1) \<and> usr_external_id user = oc_subject claims \<and>
    an_body a = CallbackResponse (uuid_to_string (cv_csrf v)) (uuid_to_string (usr_id user))"
proof (cases rule: callback_sessions [of sha secure provider v params "auth_run sha pre s"])
  case 1
  with assms(2,3) show ?thesis by simp
next
  case (2 r)
  let ?x = "CallbackReq secure provider v params"
  from 2(1) assms(2) obtain exchange_code code st nonce verifier claims user where g:
    "provider = Some exchange_code" "cp_code params = Some code"
    "exchange_of ?x (auth_run sha pre s) = Some (st, nonce, verifier)" "exchange_code code nonce verifier = Ok claims"
    "user \<in> set (users_of s1)" "usr_external_id user = oc_subject claims" "usr_id user = ses_user_id r" by auto
  from g(3) obtain e where e: "presented ?x = Some st" "as_states (auth_run sha pre s) st = Some e"
    "cv_instant v < ste_expires_at e" "nonce = ste_nonce e" "verifier = ste_code_verifier e"
    by (auto simp: exchange_of_def bind_eq_Some_conv split: if_splits)
  from state_origin [OF e(2) assms(1)] obtain p1 url w p2 where
    "pre = p1 @ LoginReq (Some (Ok (url, st, nonce, verifier))) w # p2"
    "ste_expires_at e = cv_instant w + DEFAULT_TTL" "list_all (\<lambda>q. \<not> touches st q) p2"
    using e(4,5) by blast
  moreover have "cp_state params = Some st" using e(1) by (simp split: if_splits)
  moreover have "an_body a = CallbackResponse (uuid_to_string (cv_csrf v)) (uuid_to_string (usr_id user))"
    using 2(6) assms(2) g(7) by simp
  ultimately show ?thesis using g e(3)
    by (intro exI [of _ exchange_code] exI [of _ code] exI [of _ st] exI [of _ nonce] exI [of _ verifier]
      exI [of _ claims] exI [of _ user] exI [of _ p1] exI [of _ url] exI [of _ w] exI [of _ p2]) simp
qed

section \<open>A sample history\<close>

lemma split_char_none: "c \<notin> set s \<Longrightarrow> split_char c s = [s]"
  by (induction s) auto

lemma uuid_chars: "c \<in> set (uuid_to_string u) \<Longrightarrow> is_ascii_hexdigit c \<or> c = CHR ''-''"
proof -
  have "is_ascii_hexdigit (hex_digit n)" if "n < 16" for n
    using that by (simp add: hex_digit_def is_ascii_hexdigit_def is_ascii_digit_def)
  then show "c \<in> set (uuid_to_string u) \<Longrightarrow> is_ascii_hexdigit c \<or> c = CHR ''-''"
    by (auto simp: uuid_to_string_def uuid_digits_def uuid_nibble_less)
qed

text \<open>The cookie that a browser sends back.\<close>

lemma session_cookie_read:
  "extract_cookie_value SESSION_COOKIE_NAME (Some (SESSION_COOKIE_NAME @ CHR ''='' # uuid_to_string u)) = Some (uuid_to_string u)"
proof -
  let ?s = "SESSION_COOKIE_NAME @ CHR ''='' # uuid_to_string u"
  have plain: "c \<noteq> CHR '';'' \<and> \<not> is_white [c]" if "c \<in> set ?s" for c
    using that uuid_chars [of c u]
    by (auto simp: SESSION_COOKIE_NAME_def is_white_def is_ascii_hexdigit_def is_ascii_digit_def)
  have "ascii ?s" using ascii_uuid_to_string [of u] by (simp add: SESSION_COOKIE_NAME_def)
  then have "trim ?s = ?s" using plain by (intro trim_no_white) (auto simp: chars_ascii)
  moreover have "split_char CHR '';'' ?s = [?s]" using plain by (intro split_char_none) blast
  ultimately show ?thesis by (simp add: extract_cookie_value_def strip_prefix_def)
qed

definition sample_auth :: auth_state where
  "sample_auth = \<lparr>as_states = Map.empty, as_db = \<lparr>tables = \<lparr>idt_users = [], idt_sessions = []\<rparr>, faults = []\<rparr>\<rparr>"

definition sample_values :: "time \<Rightarrow> call_values" where
  "sample_values t = \<lparr>cv_instant = t, cv_utc = t, cv_now = t, cv_user_id = 1, cv_session_id = 2, cv_raw = 3, cv_csrf = 4\<rparr>"

definition sample_login :: auth_op where
  "sample_login = LoginReq (Some (Ok (''https://idp'', ''st'', ''n'', ''c''))) (sample_values 0)"

definition sample_exchange :: "string \<Rightarrow> string \<Rightarrow> string \<Rightarrow> (oidc_claims, authentication_error) result" where
  "sample_exchange code nonce verifier =
    (if code = ''x'' \<and> nonce = ''n'' \<and> verifier = ''c'' then Ok \<lparr>oc_subject = ''alice'', oc_email = None, oc_name = None\<rparr>
     else Err AuthInvalidState)"

definition sample_params :: callback_params where
  "sample_params = \<lparr>cp_code = Some ''x'', cp_state = Some ''st'', cp_error = None, cp_error_description = None\<rparr>"

definition sample_callback :: "auth_state \<Rightarrow> auth_answer \<times> auth_state" where
  "sample_callback = get_callback (\<lambda>b. b) True (Some sample_exchange) (sample_values 1) sample_params"

lemma sample_callback_run:
  "\<exists>m. sample_callback (auth_run (\<lambda>b. b) [sample_login] sample_auth) =
    (\<lparr>an_status = 200, an_set_cookie = Some (session_cookie True (uuid_to_string 3)),
      an_body = CallbackResponse (uuid_to_string 4) (uuid_to_string 1)\<rparr>,
     \<lparr>as_states = m, as_db = \<lparr>tables = \<lparr>idt_users = [\<lparr>usr_id = 1, usr_external_id = ''alice'', usr_email = None,
        usr_display_name = None, usr_created_at = 1, usr_updated_at = 1\<rparr>],
      idt_sessions = [session_of_callback (\<lambda>b. b) (sample_values 1) 1]\<rparr>, faults = []\<rparr>\<rparr>)"
  by (simp add: sample_callback_def get_callback_def answered_bindq answered_simps sample_login_def sample_auth_def
    sample_params_def sample_values_def post_login_def store_state_def consume_step_def consume_state_def DEFAULT_TTL_def
    sample_exchange_def map_errq_def on_identity_def find_or_create_by_external_id_def upsert_user_def query_faultless
    create_session_def Let_def bindq_def session_of_callback_def SESSION_DURATION_def)

section \<open>The properties\<close>

text \<open>C6. Without the development switch a request is authenticated, whatever was requested before and whatever
statements failed, only as the user of a session whose token it presents, that has neither expired nor been
revoked, and, for a method that changes state, whose CSRF token it repeats; and that session was there from the
beginning or was granted by a login of the history: a callback whose state was pending and whose code the provider
exchanged for the claims of that very user.\<close>

theorem authenticated_by_login:
  assumes "auth_session sha parse_uuid env now rq (as_db (auth_run sha ops s)) = (Ok u, db')"
    and "\<not> is_dev_auth_enabled env"
  shows "\<exists>tk r. extract_cookie_value SESSION_COOKIE_NAME (rq_cookie rq) = Some tk \<and>
    usable now (hash_token sha tk) r \<and> u = UserId (ses_user_id r) \<and>
    (if is_state_changing_method (rq_method rq) then rq_csrf rq = Some (ses_csrf_token r) else True) \<and>
    (r \<in> set (sessions_of s) \<or> (\<exists>pre x post. ops = pre @ x # post \<and> grants sha x (auth_run sha pre s) r))"
  using assms by (rule authenticated_origin)

theorem authenticated_by_login_witness:
  "\<exists>pre x post r. [sample_login, CallbackReq True (Some sample_exchange) (sample_values 1) sample_params] = pre @ x # post \<and>
    grants (\<lambda>b. b) x (auth_run (\<lambda>b. b) pre sample_auth) r \<and> ses_user_id r = 1 \<and>
    ses_csrf_token r = uuid_to_string 4 \<and> ses_token_hash r = hash_token (\<lambda>b. b) (uuid_to_string 3)"
proof -
  let ?ops = "[sample_login, CallbackReq True (Some sample_exchange) (sample_values 1) sample_params]"
  let ?rq = "\<lparr>rq_method = POST, rq_authorization = None,
      rq_cookie = Some (SESSION_COOKIE_NAME @ ''='' @ uuid_to_string 3), rq_csrf = Some (uuid_to_string 4)\<rparr>"
  let ?db = "as_db (auth_run (\<lambda>b. b) ?ops sample_auth)"
  obtain m where "auth_run (\<lambda>b. b) ?ops sample_auth = \<lparr>as_states = m, as_db = \<lparr>tables = \<lparr>idt_users =
      [\<lparr>usr_id = 1, usr_external_id = ''alice'', usr_email = None,
        usr_display_name = None, usr_created_at = 1, usr_updated_at = 1\<rparr>],
      idt_sessions = [session_of_callback (\<lambda>b. b) (sample_values 1) 1]\<rparr>, faults = []\<rparr>\<rparr>"
    using sample_callback_run by (auto simp: sample_callback_def)
  then have "fst (auth_session (\<lambda>b. b) (\<lambda>_. None) None 5 ?rq ?db) =
      Ok (UserId (ses_user_id (session_of_callback (\<lambda>b. b) (sample_values 1) 1)))"
    by (intro authenticates [where tk = "uuid_to_string 3"])
      (simp_all add: well_keyed_def usable_def session_of_callback_def sample_values_def is_dev_auth_enabled_def
        session_cookie_read)
  then have run: "auth_session (\<lambda>b. b) (\<lambda>_. None) None 5 ?rq ?db =
      (Ok (UserId 1), snd (auth_session (\<lambda>b. b) (\<lambda>_. None) None 5 ?rq ?db))"
    by (simp add: prod_eq_iff session_of_callback_def)
  have dev: "\<not> is_dev_auth_enabled None" by (simp add: is_dev_auth_enabled_def)
  from authenticated_by_login [OF run dev] obtain tk r where r:
      "extract_cookie_value SESSION_COOKIE_NAME (rq_cookie ?rq) = Some tk" "usable 5 (hash_token (\<lambda>b. b) tk) r"
      "UserId 1 = UserId (ses_user_id r)"
      "if is_state_changing_method (rq_method ?rq) then rq_csrf ?rq = Some (ses_csrf_token r) else True"
      "r \<in> set (sessions_of sample_auth) \<or>
        (\<exists>pre x post. ?ops = pre @ x # post \<and> grants (\<lambda>b. b) x (auth_run (\<lambda>b. b) pre sample_auth) r)"
    by (elim exE conjE) (rule that)
  have "sessions_of sample_auth = []" by (simp add: sessions_of_def sample_auth_def)
  with r(5) obtain pre x post where "?ops = pre @ x # post" "grants (\<lambda>b. b) x (auth_run (\<lambda>b. b) pre sample_auth) r"
    by (elim disjE exE conjE) simp_all
  moreover have "ses_user_id r = 1" "ses_csrf_token r = uuid_to_string 4"
    "ses_token_hash r = hash_token (\<lambda>b. b) (uuid_to_string 3)"
    using r(1-4) by (simp_all add: session_cookie_read usable_def is_state_changing_method_def)
  ultimately show ?thesis by blast
qed

text \<open>C21. The session of a login lasts: when session ids and token hashes were distinct, a request with the token
and the CSRF token of a successful callback is authenticated as its user until seven days have passed, whatever
else was requested, unless it was a logout with both tokens, a revocation of all sessions of the user, or a
clean-up after the session had expired.\<close>

theorem session_lasts:
  assumes "distinct (map ses_id (sessions_of s))" and "distinct (map ses_token_hash (sessions_of s))"
    and "get_callback sha secure provider v params s = (a, s1)" and "an_status a = 200"
    and "an_body a = CallbackResponse csrf (uuid_to_string user)"
    and "list_all (spares sha (session_of_callback sha v user)) ops"
    and "now < cv_utc v + 7 * 24 * 3600 * 1000000000"
    and "extract_cookie_value SESSION_COOKIE_NAME (rq_cookie rq) = Some (uuid_to_string (cv_raw v))"
    and "rq_csrf rq = Some csrf"
    and "\<not> is_dev_auth_enabled env" and "faults (as_db (auth_run sha ops s1)) = []"
  shows "fst (auth_session sha parse_uuid env now rq (as_db (auth_run sha ops s1))) = Ok (UserId user)"
  using assms by (rule session_lasting)

theorem session_lasts_witness:
  "\<exists>a s1. sample_callback (auth_run (\<lambda>b. b) [sample_login] sample_auth) = (a, s1) \<and>
    fst (auth_session (\<lambda>b. b) (\<lambda>_. None) None 5
      \<lparr>rq_method = POST, rq_authorization = None,
       rq_cookie = Some (SESSION_COOKIE_NAME @ ''='' @ uuid_to_string 3), rq_csrf = Some (uuid_to_string 4)\<rparr>
      (as_db (auth_run (\<lambda>b. b) [RevokeAll 2 7, CleanupRound 3] s1))) = Ok (UserId 1)"
proof -
  obtain m where run: "sample_callback (auth_run (\<lambda>b. b) [sample_login] sample_auth) =
    (\<lparr>an_status = 200, an_set_cookie = Some (session_cookie True (uuid_to_string 3)),
      an_body = CallbackResponse (uuid_to_string 4) (uuid_to_string 1)\<rparr>,
     \<lparr>as_states = m, as_db = \<lparr>tables = \<lparr>idt_users = [\<lparr>usr_id = 1, usr_external_id = ''alice'', usr_email = None,
        usr_display_name = None, usr_created_at = 1, usr_updated_at = 1\<rparr>],
      idt_sessions = [session_of_callback (\<lambda>b. b) (sample_values 1) 1]\<rparr>, faults = []\<rparr>\<rparr>)"
    (is "_ = (?a, ?s1)")
    using sample_callback_run by blast
  have "fst (auth_session (\<lambda>b. b) (\<lambda>_. None) None 5
      \<lparr>rq_method = POST, rq_authorization = None,
       rq_cookie = Some (SESSION_COOKIE_NAME @ ''='' @ uuid_to_string 3), rq_csrf = Some (uuid_to_string 4)\<rparr>
      (as_db (auth_run (\<lambda>b. b) [RevokeAll 2 7, CleanupRound 3] ?s1))) = Ok (UserId 1)"
    by (rule session_lasts [OF _ _ run [unfolded sample_callback_def]])
      (simp_all add: sessions_of_def sample_login_def sample_auth_def post_login_def session_of_callback_def
        sample_values_def session_cookie_read is_dev_auth_enabled_def revoke_all_user_sessions_def on_identity_def
        modify_faultless cleanup_expired_def query_faultless)
  with run show ?thesis by blast
qed

text \<open>C12. From an empty store of states, every successful callback presents a state that the provider issued for
an earlier login, less than ten minutes before, and that no request has presented or renewed since, so that it is
used once; the code was exchanged with the nonce and the verifier of that login, and the answer names the user
whose external id is the subject of the claims.\<close>

theorem login_state_once:
  assumes "as_states s = Map.empty" and "get_callback sha secure provider v params (auth_run sha pre s) = (a, s1)"
    and "an_status a = 200"
  shows "\<exists>exchange_code code st nonce verifier claims user p1 url w p2.
    provider = Some exchange_code \<and> cp_code params = Some code \<and> cp_state params = Some st \<and>
    pre = p1 @ LoginReq (Some (Ok (url, st, nonce, verifier))) w # p2 \<and> list_all (\<lambda>q. \<not> touches st q) p2 \<and>
    cv_instant v < cv_instant w + DEFAULT_TTL \<and> exchange_code code nonce verifier = Ok claims \<and>
    user \<in> set (users_of s1) \<and> usr_external_id user = oc_subject claims \<and>
    an_body a = CallbackResponse (uuid_to_string (cv_csrf v)) (uuid_to_string (usr_id user))"
  using assms by (rule login_origin)

theorem login_state_once_witness:
  "\<exists>user s1. snd (sample_callback (auth_run (\<lambda>b. b) [sample_login] sample_auth)) = s1 \<and>
    user \<in> set (users_of s1) \<and> usr_external_id user = ''alice''"
proof -
  obtain a s1 where run: "sample_callback (auth_run (\<lambda>b. b) [sample_login] sample_auth) = (a, s1)" "an_status a = 200"
    using sample_callback_run by auto
  from login_state_once [OF _ run(1) [unfolded sample_callback_def] run(2)] obtain code st nonce verifier claims user
    where "sample_exchange code nonce verifier = Ok claims" "user \<in> set (users_of s1)"
      "usr_external_id user = oc_subject claims"
    by (auto simp: sample_auth_def)
  with run(1) show ?thesis by (auto simp: sample_exchange_def split: if_splits)
qed

end
