(* ===== verification/Rate_Limit.thy ===== *)
theory Rate_Limit
  imports Rust_String "HOL-Library.AList"
begin

text \<open>
  Rate limiting, \<open>crates/infrastructure/src/rate_limit.rs\<close>: token buckets in \<open>f64\<close> per client and route category,
  eviction of stale buckets, the middleware, and how \<open>crates/api/src/main.rs\<close> stacks it.  An \<open>Instant\<close> is an
  integer number of nanoseconds; \<open>check\<close> reads the clock twice, for itself before it takes the lock and for a new
  bucket under the lock.  The hash map is an association list; metrics are left out.
\<close>

section \<open>Configuration\<close>

record rate_limit_config =
  auth_rpm :: u32
  imports_rpm :: u32
  mutations_rpm :: u32
  reads_rpm :: u32
  exports_rpm :: u32

definition default_rate_limits :: rate_limit_config where
  "default_rate_limits =
    \<lparr>auth_rpm = 5, imports_rpm = 10, mutations_rpm = 30, reads_rpm = 120, exports_rpm = 10\<rparr>"

text \<open>\<open>str::parse::<u32>\<close>: an optional plus sign and decimal digits, in range.\<close>

definition parse_u32 :: "string \<Rightarrow> u32 option" where
  "parse_u32 s = (let ds = (case s of c # cs \<Rightarrow> if c = CHR ''+'' then cs else s | [] \<Rightarrow> s) in
     if ds \<noteq> [] \<and> list_all is_ascii_digit ds \<and> digits_value ds < 2 ^ 32 then Some (of_nat (digits_value ds)) else None)"

definition parse_env :: "(string \<Rightarrow> string option) \<Rightarrow> string \<Rightarrow> u32 \<Rightarrow> u32" where
  "parse_env env name dflt = (case Option.bind (env name) parse_u32 of Some n \<Rightarrow> n | None \<Rightarrow> dflt)"

definition rate_limits_from_env :: "(string \<Rightarrow> string option) \<Rightarrow> rate_limit_config" where
  "rate_limits_from_env env =
    \<lparr>auth_rpm = parse_env env ''RATE_LIMIT_AUTH_RPM'' 5, imports_rpm = parse_env env ''RATE_LIMIT_IMPORTS_RPM'' 10,
     mutations_rpm = parse_env env ''RATE_LIMIT_MUTATIONS_RPM'' 30, reads_rpm = parse_env env ''RATE_LIMIT_READS_RPM'' 120,
     exports_rpm = parse_env env ''RATE_LIMIT_EXPORTS_RPM'' 10\<rparr>"

datatype route_category = RcAuth | RcImport | RcMutation | RcRead | RcExport

fun rpm_for_category :: "rate_limit_config \<Rightarrow> route_category \<Rightarrow> u32" where
  "rpm_for_category cfg RcAuth = auth_rpm cfg"
| "rpm_for_category cfg RcImport = imports_rpm cfg"
| "rpm_for_category cfg RcMutation = mutations_rpm cfg"
| "rpm_for_category cfg RcRead = reads_rpm cfg"
| "rpm_for_category cfg RcExport = exports_rpm cfg"

datatype rate_limit_key = KeyUserId uuid | KeyIpAddr string

section \<open>Token buckets\<close>

record token_bucket =
  tb_tokens :: f64
  tb_max_tokens :: f64
  tb_refill_rate :: f64
  tb_last_refill :: time

definition f64_from_u32 :: "u32 \<Rightarrow> f64" where
  "f64_from_u32 n = Fin (of_nat (unat n))"

definition bucket_new :: "u32 \<Rightarrow> f64 \<Rightarrow> time \<Rightarrow> token_bucket" where
  "bucket_new max_tokens refill_rate now =
    \<lparr>tb_tokens = f64_from_u32 max_tokens, tb_max_tokens = f64_from_u32 max_tokens, tb_refill_rate = refill_rate,
     tb_last_refill = now\<rparr>"

text \<open>\<open>Instant::duration_since\<close> is zero for a later instant; \<open>Duration::as_secs_f64\<close>.\<close>

definition duration_since :: "time \<Rightarrow> time \<Rightarrow> nat" where
  "duration_since later earlier = nat (later - earlier)"

definition as_secs_f64 :: "nat \<Rightarrow> f64" where
  "as_secs_f64 nanos = fadd (rnd (of_nat (nanos div 1000000000)))
     (fdiv (rnd (of_nat (nanos mod 1000000000))) (Fin 1000000000))"

definition refill :: "time \<Rightarrow> token_bucket \<Rightarrow> token_bucket" where
  "refill now b =
    (let elapsed = as_secs_f64 (duration_since now (tb_last_refill b)) in
     if flt (Fin 0) elapsed
     then b\<lparr>tb_tokens := fmin (fadd (tb_tokens b) (fmul elapsed (tb_refill_rate b))) (tb_max_tokens b), tb_last_refill := now\<rparr>
     else b)"

definition try_consume :: "time \<Rightarrow> token_bucket \<Rightarrow> bool \<times> token_bucket" where
  "try_consume now b =
    (let b = refill now b in
     if fle (Fin 1) (tb_tokens b) then (True, b\<lparr>tb_tokens := fsub (tb_tokens b) (Fin 1)\<rparr>) else (False, b))"

text \<open>\<open>f64::ceil\<close> and the saturating cast \<open>as u64\<close>.\<close>

fun ceil_as_u64 :: "f64 \<Rightarrow> nat" where
  "ceil_as_u64 NaN = 0"
| "ceil_as_u64 NInf = 0"
| "ceil_as_u64 PInf = 2 ^ 64 - 1"
| "ceil_as_u64 (Fin q) = min (nat \<lceil>q\<rceil>) (2 ^ 64 - 1)"

definition seconds_until_refill :: "token_bucket \<Rightarrow> nat" where
  "seconds_until_refill b =
    (if fle (Fin 1) (tb_tokens b) then 0
     else ceil_as_u64 (fdiv (fsub (Fin 1) (tb_tokens b)) (tb_refill_rate b)))"

section \<open>The limiter\<close>

type_synonym client_route = "rate_limit_key \<times> route_category"
type_synonym buckets = "(client_route \<times> token_bucket) list"

definition LIMITER_EVICTION_THRESHOLD :: nat where
  "LIMITER_EVICTION_THRESHOLD = 10000"

definition LIMITER_EVICTION_AGE :: nat where
  "LIMITER_EVICTION_AGE = 120 * 1000000000"

definition evict :: "time \<Rightarrow> buckets \<Rightarrow> buckets" where
  "evict now bs =
    (if LIMITER_EVICTION_THRESHOLD < length bs
     then filter (\<lambda>(_, b). duration_since now (tb_last_refill b) < LIMITER_EVICTION_AGE) bs else bs)"

definition rate_for :: "rate_limit_config \<Rightarrow> route_category \<Rightarrow> f64" where
  "rate_for cfg category = fdiv (f64_from_u32 (rpm_for_category cfg category)) (Fin 60)"

definition entry_or_insert :: "rate_limit_config \<Rightarrow> time \<Rightarrow> client_route \<Rightarrow> buckets \<Rightarrow> token_bucket" where
  "entry_or_insert cfg created k bs =
    (case map_of bs k of Some b \<Rightarrow> b
     | None \<Rightarrow> bucket_new (rpm_for_category cfg (snd k)) (rate_for cfg (snd k)) created)"

definition check :: "rate_limit_config \<Rightarrow> time \<Rightarrow> time \<Rightarrow> client_route \<Rightarrow> buckets \<Rightarrow> (unit, nat) result \<times> buckets" where
  "check cfg now created k bs =
    (let bs = evict now bs in
     case try_consume now (entry_or_insert cfg created k bs) of
       (allowed, b) \<Rightarrow> (if allowed then Ok () else Err (seconds_until_refill b), AList.update k b bs))"

section \<open>The middleware\<close>

text \<open>What the middleware reads of a request: its extensions and the forwarded-for header.\<close>

record limited_request =
  ext_limiter :: bool
  ext_category :: "route_category option"
  ext_actor :: "user_id option"
  ext_request_id :: "string option"
  hdr_forwarded_for :: "string option"

definition extract_rate_limit_key :: "limited_request \<Rightarrow> rate_limit_key" where
  "extract_rate_limit_key rq =
    (case ext_actor rq of
       Some actor \<Rightarrow> KeyUserId (user_uuid actor)
     | None \<Rightarrow> KeyIpAddr (case hdr_forwarded_for rq of
         Some s \<Rightarrow> trim (takeWhile (\<lambda>c. c \<noteq> CHR '','') s) | None \<Rightarrow> ''unknown''))"

record rate_limit_problem =
  rl_type :: string
  rl_title :: string
  rl_status :: nat
  rl_code :: string
  rl_detail :: string
  rl_request_id :: string
  rl_retry_after :: nat

datatype 'r limited = Passed 'r | TooManyRequests rate_limit_problem

definition build_429_response :: "nat \<Rightarrow> string \<Rightarrow> rate_limit_problem" where
  "build_429_response retry_after_secs request_id =
    \<lparr>rl_type = ''/problems/rate-limited'', rl_title = ''Too Many Requests'', rl_status = 429, rl_code = ''RATE_LIMITED'',
     rl_detail = ''You have exceeded the rate limit. Please wait before retrying.'', rl_request_id = request_id,
     rl_retry_after = retry_after_secs\<rparr>"

definition rate_limit_middleware ::
  "rate_limit_config \<Rightarrow> time \<Rightarrow> time \<Rightarrow> (limited_request \<Rightarrow> 'r) \<Rightarrow> limited_request \<Rightarrow> buckets \<Rightarrow> 'r limited \<times> buckets" where
  "rate_limit_middleware cfg now created run rq bs =
    (if \<not> ext_limiter rq then (Passed (run rq), bs)
     else case ext_category rq of
       None \<Rightarrow> (Passed (run rq), bs)
     | Some category \<Rightarrow>
         (case check cfg now created (extract_rate_limit_key rq, category) bs of
            (Ok _, bs') \<Rightarrow> (Passed (run rq), bs')
          | (Err retry_after_secs, bs') \<Rightarrow>
              (TooManyRequests (build_429_response retry_after_secs
                (case ext_request_id rq of Some i \<Rightarrow> i | None \<Rightarrow> [])), bs')))"

text \<open>
  The stack of \<open>main.rs\<close>: layers of the whole application run before those of the merged routers, the last one
  added first.  So the request gets its id and the limiter, then meets the middleware, and only inside it the
  category of its group of routes.
\<close>

definition category_layer :: "route_category \<Rightarrow> (limited_request \<Rightarrow> 'r) \<Rightarrow> limited_request \<Rightarrow> 'r" where
  "category_layer category run rq = run (rq\<lparr>ext_category := Some category\<rparr>)"

definition serve ::
  "rate_limit_config \<Rightarrow> time \<Rightarrow> time \<Rightarrow> string \<Rightarrow> route_category \<Rightarrow> (limited_request \<Rightarrow> 'r) \<Rightarrow> string option \<Rightarrow> buckets \<Rightarrow>
    'r limited \<times> buckets" where
  "serve cfg now created request_id category handler forwarded_for =
    rate_limit_middleware cfg now created (category_layer category handler)
      \<lparr>ext_limiter = True, ext_category = None, ext_actor = None, ext_request_id = Some request_id,
       hdr_forwarded_for = forwarded_for\<rparr>"

lemma serve_unlimited:
  "serve cfg now created request_id category handler forwarded_for bs =
    (Passed (handler \<lparr>ext_limiter = True, ext_category = Some category, ext_actor = None,
      ext_request_id = Some request_id, hdr_forwarded_for = forwarded_for\<rparr>), bs)"
  by (simp add: serve_def rate_limit_middleware_def category_layer_def)

section \<open>Rounding errors of a bucket\<close>

text \<open>Rounding never exceeds a number by more than this, subnormal results included.\<close>

definition up :: "rat \<Rightarrow> rat" where
  "up x = x * (1 + 1 / 2 ^ 53) + 1 / 2 ^ 200"

lemma up_mono: "x \<le> y \<Longrightarrow> up x \<le> up y"
  by (simp add: up_def)

lemma rnd_up:
  assumes "0 \<le> x" and "x \<le> 2 ^ 200"
  obtains y where "rnd x = Fin y" and "0 \<le> y" and "y \<le> up x"
proof (cases "x = 0")
  case True
  then show thesis using that [of 0] by (simp add: rnd_def up_def)
next
  case False
  with assms have x: "0 < x" by simp
  define u where "u = max (ilog2 x - 52) (- 1074)"
  define y where "y = of_int (round_half_even (x / pow2 u)) * pow2 u"
  have tiny: "pow2 (- 1074) \<le> 1 / 2 ^ 200"
    using pow2_mono [of "- 1074" "- 200"] pow2_minus_nat [of 200] by simp
  have ulp: "pow2 u \<le> x / 2 ^ 52 + 1 / 2 ^ 200"
  proof (cases "u = - 1074")
    case True
    then show ?thesis using x tiny by (simp add: add_increasing)
  next
    case False
    then have "u = ilog2 x - 52" by (simp add: u_def max_def split: if_splits)
    then have "pow2 u * 2 ^ 52 = pow2 (ilog2 x)" using pow2_add [of u 52] pow2_nat [of 52] by simp
    with ilog2_le [OF x] have "pow2 u \<le> x / 2 ^ 52" by (simp add: field_simps)
    then show ?thesis by (simp add: add_increasing2)
  qed
  have "y - x = (of_int (round_half_even (x / pow2 u)) - x / pow2 u) * pow2 u"
    using less_imp_neq [OF pow2_pos [of u]] by (simp add: y_def left_diff_distrib)
  also have "\<dots> \<le> 1 / 2 * pow2 u"
    using abs_le_D1 [OF round_half_even_error [of "x / pow2 u"]] by (intro mult_right_mono) (simp_all add: less_imp_le)
  also have "\<dots> \<le> 1 / 2 * (x / 2 ^ 52 + 1 / 2 ^ 200)" using ulp by simp
  finally have "y \<le> x + 1 / 2 * (x / 2 ^ 52 + 1 / 2 ^ 200)" by linarith
  then have le: "y \<le> up x" by (simp add: up_def field_simps)
  have "up x \<le> 2 * x + 1" using x by (simp add: up_def field_simps)
  also have "\<dots> \<le> 2 ^ 202" using assms(2) by simp
  also have "\<dots> < pow2 1024" using pow2_nat [of 1024] by simp
  finally have "y < pow2 1024" using le by simp
  moreover have nonneg: "0 \<le> y"
    unfolding y_def using x
    by (intro mult_nonneg_nonneg) (simp_all add: round_half_even_nonneg less_imp_le)
  moreover have "\<bar>x\<bar> = x" "sgn x = 1" using x by simp_all
  ultimately have "rnd x = Fin y" using x by (simp add: rnd_def u_def y_def Let_def)
  with le nonneg that show thesis by blast
qed

definition secs :: "nat \<Rightarrow> rat" where
  "secs n = of_nat n / 1000000000"

lemma as_secs_f64_up:
  assumes "n < 2 ^ 63"
  obtains e where "as_secs_f64 n = Fin e" and "0 \<le> e" and "e \<le> secs n * (1 + 1 / 2 ^ 51) + 1 / 2 ^ 198"
proof -
  let ?s = "of_nat (n div 1000000000) :: rat" and ?f = "of_nat (n mod 1000000000) / 1000000000 :: rat"
  have "n div 1000000000 < 2 ^ 53" "n mod 1000000000 < 2 ^ 53" using assms by (simp_all add: div_less_iff_less_mult less_trans [OF mod_less_divisor])
  note exact = this [THEN rnd_of_nat_exact]
  have "of_nat (n mod 1000000000) \<le> (of_nat 1000000000 :: rat)"
    by (subst of_nat_le_iff) (simp add: less_imp_le)
  then have f: "0 \<le> ?f" "?f \<le> 1" by simp_all
  from f(2) have "?f \<le> 2 ^ 200" by (rule order_trans) simp
  with f(1) obtain y where y: "rnd ?f = Fin y" "0 \<le> y" "y \<le> up ?f" by (rule rnd_up)
  have "of_nat (n div 1000000000) \<le> (of_nat (2 ^ 53) :: rat)"
    using \<open>n div 1000000000 < 2 ^ 53\<close> by (subst of_nat_le_iff) simp
  then have s: "0 \<le> ?s" "?s \<le> 2 ^ 53" by simp_all
  have "up ?f \<le> 2" using f by (simp add: up_def field_simps)
  with y s have "0 \<le> ?s + y" "?s + y \<le> 2 ^ 200" by simp_all
  then obtain e where e: "rnd (?s + y) = Fin e" "0 \<le> e" "e \<le> up (?s + y)" by (rule rnd_up)
  have "as_secs_f64 n = Fin e" using exact y(1) e(1) by (simp add: as_secs_f64_def)
  moreover have "e \<le> secs n * (1 + 1 / 2 ^ 51) + 1 / 2 ^ 198"
  proof -
    have "n = n div 1000000000 * 1000000000 + n mod 1000000000" by simp
    then have "(of_nat n :: rat) = ?s * 1000000000 + of_nat (n mod 1000000000)"
      by (metis of_nat_add of_nat_mult of_nat_numeral)
    then have d: "secs n = ?s + ?f" by (simp add: secs_def add_divide_distrib)
    have "e \<le> up (?s + up ?f)" using e(3) up_mono [of "?s + y" "?s + up ?f"] y(3) by simp
    also have "\<dots> \<le> (?s + ?f) * (1 + 1 / 2 ^ 51) + 1 / 2 ^ 198"
      using s(1) f(1) by (simp add: up_def field_simps)
    finally show ?thesis by (simp only: d)
  qed
  ultimately show thesis using e(2) that by blast
qed

definition requests_per_minute :: "rate_limit_config \<Rightarrow> route_category \<Rightarrow> rat" where
  "requests_per_minute cfg category = of_nat (unat (rpm_for_category cfg category))"

lemma requests_per_minute_bounds:
  "0 \<le> requests_per_minute cfg category" "requests_per_minute cfg category \<le> 2 ^ 32"
proof -
  have "unat (rpm_for_category cfg category) \<le> 2 ^ 32"
    using unsigned_less [of "rpm_for_category cfg category", where 'a = nat] by simp
  then have "(of_nat (unat (rpm_for_category cfg category)) :: rat) \<le> of_nat (2 ^ 32)" by (rule of_nat_mono)
  then show "requests_per_minute cfg category \<le> 2 ^ 32"
    unfolding requests_per_minute_def by (simp only: of_nat_power of_nat_numeral)
  show "0 \<le> requests_per_minute cfg category"
    unfolding requests_per_minute_def by (rule of_nat_0_le_iff)
qed

lemma rate_for_up:
  obtains \<rho> where "rate_for cfg category = Fin \<rho>" and "0 \<le> \<rho>"
    and "\<rho> \<le> up (requests_per_minute cfg category / 60)"
proof -
  let ?r = "requests_per_minute cfg category"
  have "?r / 60 \<le> 2 ^ 200" "0 \<le> ?r / 60" using requests_per_minute_bounds [of cfg category] by simp_all
  from rnd_up [OF this(2,1)] obtain \<rho> where "rnd (?r / 60) = Fin \<rho>" "0 \<le> \<rho>" "\<rho> \<le> up (?r / 60)" by blast
  with that show thesis by (simp add: rate_for_def f64_from_u32_def requests_per_minute_def)
qed

text \<open>What a refill of \<open>n\<close> nanoseconds adds to \<open>t\<close> tokens, at \<open>R\<close> tokens a minute.\<close>

definition gain :: "rat \<Rightarrow> nat \<Rightarrow> rat" where
  "gain R n = secs n * (R / 60) * (1 + 1 / 2 ^ 50) + (R + 1) / 2 ^ 53"

lemma refill_bound:
  fixes t R \<rho> e d p q :: rat
  assumes "0 \<le> t" "t \<le> R" "R \<le> 2 ^ 32" "0 \<le> \<rho>" "\<rho> \<le> up (R / 60)" "0 \<le> d" "d \<le> 2 ^ 34"
    and "0 \<le> e" "e \<le> d * (1 + 1 / 2 ^ 51) + 1 / 2 ^ 198"
    and "p \<le> up (e * \<rho>)" and "q \<le> up (t + p)"
  shows "q \<le> t + d * (R / 60) * (1 + 1 / 2 ^ 50) + (R + 1) / 2 ^ 53"
proof -
  have R: "0 \<le> R" using assms by simp
  have "e * \<rho> \<le> (d * (1 + 1 / 2 ^ 51) + 1 / 2 ^ 198) * up (R / 60)"
    using assms by (intro mult_mono) simp_all
  also have "\<dots> = d * R * ((1 + 1 / 2 ^ 51) * (1 + 1 / 2 ^ 53) / 60) + d * ((1 + 1 / 2 ^ 51) / 2 ^ 200) +
      R * ((1 + 1 / 2 ^ 53) / 60 / 2 ^ 198) + 1 / 2 ^ 398"
    by (simp add: up_def field_simps)
  finally have "e * \<rho> \<le> \<dots>" .
  then have e\<rho>: "e * \<rho> \<le> d * R * ((1 + 1 / 2 ^ 51) * (1 + 1 / 2 ^ 53) / 60) + 1 / 2 ^ 160"
    using assms(3,7) R by (simp add: field_simps)
  have dR: "0 \<le> d * R" using R assms(6) by simp
  have "up (e * \<rho>) \<le> d * R * ((1 + 1 / 2 ^ 51) * (1 + 1 / 2 ^ 53) ^ 2 / 60) + 1 / 2 ^ 150"
    using e\<rho> by (simp add: up_def field_simps)
  with assms(10) have "p \<le> d * R * ((1 + 1 / 2 ^ 51) * (1 + 1 / 2 ^ 53) ^ 2 / 60) + 1 / 2 ^ 150" by simp
  then have "up (t + p) \<le> t + t / 2 ^ 53 + d * R * ((1 + 1 / 2 ^ 51) * (1 + 1 / 2 ^ 53) ^ 3 / 60) + 1 / 2 ^ 140"
    by (simp add: up_def field_simps power3_eq_cube power2_eq_square)
  with assms(11) assms(2) dR show ?thesis by (simp add: field_simps power3_eq_cube power2_eq_square)
qed

text \<open>A bucket of a route category with \<open>t\<close> tokens.\<close>

definition bucket_holds :: "rate_limit_config \<Rightarrow> route_category \<Rightarrow> token_bucket \<Rightarrow> rat \<Rightarrow> bool" where
  "bucket_holds cfg category b t \<longleftrightarrow> tb_tokens b = Fin t \<and> 0 \<le> t \<and> t \<le> requests_per_minute cfg category \<and>
    tb_max_tokens b = Fin (requests_per_minute cfg category) \<and> tb_refill_rate b = rate_for cfg category"

lemma bucket_new_holds:
  "bucket_holds cfg category (bucket_new (rpm_for_category cfg category) (rate_for cfg category) now)
    (requests_per_minute cfg category)"
  using requests_per_minute_bounds(1) [of cfg category]
  by (simp add: bucket_holds_def bucket_new_def f64_from_u32_def requests_per_minute_def)

lemma gain_zero: "0 \<le> R \<Longrightarrow> 0 \<le> gain R n"
  by (simp add: gain_def secs_def)

lemma refill_holds:
  assumes b: "bucket_holds cfg category b t" and n: "duration_since now (tb_last_refill b) < 2 ^ 63"
  obtains t' where "bucket_holds cfg category (refill now b) t'"
    and "tb_last_refill (refill now b) \<in> {tb_last_refill b, max now (tb_last_refill b)}"
    and "t' \<le> t + gain (requests_per_minute cfg category)
      (duration_since (tb_last_refill (refill now b)) (tb_last_refill b))"
proof -
  let ?R = "requests_per_minute cfg category" and ?n = "duration_since now (tb_last_refill b)"
  have t: "0 \<le> t" "t \<le> ?R" "?R \<le> 2 ^ 32"
    using b requests_per_minute_bounds(2) by (simp_all add: bucket_holds_def)
  obtain e where e: "as_secs_f64 ?n = Fin e" "0 \<le> e" "e \<le> secs ?n * (1 + 1 / 2 ^ 51) + 1 / 2 ^ 198"
    by (rule as_secs_f64_up [OF n])
  show thesis
  proof (cases "0 < e")
    case False
    with e have "refill now b = b" by (simp add: refill_def Let_def flt_def)
    with that [of t] b gain_zero [of ?R] t show thesis by simp
  next
    case True
    then have pos: "\<not> e \<le> 0" by simp
    have "0 < ?n"
    proof (rule ccontr)
      assume "\<not> 0 < ?n"
      then have "as_secs_f64 ?n = Fin 0" by (simp add: as_secs_f64_def rnd_def)
      with e(1) True show False by simp
    qed
    then have later: "tb_last_refill b < now" by (simp add: duration_since_def)
    obtain \<rho> where \<rho>: "rate_for cfg category = Fin \<rho>" "0 \<le> \<rho>" "\<rho> \<le> up (?R / 60)"
      by (rule rate_for_up)
    have "of_nat ?n \<le> (of_nat (2 ^ 63) :: rat)" using n by (subst of_nat_le_iff) simp
    then have d: "0 \<le> secs ?n" "secs ?n \<le> 2 ^ 34" by (simp_all add: secs_def field_simps)
    have "e \<le> 2 ^ 36" using e(3) d(2) by simp
    moreover have "\<rho> \<le> 2 ^ 33" using \<rho>(3) t(3) by (simp add: up_def)
    ultimately have "e * \<rho> \<le> 2 ^ 36 * 2 ^ 33" using e(2) \<rho>(2) by (intro mult_mono) simp_all
    also have "\<dots> \<le> 2 ^ 200" by simp
    finally obtain p where p: "rnd (e * \<rho>) = Fin p" "0 \<le> p" "p \<le> up (e * \<rho>)"
      using rnd_up [of "e * \<rho>"] e(2) \<rho>(2) by (metis mult_nonneg_nonneg)
    have "p \<le> 2 ^ 100" using p(3) \<open>e * \<rho> \<le> 2 ^ 36 * 2 ^ 33\<close> by (simp add: up_def)
    with t p(2) have "0 \<le> t + p" "t + p \<le> 2 ^ 200" by simp_all
    then obtain q where q: "rnd (t + p) = Fin q" "0 \<le> q" "q \<le> up (t + p)" by (rule rnd_up)
    have "refill now b = b\<lparr>tb_tokens := Fin (min q ?R), tb_last_refill := now\<rparr>"
      using b e(1) pos p(1) q(1) \<rho>(1) by (simp add: refill_def Let_def flt_def bucket_holds_def fmin_def min_def)
    moreover have "q \<le> t + gain ?R ?n"
      using refill_bound [OF t \<rho>(2,3) d e(2,3) p(3) q(3)] by (simp add: gain_def)
    ultimately show thesis
      using that [of "min q ?R"] b q(2) t later by (simp add: bucket_holds_def)
  qed
qed

lemma try_consume_holds:
  assumes b: "bucket_holds cfg category b t" and n: "duration_since now (tb_last_refill b) < 2 ^ 63"
    and run: "try_consume now b = (allowed, b')"
  obtains t' where "bucket_holds cfg category b' t'"
    and "tb_last_refill b' \<in> {tb_last_refill b, max now (tb_last_refill b)}"
    and "of_bool allowed + t' \<le> t + gain (requests_per_minute cfg category)
      (duration_since (tb_last_refill b') (tb_last_refill b)) + (requests_per_minute cfg category + 1) / 2 ^ 53"
proof -
  let ?R = "requests_per_minute cfg category"
  obtain t1 where t1: "bucket_holds cfg category (refill now b) t1"
    "tb_last_refill (refill now b) \<in> {tb_last_refill b, max now (tb_last_refill b)}"
    "t1 \<le> t + gain ?R (duration_since (tb_last_refill (refill now b)) (tb_last_refill b))"
    by (rule refill_holds [OF b n])
  have R: "0 \<le> t1" "t1 \<le> ?R" "?R \<le> 2 ^ 32"
    using t1(1) requests_per_minute_bounds(2) by (simp_all add: bucket_holds_def)
  show thesis
  proof (cases "1 \<le> t1")
    case False
    with run t1(1) have "allowed = False" "b' = refill now b"
      by (auto simp: try_consume_def Let_def bucket_holds_def)
    moreover have "0 \<le> (?R + 1) / 2 ^ 53" using R by simp
    with t1(3) have "t1 \<le> t + gain ?R (duration_since (tb_last_refill (refill now b)) (tb_last_refill b)) + (?R + 1) / 2 ^ 53"
      by linarith
    ultimately show thesis using that [of t1] t1(1,2) by simp
  next
    case True
    with R have "0 \<le> t1 - 1" "t1 - 1 \<le> 2 ^ 200" by simp_all
    then obtain y where y: "rnd (t1 - 1) = Fin y" "0 \<le> y" "y \<le> up (t1 - 1)" by (rule rnd_up)
    with True run t1(1) have out: "allowed = True" "b' = (refill now b)\<lparr>tb_tokens := Fin y\<rparr>"
      by (auto simp: try_consume_def Let_def bucket_holds_def fsub_def)
    have le: "1 + y \<le> t1 + (?R + 1) / 2 ^ 53" using y(3) R by (simp add: up_def field_simps)
    moreover have "(?R + 1) / 2 ^ 53 \<le> 1" using R by simp
    ultimately have "y \<le> ?R" using R by linarith
    with out t1(1) y(2) have "bucket_holds cfg category b' y" by (simp add: bucket_holds_def)
    with that [of y] out t1(2,3) le show thesis by simp
  qed
qed

section \<open>Histories of the limiter\<close>

text \<open>A call has a key and the two readings of the clock.\<close>

type_synonym limiter_call = "client_route \<times> time \<times> time"

fun allowed_calls :: "rate_limit_config \<Rightarrow> client_route \<Rightarrow> limiter_call list \<Rightarrow> buckets \<Rightarrow> nat" where
  "allowed_calls cfg k [] bs = 0"
| "allowed_calls cfg k ((k', now, created) # cs) bs =
    (case check cfg now created k' bs of (r, bs') \<Rightarrow> of_bool (k' = k \<and> r = Ok ()) + allowed_calls cfg k cs bs')"

text \<open>
  The clock: calls enter the lock in the order of the list; the second reading is under the lock, so it is not
  before any first reading of the call itself or of a call that held the lock earlier.  First readings are in no
  particular order.
\<close>

fun clock_ok :: "time \<Rightarrow> time \<Rightarrow> time \<Rightarrow> limiter_call list \<Rightarrow> bool" where
  "clock_ok t0 t1 m [] = True"
| "clock_ok t0 t1 m ((_, now, created) # cs) =
    (t0 \<le> now \<and> max m now \<le> created \<and> created \<le> t1 \<and> clock_ok t0 t1 (max m now) cs)"

definition budget :: "rat \<Rightarrow> time \<Rightarrow> time \<Rightarrow> nat \<Rightarrow> rat" where
  "budget R t0 t n =
    R + of_int (t - t0) / 1000000000 * (R / 60) * (1 + 1 / 2 ^ 50) + of_nat n * ((R + 1) / 2 ^ 52)"

definition limiter_inv :: "rate_limit_config \<Rightarrow> client_route \<Rightarrow> time \<Rightarrow> time \<Rightarrow> time \<Rightarrow> nat \<Rightarrow> nat \<Rightarrow> buckets \<Rightarrow> bool" where
  "limiter_inv cfg k t0 t1 m n a bs \<longleftrightarrow> distinct (map fst bs) \<and> t0 \<le> m \<and>
    (case map_of bs k of
       Some b \<Rightarrow> t0 \<le> tb_last_refill b \<and> tb_last_refill b \<le> t1 \<and>
         (\<exists>t. bucket_holds cfg (snd k) b t \<and>
           of_nat a + t \<le> budget (requests_per_minute cfg (snd k)) t0 (tb_last_refill b) n)
     | None \<Rightarrow> of_nat a + requests_per_minute cfg (snd k) \<le> budget (requests_per_minute cfg (snd k)) t0 m n)"

lemma budget_mono: "0 \<le> R \<Longrightarrow> t \<le> t' \<Longrightarrow> n \<le> n' \<Longrightarrow> budget R t0 t n \<le> budget R t0 t' n'"
  unfolding budget_def by (intro add_mono mult_right_mono divide_right_mono) simp_all

lemma budget_step:
  assumes "0 \<le> R" and "t \<le> t'"
  shows "budget R t0 t n + gain R (duration_since t' t) + (R + 1) / 2 ^ 53 = budget R t0 t' (Suc n)"
proof -
  have "of_int (t' - t0) = (of_int (t - t0) + of_int (t' - t) :: rat)" by simp
  then have later: "of_int (t' - t0) / 1000000000 = of_int (t - t0) / 1000000000 + secs (duration_since t' t)"
    using assms(2) by (simp only: secs_def duration_since_def add_divide_distrib) simp
  have sum: "R + d * r * k + n' * e + (x * r * k + f) + f = R + (d + x) * r * k + (1 + n') * e" if "e = f + f"
    for d r k n' e x f :: rat
    by (simp add: that algebra_simps)
  have "(R + 1) / 2 ^ 52 = (R + 1) / 2 ^ 53 + (R + 1) / 2 ^ 53" by simp
  then show ?thesis unfolding budget_def gain_def later of_nat_Suc by (rule sum)
qed

lemma map_of_evict:
  assumes "distinct (map fst bs)"
  shows "map_of (evict now bs) k = (case map_of bs k of
      Some b \<Rightarrow> if length bs \<le> LIMITER_EVICTION_THRESHOLD \<or> duration_since now (tb_last_refill b) < LIMITER_EVICTION_AGE then Some b else None
    | None \<Rightarrow> None)"
proof -
  have "map_of (filter (\<lambda>(_, b). Q b) xs) k = (case map_of xs k of Some b \<Rightarrow> if Q b then Some b else None | None \<Rightarrow> None)"
    if "distinct (map fst xs)" for Q and xs :: buckets
    using that by (induction xs) (auto simp: map_of_eq_None_iff split: option.splits)
  then show ?thesis using assms by (auto simp: evict_def split: option.splits)
qed

lemma distinct_evict: "distinct (map fst bs) \<Longrightarrow> distinct (map fst (evict now bs))"
  by (simp add: evict_def distinct_map_filter)

text \<open>Eviction costs nothing: a bucket that has not been touched for two minutes would be full again.\<close>

lemma evict_inv:
  assumes "limiter_inv cfg k t0 t1 m n a bs"
  shows "limiter_inv cfg k t0 t1 (max m now) n a (evict now bs)"
proof -
  let ?R = "requests_per_minute cfg (snd k)"
  note R = requests_per_minute_bounds [of cfg "snd k"]
  have d: "distinct (map fst bs)" "t0 \<le> m" using assms by (simp_all add: limiter_inv_def)
  show ?thesis
  proof (cases "map_of bs k")
    case None
    with assms budget_mono [OF R(1), of m "max m now" n n t0] show ?thesis
      by (simp add: limiter_inv_def map_of_evict distinct_evict le_max_iff_disj)
  next
    case (Some b)
    from assms Some obtain t where b: "t0 \<le> tb_last_refill b" "tb_last_refill b \<le> t1" "bucket_holds cfg (snd k) b t"
      "of_nat a + t \<le> budget ?R t0 (tb_last_refill b) n" by (auto simp: limiter_inv_def)
    show ?thesis
    proof (cases "length bs \<le> LIMITER_EVICTION_THRESHOLD \<or> duration_since now (tb_last_refill b) < LIMITER_EVICTION_AGE")
      case True
      with Some b d show ?thesis by (auto simp: limiter_inv_def map_of_evict distinct_evict le_max_iff_disj)
    next
      case False
      then have late: "tb_last_refill b + 120000000000 \<le> now"
        unfolding duration_since_def LIMITER_EVICTION_AGE_def by linarith
      have "budget ?R t0 (tb_last_refill b) n + ?R \<le> budget ?R t0 (tb_last_refill b + 120000000000) n"
        using R(1) by (simp add: budget_def field_simps)
      also have "\<dots> \<le> budget ?R t0 (max m now) n" using late by (intro budget_mono R(1)) simp_all
      finally have "of_nat a + ?R \<le> budget ?R t0 (max m now) n" using b(3,4) by (simp add: bucket_holds_def)
      with Some False d show ?thesis by (simp add: limiter_inv_def map_of_evict distinct_evict le_max_iff_disj)
    qed
  qed
qed

lemma check_inv:
  assumes inv: "limiter_inv cfg k t0 t1 m n a bs" and clock: "t0 \<le> now" "max m now \<le> created" "created \<le> t1" "t1 - t0 < 2 ^ 63"
    and run: "check cfg now created k' bs = (r, bs')"
  shows "limiter_inv cfg k t0 t1 (max m now) (Suc n) (a + of_bool (k' = k \<and> r = Ok ())) bs'"
proof -
  let ?R = "requests_per_minute cfg (snd k)" and ?bs = "evict now bs"
  note R = requests_per_minute_bounds [of cfg "snd k"]
  from evict_inv [OF inv] have ev: "limiter_inv cfg k t0 t1 (max m now) n a ?bs" .
  then have d: "distinct (map fst ?bs)" "t0 \<le> max m now" by (simp_all add: limiter_inv_def)
  obtain ok b' where c: "try_consume now (entry_or_insert cfg created k' ?bs) = (ok, b')" by fastforce
  with run have r: "(r = Ok ()) = ok" and bs': "bs' = AList.update k' b' ?bs"
    by (auto simp: check_def Let_def split: if_splits)
  have d': "distinct (map fst bs')" unfolding bs' by (rule distinct_update [OF d(1)])
  show ?thesis
  proof (cases "k' = k")
    case False
    then have "map_of bs' k = map_of ?bs k" by (simp add: bs' update_conv)
    moreover have more: "x \<le> budget ?R t0 t n \<Longrightarrow> x \<le> budget ?R t0 t (Suc n)" for x t
      using budget_mono [OF R(1) order_refl le_SucI [OF order_refl]] by (rule order_trans [rotated])
    ultimately show ?thesis
      using ev d' False by (cases "map_of ?bs k") (auto simp: limiter_inv_def intro: more)
  next
    case True
    let ?b = "entry_or_insert cfg created k ?bs"
    obtain t where b: "bucket_holds cfg (snd k) ?b t" "t0 \<le> tb_last_refill ?b" "tb_last_refill ?b \<le> t1"
      "of_nat a + t \<le> budget ?R t0 (tb_last_refill ?b) n"
    proof (cases "map_of ?bs k")
      case None
      then have new: "?b = bucket_new (rpm_for_category cfg (snd k)) (rate_for cfg (snd k)) created"
        by (simp add: entry_or_insert_def)
      have "of_nat a + ?R \<le> budget ?R t0 (max m now) n" using ev None by (simp add: limiter_inv_def)
      also have "\<dots> \<le> budget ?R t0 created n" by (intro budget_mono R(1) clock(2)) simp
      finally show thesis
        using that [of ?R] bucket_new_holds [of cfg "snd k" created] clock d(2) by (simp add: new bucket_new_def)
    next
      case (Some b)
      with ev that show thesis by (auto simp: limiter_inv_def entry_or_insert_def)
    qed
    have short: "duration_since now (tb_last_refill ?b) < 2 ^ 63"
    proof -
      have "now - tb_last_refill ?b < 2 ^ 63" using b(2) clock by simp
      then have "nat (now - tb_last_refill ?b) < nat (2 ^ 63)" by (simp only: nat_mono_iff zero_less_power zero_less_numeral)
      then show ?thesis by (simp add: duration_since_def)
    qed
    from c True have c': "try_consume now ?b = (ok, b')" by simp
    obtain t' where t': "bucket_holds cfg (snd k) b' t'"
      "tb_last_refill b' \<in> {tb_last_refill ?b, max now (tb_last_refill ?b)}"
      "of_bool ok + t' \<le> t + gain ?R (duration_since (tb_last_refill b') (tb_last_refill ?b)) + (?R + 1) / 2 ^ 53"
      by (rule try_consume_holds [OF b(1) short c'])
    have last: "tb_last_refill ?b \<le> tb_last_refill b'" "tb_last_refill b' \<le> t1"
      using t'(2) b(3) clock by auto
    have "of_nat (a + of_bool ok) + t' \<le> budget ?R t0 (tb_last_refill b') (Suc n)"
      using t'(3) b(4) budget_step [OF R(1) last(1), of t0 n] by simp
    moreover have "map_of bs' k = Some b'" by (simp add: bs' True update_conv)
    ultimately show ?thesis
      using True d' d(2) t'(1) last b(2) r by (auto simp: limiter_inv_def)
  qed
qed

lemma allowed_calls_bound:
  assumes "limiter_inv cfg k t0 t1 m n a bs" and "clock_ok t0 t1 m cs" and "m \<le> t1" and "t1 - t0 < 2 ^ 63"
  shows "of_nat (a + allowed_calls cfg k cs bs) \<le> budget (requests_per_minute cfg (snd k)) t0 t1 (n + length cs)"
  using assms
proof (induction cs arbitrary: m n a bs)
  case Nil
  note R = requests_per_minute_bounds [of cfg "snd k"]
  have mono: "t \<le> t1 \<Longrightarrow> x \<le> budget (requests_per_minute cfg (snd k)) t0 t n \<Longrightarrow>
      x \<le> budget (requests_per_minute cfg (snd k)) t0 t1 n" for t x
    using budget_mono [OF R(1) _ order_refl, of t t1 t0 n] by (blast intro: order_trans)
  show ?case
  proof (cases "map_of bs k")
    case None
    with Nil R(1) have "of_nat a \<le> budget (requests_per_minute cfg (snd k)) t0 m n" by (simp add: limiter_inv_def)
    with mono Nil(3) show ?thesis by simp
  next
    case (Some b)
    with Nil(1) obtain t where "0 \<le> t" "tb_last_refill b \<le> t1"
      "of_nat a + t \<le> budget (requests_per_minute cfg (snd k)) t0 (tb_last_refill b) n"
      by (auto simp: limiter_inv_def bucket_holds_def)
    then have "of_nat a \<le> budget (requests_per_minute cfg (snd k)) t0 (tb_last_refill b) n" by simp
    with mono \<open>tb_last_refill b \<le> t1\<close> show ?thesis by simp
  qed
next
  case (Cons c cs)
  obtain k' now created where c: "c = (k', now, created)" by (cases c)
  obtain r bs' where run: "check cfg now created k' bs = (r, bs')" by fastforce
  from Cons.prems c have clock: "t0 \<le> now" "max m now \<le> created" "created \<le> t1" "clock_ok t0 t1 (max m now) cs" by auto
  from check_inv [OF Cons.prems(1) clock(1-3) Cons.prems(4) run]
  have "limiter_inv cfg k t0 t1 (max m now) (Suc n) (a + of_bool (k' = k \<and> r = Ok ())) bs'" .
  from Cons.IH [OF this clock(4) _ Cons.prems(4)] clock(2,3) show ?case
    by (simp add: c run add.assoc)
qed

section \<open>The property\<close>

lemma limiter_bound:
  assumes "clock_ok t0 t1 t0 cs" and "t0 \<le> t1" and "t1 - t0 < 2 ^ 63"
  shows "of_nat (allowed_calls cfg k cs []) \<le> requests_per_minute cfg (snd k) +
    of_int (t1 - t0) / 1000000000 * (requests_per_minute cfg (snd k) / 60) * (1 + 1 / 2 ^ 50) +
    of_nat (length cs) * ((requests_per_minute cfg (snd k) + 1) / 2 ^ 52)"
proof -
  have "limiter_inv cfg k t0 t1 t0 0 0 []" by (simp add: limiter_inv_def budget_def)
  from allowed_calls_bound [OF this assms] show ?thesis by (simp add: budget_def)
qed

text \<open>C15. From an empty limiter, whatever clients call in whatever order, a client is let through in a route category,
between \<open>t0\<close> and \<open>t1\<close>, at most as often as the capacity of its bucket and the refill of that time allow.  The
terms \<open>1 / 2 ^ 50\<close> and \<open>1 / 2 ^ 52\<close> are all that the rounding of \<open>f64\<close> can add, and the eviction of stale buckets,
after which a client starts with a full one, adds nothing.\<close>

theorem rate_limit_bound:
  assumes "clock_ok t0 t1 t0 cs" and "t0 \<le> t1" and "t1 - t0 < 2 ^ 63"
  shows "of_nat (allowed_calls cfg k cs []) \<le> requests_per_minute cfg (snd k) +
    of_int (t1 - t0) / 1000000000 * (requests_per_minute cfg (snd k) / 60) * (1 + 1 / 2 ^ 50) +
    of_nat (length cs) * ((requests_per_minute cfg (snd k) + 1) / 2 ^ 52)"
  using assms by (rule limiter_bound)

definition sample_limits :: rate_limit_config where
  "sample_limits = default_rate_limits\<lparr>auth_rpm := 1\<rparr>"

theorem rate_limit_bound_witness:
  "allowed_calls sample_limits (KeyIpAddr ''a'', RcAuth) [((KeyIpAddr ''a'', RcAuth), 0, 0), ((KeyIpAddr ''a'', RcAuth), 0, 0)] [] = 1 \<and>
   of_nat (allowed_calls sample_limits (KeyIpAddr ''a'', RcAuth) [((KeyIpAddr ''a'', RcAuth), 0, 0), ((KeyIpAddr ''a'', RcAuth), 0, 0)] [])
     \<le> (1 :: rat) + 2 * (2 / 2 ^ 52)"
proof
  let ?k = "(KeyIpAddr ''a'', RcAuth)"
  have rpm: "requests_per_minute sample_limits RcAuth = 1"
    by (simp add: requests_per_minute_def sample_limits_def default_rate_limits_def)
  have "clock_ok 0 0 0 [(?k, 0, 0), (?k, 0, 0)]" by simp
  from rate_limit_bound [OF this, of sample_limits ?k]
  show "of_nat (allowed_calls sample_limits ?k [(?k, 0, 0), (?k, 0, 0)] []) \<le> (1 :: rat) + 2 * (2 / 2 ^ 52)"
    by (simp add: rpm del: allowed_calls.simps)
  show "allowed_calls sample_limits ?k [(?k, 0, 0), (?k, 0, 0)] [] = 1"
    by (simp add: check_def Let_def evict_def LIMITER_EVICTION_THRESHOLD_def entry_or_insert_def try_consume_def refill_def
      duration_since_def as_secs_f64_def rnd_def flt_def fsub_def bucket_new_def f64_from_u32_def sample_limits_def
      default_rate_limits_def)
qed

end
