(* ===== verification/Spec2Isabelle.thy ===== *)
theory Spec2Isabelle
  imports Import_Correctness Export_Correctness Activity_Isolation Queue_Correctness Publication_Correctness
    Route_Reads_Correctness Outbox Authentication_Correctness Rate_Limit
begin

text \<open>
  Haiker: a verification development for its Rust back end (\<open>crates/app\<close>, \<open>crates/infrastructure\<close>, \<open>crates/api\<close>
  and the repository of route versions in \<open>crates/platform\<close>).

  The program.  A user uploads a GPX recording (an \<^emph>\<open>import\<close>); a worker parses and normalises it and commits an
  \<^emph>\<open>activity\<close> with its immutable \<^emph>\<open>recorded route\<close> and a first \<^emph>\<open>route version\<close>.  The owner lists, renames and deletes
  activities, divides them into \<^emph>\<open>legs\<close>, edits the route in a \<^emph>\<open>draft\<close> with undo and redo, publishes the draft as
  the next route version, and \<^emph>\<open>exports\<close> a version as a GPX file that a second worker writes.  The crate \<open>app\<close>
  holds aggregates, commands and repository interfaces; \<open>infrastructure\<close> implements the interfaces over
  PostgreSQL and an object store; \<open>api\<close> holds the HTTP handlers.  Imports and exports are handed to workers by a
  job queue in the database; events go through a transactional outbox.

  How it is modelled.  Structs are records, enums datatypes, integers words of their width, times are integers,
  strings are lists of bytes (\<open>Rust_String\<close>: UTF-8, trimming, splitting at bytes with the panic it can raise),
  \<open>f64\<close> is exact IEEE-754 binary64 (\<open>F64\<close>: correctly rounded operations on a sign, mantissa and exponent, with
  NaN and the infinities; the functions of libm are parameters).  A \<open>Result\<close> is \<open>Ok\<close> or \<open>Err\<close> (\<open>Haiker_Prelude\<close>),
  \<open>?\<close> is \<open>bind\<close>.  A database (\<open>Sql\<close>) is its tables and a schedule of faults: each statement takes the next entry
  and fails with it or runs, constraint violations change nothing, and a transaction that fails leaves the
  tables as they were.  Theorems that speak of any \<open>db\<close> thus cover every pattern of failing statements.
  Concurrent requests are interleavings of statements; where a handler's statements must not be taken together
  the theorems say so (\<open>pg_concurrent_update_refused\<close>, \<open>fail_race_starts\<close>).  \<open>Step_Logic\<close> has the assertions
  \<open>ensures P m Q E\<close> about fallible steps that the longer handlers are verified with.

  The theories, in the order of the program's data flow, with what their lemmas show.

  \<^item> \<open>Route_Draft\<close> (\<open>app/route_editing\<close>: value objects, operations, draft).  The aggregate with its revision, its
    seven editing operations, undo and redo stacks and every precondition.  Every reachable draft is the replay of
    its operations; undo and redo are inverse; each operation meets its specification on every branch; a stale
    revision is refused.
  \<^item> \<open>Publication_Validation\<close> (\<open>validation.rs\<close>): which drafts pass, and that the errors are complete.
  \<^item> \<open>Draft_Persistence\<close> (\<open>repository.rs\<close>, \<open>route_editing_persistence.rs\<close>): the repository locale with an
    interpretation on an in-memory store and the PostgreSQL statements; lost updates are refused; two defects (a
    discarded draft cannot be stored, redo after a reload loses an edit) are theorems.
  \<^item> \<open>Draft_Api\<close> (\<open>api/route_editing.rs\<close>): all handlers; isolation of owners and the effect of a successful edit.
  \<^item> \<open>Gpx_Parser\<close> (\<open>gpx_parser.rs\<close>), \<open>Recorded_Activity\<close> (\<open>normalization.rs\<close>, \<open>recorded_activity/mod.rs\<close>),
    \<open>Gpx_Generator\<close> (\<open>gpx_generator.rs\<close>): the event machine with its limits, soundness and completeness,
    normalisation with exact counts, the preview, and the round trip of generated documents.
  \<^item> \<open>Import_Lifecycle\<close>, \<open>Import_Persistence\<close>, \<open>Import_Pipeline\<close>, \<open>Import_Commit\<close>, \<open>Import_Correctness\<close>
    (\<open>app/imports\<close>, \<open>import_*.rs\<close>): status machine, repository, commands, orchestrator, worker, clean-up and
    commit; runs follow the path and end, the commit is atomic, creation is idempotent, owners are isolated.
  \<^item> \<open>Base64_Cursor\<close>, \<open>Activity_Catalog\<close>, \<open>Catalog_Correctness\<close> (\<open>app/activity_catalog\<close>,
    \<open>activity_persistence.rs\<close>): titles, keyset pagination that shows each activity once, ownership, deletion.
  \<^item> \<open>Legs\<close>, \<open>Leg_Correctness\<close> (\<open>legs.rs\<close>, \<open>leg_*.rs\<close>): numbering of legs and the defect of reordering.
  \<^item> \<open>Route_Versioning\<close>, \<open>Publication_Commit\<close>, \<open>Publication_Correctness\<close> (\<open>app/route_versioning\<close>,
    \<open>publication_commit.rs\<close>): versions, their statistics and the publication, as a command over the interfaces and
    as the transaction of the back end, which refines it.
  \<^item> \<open>Route_Reads\<close>, \<open>Route_Reads_Correctness\<close>: queries and endpoints of recorded routes and versions.
  \<^item> \<open>Exports\<close>, \<open>Export_Correctness\<close> (\<open>app/exports\<close>, \<open>export_worker.rs\<close>, \<open>object_storage.rs\<close>): what is ready has
    been verified, status only moves forward, and a faultless run delivers.
  \<^item> \<open>Job_Queue\<close>, \<open>Queue_Correctness\<close> (\<open>job_queue.rs\<close>, \<open>worker_runtime.rs\<close>, \<open>backpressure.rs\<close>) and \<open>Outbox\<close>
    (\<open>outbox.rs\<close>): bounded attempts, and what a batch of events delivers.
  \<^item> \<open>Api_Error\<close>, \<open>Activity_Api\<close>, \<open>Activity_Isolation\<close>, \<open>Transfer_Api\<close> (\<open>api/error.rs\<close>, \<open>auth.rs\<close>,
    \<open>activities.rs\<close>, \<open>legs.rs\<close>, \<open>imports.rs\<close>, \<open>exports.rs\<close>): the handlers, their error mapping, and isolation.

  \<^item> \<open>Authentication\<close>, \<open>Authentication_Correctness\<close> (\<open>session.rs\<close>, \<open>auth_middleware.rs\<close>, \<open>oidc_state_store.rs\<close>,
    \<open>user_persistence.rs\<close>, \<open>auth_handlers.rs\<close>): only a login gives a session, a login state is used once and in time,
    and a session lasts until it expires or is revoked.

  \<^item> \<open>Rate_Limit\<close> (\<open>rate_limit.rs\<close>, the layers of \<open>api/main.rs\<close>): token buckets in \<open>f64\<close> bound the calls of a client,
    rounding included; the middleware as the application stacks it never limits (lemma \<open>serve_unlimited\<close>).

  Parameters.  JSON text, UUID and RFC 3339 syntax, SHA-256, Unicode lower-casing, XML tokenising and escaping,
  libm, the default hasher, the OIDC provider and the object store behind their interfaces, identifiers and the clock are arguments.  What
  a theorem needs of them is a named premise, which its witness discharges for a concrete function.

  Bounds and fuel.  Loops are structural recursions over lists or fuelled: following cursors (\<open>fetch_pages\<close>) has
  one step more than there are rows, and each page but the last is not empty, so this is enough; histories of the
  queue are shorter than \<open>2 ^ 30\<close> statements, so that retry counts do not wrap; the preview is of fewer than
  \<open>2 ^ 50\<close> points, below which indices are exact in \<open>f64\<close>.

  Not modelled.  Extraction of requests and serialisation of responses by axum; logging, metrics and tracing;
  configuration, start-up and shutdown, the timers and the semaphore of the workers; the OIDC client's HTTP; the
  wire protocols of PostgreSQL and S3; presigned URLs; the audit log beyond what the modelled commands write to it;
  the front end and the test support.  Simplifications of
  the database: a fault happens before its statement has an effect; microsecond rounding of time stamps, the NUL
  byte that TEXT refuses and the sign of a zero in JSON are left out; relations that statements name but no
  migration creates are modelled as the statements describe them; the activities table is modelled once for the
  commit and once for the catalog.
\<close>

end
